(* ===== verification/BBC_Prelude.thy ===== *)
theory BBC_Prelude
  imports Main "HOL-Library.Word" "HOL-Library.List_Lexorder"
begin

unbundle bit_operations_syntax

text \<open>
  Shared vocabulary of the development: the machine types of the C++ code, the result
  values its functions return, \<open>std::map\<close> as a key-sorted association list, and the
  generic lemmas on words, lists and maps that the component theories use.

  \<^item> \<open>std::uint16_t\<close>, \<open>std::uint32_t\<close>, \<open>std::uint64_t\<close> are words of that width;
    \<open>std::size_t\<close> is \<^typ>\<open>nat\<close>.
  \<^item> \<open>std::array<Byte, n>\<close>, \<open>std::vector<Byte>\<close> and \<open>std::span<const Byte>\<close> are byte
    lists; that an array has its length is part of the validity predicate of the value
    that contains it.
  \<^item> A result class that wraps \<open>std::variant<T, Error>\<close> is a sum with the error on
    the left.
\<close>

section \<open>Machine types\<close>

type_synonym byte = "8 word"
type_synonym bytes = "byte list"
type_synonym u16 = "16 word"
type_synonym u32 = "32 word"
type_synonym u64 = "64 word"

text \<open>\<open>std::numeric_limits<std::uint64_t>::max()\<close>.\<close>

abbreviation u64_max :: u64 where
  "u64_max \<equiv> - 1"

section \<open>Result values\<close>

text \<open>
  \<open>has_value()\<close>, \<open>value()\<close> and \<open>error()\<close> of the result classes. \<open>error()\<close> returns
  the enumerator \<open>none\<close> when the variant holds a value.
\<close>

fun has_value :: "'e + 'a \<Rightarrow> bool" where
  "has_value (Inr _) = True"
| "has_value (Inl _) = False"

definition result_error :: "'e \<Rightarrow> 'e + 'a \<Rightarrow> 'e" where
  "result_error no_error r = (case r of Inl e \<Rightarrow> e | Inr _ \<Rightarrow> no_error)"

lemma has_value_iff: "has_value r \<longleftrightarrow> (\<exists>v. r = Inr v)"
  by (cases r) auto

lemma result_error_simps [simp]:
  "result_error n (Inl e) = e"
  "result_error n (Inr v) = n"
  by (simp_all add: result_error_def)

section \<open>Rule collections\<close>

named_theorems byte_length \<open>lengths of encoded values\<close>
named_theorems field_read \<open>reading a field out of a concatenation of encoded fields\<close>
named_theorems field_join \<open>joining consecutive slices of a buffer\<close>
named_theorems word_overflow \<open>overflow guards of the code over unat\<close>

section \<open>Overflow guards\<close>

text \<open>
  The code guards an addition \<open>a + b\<close> by \<open>b > max - a\<close>. These are the arithmetical
  readings of the guard and of its negation.
\<close>

lemma unat_max [simp]: "unat (- 1 :: 'w::len word) = 2 ^ LENGTH('w) - 1"
  by (simp add: unsigned_minus_1_eq_mask mask_eq_exp_minus_1)

lemma unat_u64_bound: "unat (a :: u64) < 2 ^ 64"
  using unsigned_less [of a, where ?'a = nat] by simp

lemma unat_max_minus:
  fixes a :: "'w::len word"
  shows "unat (- 1 - a) = 2 ^ LENGTH('w) - 1 - unat a"
proof -
  have "a \<le> - 1" by simp
  then have "unat (- 1 - a) = unat (- 1 :: 'w word) - unat a"
    by (rule unat_sub)
  then show ?thesis by simp
qed

lemma add_guard_iff [word_overflow]:
  fixes a b :: "'w::len word"
  shows "- 1 - a < b \<longleftrightarrow> 2 ^ LENGTH('w) \<le> unat a + unat b"
proof -
  have "unat a < 2 ^ LENGTH('w)" by (rule unsigned_less)
  then show ?thesis
    unfolding word_less_nat_alt unat_max_minus by linarith
qed

lemma unat_add_guarded:
  fixes a b :: "'w::len word"
  assumes "\<not> - 1 - a < b"
  shows "unat (a + b) = unat a + unat b"
  using assms by (simp add: add_guard_iff unat_word_ariths)

lemma unat_add_bounded:
  fixes a b :: "'w::len word"
  assumes "unat a + unat b < 2 ^ LENGTH('w)"
  shows "unat (a + b) = unat a + unat b"
  using assms by (simp add: unat_word_ariths)

lemma unat_Suc_not_max:
  fixes a :: "'w::len word"
  assumes "a \<noteq> - 1"
  shows "unat (a + 1) = Suc (unat a)"
proof -
  have "1 + a \<noteq> 0" using assms by (metis add_eq_0_iff)
  from unatSuc [OF this] show ?thesis by (simp add: add.commute)
qed

lemma unat_lt_max:
  fixes a :: "'w::len word"
  assumes "a \<noteq> - 1"
  shows "unat a < 2 ^ LENGTH('w) - 1"
proof -
  have "a < - 1" using assms by (simp add: order_le_neq_trans)
  then show ?thesis by (simp add: word_less_nat_alt)
qed

section \<open>\<open>std::map\<close>\<close>

text \<open>
  A \<open>std::map\<close> iterates over its keys in increasing order, so it is a list of pairs with
  strictly increasing keys; \<open>find\<close> is \<^const>\<open>map_of\<close>, and \<open>m[k] = v\<close> or
  \<open>m.emplace(k, v)\<close> on an absent key is \<open>std_map_set\<close>.
\<close>

type_synonym ('k, 'v) std_map = "('k \<times> 'v) list"

fun std_map_set :: "'k::linorder \<Rightarrow> 'v \<Rightarrow> ('k, 'v) std_map \<Rightarrow> ('k, 'v) std_map" where
  "std_map_set k v [] = [(k, v)]"
| "std_map_set k v ((a, b) # m) =
     (if k < a then (k, v) # (a, b) # m
      else if k = a then (k, v) # m
      else (a, b) # std_map_set k v m)"

definition std_map_ok :: "('k::linorder, 'v) std_map \<Rightarrow> bool" where
  "std_map_ok m \<longleftrightarrow> sorted_wrt (<) (map fst m)"

lemma fst_std_map_set: "fst ` set (std_map_set k v m) = insert k (fst ` set m)"
  by (induction k v m rule: std_map_set.induct) auto

lemma std_map_set_in: "(k, v) \<in> set (std_map_set k v m)"
  by (induction k v m rule: std_map_set.induct) auto

lemma map_of_std_map_set:
  "std_map_ok m \<Longrightarrow> map_of (std_map_set k v m) = (map_of m)(k \<mapsto> v)"
  by (induction k v m rule: std_map_set.induct)
    (auto simp: std_map_ok_def fun_eq_iff map_of_eq_None_iff)

lemma std_map_ok_set: "std_map_ok m \<Longrightarrow> std_map_ok (std_map_set k v m)"
proof (induction k v m rule: std_map_set.induct)
  case (2 k v a b m)
  have "\<forall>x \<in> fst ` set (std_map_set k v m). a < x" if "\<not> k < a" "k \<noteq> a"
    using 2(2) that by (auto simp: fst_std_map_set std_map_ok_def)
  then show ?case using 2 by (auto simp: std_map_ok_def)
qed (simp add: std_map_ok_def)

lemma std_map_ok_Nil [simp]: "std_map_ok []"
  by (simp add: std_map_ok_def)

lemma std_map_ok_distinct: "std_map_ok m \<Longrightarrow> distinct (map fst m)"
  unfolding std_map_ok_def
  by (induction m) (auto simp: order_less_imp_not_eq)

text \<open>
  What a client of a finite map relies on: lookup after update, the invariant, and that
  iterating over the map visits each binding once. Weighing every binding with a
  number and adding up gives a total; the client's law is how the total moves with an
  update.
\<close>

locale finite_map =
  fixes lookup :: "'m \<Rightarrow> 'k \<Rightarrow> 'v option"
    and update :: "'k \<Rightarrow> 'v \<Rightarrow> 'm \<Rightarrow> 'm"
    and entries :: "'m \<Rightarrow> ('k \<times> 'v) list"
    and invar :: "'m \<Rightarrow> bool"
  assumes lookup_update: "invar m \<Longrightarrow> lookup (update k v m) = (lookup m)(k \<mapsto> v)"
    and invar_update: "invar m \<Longrightarrow> invar (update k v m)"
    and lookup_entries: "invar m \<Longrightarrow> map_of (entries m) = lookup m"
    and distinct_entries: "invar m \<Longrightarrow> distinct (map fst (entries m))"
begin

definition total :: "('v \<Rightarrow> nat) \<Rightarrow> 'm \<Rightarrow> nat" where
  "total w m = sum_list (map (w \<circ> snd) (entries m))"

lemma total_eq_sum:
  assumes "invar m"
  shows "total w m = (\<Sum>k\<in>dom (lookup m). w (the (lookup m k)))"
proof -
  let ?xs = "entries m"
  have d: "distinct (map fst ?xs)" using assms by (rule distinct_entries)
  have "(\<Sum>k\<in>dom (map_of ?xs). w (the (map_of ?xs k))) = (\<Sum>p\<in>set ?xs. w (snd p))"
  proof (rule sum.reindex_cong [where l = fst])
    show "inj_on fst (set ?xs)" using d by (simp add: distinct_map)
    show "dom (map_of ?xs) = fst ` set ?xs" by (rule dom_map_of_conv_image_fst)
    show "w (the (map_of ?xs (fst p))) = w (snd p)" if "p \<in> set ?xs" for p
      using d that by (cases p) (simp add: map_of_is_SomeI)
  qed
  also have "\<dots> = total w m"
    using d by (simp add: total_def distinct_map sum_list_distinct_conv_sum_set)
  finally show ?thesis using assms by (simp add: lookup_entries)
qed

lemma finite_dom_lookup: "invar m \<Longrightarrow> finite (dom (lookup m))"
  by (metis lookup_entries finite_dom_map_of)

lemma total_update:
  assumes "invar m"
  shows "total w (update k v m) + (case lookup m k of None \<Rightarrow> 0 | Some u \<Rightarrow> w u)
    = total w m + w v"
proof -
  let ?D = "dom (lookup m)" and ?f = "\<lambda>x. w (the (lookup m x))"
  have fin: "finite ?D" using assms by (rule finite_dom_lookup)
  have "total w (update k v m) = (\<Sum>x\<in>insert k ?D. w (the (((lookup m)(k \<mapsto> v)) x)))"
    using assms by (simp add: total_eq_sum lookup_update invar_update)
  also have "\<dots> = w v + sum ?f (?D - {k})"
    using fin by (subst sum.insert_remove) (auto intro: sum.cong)
  finally have 1: "total w (update k v m) = w v + sum ?f (?D - {k})" .
  have 2: "total w m = (case lookup m k of None \<Rightarrow> 0 | Some u \<Rightarrow> w u) + sum ?f (?D - {k})"
  proof (cases "lookup m k")
    case None
    then have "k \<notin> ?D" by auto
    then show ?thesis using assms None by (simp add: total_eq_sum)
  next
    case (Some u)
    then have "k \<in> ?D" by auto
    then have "sum ?f ?D = ?f k + sum ?f (?D - {k})"
      using fin by (simp add: sum.remove)
    then show ?thesis using assms Some by (simp add: total_eq_sum)
  qed
  from 1 2 show ?thesis by simp
qed

lemma total_ge:
  assumes "invar m" and "lookup m k = Some v"
  shows "w v \<le> total w m"
proof -
  have "w (the (lookup m k)) \<le> (\<Sum>x\<in>dom (lookup m). w (the (lookup m x)))"
    using assms by (intro member_le_sum) (auto simp: finite_dom_lookup)
  then show ?thesis using assms by (simp add: total_eq_sum)
qed

end

interpretation std: finite_map map_of std_map_set "\<lambda>m. m" std_map_ok
  by unfold_locales
    (simp_all add: map_of_std_map_set std_map_ok_set std_map_ok_distinct)

end
