(* ===== verification/BBC_Bytes.thy ===== *)
theory BBC_Bytes
  imports BBC_Prelude
begin

text \<open>
  Integers and byte strings: the little-endian helpers \<open>append_u16_le\<close>,
  \<open>append_u32_le\<close>, \<open>append_u64_le\<close>, \<open>read_u16_le\<close>, \<open>read_u32_le\<close>,
  \<open>read_u64_le\<close> and \<open>read_array\<close> that the transaction, block, storage, wallet and
  protocol sources each define for themselves with the same bodies, the big-endian
  \<open>encode_u64_be\<close> of the chain index, and the hexadecimal text form of
  \<open>src/crypto/hash.cpp\<close>. The two round-trip laws of an integer encoding are the
  interface \<open>word_codec\<close>; those of a whole canonical encoding are \<open>canonical_codec\<close>.
\<close>

section \<open>Little-endian integers\<close>

text \<open>
  The encoders push \<open>(value >> shift) & 0xFF\<close> for \<open>shift = 0, 8, \<dots>\<close>; the decoders
  start from 0 and set \<open>value |= input[offset + index] << (index * 8)\<close>. Callers compare
  sizes before they read, so \<open>offset + index\<close> is in range wherever a decoder is called.
\<close>

definition le_bytes :: "nat \<Rightarrow> 'w::len word \<Rightarrow> bytes" where
  "le_bytes n v = map (\<lambda>index. ucast (drop_bit (8 * index) v AND 0xFF)) [0..<n]"

definition read_le :: "nat \<Rightarrow> bytes \<Rightarrow> nat \<Rightarrow> 'w::len word" where
  "read_le n input offset =
     fold (\<lambda>index v. v OR push_bit (8 * index) (ucast (input ! (offset + index)))) [0..<n] 0"

definition append_u16_le :: "bytes \<Rightarrow> u16 \<Rightarrow> bytes" where
  "append_u16_le output v = output @ le_bytes 2 v"

definition append_u32_le :: "bytes \<Rightarrow> u32 \<Rightarrow> bytes" where
  "append_u32_le output v = output @ le_bytes 4 v"

definition append_u64_le :: "bytes \<Rightarrow> u64 \<Rightarrow> bytes" where
  "append_u64_le output v = output @ le_bytes 8 v"

definition read_u16_le :: "bytes \<Rightarrow> nat \<Rightarrow> u16" where
  "read_u16_le = read_le 2"

definition read_u32_le :: "bytes \<Rightarrow> nat \<Rightarrow> u32" where
  "read_u32_le = read_le 4"

definition read_u64_le :: "bytes \<Rightarrow> nat \<Rightarrow> u64" where
  "read_u64_le = read_le 8"

text \<open>\<open>read_array<Size>(input, offset)\<close>: a copy of \<open>input.subspan(offset, Size)\<close>.\<close>

definition read_array :: "nat \<Rightarrow> bytes \<Rightarrow> nat \<Rightarrow> bytes" where
  "read_array n input offset = take n (drop offset input)"

text \<open>\<open>encode_u64_be\<close>: byte \<open>index\<close> is \<open>value >> ((8 - index - 1) * 8)\<close>.\<close>

definition encode_u64_be :: "u64 \<Rightarrow> bytes" where
  "encode_u64_be v = map (\<lambda>index. ucast (drop_bit ((8 - index - 1) * 8) v AND 0xFF)) [0..<8]"

lemma length_le_bytes [simp, byte_length]: "length (le_bytes n v) = n"
  by (simp add: le_bytes_def)

lemma length_read_array [simp]:
  "offset + n \<le> length input \<Longrightarrow> length (read_array n input offset) = n"
  by (simp add: read_array_def)

lemma nth_le_bytes: "i < n \<Longrightarrow> le_bytes n v ! i = ucast (drop_bit (8 * i) v AND 0xFF)"
  by (simp add: le_bytes_def)

lemma bit_mask8_iff: "bit (0xFF :: 'w::len word) k \<longleftrightarrow> k < 8 \<and> k < LENGTH('w)"
proof -
  have eq: "(0xFF :: 'w word) = mask 8" by (simp add: mask_eq_exp_minus_1)
  show ?thesis unfolding eq bit_mask_iff by auto
qed

lemma bit_byte_of:
  fixes v :: "'w::len word"
  shows "bit (ucast (drop_bit j v AND 0xFF) :: byte) k \<longleftrightarrow> k < 8 \<and> bit v (j + k)"
proof -
  have "bit (ucast (drop_bit j v AND 0xFF) :: byte) k \<longleftrightarrow>
      k < 8 \<and> bit v (j + k) \<and> bit (0xFF :: 'w word) k"
    by (simp only: bit_ucast_iff bit_and_iff bit_drop_bit_eq comp_def) auto
  then show ?thesis
    unfolding bit_mask8_iff using bit_imp_le_length [of v "j + k"] by auto
qed

lemma bit_nth_le_bytes:
  fixes v :: "'w::len word"
  assumes "i < n"
  shows "bit (le_bytes n v ! i) k \<longleftrightarrow> k < 8 \<and> bit v (8 * i + k)"
  using assms by (simp only: nth_le_bytes bit_byte_of)

lemma bit_read_le:
  "bit (read_le n bs offset :: 'w::len word) k \<longleftrightarrow>
     k < LENGTH('w) \<and> k < 8 * n \<and> bit (bs ! (offset + k div 8)) (k mod 8)"
proof (induction n)
  case 0
  show ?case by (simp add: read_le_def)
next
  case (Suc n)
  have step: "read_le (Suc n) bs offset =
      (read_le n bs offset OR push_bit (8 * n) (ucast (bs ! (offset + n))) :: 'w word)"
    by (simp add: read_le_def)
  have "bit (push_bit (8 * n) (ucast (bs ! (offset + n))) :: 'w word) k \<longleftrightarrow>
      k < LENGTH('w) \<and> 8 * n \<le> k \<and> k < 8 * n + 8 \<and> bit (bs ! (offset + n)) (k - 8 * n)"
    by (auto simp: bit_push_bit_iff bit_ucast_iff dest: bit_imp_le_length)
  moreover have "k div 8 = n \<and> k mod 8 = k - 8 * n" if "8 * n \<le> k" "k < 8 * n + 8"
    using that by (auto simp: div_nat_eqI modulo_nat_def)
  ultimately show ?case
    unfolding step bit_or_iff Suc.IH by auto
qed

lemma read_le_bytes:
  fixes v :: "'w::len word"
  assumes "LENGTH('w) = 8 * n"
  shows "read_le n (xs @ le_bytes n v @ ys) (length xs) = v"
proof (rule bit_word_eqI)
  fix k
  assume k: "k < LENGTH('w)"
  then have "k div 8 < n" using assms by auto
  then show "bit (read_le n (xs @ le_bytes n v @ ys) (length xs) :: 'w word) k = bit v k"
    using k assms by (simp add: bit_read_le nth_append bit_nth_le_bytes)
qed

lemma le_bytes_read:
  assumes "LENGTH('w::len) = 8 * n" and "offset + n \<le> length bs"
  shows "le_bytes n (read_le n bs offset :: 'w word) = take n (drop offset bs)"
proof (rule nth_equalityI)
  show "length (le_bytes n (read_le n bs offset :: 'w word)) = length (take n (drop offset bs))"
    using assms(2) by simp
next
  fix i
  assume "i < length (le_bytes n (read_le n bs offset :: 'w word))"
  then have i: "i < n" by simp
  have "le_bytes n (read_le n bs offset :: 'w word) ! i = bs ! (offset + i)"
  proof (rule bit_word_eqI)
    fix k
    assume "k < LENGTH(8)"
    then have k: "k < 8" by simp
    have "8 * i + k < 8 * n" using i k by simp
    then show "bit (le_bytes n (read_le n bs offset :: 'w word) ! i) k = bit (bs ! (offset + i)) k"
      using i k assms(1) by (simp add: bit_nth_le_bytes bit_read_le)
  qed
  then show "le_bytes n (read_le n bs offset :: 'w word) ! i = take n (drop offset bs) ! i"
    using i assms(2) by simp
qed

subsection \<open>The interface of an integer encoding\<close>

text \<open>
  An encoder of fixed width and a decoder that reads at an offset. The clients are the
  decoders of transactions, blocks, records and frames, which read one field after the
  other out of one buffer.
\<close>

locale word_codec =
  fixes width :: nat
    and enc :: "'w::len word \<Rightarrow> bytes"
    and dec :: "bytes \<Rightarrow> nat \<Rightarrow> 'w word"
  assumes enc_length: "length (enc v) = width"
    and dec_enc: "dec (xs @ enc v @ ys) (length xs) = v"
    and enc_dec: "offset + width \<le> length bs \<Longrightarrow> enc (dec bs offset) = take width (drop offset bs)"
begin

lemma dec_enc_at: "offset = length xs \<Longrightarrow> dec (xs @ enc v @ ys) offset = v"
  by (simp add: dec_enc)

lemma enc_inject: "enc v = enc w \<longleftrightarrow> v = w"
  by (metis append_Nil dec_enc)

lemma dec_Nil: "dec (enc v @ ys) 0 = v"
  using dec_enc [of "[]"] by simp

lemma dec_single: "dec (enc v) 0 = v"
  using dec_enc [of "[]" v "[]"] by simp

text \<open>A field is unchanged by writing outside of it.\<close>

lemma dec_cong:
  assumes "offset + width \<le> length bs" and "offset + width \<le> length cs"
    and "take width (drop offset bs) = take width (drop offset cs)"
  shows "dec bs offset = dec cs offset"
  by (metis assms enc_dec enc_inject)

end

interpretation u16: word_codec 2 "le_bytes 2" read_u16_le
  by unfold_locales (simp_all add: read_u16_le_def read_le_bytes le_bytes_read)

interpretation u32: word_codec 4 "le_bytes 4" read_u32_le
  by unfold_locales (simp_all add: read_u32_le_def read_le_bytes le_bytes_read)

interpretation u64: word_codec 8 "le_bytes 8" read_u64_le
  by unfold_locales (simp_all add: read_u64_le_def read_le_bytes le_bytes_read)

section \<open>Fields of a buffer\<close>

text \<open>
  A decoder reads field after field at increasing offsets. On a concatenation of encoded
  fields the rules of \<open>field_read\<close> skip the fields before the offset; on a buffer that
  was decoded the rules of \<open>field_join\<close> put the slices of consecutive fields together
  again.
\<close>

lemma read_le_append [field_read]:
  "length xs \<le> offset \<Longrightarrow> read_le n (xs @ ys) offset = read_le n ys (offset - length xs)"
  by (simp add: read_le_def nth_append)

lemma read_u16_le_append [field_read]:
  "length xs \<le> offset \<Longrightarrow> read_u16_le (xs @ ys) offset = read_u16_le ys (offset - length xs)"
  by (simp add: read_u16_le_def read_le_append)

lemma read_u32_le_append [field_read]:
  "length xs \<le> offset \<Longrightarrow> read_u32_le (xs @ ys) offset = read_u32_le ys (offset - length xs)"
  by (simp add: read_u32_le_def read_le_append)

lemma read_u64_le_append [field_read]:
  "length xs \<le> offset \<Longrightarrow> read_u64_le (xs @ ys) offset = read_u64_le ys (offset - length xs)"
  by (simp add: read_u64_le_def read_le_append)

lemma read_array_append [field_read]:
  "length xs \<le> offset \<Longrightarrow> read_array n (xs @ ys) offset = read_array n ys (offset - length xs)"
  by (simp add: read_array_def)

lemma read_array_head [field_read]:
  "length xs = n \<Longrightarrow> read_array n (xs @ ys) 0 = xs"
  by (simp add: read_array_def)

lemma read_array_all [field_read]:
  "length xs = n \<Longrightarrow> read_array n xs 0 = xs"
  by (simp add: read_array_def)

lemma nth_skip [field_read]:
  "length xs \<le> i \<Longrightarrow> (xs @ ys) ! i = ys ! (i - length xs)"
  by (simp add: nth_append)

lemma read_Cons [field_read]:
  assumes "0 < offset"
  shows "read_u16_le (x # xs) offset = read_u16_le xs (offset - 1)"
    and "read_u32_le (x # xs) offset = read_u32_le xs (offset - 1)"
    and "read_u64_le (x # xs) offset = read_u64_le xs (offset - 1)"
    and "read_array n (x # xs) offset = read_array n xs (offset - 1)"
  using assms read_u16_le_append [of "[x]" offset xs] read_u32_le_append [of "[x]" offset xs]
    read_u64_le_append [of "[x]" offset xs] read_array_append [of "[x]" offset n xs]
  by simp_all

lemmas [field_read] = u16.dec_Nil u32.dec_Nil u64.dec_Nil u16.dec_single u32.dec_single u64.dec_single

lemma take_drop_join [field_join]:
  "j = k + n \<Longrightarrow> take n (drop k bs) @ take m (drop j bs) = take (n + m) (drop k bs)"
  unfolding take_add by (simp add: add.commute)

lemma take_drop_join_assoc [field_join]:
  "j = k + n \<Longrightarrow> take n (drop k bs) @ take m (drop j bs) @ zs = take (n + m) (drop k bs) @ zs"
  unfolding take_add by (simp add: add.commute)

lemma take_join [field_join]:
  "take n bs @ take m (drop n bs) = take (n + m) bs"
  by (simp add: take_add)

lemma take_join_assoc [field_join]:
  "take n bs @ take m (drop n bs) @ zs = take (n + m) bs @ zs"
  by (simp add: take_add)

lemma nth_slice: "i < length bs \<Longrightarrow> [bs ! i] = take 1 (drop i bs)"
  by (cases "drop i bs") (auto simp: nth_via_drop)

section \<open>The interface of a canonical encoding\<close>

text \<open>
  A value type with a validity predicate, an encoder and a decoder that fails with an
  error. Decoding inverts encoding on valid values, and whatever decodes is valid and is
  the encoding of what it decodes to. The laws make the encoding canonical: a valid value
  has exactly one byte string that decodes to it.
\<close>

locale canonical_codec =
  fixes encode :: "'a \<Rightarrow> bytes"
    and decode :: "bytes \<Rightarrow> 'e + 'a"
    and valid :: "'a \<Rightarrow> bool"
  assumes decode_encode: "valid a \<Longrightarrow> decode (encode a) = Inr a"
    and decode_valid: "decode bs = Inr a \<Longrightarrow> valid a"
    and encode_decode: "decode bs = Inr a \<Longrightarrow> encode a = bs"
begin

lemma decode_iff: "decode bs = Inr a \<longleftrightarrow> valid a \<and> encode a = bs"
  using decode_encode decode_valid encode_decode by blast

lemma encode_inject: "valid a \<Longrightarrow> valid b \<Longrightarrow> encode a = encode b \<longleftrightarrow> a = b"
  using decode_encode by (metis sum.inject(2))

lemma decode_inject: "decode bs = Inr a \<Longrightarrow> decode cs = Inr a \<Longrightarrow> bs = cs"
  using encode_decode by blast

lemma decode_fails_iff: "(\<exists>e. decode bs = Inl e) \<longleftrightarrow> (\<forall>a. valid a \<longrightarrow> encode a \<noteq> bs)"
proof -
  have "(\<exists>e. decode bs = Inl e) \<longleftrightarrow> (\<nexists>a. decode bs = Inr a)"
    by (cases "decode bs") auto
  then show ?thesis by (auto simp: decode_iff)
qed

lemma map_encode_inject:
  "list_all valid xs \<Longrightarrow> list_all valid ys \<Longrightarrow> map encode xs = map encode ys \<longleftrightarrow> xs = ys"
proof (induction xs arbitrary: ys)
  case Nil
  then show ?case by auto
next
  case (Cons x xs)
  then show ?case by (cases ys) (auto simp: encode_inject)
qed

end

section \<open>Hexadecimal text\<close>

text \<open>
  \<open>decode_nibble\<close> returns -1 for a character that is no hexadecimal digit; characters
  are compared by their code as in the source.
\<close>

definition decode_nibble :: "char \<Rightarrow> int" where
  "decode_nibble value =
     (let c = (of_char value :: int)
      in if of_char CHR ''0'' \<le> c \<and> c \<le> of_char CHR ''9'' then c - of_char CHR ''0''
         else if of_char CHR ''A'' \<le> c \<and> c \<le> of_char CHR ''F'' then c - of_char CHR ''A'' + 10
         else if of_char CHR ''a'' \<le> c \<and> c \<le> of_char CHR ''f'' then c - of_char CHR ''a'' + 10
         else - 1)"

definition hex_alphabet :: string where
  "hex_alphabet = ''0123456789ABCDEF''"

definition to_upper_hex :: "bytes \<Rightarrow> string" where
  "to_upper_hex input =
     concat (map (\<lambda>value. [hex_alphabet ! unat (drop_bit 4 value), hex_alphabet ! unat (value AND 0x0F)]) input)"

text \<open>
  The loop of \<open>decode_hex\<close> over the output array: \<open>decode_hex_from n input\<close> decodes the
  next \<open>n\<close> bytes of the output from the rest of the input. The caller's array is only
  used when the function returns true, so the model returns the decoded bytes or
  \<^const>\<open>None\<close>. The bytes of a \<open>char\<close> with the high bit set are negative in C++ and
  match no range; here their code is above every range and matches none either.
\<close>

fun decode_hex_from :: "nat \<Rightarrow> string \<Rightarrow> bytes option" where
  "decode_hex_from 0 input = Some []"
| "decode_hex_from (Suc n) (a # b # input) =
     (let high = decode_nibble a; low = decode_nibble b
      in if high < 0 \<or> low < 0 then None
         else map_option (Cons (word_of_int ((high * 16) OR low))) (decode_hex_from n input))"
| "decode_hex_from (Suc n) input = None"

definition decode_hex :: "string \<Rightarrow> nat \<Rightarrow> bytes option" where
  "decode_hex input output_size =
     (if length input \<noteq> output_size * 2 then None else decode_hex_from output_size input)"

lemma length_to_upper_hex [simp, byte_length]: "length (to_upper_hex bs) = 2 * length bs"
  by (induction bs) (simp_all add: to_upper_hex_def)

lemma to_upper_hex_Cons:
  "to_upper_hex (b # bs) =
     [hex_alphabet ! unat (drop_bit 4 b), hex_alphabet ! unat (b AND 0x0F)] @ to_upper_hex bs"
  by (simp add: to_upper_hex_def)

lemma decode_nibble_alphabet:
  assumes "n < 16"
  shows "decode_nibble (hex_alphabet ! n) = int n"
proof -
  have "\<forall>n \<in> set [0..<16]. decode_nibble (hex_alphabet ! n) = int n"
    by code_simp
  then show ?thesis using assms by simp
qed

lemma nibble_bounds:
  fixes b :: byte
  shows "unat (drop_bit 4 b) < 16" "unat (b AND 0x0F) < 16"
proof -
  have "unat (drop_bit 4 b) = unat b div 16" by (simp add: unat_div drop_bit_eq_div)
  moreover have "unat b < 256" using unsigned_less [of b] by simp
  ultimately show "unat (drop_bit 4 b) < 16" by simp
  have "b AND 0x0F \<le> 0x0F" by (rule word_and_le1)
  then show "unat (b AND 0x0F) < 16" by (simp add: word_le_nat_alt)
qed

lemma byte_of_nibbles:
  fixes b :: byte
  shows "word_of_int ((uint (drop_bit 4 b) * 16) OR uint (b AND 0x0F)) = b"
proof -
  have "word_of_int ((uint (drop_bit 4 b) * 16) OR uint (b AND 0x0F))
      = push_bit 4 (drop_bit 4 b) OR (b AND 0x0F)"
    by (simp add: of_int_or_eq push_bit_eq_mult)
  also have "\<dots> = b"
  proof (rule bit_word_eqI)
    fix k
    assume "k < LENGTH(8)"
    have eq: "(0x0F :: byte) = mask 4" by (simp add: mask_eq_exp_minus_1)
    show "bit (push_bit 4 (drop_bit 4 b) OR (b AND 0x0F)) k = bit b k"
      using \<open>k < LENGTH(8)\<close>
      unfolding eq bit_or_iff bit_and_iff bit_push_bit_iff bit_drop_bit_eq bit_mask_iff comp_def
      by (cases "4 \<le> k") auto
  qed
  finally show ?thesis .
qed

lemma decode_hex_to_upper_hex: "decode_hex (to_upper_hex bs) (length bs) = Some bs"
proof -
  have "decode_hex_from (length bs) (to_upper_hex bs) = Some bs"
    by (induction bs)
      (simp_all add: to_upper_hex_Cons decode_nibble_alphabet nibble_bounds byte_of_nibbles Let_def)
  then show ?thesis by (simp add: decode_hex_def)
qed

lemma length_decode_hex_from: "decode_hex_from n s = Some bs \<Longrightarrow> length bs = n"
  by (induction n s arbitrary: bs rule: decode_hex_from.induct)
    (auto simp: Let_def split: if_splits)

lemma length_decode_hex: "decode_hex s n = Some bs \<Longrightarrow> length bs = n"
  by (auto simp: decode_hex_def length_decode_hex_from split: if_splits)

text \<open>
  What \<open>decode_hex\<close> accepts: the digits of either case. \<open>upper_hex_digit\<close> is the
  upper-case form of a digit, and the decoded bytes print as the upper-cased input.
\<close>

definition upper_hex_digit :: "char \<Rightarrow> char" where
  "upper_hex_digit c =
     (if CHR ''a'' \<in> {c} \<or> c \<in> set ''bcdef'' then char_of (of_char c - 32 :: nat) else c)"

lemma hex_digit_codes:
  "list_all (\<lambda>m. char_of (m :: nat) \<in> set ''0123456789ABCDEFabcdef'')
     ([48..<58] @ [65..<71] @ [97..<103])"
  by code_simp

lemma hex_digit_char:
  assumes "0 \<le> decode_nibble c"
  shows "c \<in> set ''0123456789ABCDEFabcdef''"
proof -
  define m :: nat where "m = of_char c"
  have i: "(of_char c :: int) = int m" by (simp add: m_def of_char_def)
  have "m \<in> set ([48..<58] @ [65..<71] @ [97..<103])"
    using assms unfolding decode_nibble_def Let_def i by (simp split: if_splits; arith)
  then have "char_of m \<in> set ''0123456789ABCDEFabcdef''"
    using hex_digit_codes by (simp only: list_all_iff)
  then show ?thesis by (simp add: m_def)
qed

lemma hex_digit_values:
  "list_all (\<lambda>c. decode_nibble c < 16 \<and> hex_alphabet ! nat (decode_nibble c) = upper_hex_digit c)
     ''0123456789ABCDEFabcdef''"
  by code_simp

lemma nibble_char:
  assumes "0 \<le> decode_nibble c"
  shows "decode_nibble c < 16"
    and "hex_alphabet ! nat (decode_nibble c) = upper_hex_digit c"
  using hex_digit_char [OF assms] hex_digit_values by (auto simp only: list_all_iff)

lemma nibbles_of_byte:
  assumes "0 \<le> h" "h < 16" "0 \<le> l" "l < (16 :: int)"
  defines "b \<equiv> word_of_int (h * 16 OR l) :: byte"
  shows "unat (drop_bit 4 b) = nat h" "unat (b AND 0x0F) = nat l"
proof -
  have "\<forall>h \<in> set [0..15]. \<forall>l \<in> set [0..15].
      unat (drop_bit 4 (word_of_int (h * 16 OR l) :: byte)) = nat h \<and>
      unat ((word_of_int (h * 16 OR l) :: byte) AND 0x0F) = nat l"
    by code_simp
  with assms(1-4) show "unat (drop_bit 4 b) = nat h" "unat (b AND 0x0F) = nat l"
    by (auto simp: b_def)
qed

lemma to_upper_hex_decode_hex_from:
  "decode_hex_from n s = Some bs \<Longrightarrow> length s = 2 * n \<Longrightarrow> to_upper_hex bs = map upper_hex_digit s"
proof (induction n s arbitrary: bs rule: decode_hex_from.induct)
  case (2 n a b input)
  then obtain cs where cs: "decode_hex_from n input = Some cs"
    and nn: "0 \<le> decode_nibble a" "0 \<le> decode_nibble b"
    and bs: "bs = word_of_int ((decode_nibble a * 16) OR decode_nibble b) # cs"
    by (auto simp: Let_def split: if_splits)
  have "to_upper_hex cs = map upper_hex_digit input"
    using 2 cs nn by (simp add: Let_def)
  then show ?case
    using nn nibble_char by (simp add: bs to_upper_hex_Cons nibbles_of_byte)
qed (auto simp: to_upper_hex_def)

lemma to_upper_hex_decode_hex:
  assumes "decode_hex s n = Some bs"
  shows "to_upper_hex bs = map upper_hex_digit s"
  using assms to_upper_hex_decode_hex_from by (auto simp: decode_hex_def split: if_splits)

lemma decode_hex_from_total:
  "length s = 2 * n \<Longrightarrow> (\<forall>c \<in> set s. 0 \<le> decode_nibble c) \<longleftrightarrow> (\<exists>bs. decode_hex_from n s = Some bs)"
  by (induction n s rule: decode_hex_from.induct) (auto simp: Let_def)

lemma decode_hex_Some_iff:
  "(\<exists>bs. decode_hex s n = Some bs) \<longleftrightarrow> length s = 2 * n \<and> (\<forall>c \<in> set s. 0 \<le> decode_nibble c)"
  using decode_hex_from_total [of s n] by (auto simp: decode_hex_def)

end
