(* ===== verification/BBC_Core.thy ===== *)
theory BBC_Core
  imports BBC_Bytes
begin

text \<open>
  The network profiles of \<open>src/core/network.cpp\<close>: their chain identifiers, frame magic
  and fixed difficulty targets.
\<close>

datatype NetworkProfile = NP_development | NP_regtest

record NetworkParameters =
  np_profile :: NetworkProfile
  np_name :: string
  np_chain_id :: u32
  np_p2p_magic :: bytes
  np_difficulty_target :: bytes

definition hash256_size :: nat where
  "hash256_size = 32"

definition target_with_zero_prefix :: "nat \<Rightarrow> bytes" where
  "target_with_zero_prefix zero_bytes =
     fold (\<lambda>index target. target[index := 0]) [0..<zero_bytes] (replicate hash256_size 0xFF)"

definition regtest_target :: bytes where
  "regtest_target = (replicate hash256_size 0xFF)[0 := 0, 1 := 0x0F]"

definition development :: NetworkParameters where
  "development =
     \<lparr> np_profile = NP_development, np_name = ''development'', np_chain_id = 1,
       np_p2p_magic = [0x42, 0x42, 0x43, 1],
       np_difficulty_target = target_with_zero_prefix 3 \<rparr>"

definition regtest :: NetworkParameters where
  "regtest =
     \<lparr> np_profile = NP_regtest, np_name = ''regtest'', np_chain_id = 2,
       np_p2p_magic = [0x42, 0x42, 0x43, 2],
       np_difficulty_target = regtest_target \<rparr>"

definition network_parameters :: "NetworkProfile \<Rightarrow> NetworkParameters" where
  "network_parameters profile = (if profile = NP_regtest then regtest else development)"

text \<open>The null pointer is \<^const>\<open>None\<close>.\<close>

definition network_parameters_for_chain :: "u32 \<Rightarrow> NetworkParameters option" where
  "network_parameters_for_chain chain_id =
     (if chain_id = np_chain_id development then Some development
      else if chain_id = np_chain_id regtest then Some regtest
      else None)"

definition parse_network_profile :: "string \<Rightarrow> NetworkProfile option" where
  "parse_network_profile name =
     (if name = np_name development then Some NP_development
      else if name = np_name regtest then Some NP_regtest
      else None)"

abbreviation supported_chain :: "u32 \<Rightarrow> bool" where
  "supported_chain chain_id \<equiv> network_parameters_for_chain chain_id \<noteq> None"

lemma supported_chain_iff: "supported_chain chain_id \<longleftrightarrow> chain_id = 1 \<or> chain_id = 2"
  by (auto simp: network_parameters_for_chain_def development_def regtest_def)

lemma supported_chain_ex: "(\<exists>p. network_parameters_for_chain c = Some p) \<longleftrightarrow> c = 1 \<or> c = 2"
  using supported_chain_iff [of c] by simp

lemmas supported_chain = supported_chain_iff supported_chain_ex

lemma network_parameters_for_chain_Some:
  "network_parameters_for_chain c = Some p \<Longrightarrow>
     np_chain_id p = c \<and> length (np_p2p_magic p) = 4"
  by (auto simp: network_parameters_for_chain_def development_def regtest_def split: if_splits)

lemma parse_network_profile_name:
  "parse_network_profile (np_name (network_parameters p)) = Some p"
  by (cases p) (simp_all add: parse_network_profile_def network_parameters_def
      development_def regtest_def)

lemma network_parameters_chain:
  "network_parameters_for_chain (np_chain_id (network_parameters p)) = Some (network_parameters p)"
  by (cases p) (simp_all add: network_parameters_for_chain_def network_parameters_def
      development_def regtest_def)

lemma length_np_difficulty_target:
  "length (np_difficulty_target (network_parameters p)) = hash256_size"
  by (cases p) (simp_all add: network_parameters_def development_def regtest_def
      target_with_zero_prefix_def regtest_target_def upt_rec)

end
