(* ===== verification/BBC_Crypto.thy ===== *)
theory BBC_Crypto
  imports BBC_Core
begin

text \<open>
  Hashing, keys and signatures (\<open>src/crypto/hash.cpp\<close>, \<open>src/crypto/keys.cpp\<close>). The
  primitives are libsodium's, so they are a parameter: a record with one function per
  library call the sources make. A call that fills a buffer of fixed size gives the byte
  it writes at each index; the C++ code reads the buffer as an array of that size, so
  the array has its size whatever the library writes.
\<close>

record sodium =
  crypto_hash_sha256 :: "bytes \<Rightarrow> nat \<Rightarrow> byte"
  crypto_sign_seed_keypair :: "bytes \<Rightarrow> ((nat \<Rightarrow> byte) \<times> (nat \<Rightarrow> byte)) option"
  crypto_sign_detached :: "bytes \<Rightarrow> bytes \<Rightarrow> nat \<Rightarrow> byte"
  crypto_sign_verify_detached :: "bytes \<Rightarrow> bytes \<Rightarrow> bytes \<Rightarrow> bool"
  crypto_pwhash :: "string \<Rightarrow> bytes \<Rightarrow> u64 \<Rightarrow> u64 \<Rightarrow> (nat \<Rightarrow> byte) option"
  crypto_aead_encrypt :: "bytes \<Rightarrow> bytes \<Rightarrow> bytes \<Rightarrow> bytes \<Rightarrow> bytes option"
  crypto_aead_decrypt :: "bytes \<Rightarrow> bytes \<Rightarrow> bytes \<Rightarrow> bytes \<Rightarrow> bytes option"

definition public_key_size :: nat where
  "public_key_size = 32"

definition private_key_size :: nat where
  "private_key_size = 64"

definition signature_size :: nat where
  "signature_size = 64"

lemmas crypto_sizes = hash256_size_def public_key_size_def private_key_size_def signature_size_def

section \<open>Hashing\<close>

definition sha256 :: "sodium \<Rightarrow> bytes \<Rightarrow> bytes" where
  "sha256 so input = map (crypto_hash_sha256 so input) [0..<hash256_size]"

lemma length_sha256 [simp, byte_length]: "length (sha256 so input) = 32"
  by (simp add: sha256_def hash256_size_def)

section \<open>Key pairs\<close>

record KeyPair =
  kp_public_key :: bytes
  kp_private_key :: bytes

text \<open>
  \<open>KeyPair::generate\<close> calls \<open>crypto_sign_keypair\<close>, which draws a random seed and expands
  it like \<open>crypto_sign_seed_keypair\<close>; the drawn seed is the argument.
\<close>

definition KeyPair_generate :: "sodium \<Rightarrow> bytes \<Rightarrow> KeyPair option" where
  "KeyPair_generate so seed =
     map_option (\<lambda>(pk, sk). \<lparr> kp_public_key = map pk [0..<public_key_size],
         kp_private_key = map sk [0..<private_key_size] \<rparr>)
       (crypto_sign_seed_keypair so seed)"

text \<open>
  \<open>crypto_sign_seed_keypair\<close> reads the first 32 bytes of the private key copy as the seed
  (\<open>crypto_sign_SEEDBYTES\<close>).
\<close>

definition KeyPair_from_private_key :: "sodium \<Rightarrow> bytes \<Rightarrow> KeyPair option" where
  "KeyPair_from_private_key so private_key =
     (if length private_key \<noteq> private_key_size then None
      else case crypto_sign_seed_keypair so (take 32 private_key) of
        None \<Rightarrow> None
      | Some (pk, sk) \<Rightarrow>
          (let canonical_private_key = map sk [0..<private_key_size]
           in if canonical_private_key \<noteq> private_key then None
              else Some \<lparr> kp_public_key = map pk [0..<public_key_size],
                          kp_private_key = private_key \<rparr>))"

text \<open>
  Moving a key pair copies both arrays and overwrites the private key of the source with
  zeros: the pair is (the target, the source afterwards).
\<close>

definition KeyPair_move :: "KeyPair \<Rightarrow> KeyPair \<times> KeyPair" where
  "KeyPair_move other =
     (other, other\<lparr> kp_private_key := replicate (length (kp_private_key other)) 0 \<rparr>)"

definition KeyPair_sign :: "sodium \<Rightarrow> KeyPair \<Rightarrow> bytes \<Rightarrow> bytes" where
  "KeyPair_sign so kp message =
     map (crypto_sign_detached so message (kp_private_key kp)) [0..<signature_size]"

definition verify_signature :: "sodium \<Rightarrow> bytes \<Rightarrow> bytes \<Rightarrow> bytes \<Rightarrow> bool" where
  "verify_signature so message signature public_key =
     crypto_sign_verify_detached so signature message public_key"

lemma length_KeyPair_sign [simp, byte_length]: "length (KeyPair_sign so kp m) = 64"
  by (simp add: KeyPair_sign_def signature_size_def)

text \<open>The class invariant of a key pair: what both factories establish.\<close>

definition KeyPair_ok :: "sodium \<Rightarrow> KeyPair \<Rightarrow> bool" where
  "KeyPair_ok so kp \<longleftrightarrow> KeyPair_from_private_key so (kp_private_key kp) = Some kp"

lemma KeyPair_from_private_key_ok:
  "KeyPair_from_private_key so sk = Some kp \<Longrightarrow> KeyPair_ok so kp \<and> kp_private_key kp = sk"
  by (auto simp: KeyPair_from_private_key_def KeyPair_ok_def Let_def split: if_splits option.splits)

lemma KeyPair_ok_lengths:
  "KeyPair_ok so kp \<Longrightarrow> length (kp_public_key kp) = 32 \<and> length (kp_private_key kp) = 64"
  by (cases kp)
    (auto simp: KeyPair_ok_def KeyPair_from_private_key_def Let_def crypto_sizes
      split: if_splits option.splits)

text \<open>
  What the code relies on from Ed25519 in libsodium: a signature made with the private
  key of a well-formed pair verifies under its public key.
\<close>

definition signatures_verify :: "sodium \<Rightarrow> bool" where
  "signatures_verify so \<longleftrightarrow>
     (\<forall>kp m. KeyPair_ok so kp \<longrightarrow> verify_signature so m (KeyPair_sign so kp m) (kp_public_key kp))"

section \<open>A concrete library for examples\<close>

text \<open>
  The closed examples of the development need a value for the parameter. This one hashes
  to four zero bytes, the last 13 bytes of the input in reverse order, 13 bytes from the
  middle, the sixth byte and the length; it derives a key pair by copying the seed and accepts every
  signature. Nothing depends on it but the examples.
\<close>

definition demo_sodium :: sodium where
  "demo_sodium =
     \<lparr> crypto_hash_sha256 =
         (\<lambda>input i. if i = 31 then of_nat (length input)
            else if i = 30 then (if 5 < length input then input ! 5 else 0)
            else if i < 4 then 0
            else if i < 17 then (if i - 3 \<le> length input then input ! (length input - (i - 3)) else 0)
            else if 64 + i < length input then input ! (64 + i) else 0),
       crypto_sign_seed_keypair = (\<lambda>seed. Some (\<lambda>i. seed ! i, \<lambda>i. seed ! (i mod 32))),
       crypto_sign_detached = (\<lambda>m sk i. 7),
       crypto_sign_verify_detached = (\<lambda>sig m pk. True),
       crypto_pwhash = (\<lambda>password salt ops mem. Some (\<lambda>i. 9)),
       crypto_aead_encrypt = (\<lambda>m ad n k. Some (m @ replicate 16 0)),
       crypto_aead_decrypt = (\<lambda>c ad n k. if length c < 16 then None else Some (take (length c - 16) c)) \<rparr>"

lemma demo_hash_nth: "i < 32 \<Longrightarrow> sha256 demo_sodium x ! i = crypto_hash_sha256 demo_sodium x i"
  by (simp add: sha256_def hash256_size_def)

lemma demo_hash_length: "sha256 demo_sodium x ! 31 = of_nat (length x)"
  by (simp add: demo_hash_nth) (simp add: demo_sodium_def)

lemma demo_hash_zeros: "\<exists>r. sha256 demo_sodium x = 0 # 0 # 0 # 0 # r"
proof -
  have "[0..<32] = 0 # 1 # 2 # 3 # [4..<32]" by (simp add: upt_rec)
  then show ?thesis by (simp add: sha256_def hash256_size_def) (simp add: demo_sodium_def)
qed

lemma signatures_verify_demo: "signatures_verify demo_sodium"
  by (simp add: signatures_verify_def verify_signature_def demo_sodium_def)

definition demo_seed :: "nat \<Rightarrow> bytes" where
  "demo_seed n = replicate 31 3 @ [of_nat n]"

definition demo_key_pair :: "nat \<Rightarrow> KeyPair" where
  "demo_key_pair n = \<lparr> kp_public_key = demo_seed n, kp_private_key = demo_seed n @ demo_seed n \<rparr>"

lemma length_demo_seed [simp]: "length (demo_seed n) = 32"
  by (simp add: demo_seed_def)

lemma map_nth_twice:
  assumes "length xs = 32"
  shows "map ((!) xs) [0..<32] = xs" and "map (\<lambda>i. xs ! (i mod 32)) [0..<64] = xs @ xs"
proof -
  show a: "map ((!) xs) [0..<32] = xs" using map_nth [of xs] assms by simp
  have "map (\<lambda>i. xs ! (i mod 32)) [0..<64] =
      map (\<lambda>i. xs ! (i mod 32)) [0..<32] @ map (\<lambda>i. xs ! (i mod 32)) [32..<64]"
    using upt_add_eq_append [of 0 32 32] by simp
  also have "map (\<lambda>i. xs ! (i mod 32)) [32..<64] = map ((!) xs) [0..<32]"
  proof -
    have "[32..<64] = map (\<lambda>i. i + 32) [0..<32]" by (simp add: map_add_upt)
    then show ?thesis by simp
  qed
  also have "map (\<lambda>i. xs ! (i mod 32)) [0..<32] = map ((!) xs) [0..<32]"
    by simp
  finally show "map (\<lambda>i. xs ! (i mod 32)) [0..<64] = xs @ xs"
    using a by simp
qed

lemma KeyPair_demo:
  assumes "length seed = 32"
  shows "KeyPair_generate demo_sodium seed = Some \<lparr> kp_public_key = seed, kp_private_key = seed @ seed \<rparr>"
    and "KeyPair_ok demo_sodium \<lparr> kp_public_key = seed, kp_private_key = seed @ seed \<rparr>"
  using map_nth_twice [OF assms] assms
  by (simp_all add: KeyPair_generate_def KeyPair_ok_def KeyPair_from_private_key_def crypto_sizes demo_sodium_def)

lemma KeyPair_ok_demo: "KeyPair_ok demo_sodium (demo_key_pair n)"
  using KeyPair_demo(2) [of "demo_seed n"] by (simp add: demo_key_pair_def)

end
