(* ===== verification/BBC_Files.thy ===== *)
theory BBC_Files
  imports BBC_Bytes
begin

text \<open>
  The file operations of the C++ standard library that the sources use. A file system
  maps the path of a regular file to its contents. What the operating system may refuse
  is an argument \<^verbatim>\<open>io\<close> that fixes the outcome of each call, so that the branches for
  failed calls are part of the model; a statement for every \<^verbatim>\<open>io\<close> covers every outcome.
\<close>

type_synonym path = string
type_synonym files = "path \<rightharpoonup> bytes"

record io =
  io_exists_error :: bool \<comment> \<open>\<open>exists\<close> or \<open>is_regular_file\<close> sets its error code\<close>
  io_size_error :: bool \<comment> \<open>\<open>file_size\<close> fails although the file is there\<close>
  io_open_ok :: bool \<comment> \<open>an output stream opens\<close>
  io_write_ok :: bool \<comment> \<open>the stream is good after writing and flushing\<close>
  io_partial :: nat \<comment> \<open>bytes that reached the file when it is not\<close>
  io_remove_ok :: bool \<comment> \<open>\<open>remove\<close> and \<open>resize_file\<close> succeed\<close>
  io_read_ok :: bool \<comment> \<open>an input stream opens and delivers the bytes\<close>

definition io_ok :: io where
  "io_ok = \<lparr> io_exists_error = False, io_size_error = False, io_open_ok = True, io_write_ok = True,
     io_partial = 0, io_remove_ok = True, io_read_ok = True \<rparr>"

text \<open>\<open>exists(path, error)\<close>: the value and whether the error code is set.\<close>

definition fs_exists :: "io \<Rightarrow> files \<Rightarrow> path \<Rightarrow> bool \<times> bool" where
  "fs_exists io fs p = (if io_exists_error io then (False, True) else (fs p \<noteq> None, False))"

text \<open>
  \<open>is_regular_file(path, error)\<close>, with the same components: unlike \<open>exists\<close> it sets the error
  code for a path that does not exist.
\<close>

definition fs_is_regular_file :: "io \<Rightarrow> files \<Rightarrow> path \<Rightarrow> bool \<times> bool" where
  "fs_is_regular_file io fs p = (if io_exists_error io \<or> fs p = None then (False, True) else (True, False))"

text \<open>\<open>file_size(path, error)\<close>: \<^const>\<open>None\<close> when the error code is set.\<close>

definition fs_file_size :: "io \<Rightarrow> files \<Rightarrow> path \<Rightarrow> nat option" where
  "fs_file_size io fs p = (if io_size_error io then None else map_option length (fs p))"

text \<open>\<open>std::ofstream(path, binary | trunc)\<close>.\<close>

definition fs_open_trunc :: "io \<Rightarrow> files \<Rightarrow> path \<Rightarrow> files option" where
  "fs_open_trunc io fs p = (if io_open_ok io then Some (fs(p \<mapsto> [])) else None)"

text \<open>\<open>std::ofstream(path, binary | app)\<close>.\<close>

definition fs_open_app :: "io \<Rightarrow> files \<Rightarrow> path \<Rightarrow> files option" where
  "fs_open_app io fs p =
     (if io_open_ok io then Some (fs(p \<mapsto> (case fs p of None \<Rightarrow> [] | Some old \<Rightarrow> old))) else None)"

text \<open>\<open>write\<close> and \<open>flush\<close> at the end of the open file: whether the stream is good.\<close>

definition fs_write :: "io \<Rightarrow> files \<Rightarrow> path \<Rightarrow> bytes \<Rightarrow> bool \<times> files" where
  "fs_write io fs p data =
     (let old = (case fs p of None \<Rightarrow> [] | Some old \<Rightarrow> old)
      in if io_write_ok io then (True, fs(p \<mapsto> old @ data))
         else (False, fs(p \<mapsto> old @ take (io_partial io) data)))"

definition fs_remove :: "io \<Rightarrow> files \<Rightarrow> path \<Rightarrow> files" where
  "fs_remove io fs p = (if io_remove_ok io then fs(p := None) else fs)"

text \<open>\<open>resize_file(path, size, error)\<close>: the files and whether the error code is set.\<close>

definition fs_resize :: "io \<Rightarrow> files \<Rightarrow> path \<Rightarrow> nat \<Rightarrow> files \<times> bool" where
  "fs_resize io fs p n =
     (if io_remove_ok io
      then (fs(p := map_option (\<lambda>old. take n (old @ replicate n 0)) (fs p)), False)
      else (fs, True))"

text \<open>\<open>std::ifstream\<close> and \<open>read\<close> of \<open>n\<close> bytes from the start.\<close>

definition fs_read :: "io \<Rightarrow> files \<Rightarrow> path \<Rightarrow> nat \<Rightarrow> bytes option" where
  "fs_read io fs p n =
     (case fs p of None \<Rightarrow> None
      | Some data \<Rightarrow> if io_read_ok io \<and> n \<le> length data then Some (take n data) else None)"

lemmas fs_defs = fs_exists_def fs_is_regular_file_def fs_file_size_def fs_open_trunc_def fs_open_app_def fs_write_def
  fs_remove_def fs_resize_def fs_read_def

text \<open>
  \<open>save_transaction\<close>, \<open>save_block\<close> and \<open>Wallet::save\<close> share their last part: refuse a
  file that exists, write the bytes to a new file, and remove it again if writing fails.
  \<open>save_new_file\<close> is that part, over the three error values of the caller's enumeration.
\<close>

definition save_new_file :: "'e \<Rightarrow> 'e \<Rightarrow> 'e \<Rightarrow> io \<Rightarrow> files \<Rightarrow> path \<Rightarrow> bytes \<Rightarrow> 'e \<times> files" where
  "save_new_file none file_already_exists io_error io fs p encoded =
     (let (found, ec) = fs_exists io fs p
      in if found then (if ec then io_error else file_already_exists, fs)
         else if ec then (io_error, fs)
         else case fs_open_trunc io fs p of
           None \<Rightarrow> (io_error, fs)
         | Some fs1 \<Rightarrow>
             (let (write_succeeded, fs2) = fs_write io fs1 p encoded
              in if \<not> write_succeeded then (io_error, fs_remove io fs2 p)
                 else (none, fs2)))"

lemma save_new_file_none:
  assumes "save_new_file none ex err io fs p bs = (none, fs')"
    and "none \<noteq> ex" "none \<noteq> err"
  shows "fs p = None \<and> fs' = fs(p \<mapsto> bs)"
  using assms
  by (auto simp: save_new_file_def fs_exists_def fs_open_trunc_def fs_write_def
      split: if_splits)

text \<open>An existing file is never touched, and other files never are.\<close>

lemma save_new_file_exists:
  assumes "fs p = Some old"
  shows "snd (save_new_file none ex err io fs p bs) = fs"
    and "fst (save_new_file none ex err io fs p bs) \<in> {ex, err}"
  using assms by (auto simp: save_new_file_def fs_exists_def)

lemma save_new_file_other:
  assumes "q \<noteq> p"
  shows "snd (save_new_file none ex err io fs p bs) q = fs q"
  using assms
  by (auto simp: save_new_file_def fs_exists_def fs_open_trunc_def fs_write_def fs_remove_def
      Let_def split: option.splits)

text \<open>A failed save leaves no file behind when \<open>remove\<close> succeeds.\<close>

lemma save_new_file_failed:
  assumes "save_new_file none ex err io fs p bs = (e, fs')" and "e \<noteq> none"
    and "io_remove_ok io"
  shows "fs' = fs"
  using assms
  by (auto simp: save_new_file_def fs_exists_def fs_open_trunc_def fs_write_def fs_remove_def
      fun_upd_idem split: if_splits)

end
