(* ===== verification/BBC_Wallet.thy ===== *)
theory BBC_Wallet
  imports BBC_Crypto BBC_Files
begin

text \<open>
  Addresses and wallets: \<open>src/wallet/address.cpp\<close> and \<open>src/wallet/wallet.cpp\<close>.
\<close>

section \<open>Addresses\<close>

text \<open>
  An \<open>Address\<close> is built from its hash only; the member \<open>value_\<close> caches the text the
  constructor computes from \<open>hash_\<close> and is the function \<open>Address_value\<close> here, so that
  comparing two addresses is comparing their hashes.
\<close>

datatype Address = Address (addr_hash: bytes)

definition Address_from_public_key :: "sodium \<Rightarrow> bytes \<Rightarrow> Address" where
  "Address_from_public_key so public_key = Address (sha256 so public_key)"

definition Address_value :: "Address \<Rightarrow> string" where
  "Address_value a = ''BBC_'' @ to_upper_hex (addr_hash a)"

definition Address_parse :: "string \<Rightarrow> Address option" where
  "Address_parse encoded =
     (if take 4 encoded \<noteq> ''BBC_'' then None
      else map_option Address (decode_hex (drop 4 encoded) hash256_size))"

definition Address_ok :: "Address \<Rightarrow> bool" where
  "Address_ok a \<longleftrightarrow> length (addr_hash a) = 32"

lemma Address_ok_from_public_key [simp]: "Address_ok (Address_from_public_key so pk)"
  by (simp add: Address_ok_def Address_from_public_key_def)

lemma Address_parse_ok: "Address_parse s = Some a \<Longrightarrow> Address_ok a"
  by (auto simp: Address_parse_def Address_ok_def hash256_size_def length_decode_hex split: if_splits)

section \<open>Wallets\<close>

record Wallet =
  wallet_key_pair :: KeyPair

definition Wallet_create :: "sodium \<Rightarrow> bytes \<Rightarrow> Wallet option" where
  "Wallet_create so seed = map_option (\<lambda>kp. \<lparr> wallet_key_pair = kp \<rparr>) (KeyPair_generate so seed)"

definition Wallet_restore_from_private_key :: "sodium \<Rightarrow> bytes \<Rightarrow> Wallet option" where
  "Wallet_restore_from_private_key so private_key =
     (case KeyPair_from_private_key so private_key of
        None \<Rightarrow> None
      | Some key_pair \<Rightarrow> Some \<lparr> wallet_key_pair = key_pair \<rparr>)"

definition Wallet_public_key :: "Wallet \<Rightarrow> bytes" where
  "Wallet_public_key w = kp_public_key (wallet_key_pair w)"

definition Wallet_address :: "sodium \<Rightarrow> Wallet \<Rightarrow> Address" where
  "Wallet_address so w = Address_from_public_key so (Wallet_public_key w)"

definition Wallet_sign :: "sodium \<Rightarrow> Wallet \<Rightarrow> bytes \<Rightarrow> bytes" where
  "Wallet_sign so w message = KeyPair_sign so (wallet_key_pair w) message"

definition Wallet_ok :: "sodium \<Rightarrow> Wallet \<Rightarrow> bool" where
  "Wallet_ok so w \<longleftrightarrow> KeyPair_ok so (wallet_key_pair w)"

lemma Wallet_restore_ok:
  "Wallet_restore_from_private_key so sk = Some w \<Longrightarrow>
     Wallet_ok so w \<and> kp_private_key (wallet_key_pair w) = sk"
  by (auto simp: Wallet_restore_from_private_key_def Wallet_ok_def
      dest: KeyPair_from_private_key_ok split: option.splits)

lemma Wallet_ok_public_key: "Wallet_ok so w \<Longrightarrow> length (Wallet_public_key w) = 32"
  by (simp add: Wallet_ok_def Wallet_public_key_def KeyPair_ok_lengths)

definition demo_wallet :: "nat \<Rightarrow> Wallet" where
  "demo_wallet n = \<lparr> wallet_key_pair = demo_key_pair n \<rparr>"

lemma Wallet_ok_demo: "Wallet_ok demo_sodium (demo_wallet n)"
  by (simp add: Wallet_ok_def demo_wallet_def KeyPair_ok_demo)

section \<open>Properties of addresses\<close>

lemma Address_parse_iff:
  "(\<exists>a. Address_parse s = Some a) \<longleftrightarrow>
     take 4 s = ''BBC_'' \<and> length (drop 4 s) = 64 \<and> (\<forall>c \<in> set (drop 4 s). 0 \<le> decode_nibble c)"
proof -
  have "(\<exists>a. Address_parse s = Some a) \<longleftrightarrow>
      take 4 s = ''BBC_'' \<and> (\<exists>bs. decode_hex (drop 4 s) 32 = Some bs)"
    by (auto simp: Address_parse_def hash256_size_def)
  then show ?thesis unfolding decode_hex_Some_iff by simp
qed

text \<open>
  Parsing an address accepts exactly the prefix \<open>BBC_\<close> followed by 64 hexadecimal
  digits of either case; the address it returns prints as the same text in upper case;
  printing and parsing the address of any 32-byte hash gives that address back.
\<close>

theorem Address_parse_correct:
  "((\<exists>a. Address_parse s = Some a) \<longleftrightarrow>
     (\<exists>digits. s = ''BBC_'' @ digits \<and> length digits = 64 \<and>
        (\<forall>c \<in> set digits. 0 \<le> decode_nibble c))) \<and>
   (Address_parse s = Some a \<longrightarrow> Address_value a = ''BBC_'' @ map upper_hex_digit (drop 4 s)) \<and>
   (length h = 32 \<longrightarrow> Address_parse (Address_value (Address h)) = Some (Address h))"
proof (intro conjI impI)
  show "(\<exists>a. Address_parse s = Some a) \<longleftrightarrow>
     (\<exists>digits. s = ''BBC_'' @ digits \<and> length digits = 64 \<and> (\<forall>c \<in> set digits. 0 \<le> decode_nibble c))"
    unfolding Address_parse_iff using append_take_drop_id [of 4 s]
    by (auto simp del: append_take_drop_id intro!: exI [of _ "drop 4 s"])
next
  assume "Address_parse s = Some a"
  then obtain bs where "decode_hex (drop 4 s) 32 = Some bs" "a = Address bs"
    by (auto simp: Address_parse_def hash256_size_def split: if_splits)
  then show "Address_value a = ''BBC_'' @ map upper_hex_digit (drop 4 s)"
    by (simp add: Address_value_def to_upper_hex_decode_hex)
next
  assume "length h = 32"
  then show "Address_parse (Address_value (Address h)) = Some (Address h)"
    using decode_hex_to_upper_hex [of h]
    by (simp add: Address_parse_def Address_value_def hash256_size_def)
qed

theorem Address_parse_correct_witness:
  "Address_parse (Address_value (Address (replicate 32 0xAB))) = Some (Address (replicate 32 0xAB))"
  using Address_parse_correct [where h = "replicate 32 0xAB"] by simp

end
