(* ===== verification/BBC_Transaction.thy ===== *)
theory BBC_Transaction
  imports BBC_Wallet
begin

text \<open>
  Signed transactions: \<open>include/bbc/transaction/transaction.hpp\<close>,
  \<open>src/transaction/transaction.cpp\<close> and \<open>src/transaction/transaction_file.cpp\<close>. A
  transaction is 97 bytes that are signed and the 64-byte signature.
\<close>

section \<open>Data\<close>

datatype TransactionError =
    TE_none
  | TE_zero_amount
  | TE_amount_fee_overflow
  | TE_invalid_size
  | TE_invalid_magic
  | TE_unsupported_version
  | TE_unsupported_chain
  | TE_invalid_signature
  | TE_file_already_exists
  | TE_io_error

record TransactionFields =
  tf_recipient :: Address
  tf_amount :: u64
  tf_fee :: u64
  tf_account_nonce :: u64
  tf_chain_id :: u32

record SignedTransaction =
  tx_chain_id :: u32
  tx_sender_public_key :: bytes
  tx_recipient :: Address
  tx_amount :: u64
  tx_fee :: u64
  tx_account_nonce :: u64
  tx_signature :: bytes

type_synonym TransactionResult = "TransactionError + SignedTransaction"

definition unsigned_transaction_size :: nat where
  "unsigned_transaction_size = 97"

definition signed_transaction_size :: nat where
  "signed_transaction_size = 161"

definition transaction_magic :: bytes where
  "transaction_magic = [0x42, 0x42, 0x54, 0x58]"

definition transaction_version :: byte where
  "transaction_version = 1"

lemmas transaction_constants =
  unsigned_transaction_size_def signed_transaction_size_def transaction_magic_def
  transaction_version_def

section \<open>Operations\<close>

definition validate_fields :: "TransactionFields \<Rightarrow> TransactionError" where
  "validate_fields flds =
     (if network_parameters_for_chain (tf_chain_id flds) = None then TE_unsupported_chain
      else if tf_amount flds = 0 then TE_zero_amount
      else if u64_max - tf_amount flds < tf_fee flds then TE_amount_fee_overflow
      else TE_none)"

definition serialize_unsigned :: "u32 \<Rightarrow> bytes \<Rightarrow> Address \<Rightarrow> u64 \<Rightarrow> u64 \<Rightarrow> u64 \<Rightarrow> bytes" where
  "serialize_unsigned chain_id sender_public_key recipient amount fee account_nonce =
     (let encoded = [] @ transaction_magic;
          encoded = encoded @ [transaction_version];
          encoded = append_u32_le encoded chain_id;
          encoded = encoded @ sender_public_key;
          encoded = encoded @ addr_hash recipient;
          encoded = append_u64_le encoded amount;
          encoded = append_u64_le encoded fee;
          encoded = append_u64_le encoded account_nonce
      in encoded)"

definition tx_sender :: "sodium \<Rightarrow> SignedTransaction \<Rightarrow> Address" where
  "tx_sender so tx = Address_from_public_key so (tx_sender_public_key tx)"

definition tx_signing_bytes :: "SignedTransaction \<Rightarrow> bytes" where
  "tx_signing_bytes tx =
     serialize_unsigned (tx_chain_id tx) (tx_sender_public_key tx) (tx_recipient tx)
       (tx_amount tx) (tx_fee tx) (tx_account_nonce tx)"

definition tx_serialize :: "SignedTransaction \<Rightarrow> bytes" where
  "tx_serialize tx = tx_signing_bytes tx @ tx_signature tx"

definition tx_id :: "sodium \<Rightarrow> SignedTransaction \<Rightarrow> bytes" where
  "tx_id so tx = sha256 so (tx_serialize tx)"

definition sign_transaction :: "sodium \<Rightarrow> Wallet \<Rightarrow> TransactionFields \<Rightarrow> TransactionResult" where
  "sign_transaction so signer flds =
     (let validation_error = validate_fields flds
      in if validation_error \<noteq> TE_none then Inl validation_error
         else
           (let signing_bytes =
                  serialize_unsigned (tf_chain_id flds) (Wallet_public_key signer)
                    (tf_recipient flds) (tf_amount flds) (tf_fee flds) (tf_account_nonce flds);
                signature = Wallet_sign so signer signing_bytes
            in Inr \<lparr> tx_chain_id = tf_chain_id flds,
                     tx_sender_public_key = Wallet_public_key signer,
                     tx_recipient = tf_recipient flds,
                     tx_amount = tf_amount flds,
                     tx_fee = tf_fee flds,
                     tx_account_nonce = tf_account_nonce flds,
                     tx_signature = signature \<rparr>))"

text \<open>
  The offsets of the source are the running sums: 4 the version, 5 the chain identifier,
  9 the sender key, 41 the recipient, 73 the amount, 81 the fee, 89 the nonce, 97 the
  signature.
\<close>

definition deserialize_transaction :: "sodium \<Rightarrow> bytes \<Rightarrow> TransactionResult" where
  "deserialize_transaction so encoded =
     (if length encoded \<noteq> signed_transaction_size then Inl TE_invalid_size
      else if take (length transaction_magic) encoded \<noteq> transaction_magic then Inl TE_invalid_magic
      else
        (let offset = length transaction_magic
         in if encoded ! offset \<noteq> transaction_version then Inl TE_unsupported_version
            else
              (let offset = offset + 1;
                   chain_id = read_u32_le encoded offset;
                   offset = offset + 4
               in if network_parameters_for_chain chain_id = None then Inl TE_unsupported_chain
                  else
                    (let sender_public_key = read_array public_key_size encoded offset;
                         offset = offset + public_key_size;
                         recipient_hash = read_array hash256_size encoded offset;
                         offset = offset + hash256_size;
                         recipient = Address recipient_hash;
                         amount = read_u64_le encoded offset;
                         offset = offset + 8;
                         fee = read_u64_le encoded offset;
                         offset = offset + 8;
                         account_nonce = read_u64_le encoded offset;
                         offset = offset + 8;
                         validation_error = validate_fields
                           \<lparr> tf_recipient = recipient, tf_amount = amount, tf_fee = fee,
                             tf_account_nonce = account_nonce, tf_chain_id = chain_id \<rparr>
                     in if validation_error \<noteq> TE_none then Inl validation_error
                        else
                          (let signature = read_array signature_size encoded offset
                           in if \<not> verify_signature so (take unsigned_transaction_size encoded)
                                     signature sender_public_key
                              then Inl TE_invalid_signature
                              else Inr \<lparr> tx_chain_id = chain_id,
                                         tx_sender_public_key = sender_public_key,
                                         tx_recipient = recipient,
                                         tx_amount = amount,
                                         tx_fee = fee,
                                         tx_account_nonce = account_nonce,
                                         tx_signature = signature \<rparr>)))))"

fun transaction_error_message :: "TransactionError \<Rightarrow> string" where
  "transaction_error_message TE_none = ''no error''"
| "transaction_error_message TE_zero_amount = ''transaction amount must be greater than zero''"
| "transaction_error_message TE_amount_fee_overflow = ''transaction amount plus fee overflows uint64''"
| "transaction_error_message TE_invalid_size = ''transaction size is invalid''"
| "transaction_error_message TE_invalid_magic = ''transaction magic is invalid''"
| "transaction_error_message TE_unsupported_version = ''transaction version is not supported''"
| "transaction_error_message TE_unsupported_chain = ''transaction chain ID is not supported''"
| "transaction_error_message TE_invalid_signature = ''transaction signature is invalid''"
| "transaction_error_message TE_file_already_exists = ''transaction file already exists''"
| "transaction_error_message TE_io_error = ''transaction file I/O failed''"

subsection \<open>Transaction files\<close>

definition save_transaction ::
    "io \<Rightarrow> files \<Rightarrow> SignedTransaction \<Rightarrow> path \<Rightarrow> TransactionError \<times> files" where
  "save_transaction io fs tx p =
     save_new_file TE_none TE_file_already_exists TE_io_error io fs p (tx_serialize tx)"

definition load_transaction :: "sodium \<Rightarrow> io \<Rightarrow> files \<Rightarrow> path \<Rightarrow> TransactionResult" where
  "load_transaction so io fs p =
     (case fs_file_size io fs p of
        None \<Rightarrow> Inl TE_io_error
      | Some n \<Rightarrow>
          if n \<noteq> signed_transaction_size then Inl TE_invalid_size
          else case fs_read io fs p signed_transaction_size of
            None \<Rightarrow> Inl TE_io_error
          | Some encoded \<Rightarrow> deserialize_transaction so encoded)"

section \<open>The class invariant\<close>

text \<open>
  The constructor of \<open>SignedTransaction\<close> is private; \<open>sign_transaction\<close> and
  \<open>deserialize_transaction\<close> are the only ways to make one. \<open>tx_valid\<close> is what both
  establish: the arrays have their sizes, the fields pass \<open>validate_fields\<close>, and the
  signature verifies.
\<close>

definition tx_fields :: "SignedTransaction \<Rightarrow> TransactionFields" where
  "tx_fields tx =
     \<lparr> tf_recipient = tx_recipient tx, tf_amount = tx_amount tx, tf_fee = tx_fee tx,
       tf_account_nonce = tx_account_nonce tx, tf_chain_id = tx_chain_id tx \<rparr>"

definition tx_valid :: "sodium \<Rightarrow> SignedTransaction \<Rightarrow> bool" where
  "tx_valid so tx \<longleftrightarrow>
     length (tx_sender_public_key tx) = 32 \<and> length (addr_hash (tx_recipient tx)) = 32 \<and>
     length (tx_signature tx) = 64 \<and> validate_fields (tx_fields tx) = TE_none \<and>
     verify_signature so (tx_signing_bytes tx) (tx_signature tx) (tx_sender_public_key tx)"

lemma validate_fields_none_iff:
  "validate_fields f = TE_none \<longleftrightarrow>
     supported_chain (tf_chain_id f) \<and> tf_amount f \<noteq> 0 \<and>
     unat (tf_amount f) + unat (tf_fee f) < 2 ^ 64"
  by (auto simp: validate_fields_def add_guard_iff)

lemma tx_signing_bytes_eq:
  "tx_signing_bytes tx =
     transaction_magic @ [transaction_version] @ le_bytes 4 (tx_chain_id tx) @
     tx_sender_public_key tx @ addr_hash (tx_recipient tx) @
     le_bytes 8 (tx_amount tx) @ le_bytes 8 (tx_fee tx) @ le_bytes 8 (tx_account_nonce tx)"
  by (simp add: tx_signing_bytes_def serialize_unsigned_def append_u32_le_def append_u64_le_def)

lemma length_tx_signing_bytes:
  "tx_valid so tx \<Longrightarrow> length (tx_signing_bytes tx) = 97"
  by (simp add: tx_signing_bytes_eq tx_valid_def transaction_constants)

lemma length_tx_serialize [byte_length]:
  "tx_valid so tx \<Longrightarrow> length (tx_serialize tx) = 161"
  using length_tx_signing_bytes [of so tx] by (simp add: tx_serialize_def tx_valid_def)

lemma length_tx_id [simp, byte_length]: "length (tx_id so tx) = 32"
  by (simp add: tx_id_def)

text \<open>Amount plus fee of a valid transaction does not wrap.\<close>

lemma tx_valid_debit:
  assumes "tx_valid so tx"
  shows "unat (tx_amount tx + tx_fee tx) = unat (tx_amount tx) + unat (tx_fee tx)"
  using assms by (simp add: tx_valid_def validate_fields_none_iff tx_fields_def unat_add_bounded)

subsection \<open>The decoder field by field\<close>

text \<open>The transaction a 161-byte buffer stands for, before any check.\<close>

definition tx_of_bytes :: "bytes \<Rightarrow> SignedTransaction" where
  "tx_of_bytes bs =
     \<lparr> tx_chain_id = read_u32_le bs 5, tx_sender_public_key = read_array 32 bs 9,
       tx_recipient = Address (read_array 32 bs 41), tx_amount = read_u64_le bs 73,
       tx_fee = read_u64_le bs 81, tx_account_nonce = read_u64_le bs 89,
       tx_signature = read_array 64 bs 97 \<rparr>"

lemma length_transaction_magic [simp]: "length transaction_magic = 4"
  by (simp add: transaction_magic_def)

lemma deserialize_transaction_eq:
  "deserialize_transaction so bs =
     (if length bs \<noteq> 161 then Inl TE_invalid_size
      else if take 4 bs \<noteq> transaction_magic then Inl TE_invalid_magic
      else if bs ! 4 \<noteq> transaction_version then Inl TE_unsupported_version
      else if \<not> supported_chain (tx_chain_id (tx_of_bytes bs)) then Inl TE_unsupported_chain
      else if validate_fields (tx_fields (tx_of_bytes bs)) \<noteq> TE_none
        then Inl (validate_fields (tx_fields (tx_of_bytes bs)))
      else if \<not> verify_signature so (take 97 bs) (tx_signature (tx_of_bytes bs))
                (tx_sender_public_key (tx_of_bytes bs))
        then Inl TE_invalid_signature
      else Inr (tx_of_bytes bs))"
  by (simp add: deserialize_transaction_def Let_def tx_of_bytes_def tx_fields_def crypto_sizes
      signed_transaction_size_def unsigned_transaction_size_def)

lemma tx_of_bytes_serialize:
  assumes "tx_valid so tx"
  shows "tx_of_bytes (tx_serialize tx) = tx"
    and "take 4 (tx_serialize tx) = transaction_magic"
    and "tx_serialize tx ! 4 = transaction_version"
    and "take 97 (tx_serialize tx) = tx_signing_bytes tx"
proof -
  show "tx_of_bytes (tx_serialize tx) = tx"
    using assms
    by (cases tx) (simp add: tx_of_bytes_def tx_serialize_def tx_signing_bytes_eq tx_valid_def field_read)
  show "take 4 (tx_serialize tx) = transaction_magic"
    and "tx_serialize tx ! 4 = transaction_version"
    by (simp_all add: tx_serialize_def tx_signing_bytes_eq field_read)
  show "take 97 (tx_serialize tx) = tx_signing_bytes tx"
    using length_tx_signing_bytes [OF assms] by (simp add: tx_serialize_def)
qed

lemma deserialize_tx_serialize:
  assumes "tx_valid so tx"
  shows "deserialize_transaction so (tx_serialize tx) = Inr tx"
  using assms length_tx_serialize [OF assms]
  by (simp add: deserialize_transaction_eq tx_of_bytes_serialize [OF assms] tx_valid_def
      validate_fields_none_iff tx_fields_def)

lemma serialize_tx_of_bytes:
  assumes "length bs = 161" and "take 4 bs = transaction_magic" and "bs ! 4 = transaction_version"
  shows "tx_signing_bytes (tx_of_bytes bs) = take 97 bs"
    and "tx_serialize (tx_of_bytes bs) = bs"
proof -
  have ver: "[transaction_version] = take 1 (drop 4 bs)"
    using assms nth_slice [of 4 bs] by simp
  show sb: "tx_signing_bytes (tx_of_bytes bs) = take 97 bs"
    unfolding tx_signing_bytes_eq ver assms(2) [symmetric]
    using assms(1)
    by (simp add: tx_of_bytes_def read_array_def u32.enc_dec u64.enc_dec field_join)
  have "tx_serialize (tx_of_bytes bs) = take 97 bs @ take 64 (drop 97 bs)"
    unfolding tx_serialize_def sb by (simp add: tx_of_bytes_def read_array_def)
  also have "\<dots> = bs" using assms(1) by (simp add: field_join)
  finally show "tx_serialize (tx_of_bytes bs) = bs" .
qed

lemma deserialize_transaction_Inr:
  assumes "deserialize_transaction so bs = Inr tx"
  shows "tx = tx_of_bytes bs" "length bs = 161" "take 4 bs = transaction_magic"
    "bs ! 4 = transaction_version" "validate_fields (tx_fields tx) = TE_none"
    "verify_signature so (take 97 bs) (tx_signature tx) (tx_sender_public_key tx)"
  using assms by (auto simp: deserialize_transaction_eq split: if_splits)

lemma deserialize_transaction_valid:
  assumes "deserialize_transaction so bs = Inr tx"
  shows "tx_valid so tx"
proof -
  note d = deserialize_transaction_Inr [OF assms]
  show ?thesis
    unfolding tx_valid_def
    using d(5,6) d(2) serialize_tx_of_bytes(1) [OF d(2,3,4)]
    by (simp add: d(1)) (simp add: tx_of_bytes_def)
qed

text \<open>The wire format of transactions is a canonical encoding.\<close>

interpretation tx_codec: canonical_codec tx_serialize "deserialize_transaction so" "tx_valid so"
  for so
proof unfold_locales
  fix tx bs
  show "tx_valid so tx \<Longrightarrow> deserialize_transaction so (tx_serialize tx) = Inr tx"
    by (rule deserialize_tx_serialize)
  show "deserialize_transaction so bs = Inr tx \<Longrightarrow> tx_valid so tx"
    by (rule deserialize_transaction_valid)
  show "deserialize_transaction so bs = Inr tx \<Longrightarrow> tx_serialize tx = bs"
    using deserialize_transaction_Inr serialize_tx_of_bytes(2) by metis
qed

lemma sign_transaction_Inr:
  assumes "sign_transaction so w f = Inr tx"
  shows "validate_fields f = TE_none" "tx_fields tx = f"
    "tx_sender_public_key tx = Wallet_public_key w"
    "tx_signature tx = Wallet_sign so w (tx_signing_bytes tx)"
  using assms
  by (auto simp: sign_transaction_def Let_def tx_fields_def tx_signing_bytes_def split: if_splits)

lemma sign_transaction_valid:
  assumes "sign_transaction so w f = Inr tx" and "Wallet_ok so w" and "signatures_verify so"
    and "Address_ok (tf_recipient f)"
  shows "tx_valid so tx"
proof -
  note s = sign_transaction_Inr [OF assms(1)]
  have "tx_recipient tx = tf_recipient f"
    using s(2) by (metis tx_fields_def TransactionFields.select_convs(1))
  then show ?thesis
    using s assms(2,3,4)
    by (simp add: tx_valid_def Wallet_sign_def Address_ok_def signatures_verify_def
        Wallet_ok_def Wallet_public_key_def KeyPair_ok_lengths)
qed

section \<open>Properties\<close>

text \<open>
  C14. The 161-byte transaction format is canonical. A byte string decodes to a transaction
  exactly when the transaction is valid (array sizes, supported chain, nonzero amount, no
  overflow of amount plus fee, signature verifies) and serializes to that byte string; in
  particular two different byte strings never decode to the same transaction.
\<close>

theorem transaction_format_canonical:
  "deserialize_transaction so bs = Inr tx \<longleftrightarrow> tx_valid so tx \<and> tx_serialize tx = bs"
  by (rule tx_codec.decode_iff)

text \<open>
  Signing with a wallet whose keys are well formed fails exactly when
  \<open>validate_fields\<close> reports an error and returns that error; otherwise it gives a
  transaction with the requested fields and the wallet's public key that every receiver
  decodes from its serialization.
\<close>

theorem sign_transaction_accepted:
  assumes "Wallet_ok so w" and "signatures_verify so" and "Address_ok (tf_recipient f)"
  shows "(validate_fields f \<noteq> TE_none \<longrightarrow> sign_transaction so w f = Inl (validate_fields f)) \<and>
    (validate_fields f = TE_none \<longrightarrow>
      (\<exists>tx. sign_transaction so w f = Inr tx \<and> tx_fields tx = f \<and>
         tx_sender so tx = Wallet_address so w \<and>
         deserialize_transaction so (tx_serialize tx) = Inr tx))"
proof (intro conjI impI)
  assume "validate_fields f \<noteq> TE_none"
  then show "sign_transaction so w f = Inl (validate_fields f)"
    by (simp add: sign_transaction_def)
next
  assume "validate_fields f = TE_none"
  then obtain tx where tx: "sign_transaction so w f = Inr tx"
    by (simp add: sign_transaction_def Let_def)
  note s = sign_transaction_Inr [OF tx]
  have "tx_valid so tx" using tx assms by (rule sign_transaction_valid)
  then have "deserialize_transaction so (tx_serialize tx) = Inr tx"
    by (rule tx_codec.decode_encode)
  with tx s show "\<exists>tx. sign_transaction so w f = Inr tx \<and> tx_fields tx = f \<and>
      tx_sender so tx = Wallet_address so w \<and>
      deserialize_transaction so (tx_serialize tx) = Inr tx"
    by (auto simp: tx_sender_def Wallet_address_def)
qed

definition demo_fields :: TransactionFields where
  "demo_fields = \<lparr> tf_recipient = Address (replicate 32 5), tf_amount = 10, tf_fee = 2,
     tf_account_nonce = 0, tf_chain_id = 1 \<rparr>"

theorem sign_transaction_accepted_witness:
  "\<exists>tx. sign_transaction demo_sodium (demo_wallet 1) demo_fields = Inr tx \<and>
     tx_fields tx = demo_fields \<and>
     tx_sender demo_sodium tx = Wallet_address demo_sodium (demo_wallet 1) \<and>
     deserialize_transaction demo_sodium (tx_serialize tx) = Inr tx"
proof -
  have r: "Address_ok (tf_recipient demo_fields)" by (simp add: Address_ok_def demo_fields_def)
  have "validate_fields demo_fields = TE_none"
    by (simp add: demo_fields_def validate_fields_none_iff supported_chain)
  then show ?thesis
    using sign_transaction_accepted [OF Wallet_ok_demo [of 1] signatures_verify_demo r] by simp
qed

text \<open>
  A transaction saved to a file is read back unchanged; a file that already exists
  is left as it is and the save reports it.
\<close>

theorem transaction_file_roundtrip:
  assumes "tx_valid so tx"
  shows "(save_transaction io fs tx p = (TE_none, fs') \<longrightarrow>
      load_transaction so io_ok fs' p = Inr tx) \<and>
    (fs p \<noteq> None \<and> \<not> io_exists_error io \<longrightarrow>
      save_transaction io fs tx p = (TE_file_already_exists, fs))"
proof (intro conjI impI)
  assume "save_transaction io fs tx p = (TE_none, fs')"
  then have "fs' = fs(p \<mapsto> tx_serialize tx)"
    using save_new_file_none by (fastforce simp: save_transaction_def)
  then show "load_transaction so io_ok fs' p = Inr tx"
    using assms length_tx_serialize [OF assms]
    by (simp add: load_transaction_def fs_file_size_def fs_read_def io_ok_def
        signed_transaction_size_def deserialize_tx_serialize)
next
  assume "fs p \<noteq> None \<and> \<not> io_exists_error io"
  then show "save_transaction io fs tx p = (TE_file_already_exists, fs)"
    by (simp add: save_transaction_def save_new_file_def fs_exists_def)
qed

definition demo_tx :: "nat \<Rightarrow> u64 \<Rightarrow> u64 \<Rightarrow> SignedTransaction" where
  "demo_tx n fee nonce =
     \<lparr> tx_chain_id = 1, tx_sender_public_key = demo_seed n, tx_recipient = Address (replicate 32 5),
       tx_amount = 10, tx_fee = fee, tx_account_nonce = nonce, tx_signature = replicate 64 7 \<rparr>"

lemma tx_valid_demo:
  assumes "unat fee < 100"
  shows "tx_valid demo_sodium (demo_tx n fee nonce)"
  using assms
  by (simp add: tx_valid_def demo_tx_def tx_fields_def validate_fields_none_iff supported_chain
      verify_signature_def demo_sodium_def)

theorem transaction_file_roundtrip_witness:
  "fst (save_transaction io_ok Map.empty (demo_tx 1 2 0) ''a.bbctx'') = TE_none \<and>
   load_transaction demo_sodium io_ok
     (snd (save_transaction io_ok Map.empty (demo_tx 1 2 0) ''a.bbctx'')) ''a.bbctx'' = Inr (demo_tx 1 2 0)"
proof -
  have v: "tx_valid demo_sodium (demo_tx 1 2 0)" by (rule tx_valid_demo) simp
  have "fst (save_transaction io_ok Map.empty (demo_tx 1 2 0) ''a.bbctx'') = TE_none"
    by (simp add: save_transaction_def save_new_file_def fs_defs io_ok_def)
  moreover from this have "save_transaction io_ok Map.empty (demo_tx 1 2 0) ''a.bbctx'' =
      (TE_none, snd (save_transaction io_ok Map.empty (demo_tx 1 2 0) ''a.bbctx''))"
    by (metis prod.collapse)
  ultimately show ?thesis
    using transaction_file_roundtrip [OF v] by blast
qed

end
