(* ===== verification/BBC_Block.thy ===== *)
theory BBC_Block
  imports BBC_Transaction
begin

text \<open>
  Blocks: \<open>include/bbc/chain/block.hpp\<close>, \<open>src/chain/block.cpp\<close> and
  \<open>src/chain/block_file.cpp\<close>. A block is a 165-byte header followed by its
  transactions; the header commits to them by a Merkle root with separate hash domains
  for leaves, inner nodes and the empty list.
\<close>

section \<open>Data\<close>

datatype BlockError =
    BE_none
  | BE_too_many_transactions
  | BE_duplicate_transaction
  | BE_invalid_size
  | BE_invalid_magic
  | BE_unsupported_version
  | BE_unsupported_chain
  | BE_invalid_height
  | BE_invalid_previous_hash
  | BE_invalid_reward_recipient
  | BE_invalid_transaction
  | BE_invalid_transaction_root
  | BE_invalid_genesis
  | BE_file_already_exists
  | BE_io_error

record BlockFields =
  bf_height :: u64
  bf_previous_block_hash :: bytes
  bf_reward_recipient :: Address
  bf_timestamp :: u64
  bf_difficulty_target :: bytes
  bf_mining_nonce :: u64
  bf_transactions :: "SignedTransaction list"
  bf_chain_id :: u32

record Block =
  blk_chain_id :: u32
  blk_height :: u64
  blk_previous_block_hash :: bytes
  blk_transaction_root :: bytes
  blk_reward_recipient :: "Address option"
  blk_timestamp :: u64
  blk_difficulty_target :: bytes
  blk_mining_nonce :: u64
  blk_transactions :: "SignedTransaction list"

type_synonym BlockResult = "BlockError + Block"

definition block_header_size :: nat where
  "block_header_size = 165"

definition block_difficulty_target_offset :: nat where
  "block_difficulty_target_offset = 121"

definition block_mining_nonce_offset :: nat where
  "block_mining_nonce_offset = 153"

definition maximum_transactions_per_block :: nat where
  "maximum_transactions_per_block = 1000"

definition maximum_block_size :: nat where
  "maximum_block_size = block_header_size + maximum_transactions_per_block * signed_transaction_size"

definition block_magic :: bytes where
  "block_magic = [0x42, 0x42, 0x4C, 0x4B]"

definition block_version :: byte where
  "block_version = 1"

definition merkle_leaf_domain :: byte where
  "merkle_leaf_domain = 0"

definition merkle_node_domain :: byte where
  "merkle_node_domain = 1"

definition empty_root_domain :: byte where
  "empty_root_domain = 2"

lemmas block_sizes = block_header_size_def block_difficulty_target_offset_def
  block_mining_nonce_offset_def maximum_transactions_per_block_def maximum_block_size_def
  signed_transaction_size_def

section \<open>Operations\<close>

definition is_zero :: "bytes \<Rightarrow> bool" where
  "is_zero value = list_all (\<lambda>byte. byte = 0) value"

definition hash_leaf :: "sodium \<Rightarrow> bytes \<Rightarrow> bytes" where
  "hash_leaf so transaction_id = sha256 so ([merkle_leaf_domain] @ transaction_id)"

definition hash_node :: "sodium \<Rightarrow> bytes \<Rightarrow> bytes \<Rightarrow> bytes" where
  "hash_node so left right = sha256 so ([merkle_node_domain] @ left @ right)"

text \<open>The loop of \<open>validate_transactions\<close> over the identifiers seen so far.\<close>

fun validate_transactions_from ::
    "sodium \<Rightarrow> u32 \<Rightarrow> bytes list \<Rightarrow> SignedTransaction list \<Rightarrow> BlockError" where
  "validate_transactions_from so chain_id transaction_ids [] = BE_none"
| "validate_transactions_from so chain_id transaction_ids (value # values) =
     (if tx_chain_id value \<noteq> chain_id then BE_invalid_transaction
      else
        (let i = tx_id so value
         in if i \<in> set transaction_ids then BE_duplicate_transaction
            else validate_transactions_from so chain_id (transaction_ids @ [i]) values))"

definition validate_transactions :: "sodium \<Rightarrow> SignedTransaction list \<Rightarrow> u32 \<Rightarrow> BlockError" where
  "validate_transactions so transactions chain_id =
     (if maximum_transactions_per_block < length transactions then BE_too_many_transactions
      else validate_transactions_from so chain_id [] transactions)"

definition maximum_target :: bytes where
  "maximum_target = replicate hash256_size 0xFF"

definition is_genesis :: "Block \<Rightarrow> bool" where
  "is_genesis b \<longleftrightarrow> blk_height b = 0"

definition serialize_header :: "Block \<Rightarrow> bytes" where
  "serialize_header b =
     (let encoded = [] @ block_magic;
          encoded = encoded @ [block_version];
          encoded = append_u32_le encoded (blk_chain_id b);
          encoded = append_u64_le encoded (blk_height b);
          encoded = encoded @ blk_previous_block_hash b;
          encoded = encoded @ blk_transaction_root b;
          encoded = (case blk_reward_recipient b of
              Some a \<Rightarrow> encoded @ addr_hash a
            | None \<Rightarrow> encoded @ replicate hash256_size 0);
          encoded = append_u64_le encoded (blk_timestamp b);
          encoded = encoded @ blk_difficulty_target b;
          encoded = append_u64_le encoded (blk_mining_nonce b);
          encoded = append_u32_le encoded (of_nat (length (blk_transactions b)))
      in encoded)"

definition blk_serialize :: "Block \<Rightarrow> bytes" where
  "blk_serialize b = serialize_header b @ concat (map tx_serialize (blk_transactions b))"

definition blk_id :: "sodium \<Rightarrow> Block \<Rightarrow> bytes" where
  "blk_id so b = sha256 so (serialize_header b)"

definition with_mining_nonce :: "Block \<Rightarrow> u64 \<Rightarrow> Block" where
  "with_mining_nonce b mining_nonce =
     (if is_genesis b then b else b\<lparr> blk_mining_nonce := mining_nonce \<rparr>)"

text \<open>
  One round of the Merkle loop: a level of odd size repeats its last hash, then
  neighbours are hashed in pairs. The loop runs until one hash is left.
\<close>

definition next_merkle_level :: "sodium \<Rightarrow> bytes list \<Rightarrow> bytes list" where
  "next_merkle_level so level =
     (let level = (if length level mod 2 \<noteq> 0 then level @ [last level] else level)
      in map (\<lambda>k. hash_node so (level ! (2 * k)) (level ! (2 * k + 1))) [0..<length level div 2])"

lemma length_next_merkle_level [simp]:
  "length (next_merkle_level so level) = (length level + 1) div 2"
  unfolding next_merkle_level_def Let_def by (simp; presburger)

function merkle_root :: "sodium \<Rightarrow> bytes list \<Rightarrow> bytes" where
  "merkle_root so level =
     (if 1 < length level then merkle_root so (next_merkle_level so level) else level ! 0)"
  by pat_completeness auto
termination
  by (relation "measure (\<lambda>(so, level). length level)") auto

declare merkle_root.simps [simp del]

definition calculate_transaction_root :: "sodium \<Rightarrow> SignedTransaction list \<Rightarrow> bytes" where
  "calculate_transaction_root so transactions =
     (if transactions = [] then sha256 so [empty_root_domain]
      else merkle_root so (map (\<lambda>value. hash_leaf so (tx_id so value)) transactions))"

definition create_block :: "sodium \<Rightarrow> BlockFields \<Rightarrow> BlockResult" where
  "create_block so flds =
     (if network_parameters_for_chain (bf_chain_id flds) = None then Inl BE_unsupported_chain
      else if bf_height flds = 0 then Inl BE_invalid_height
      else if is_zero (bf_previous_block_hash flds) then Inl BE_invalid_previous_hash
      else if is_zero (addr_hash (bf_reward_recipient flds)) then Inl BE_invalid_reward_recipient
      else
        (let transaction_error = validate_transactions so (bf_transactions flds) (bf_chain_id flds)
         in if transaction_error \<noteq> BE_none then Inl transaction_error
            else Inr \<lparr> blk_chain_id = bf_chain_id flds,
                       blk_height = bf_height flds,
                       blk_previous_block_hash = bf_previous_block_hash flds,
                       blk_transaction_root = calculate_transaction_root so (bf_transactions flds),
                       blk_reward_recipient = Some (bf_reward_recipient flds),
                       blk_timestamp = bf_timestamp flds,
                       blk_difficulty_target = bf_difficulty_target flds,
                       blk_mining_nonce = bf_mining_nonce flds,
                       blk_transactions = bf_transactions flds \<rparr>))"

definition genesis_block :: "sodium \<Rightarrow> u32 \<Rightarrow> Block" where
  "genesis_block so chain_id =
     \<lparr> blk_chain_id = chain_id, blk_height = 0, blk_previous_block_hash = replicate hash256_size 0,
       blk_transaction_root = calculate_transaction_root so [], blk_reward_recipient = None,
       blk_timestamp = 0, blk_difficulty_target = maximum_target, blk_mining_nonce = 0,
       blk_transactions = [] \<rparr>"

text \<open>The loop of \<open>deserialize_block\<close> that decodes the transactions after the header.\<close>

fun read_transactions :: "sodium \<Rightarrow> u32 \<Rightarrow> bytes \<Rightarrow> nat \<Rightarrow> nat \<Rightarrow> BlockError + SignedTransaction list" where
  "read_transactions so chain_id encoded 0 offset = Inr []"
| "read_transactions so chain_id encoded (Suc count) offset =
     (case deserialize_transaction so (read_array signed_transaction_size encoded offset) of
        Inl _ \<Rightarrow> Inl BE_invalid_transaction
      | Inr tx \<Rightarrow>
          if tx_chain_id tx \<noteq> chain_id then Inl BE_invalid_transaction
          else case read_transactions so chain_id encoded count (offset + signed_transaction_size) of
            Inl e \<Rightarrow> Inl e
          | Inr txs \<Rightarrow> Inr (tx # txs))"

definition deserialize_block :: "sodium \<Rightarrow> bytes \<Rightarrow> BlockResult" where
  "deserialize_block so encoded =
     (if length encoded < block_header_size \<or> maximum_block_size < length encoded
      then Inl BE_invalid_size
      else if take (length block_magic) encoded \<noteq> block_magic then Inl BE_invalid_magic
      else if encoded ! 4 \<noteq> block_version then Inl BE_unsupported_version
      else
        (let chain_id = read_u32_le encoded 5
         in if network_parameters_for_chain chain_id = None then Inl BE_unsupported_chain
            else
              (let transaction_count = unat (read_u32_le encoded 161)
               in if maximum_transactions_per_block < transaction_count
                  then Inl BE_too_many_transactions
                  else if length encoded \<noteq>
                      block_header_size + transaction_count * signed_transaction_size
                  then Inl BE_invalid_size
                  else
                    (let height = read_u64_le encoded 9;
                         previous_hash = read_array hash256_size encoded 17;
                         encoded_root = read_array hash256_size encoded 49;
                         reward_hash = read_array hash256_size encoded 81;
                         timestamp = read_u64_le encoded 113;
                         target = read_array hash256_size encoded block_difficulty_target_offset;
                         mining_nonce = read_u64_le encoded block_mining_nonce_offset
                     in case read_transactions so chain_id encoded transaction_count block_header_size of
                          Inl e \<Rightarrow> Inl e
                        | Inr transactions \<Rightarrow>
                            (let transaction_error = validate_transactions so transactions chain_id
                             in if transaction_error \<noteq> BE_none then Inl transaction_error
                                else if calculate_transaction_root so transactions \<noteq> encoded_root
                                then Inl BE_invalid_transaction_root
                                else if height = 0
                                then (let canonical_genesis = genesis_block so chain_id
                                      in if encoded \<noteq> blk_serialize canonical_genesis
                                         then Inl BE_invalid_genesis
                                         else Inr canonical_genesis)
                                else if is_zero previous_hash then Inl BE_invalid_previous_hash
                                else if is_zero reward_hash then Inl BE_invalid_reward_recipient
                                else Inr \<lparr> blk_chain_id = chain_id, blk_height = height,
                                           blk_previous_block_hash = previous_hash,
                                           blk_transaction_root = encoded_root,
                                           blk_reward_recipient = Some (Address reward_hash),
                                           blk_timestamp = timestamp,
                                           blk_difficulty_target = target,
                                           blk_mining_nonce = mining_nonce,
                                           blk_transactions = transactions \<rparr>)))))"

fun block_error_message :: "BlockError \<Rightarrow> string" where
  "block_error_message BE_none = ''no error''"
| "block_error_message BE_too_many_transactions = ''block contains too many transactions''"
| "block_error_message BE_duplicate_transaction = ''block contains a duplicate transaction''"
| "block_error_message BE_invalid_size = ''block size is invalid''"
| "block_error_message BE_invalid_magic = ''block magic is invalid''"
| "block_error_message BE_unsupported_version = ''block version is not supported''"
| "block_error_message BE_unsupported_chain = ''block chain ID is not supported''"
| "block_error_message BE_invalid_height = ''block height is invalid''"
| "block_error_message BE_invalid_previous_hash = ''previous block hash is invalid''"
| "block_error_message BE_invalid_reward_recipient = ''block reward recipient is invalid''"
| "block_error_message BE_invalid_transaction = ''block contains an invalid transaction''"
| "block_error_message BE_invalid_transaction_root = ''block transaction root is invalid''"
| "block_error_message BE_invalid_genesis = ''genesis block does not match the protocol constant''"
| "block_error_message BE_file_already_exists = ''block file already exists''"
| "block_error_message BE_io_error = ''block file I/O failed''"

subsection \<open>Block files\<close>

definition save_block :: "io \<Rightarrow> files \<Rightarrow> Block \<Rightarrow> path \<Rightarrow> BlockError \<times> files" where
  "save_block io fs b p =
     save_new_file BE_none BE_file_already_exists BE_io_error io fs p (blk_serialize b)"

definition load_block :: "sodium \<Rightarrow> io \<Rightarrow> files \<Rightarrow> path \<Rightarrow> BlockResult" where
  "load_block so io fs p =
     (case fs_file_size io fs p of
        None \<Rightarrow> Inl BE_io_error
      | Some n \<Rightarrow>
          if n < block_header_size \<or> maximum_block_size < n then Inl BE_invalid_size
          else case fs_read io fs p n of
            None \<Rightarrow> Inl BE_io_error
          | Some encoded \<Rightarrow> deserialize_block so encoded)"

section \<open>The class invariant\<close>

text \<open>
  Blocks come from \<open>create_block\<close>, \<open>deserialize_block\<close>, \<open>genesis_block\<close> and
  \<open>with_mining_nonce\<close> only. \<open>blk_valid\<close> is what they establish when their inputs hold
  valid transactions and arrays of the declared sizes.
\<close>

definition blk_valid :: "sodium \<Rightarrow> Block \<Rightarrow> bool" where
  "blk_valid so b \<longleftrightarrow>
     supported_chain (blk_chain_id b) \<and>
     (if is_genesis b then b = genesis_block so (blk_chain_id b)
      else (\<exists>a. blk_reward_recipient b = Some a \<and> length (addr_hash a) = 32 \<and> \<not> is_zero (addr_hash a)) \<and>
        length (blk_previous_block_hash b) = 32 \<and> \<not> is_zero (blk_previous_block_hash b) \<and>
        length (blk_difficulty_target b) = 32 \<and>
        blk_transaction_root b = calculate_transaction_root so (blk_transactions b) \<and>
        list_all (tx_valid so) (blk_transactions b) \<and>
        validate_transactions so (blk_transactions b) (blk_chain_id b) = BE_none)"

lemma length_merkle_root:
  assumes "level \<noteq> []" and "\<forall>h \<in> set level. length h = 32"
  shows "length (merkle_root so level) = 32"
  using assms
proof (induction so level rule: merkle_root.induct)
  case (1 so level)
  have next_level: "next_merkle_level so level \<noteq> []" if "1 < length level"
  proof -
    have "0 < length (next_merkle_level so level)"
      unfolding length_next_merkle_level using that by presburger
    then show ?thesis unfolding length_greater_0_conv .
  qed
  have "\<forall>h \<in> set (next_merkle_level so level). length h = 32"
    by (simp add: next_merkle_level_def Let_def hash_node_def)
  with 1 next_level show ?case
    by (cases "1 < length level") (simp_all add: merkle_root.simps [of so level])
qed

lemma length_transaction_root [simp, byte_length]:
  "length (calculate_transaction_root so txs) = 32"
  by (simp add: calculate_transaction_root_def length_merkle_root hash_leaf_def)

lemma validate_transactions_from_none_iff:
  "validate_transactions_from so c ids txs = BE_none \<longleftrightarrow>
     (\<forall>tx \<in> set txs. tx_chain_id tx = c) \<and> distinct (map (tx_id so) txs) \<and>
     set ids \<inter> set (map (tx_id so) txs) = {}"
  by (induction so c ids txs rule: validate_transactions_from.induct) (auto simp: Let_def)

lemma validate_transactions_none_iff:
  "validate_transactions so txs c = BE_none \<longleftrightarrow>
     length txs \<le> 1000 \<and> (\<forall>tx \<in> set txs. tx_chain_id tx = c) \<and> distinct (map (tx_id so) txs)"
  by (auto simp: validate_transactions_def validate_transactions_from_none_iff
      maximum_transactions_per_block_def)

lemma genesis_block_simps [simp]:
  "blk_chain_id (genesis_block so c) = c" "blk_height (genesis_block so c) = 0"
  "blk_previous_block_hash (genesis_block so c) = replicate 32 0"
  "blk_transaction_root (genesis_block so c) = calculate_transaction_root so []"
  "blk_reward_recipient (genesis_block so c) = None" "blk_timestamp (genesis_block so c) = 0"
  "blk_difficulty_target (genesis_block so c) = maximum_target"
  "blk_mining_nonce (genesis_block so c) = 0" "blk_transactions (genesis_block so c) = []"
  "is_genesis (genesis_block so c)"
  by (simp_all add: genesis_block_def is_genesis_def hash256_size_def)

lemma blk_valid_cases:
  assumes "blk_valid so b"
  obtains (genesis) c where "b = genesis_block so c" "supported_chain c"
  | (block) a where "\<not> is_genesis b" "supported_chain (blk_chain_id b)"
      "blk_reward_recipient b = Some a" "length (addr_hash a) = 32" "\<not> is_zero (addr_hash a)"
      "length (blk_previous_block_hash b) = 32" "\<not> is_zero (blk_previous_block_hash b)"
      "length (blk_difficulty_target b) = 32"
      "blk_transaction_root b = calculate_transaction_root so (blk_transactions b)"
      "list_all (tx_valid so) (blk_transactions b)"
      "validate_transactions so (blk_transactions b) (blk_chain_id b) = BE_none"
  using assms unfolding blk_valid_def by (cases "is_genesis b") auto

lemma blk_valid_genesis: "supported_chain c \<Longrightarrow> blk_valid so (genesis_block so c)"
  by (simp add: blk_valid_def)

lemma blk_valid_length_transactions: "blk_valid so b \<Longrightarrow> length (blk_transactions b) \<le> 1000"
  by (erule blk_valid_cases) (simp_all add: validate_transactions_none_iff)

lemma blk_valid_transactions: "blk_valid so b \<Longrightarrow> list_all (tx_valid so) (blk_transactions b)"
  by (erule blk_valid_cases) simp_all

section \<open>The block format\<close>

definition reward_hash :: "Block \<Rightarrow> bytes" where
  "reward_hash b = (case blk_reward_recipient b of Some a \<Rightarrow> addr_hash a | None \<Rightarrow> replicate 32 0)"

lemma serialize_header_eq:
  "serialize_header b =
     block_magic @ [block_version] @ le_bytes 4 (blk_chain_id b) @ le_bytes 8 (blk_height b) @
     blk_previous_block_hash b @ blk_transaction_root b @ reward_hash b @
     le_bytes 8 (blk_timestamp b) @ blk_difficulty_target b @ le_bytes 8 (blk_mining_nonce b) @
     le_bytes 4 (of_nat (length (blk_transactions b)) :: u32)"
  by (simp add: serialize_header_def reward_hash_def append_u32_le_def append_u64_le_def
      hash256_size_def split: option.split)

definition header_sizes :: "Block \<Rightarrow> bool" where
  "header_sizes b \<longleftrightarrow>
     length (blk_previous_block_hash b) = 32 \<and> length (blk_transaction_root b) = 32 \<and>
     length (reward_hash b) = 32 \<and> length (blk_difficulty_target b) = 32"

lemma blk_valid_header_sizes: "blk_valid so b \<Longrightarrow> header_sizes b"
  by (erule blk_valid_cases)
    (simp_all add: header_sizes_def reward_hash_def hash256_size_def maximum_target_def)

lemma length_block_magic [simp]: "length block_magic = 4"
  by (simp add: block_magic_def)

lemma length_serialize_header [byte_length]:
  "header_sizes b \<Longrightarrow> length (serialize_header b) = 165"
  by (simp add: serialize_header_eq header_sizes_def)

lemma length_concat_serialize:
  "list_all (tx_valid so) txs \<Longrightarrow> length (concat (map tx_serialize txs)) = 161 * length txs"
  by (induction txs) (auto simp: length_tx_serialize)

lemma length_blk_serialize [byte_length]:
  "blk_valid so b \<Longrightarrow> length (blk_serialize b) = 165 + 161 * length (blk_transactions b)"
  by (simp add: blk_serialize_def length_serialize_header blk_valid_header_sizes
      length_concat_serialize [OF blk_valid_transactions])

subsection \<open>Decoding\<close>

text \<open>The header fields of a buffer, with the transactions that follow it.\<close>

definition blk_of_bytes :: "bytes \<Rightarrow> SignedTransaction list \<Rightarrow> Block" where
  "blk_of_bytes bs txs =
     \<lparr> blk_chain_id = read_u32_le bs 5, blk_height = read_u64_le bs 9,
       blk_previous_block_hash = read_array 32 bs 17, blk_transaction_root = read_array 32 bs 49,
       blk_reward_recipient = Some (Address (read_array 32 bs 81)),
       blk_timestamp = read_u64_le bs 113, blk_difficulty_target = read_array 32 bs 121,
       blk_mining_nonce = read_u64_le bs 153, blk_transactions = txs \<rparr>"

lemma deserialize_block_eq:
  "deserialize_block so bs =
     (if length bs < 165 \<or> 161165 < length bs then Inl BE_invalid_size
      else if take 4 bs \<noteq> block_magic then Inl BE_invalid_magic
      else if bs ! 4 \<noteq> block_version then Inl BE_unsupported_version
      else if \<not> supported_chain (read_u32_le bs 5) then Inl BE_unsupported_chain
      else if 1000 < unat (read_u32_le bs 161) then Inl BE_too_many_transactions
      else if length bs \<noteq> 165 + unat (read_u32_le bs 161) * 161 then Inl BE_invalid_size
      else case read_transactions so (read_u32_le bs 5) bs (unat (read_u32_le bs 161)) 165 of
        Inl e \<Rightarrow> Inl e
      | Inr txs \<Rightarrow>
          if validate_transactions so txs (read_u32_le bs 5) \<noteq> BE_none
          then Inl (validate_transactions so txs (read_u32_le bs 5))
          else if calculate_transaction_root so txs \<noteq> read_array 32 bs 49
          then Inl BE_invalid_transaction_root
          else if read_u64_le bs 9 = 0
          then if bs \<noteq> blk_serialize (genesis_block so (read_u32_le bs 5)) then Inl BE_invalid_genesis
               else Inr (genesis_block so (read_u32_le bs 5))
          else if is_zero (read_array 32 bs 17) then Inl BE_invalid_previous_hash
          else if is_zero (read_array 32 bs 81) then Inl BE_invalid_reward_recipient
          else Inr (blk_of_bytes bs txs))"
  unfolding deserialize_block_def Let_def blk_of_bytes_def block_sizes hash256_size_def
  by simp

lemma read_transactions_serialize:
  assumes "list_all (\<lambda>tx. tx_valid so tx \<and> tx_chain_id tx = c) txs"
  shows "read_transactions so c (pre @ concat (map tx_serialize txs)) (length txs) (length pre) = Inr txs"
  using assms
proof (induction txs arbitrary: pre)
  case Nil
  show ?case by simp
next
  case (Cons tx txs)
  have v: "tx_valid so tx" and c: "tx_chain_id tx = c" using Cons.prems by simp_all
  have len: "length (tx_serialize tx) = 161" using v by (rule length_tx_serialize)
  have "read_array 161 (pre @ tx_serialize tx @ concat (map tx_serialize txs)) (length pre) = tx_serialize tx"
    using len by (simp add: field_read)
  moreover have "read_transactions so c ((pre @ tx_serialize tx) @ concat (map tx_serialize txs))
      (length txs) (length (pre @ tx_serialize tx)) = Inr txs"
    using Cons.prems by (intro Cons.IH) simp
  ultimately show ?case
    using v c len by (simp add: signed_transaction_size_def deserialize_tx_serialize)
qed

lemma read_transactions_Inr:
  assumes "read_transactions so c bs n offset = Inr txs" and "offset + 161 * n \<le> length bs"
  shows "length txs = n \<and> list_all (tx_valid so) txs \<and> (\<forall>tx \<in> set txs. tx_chain_id tx = c) \<and>
    concat (map tx_serialize txs) = take (161 * n) (drop offset bs)"
  using assms
proof (induction n arbitrary: offset txs)
  case 0
  then show ?case by simp
next
  case (Suc n)
  from Suc.prems(1) obtain tx txs' where
    d: "deserialize_transaction so (read_array 161 bs offset) = Inr tx" and c: "tx_chain_id tx = c"
    and r: "read_transactions so c bs n (offset + 161) = Inr txs'" and txs: "txs = tx # txs'"
    by (auto simp: signed_transaction_size_def split: sum.splits if_splits)
  have "tx_valid so tx" "tx_serialize tx = take 161 (drop offset bs)"
    using tx_codec.decode_iff [of so] d by (auto simp: read_array_def)
  moreover have "length txs' = n \<and> list_all (tx_valid so) txs' \<and> (\<forall>tx \<in> set txs'. tx_chain_id tx = c) \<and>
      concat (map tx_serialize txs') = take (161 * n) (drop (offset + 161) bs)"
    using r Suc.prems(2) by (intro Suc.IH) simp_all
  ultimately show ?case
    using c txs by (simp add: take_drop_join add.commute)
qed

lemma blk_of_bytes_serialize:
  assumes "blk_valid so b"
  shows "take 4 (blk_serialize b) = block_magic" "blk_serialize b ! 4 = block_version"
    "read_u32_le (blk_serialize b) 5 = blk_chain_id b"
    "read_u64_le (blk_serialize b) 9 = blk_height b"
    "read_array 32 (blk_serialize b) 17 = blk_previous_block_hash b"
    "read_array 32 (blk_serialize b) 49 = blk_transaction_root b"
    "read_array 32 (blk_serialize b) 81 = reward_hash b"
    "read_u64_le (blk_serialize b) 113 = blk_timestamp b"
    "read_array 32 (blk_serialize b) 121 = blk_difficulty_target b"
    "read_u64_le (blk_serialize b) 153 = blk_mining_nonce b"
    "unat (read_u32_le (blk_serialize b) 161) = length (blk_transactions b)"
proof -
  have h: "header_sizes b" using assms by (rule blk_valid_header_sizes)
  have n: "length (blk_transactions b) mod 4294967296 = length (blk_transactions b)"
    using blk_valid_length_transactions [OF assms] by simp
  show "take 4 (blk_serialize b) = block_magic" "blk_serialize b ! 4 = block_version"
    "read_u32_le (blk_serialize b) 5 = blk_chain_id b"
    "read_u64_le (blk_serialize b) 9 = blk_height b"
    "read_array 32 (blk_serialize b) 17 = blk_previous_block_hash b"
    "read_array 32 (blk_serialize b) 49 = blk_transaction_root b"
    "read_array 32 (blk_serialize b) 81 = reward_hash b"
    "read_u64_le (blk_serialize b) 113 = blk_timestamp b"
    "read_array 32 (blk_serialize b) 121 = blk_difficulty_target b"
    "read_u64_le (blk_serialize b) 153 = blk_mining_nonce b"
    using h by (simp_all add: blk_serialize_def serialize_header_eq header_sizes_def field_read)
  show "unat (read_u32_le (blk_serialize b) 161) = length (blk_transactions b)"
    using h n
    by (simp add: blk_serialize_def serialize_header_eq header_sizes_def field_read unat_of_nat)
qed

lemma deserialize_blk_serialize:
  assumes "blk_valid so b"
  shows "deserialize_block so (blk_serialize b) = Inr b"
proof -
  note f = blk_of_bytes_serialize [OF assms]
  have len: "length (blk_serialize b) = 165 + 161 * length (blk_transactions b)"
    using assms by (rule length_blk_serialize)
  have max: "length (blk_transactions b) \<le> 1000" using assms by (rule blk_valid_length_transactions)
  have hl: "length (serialize_header b) = 165"
    using assms by (simp add: length_serialize_header blk_valid_header_sizes)
  have root: "calculate_transaction_root so (blk_transactions b) = blk_transaction_root b"
    and val: "validate_transactions so (blk_transactions b) (blk_chain_id b) = BE_none"
    and sup: "supported_chain (blk_chain_id b)"
    using assms by (cases rule: blk_valid_cases, simp_all add: validate_transactions_none_iff)+
  have "list_all (\<lambda>tx. tx_valid so tx \<and> tx_chain_id tx = blk_chain_id b) (blk_transactions b)"
    using blk_valid_transactions [OF assms] val
    by (simp add: list_all_iff validate_transactions_none_iff)
  then have rt: "read_transactions so (blk_chain_id b) (blk_serialize b) (length (blk_transactions b)) 165
      = Inr (blk_transactions b)"
    using read_transactions_serialize [of so "blk_chain_id b" _ "serialize_header b"]
    by (simp add: blk_serialize_def hl)
  note base = deserialize_block_eq f len rt root
  show ?thesis
    using assms
  proof (cases rule: blk_valid_cases)
    case (genesis c)
    then have "blk_height b = 0" "genesis_block so (blk_chain_id b) = b" by simp_all
    with max val sup show ?thesis by (simp add: base)
  next
    case (block a)
    moreover have "blk_of_bytes (blk_serialize b) (blk_transactions b) = b"
      using block by (intro Block.equality) (simp_all add: blk_of_bytes_def f reward_hash_def)
    ultimately show ?thesis
      using max val sup by (simp add: base is_genesis_def reward_hash_def)
  qed
qed

lemma serialize_blk_of_bytes:
  assumes "length bs = 165 + 161 * n" "take 4 bs = block_magic" "bs ! 4 = block_version"
    "unat (read_u32_le bs 161) = n" "length txs = n"
    "concat (map tx_serialize txs) = take (161 * n) (drop 165 bs)"
  shows "blk_serialize (blk_of_bytes bs txs) = bs"
proof -
  have ver: "[block_version] = take 1 (drop 4 bs)"
    using assms nth_slice [of 4 bs] by simp
  have cnt: "of_nat (length txs) = read_u32_le bs 161"
    unfolding assms(5) assms(4) [symmetric] by simp
  have "serialize_header (blk_of_bytes bs txs) = take 165 bs"
    unfolding serialize_header_eq ver assms(2) [symmetric]
    using assms(1)
    by (simp add: blk_of_bytes_def reward_hash_def read_array_def cnt u32.enc_dec u64.enc_dec field_join)
  then have "blk_serialize (blk_of_bytes bs txs) = take 165 bs @ take (161 * n) (drop 165 bs)"
    by (simp add: blk_serialize_def assms(6) blk_of_bytes_def)
  then show ?thesis using assms(1) by (simp add: field_join)
qed

lemma deserialize_block_Inr:
  assumes "deserialize_block so bs = Inr b"
  shows "blk_valid so b \<and> blk_serialize b = bs"
proof -
  let ?c = "read_u32_le bs 5" and ?n = "unat (read_u32_le bs 161)"
  from assms have sup: "supported_chain ?c" and n: "?n \<le> 1000"
    and len: "length bs = 165 + 161 * ?n" and magic: "take 4 bs = block_magic"
    and ver: "bs ! 4 = block_version"
    by (auto simp: deserialize_block_eq split: if_splits)
  from assms obtain txs where txs: "read_transactions so ?c bs ?n 165 = Inr txs"
    and val: "validate_transactions so txs ?c = BE_none"
    and root: "calculate_transaction_root so txs = read_array 32 bs 49"
    and rest: "(if read_u64_le bs 9 = 0
          then if bs \<noteq> blk_serialize (genesis_block so ?c) then Inl BE_invalid_genesis
               else Inr (genesis_block so ?c)
          else if is_zero (read_array 32 bs 17) then Inl BE_invalid_previous_hash
          else if is_zero (read_array 32 bs 81) then Inl BE_invalid_reward_recipient
          else Inr (blk_of_bytes bs txs)) = Inr b"
    by (auto simp: deserialize_block_eq split: if_splits sum.splits)
  have rt: "length txs = ?n \<and> list_all (tx_valid so) txs \<and> (\<forall>tx \<in> set txs. tx_chain_id tx = ?c) \<and>
      concat (map tx_serialize txs) = take (161 * ?n) (drop 165 bs)"
    using txs len by (intro read_transactions_Inr) simp_all
  show ?thesis
  proof (cases "read_u64_le bs 9 = 0")
    case True
    with rest have "b = genesis_block so ?c" "blk_serialize b = bs" by (auto split: if_splits)
    then show ?thesis using blk_valid_genesis [OF sup] by simp
  next
    case False
    with rest have b: "b = blk_of_bytes bs txs" and nz: "\<not> is_zero (read_array 32 bs 17)"
      "\<not> is_zero (read_array 32 bs 81)"
      by (auto split: if_splits)
    have "blk_valid so b"
      using False nz sup val root rt len
      by (simp add: b blk_valid_def blk_of_bytes_def is_genesis_def)
    moreover have "blk_serialize b = bs"
      unfolding b using len magic ver rt by (intro serialize_blk_of_bytes) auto
    ultimately show ?thesis by simp
  qed
qed

text \<open>The wire format of blocks is a canonical encoding.\<close>

interpretation blk_codec: canonical_codec blk_serialize "deserialize_block so" "blk_valid so" for so
  by unfold_locales (auto simp: deserialize_blk_serialize dest: deserialize_block_Inr)

section \<open>Properties\<close>

text \<open>
  C13. The block format is canonical. A byte string decodes to a block exactly when the block
  is valid (supported chain, the canonical Genesis or nonzero previous hash and reward
  recipient, at most 1000 valid transactions of its own chain with distinct identifiers,
  and the Merkle root of these transactions) and serializes to that byte string.
\<close>

theorem block_format_canonical:
  "deserialize_block so bs = Inr b \<longleftrightarrow> blk_valid so b \<and> blk_serialize b = bs"
  by (rule blk_codec.decode_iff)

lemma create_block_Inr:
  assumes "create_block so f = Inr b" and "list_all (tx_valid so) (bf_transactions f)"
    and "length (bf_previous_block_hash f) = 32" and "length (addr_hash (bf_reward_recipient f)) = 32"
    and "length (bf_difficulty_target f) = 32"
  shows "blk_valid so b"
  using assms by (auto simp: create_block_def blk_valid_def is_genesis_def Let_def split: if_splits)

text \<open>
  \<open>create_block\<close> succeeds exactly for a supported chain, a height above 0, nonzero
  previous hash and reward recipient, and at most 1000 transactions of that chain with
  distinct identifiers. The block carries the given fields, and both it and every copy with
  another mining nonce decode from their serialization.
\<close>

theorem create_block_correct:
  assumes "list_all (tx_valid so) (bf_transactions f)"
    and "length (bf_previous_block_hash f) = 32" and "length (addr_hash (bf_reward_recipient f)) = 32"
    and "length (bf_difficulty_target f) = 32"
  shows "(has_value (create_block so f) \<longleftrightarrow>
      supported_chain (bf_chain_id f) \<and> bf_height f \<noteq> 0 \<and> \<not> is_zero (bf_previous_block_hash f) \<and>
      \<not> is_zero (addr_hash (bf_reward_recipient f)) \<and> length (bf_transactions f) \<le> 1000 \<and>
      (\<forall>tx \<in> set (bf_transactions f). tx_chain_id tx = bf_chain_id f) \<and>
      distinct (map (tx_id so) (bf_transactions f))) \<and>
    (\<forall>b. create_block so f = Inr b \<longrightarrow>
      blk_height b = bf_height f \<and> blk_previous_block_hash b = bf_previous_block_hash f \<and>
      blk_reward_recipient b = Some (bf_reward_recipient f) \<and> blk_timestamp b = bf_timestamp f \<and>
      blk_transactions b = bf_transactions f \<and>
      (\<forall>n. deserialize_block so (blk_serialize (with_mining_nonce b n)) = Inr (with_mining_nonce b n)))"
proof (intro conjI allI impI)
  show "has_value (create_block so f) \<longleftrightarrow>
      supported_chain (bf_chain_id f) \<and> bf_height f \<noteq> 0 \<and> \<not> is_zero (bf_previous_block_hash f) \<and>
      \<not> is_zero (addr_hash (bf_reward_recipient f)) \<and> length (bf_transactions f) \<le> 1000 \<and>
      (\<forall>tx \<in> set (bf_transactions f). tx_chain_id tx = bf_chain_id f) \<and>
      distinct (map (tx_id so) (bf_transactions f))"
    by (auto simp: create_block_def Let_def validate_transactions_none_iff)
  fix b n
  assume b: "create_block so f = Inr b"
  then show "blk_height b = bf_height f" "blk_previous_block_hash b = bf_previous_block_hash f"
    "blk_reward_recipient b = Some (bf_reward_recipient f)" "blk_timestamp b = bf_timestamp f"
    "blk_transactions b = bf_transactions f"
    by (auto simp: create_block_def Let_def split: if_splits)
  have "blk_valid so (with_mining_nonce b n)"
    using create_block_Inr [OF b assms] by (auto simp: with_mining_nonce_def blk_valid_def is_genesis_def)
  then show "deserialize_block so (blk_serialize (with_mining_nonce b n)) = Inr (with_mining_nonce b n)"
    by (rule blk_codec.decode_encode)
qed

text \<open>
  A block saved to a file is read back unchanged, and a failed save leaves the files as
  they were if the partial file can be removed.
\<close>

theorem block_file_roundtrip:
  assumes "blk_valid so b"
  shows "(save_block io fs b p = (BE_none, fs') \<longrightarrow> load_block so io_ok fs' p = Inr b) \<and>
    (save_block io fs b p = (e, fs') \<and> e \<noteq> BE_none \<and> io_remove_ok io \<longrightarrow> fs' = fs)"
proof (intro conjI impI)
  assume "save_block io fs b p = (BE_none, fs')"
  then have "fs' = fs(p \<mapsto> blk_serialize b)"
    using save_new_file_none by (fastforce simp: save_block_def)
  then show "load_block so io_ok fs' p = Inr b"
    using length_blk_serialize [OF assms] blk_valid_length_transactions [OF assms]
    by (simp add: load_block_def fs_file_size_def fs_read_def io_ok_def block_sizes
        deserialize_blk_serialize [OF assms])
next
  assume "save_block io fs b p = (e, fs') \<and> e \<noteq> BE_none \<and> io_remove_ok io"
  then show "fs' = fs" by (auto simp: save_block_def intro: save_new_file_failed)
qed

section \<open>An example\<close>

lemma demo_id_not_zero: "header_sizes b \<Longrightarrow> \<not> is_zero (blk_id demo_sodium b)"
proof
  assume h: "header_sizes b" and z: "is_zero (blk_id demo_sodium b)"
  from z have "blk_id demo_sodium b ! 31 = 0" by (simp add: is_zero_def list_all_length blk_id_def)
  moreover have "blk_id demo_sodium b ! 31 = 165"
    using h by (simp add: blk_id_def demo_hash_length length_serialize_header)
  ultimately show False by simp
qed

text \<open>In the example the identifier shows the lowest byte of the nonce.\<close>

lemma demo_id_nonce:
  assumes "header_sizes b"
  shows "blk_id demo_sodium b ! 15 = ucast (blk_mining_nonce b)"
proof -
  let ?pre = "block_magic @ [block_version] @ le_bytes 4 (blk_chain_id b) @ le_bytes 8 (blk_height b) @
     blk_previous_block_hash b @ blk_transaction_root b @ reward_hash b @
     le_bytes 8 (blk_timestamp b) @ blk_difficulty_target b"
  have pre: "length ?pre = 153" using assms by (simp add: header_sizes_def)
  have h: "serialize_header b = ?pre @ le_bytes 8 (blk_mining_nonce b) @
      le_bytes 4 (of_nat (length (blk_transactions b)) :: u32)"
    by (simp add: serialize_header_eq)
  have "serialize_header b ! 153 = le_bytes 8 (blk_mining_nonce b) ! 0"
    unfolding h using pre by (simp only: nth_append) simp
  also have "\<dots> = ucast (blk_mining_nonce b)"
  proof -
    have m: "(0xFF :: u64) = mask 8" by (simp add: mask_eq_exp_minus_1)
    show ?thesis by (simp add: le_bytes_def) (simp add: m bit_eq_iff bit_simps)
  qed
  finally show ?thesis
    using length_serialize_header [OF assms]
    by (simp add: blk_id_def demo_hash_nth) (simp add: demo_sodium_def)
qed

definition demo_block_fields :: BlockFields where
  "demo_block_fields =
     \<lparr> bf_height = 1, bf_previous_block_hash = replicate 32 1,
       bf_reward_recipient = Address (replicate 32 9), bf_timestamp = 7,
       bf_difficulty_target = target_with_zero_prefix 3, bf_mining_nonce = 0,
       bf_transactions = [demo_tx 1 2 0], bf_chain_id = 1 \<rparr>"

definition demo_candidate :: Block where
  "demo_candidate = (case create_block demo_sodium demo_block_fields of Inr b \<Rightarrow> b)"

lemma demo_block_fields_ok:
  "list_all (tx_valid demo_sodium) (bf_transactions demo_block_fields)"
  "length (bf_previous_block_hash demo_block_fields) = 32"
  "length (addr_hash (bf_reward_recipient demo_block_fields)) = 32"
  "length (bf_difficulty_target demo_block_fields) = 32"
  using length_np_difficulty_target [of NP_development]
  by (simp_all add: demo_block_fields_def tx_valid_demo network_parameters_def development_def hash256_size_def)

lemma demo_candidate_created: "create_block demo_sodium demo_block_fields = Inr demo_candidate"
  by (simp add: demo_candidate_def create_block_def demo_block_fields_def is_zero_def supported_chain
      validate_transactions_none_iff demo_tx_def Let_def list_all_iff)

lemma demo_candidate_simps:
  "blk_chain_id demo_candidate = 1" "blk_height demo_candidate = 1" "\<not> is_genesis demo_candidate"
  "blk_difficulty_target demo_candidate = target_with_zero_prefix 3" "blk_mining_nonce demo_candidate = 0"
  "blk_transactions demo_candidate = [demo_tx 1 2 0]"
  by (simp_all add: network_parameters_for_chain_def development_def demo_candidate_def create_block_def demo_block_fields_def is_zero_def
      validate_transactions_none_iff demo_tx_def is_genesis_def Let_def list_all_iff)

lemma demo_candidate_valid: "blk_valid demo_sodium demo_candidate"
  by (rule create_block_Inr [OF demo_candidate_created demo_block_fields_ok])

theorem create_block_correct_witness:
  "create_block demo_sodium demo_block_fields = Inr demo_candidate \<and>
   blk_transactions demo_candidate = [demo_tx 1 2 0] \<and>
   deserialize_block demo_sodium (blk_serialize (with_mining_nonce demo_candidate 5))
     = Inr (with_mining_nonce demo_candidate 5)"
  using create_block_correct [OF demo_block_fields_ok] demo_candidate_created
  by (simp add: demo_block_fields_def)

theorem block_file_roundtrip_witness:
  "fst (save_block io_ok Map.empty demo_candidate ''b'') = BE_none \<and>
   load_block demo_sodium io_ok (snd (save_block io_ok Map.empty demo_candidate ''b'')) ''b''
     = Inr demo_candidate"
proof -
  have "fst (save_block io_ok Map.empty demo_candidate ''b'') = BE_none"
    by (simp add: save_block_def save_new_file_def fs_defs io_ok_def)
  then show ?thesis
    using block_file_roundtrip [OF demo_candidate_valid] by (metis prod.collapse)
qed

end
