(* ===== verification/BBC_Pow.thy ===== *)
theory BBC_Pow
  imports BBC_Block
begin

text \<open>
  Proof of Work: \<open>include/bbc/consensus/proof_of_work.hpp\<close> and
  \<open>src/consensus/proof_of_work.cpp\<close>. Mining overwrites the nonce inside one header
  buffer instead of serializing a block per attempt; the lemmas show that the hash it
  tests is the identifier of the block with that nonce, and the properties state the
  search exactly.
\<close>

section \<open>Data and operations\<close>

datatype ProofOfWorkError =
    PE_none
  | PE_genesis_not_mineable
  | PE_unexpected_target
  | PE_target_not_met
  | PE_attempt_limit_reached
  | PE_nonce_exhausted

record MiningResult =
  mr_value :: "ProofOfWorkError + Block"
  mr_attempts :: u64
  mr_next_nonce :: "u64 option"

definition write_mining_nonce :: "bytes \<Rightarrow> u64 \<Rightarrow> bytes" where
  "write_mining_nonce header mining_nonce =
     fold (\<lambda>index header. header[block_mining_nonce_offset + index :=
         ucast (drop_bit (index * 8) mining_nonce AND 0xFF)]) [0..<8] header"

definition fixed_difficulty_target :: "u32 \<Rightarrow> bytes" where
  "fixed_difficulty_target chain_id =
     (case network_parameters_for_chain chain_id of
        None \<Rightarrow> np_difficulty_target (network_parameters NP_development)
      | Some network \<Rightarrow> np_difficulty_target network)"

fun lexicographical_compare :: "bytes \<Rightarrow> bytes \<Rightarrow> bool" where
  "lexicographical_compare xs [] = False"
| "lexicographical_compare [] (y # ys) = True"
| "lexicographical_compare (x # xs) (y # ys) =
     (if x < y then True else if y < x then False else lexicographical_compare xs ys)"

definition hash_meets_target :: "bytes \<Rightarrow> bytes \<Rightarrow> bool" where
  "hash_meets_target hash target = lexicographical_compare hash target"

definition validate_proof_of_work :: "sodium \<Rightarrow> Block \<Rightarrow> ProofOfWorkError" where
  "validate_proof_of_work so block =
     (if is_genesis block then PE_none
      else
        (let network_target = fixed_difficulty_target (blk_chain_id block)
         in if blk_difficulty_target block \<noteq> network_target then PE_unexpected_target
            else if \<not> hash_meets_target (blk_id so block) network_target then PE_target_not_met
            else PE_none))"

text \<open>
  The loop of \<open>mine_block\<close>. It stops because \<open>attempts\<close> counts up to
  \<open>maximum_attempts\<close>, a 64-bit value, and is only incremented below it.
\<close>

function mine_loop ::
    "sodium \<Rightarrow> Block \<Rightarrow> bytes \<Rightarrow> u64 \<Rightarrow> bytes \<Rightarrow> u64 \<Rightarrow> u64 \<Rightarrow> MiningResult" where
  "mine_loop so candidate network_target maximum_attempts header nonce attempts =
     (if attempts < maximum_attempts then
        (let header = write_mining_nonce header nonce;
             attempts = attempts + 1
         in if hash_meets_target (sha256 so header) network_target
            then \<lparr> mr_value = Inr (with_mining_nonce candidate nonce), mr_attempts = attempts,
                   mr_next_nonce = None \<rparr>
            else if nonce = u64_max
            then \<lparr> mr_value = Inl PE_nonce_exhausted, mr_attempts = attempts, mr_next_nonce = None \<rparr>
            else mine_loop so candidate network_target maximum_attempts header (nonce + 1) attempts)
      else \<lparr> mr_value = Inl PE_attempt_limit_reached, mr_attempts = attempts,
             mr_next_nonce = Some nonce \<rparr>)"
  by pat_completeness auto
termination
proof (relation "measure (\<lambda>(so, candidate, target, maximum, header, nonce, attempts).
    unat maximum - unat attempts)", goal_cases)
  case (2 so candidate target maximum header nonce attempts x xa)
  then have "attempts \<noteq> - 1" by (metis not_less word_order.extremum)
  then have "unat (attempts + 1) = Suc (unat attempts)" by (rule unat_Suc_not_max)
  moreover have "unat attempts < unat maximum" using 2(1) by (simp add: word_less_nat_alt)
  ultimately show ?case using 2 by simp
qed simp

declare mine_loop.simps [simp del]

definition mine_block :: "sodium \<Rightarrow> Block \<Rightarrow> u64 \<Rightarrow> MiningResult" where
  "mine_block so candidate maximum_attempts =
     (if is_genesis candidate
      then \<lparr> mr_value = Inl PE_genesis_not_mineable, mr_attempts = 0, mr_next_nonce = None \<rparr>
      else
        (let network_target = fixed_difficulty_target (blk_chain_id candidate)
         in if blk_difficulty_target candidate \<noteq> network_target
            then \<lparr> mr_value = Inl PE_unexpected_target, mr_attempts = 0, mr_next_nonce = None \<rparr>
            else mine_loop so candidate network_target maximum_attempts
                   (serialize_header candidate) (blk_mining_nonce candidate) 0))"

fun proof_of_work_error_message :: "ProofOfWorkError \<Rightarrow> string" where
  "proof_of_work_error_message PE_none = ''no error''"
| "proof_of_work_error_message PE_genesis_not_mineable = ''genesis block is not mined''"
| "proof_of_work_error_message PE_unexpected_target =
     ''block difficulty target does not match the network target''"
| "proof_of_work_error_message PE_target_not_met = ''block hash does not meet the difficulty target''"
| "proof_of_work_error_message PE_attempt_limit_reached = ''mining attempt limit was reached''"
| "proof_of_work_error_message PE_nonce_exhausted = ''mining nonce range was exhausted''"

section \<open>The comparison with the target\<close>

text \<open>The hash as a number, first byte most significant.\<close>

definition be_nat :: "bytes \<Rightarrow> nat" where
  "be_nat bs = foldl (\<lambda>n b. n * 256 + unat b) 0 bs"

lemma be_nat_Cons: "be_nat (b # bs) = unat b * 256 ^ length bs + be_nat bs"
proof -
  have "foldl (\<lambda>n b. n * 256 + unat b) k bs = k * 256 ^ length bs + foldl (\<lambda>n b. n * 256 + unat b) 0 bs"
    for k and bs :: bytes
  proof (induction bs arbitrary: k)
    case Nil
    show ?case by simp
  next
    case (Cons c cs)
    show ?case
      using Cons.IH [of "k * 256 + unat c"] Cons.IH [of "unat c"] by (simp add: algebra_simps)
  qed
  from this [of "unat b" bs] show ?thesis by (simp add: be_nat_def)
qed

lemma be_nat_bound: "be_nat bs < 256 ^ length bs"
proof (induction bs)
  case Nil
  show ?case by (simp add: be_nat_def)
next
  case (Cons b bs)
  have "unat b < 256" using unsigned_less [of b] by simp
  then have bound: "Suc (unat b) * 256 ^ length bs \<le> 256 * 256 ^ length bs"
    by (intro mult_le_mono1) simp
  have "be_nat (b # bs) < Suc (unat b) * 256 ^ length bs"
    using Cons.IH by (simp add: be_nat_Cons)
  also note bound
  finally show ?case by simp
qed

lemma lexicographical_compare_be_nat:
  "length xs = length ys \<Longrightarrow> lexicographical_compare xs ys \<longleftrightarrow> be_nat xs < be_nat ys"
proof (induction xs ys rule: lexicographical_compare.induct)
  case (3 x xs y ys)
  have less: "be_nat (a # as) < be_nat (b # bs)" if "a < b" "length as = length bs"
    for a b :: byte and as bs
  proof -
    have "Suc (unat a) * 256 ^ length as \<le> unat b * 256 ^ length as"
      using that by (intro mult_le_mono1) (simp add: word_less_nat_alt)
    with be_nat_bound [of as] that(2) show ?thesis by (simp add: be_nat_Cons)
  qed
  from 3 less [of x y xs ys] less [of y x ys xs] show ?case
    by (auto simp: be_nat_Cons)
qed (simp_all add: be_nat_def)

lemma length_fixed_difficulty_target [simp]: "length (fixed_difficulty_target c) = 32"
proof -
  have "fixed_difficulty_target c = np_difficulty_target (network_parameters NP_development) \<or>
      fixed_difficulty_target c = np_difficulty_target (network_parameters NP_regtest)"
    by (simp add: fixed_difficulty_target_def network_parameters_for_chain_def network_parameters_def)
  then show ?thesis using length_np_difficulty_target by (auto simp: hash256_size_def)
qed

section \<open>The header buffer\<close>

lemma fold_update_slice:
  assumes "offset + n \<le> length xs"
  shows "fold (\<lambda>i ys. ys[offset + i := f i]) [0..<n] xs =
     take offset xs @ map f [0..<n] @ drop (offset + n) xs"
  using assms
proof (induction n)
  case 0
  show ?case by simp
next
  case (Suc n)
  have "drop (offset + n) xs = xs ! (offset + n) # drop (offset + Suc n) xs"
    using Suc.prems by (simp add: Cons_nth_drop_Suc)
  with Suc show ?case by (simp add: list_update_append)
qed

lemma write_mining_nonce_eq:
  assumes "length header = 165"
  shows "write_mining_nonce header n = take 153 header @ le_bytes 8 n @ drop 161 header"
  using assms fold_update_slice [of 153 8 header]
  by (simp add: write_mining_nonce_def block_mining_nonce_offset_def le_bytes_def mult.commute)

text \<open>
  The fields before the nonce take 153 bytes, so overwriting the nonce in the buffer gives
  the header of the block with that nonce.
\<close>

lemma write_mining_nonce_header:
  assumes "header_sizes b"
  shows "write_mining_nonce (serialize_header b) n = serialize_header (b\<lparr> blk_mining_nonce := n \<rparr>)"
proof -
  let ?pre = "block_magic @ [block_version] @ le_bytes 4 (blk_chain_id b) @ le_bytes 8 (blk_height b) @
     blk_previous_block_hash b @ blk_transaction_root b @ reward_hash b @
     le_bytes 8 (blk_timestamp b) @ blk_difficulty_target b"
  let ?cnt = "le_bytes 4 (of_nat (length (blk_transactions b)) :: u32)"
  have pre: "length ?pre = 153" using assms by (simp add: header_sizes_def)
  have h: "serialize_header b = ?pre @ le_bytes 8 (blk_mining_nonce b) @ ?cnt"
    by (simp add: serialize_header_eq)
  have h': "serialize_header (b\<lparr> blk_mining_nonce := n \<rparr>) = ?pre @ le_bytes 8 n @ ?cnt"
    by (simp add: serialize_header_eq reward_hash_def)
  have "write_mining_nonce (?pre @ le_bytes 8 (blk_mining_nonce b) @ ?cnt) n = ?pre @ le_bytes 8 n @ ?cnt"
    using pre by (subst write_mining_nonce_eq) simp_all
  then show ?thesis unfolding h h' .
qed

lemma header_sizes_nonce [simp]: "header_sizes (b\<lparr> blk_mining_nonce := n \<rparr>) = header_sizes b"
  by (simp add: header_sizes_def reward_hash_def)

section \<open>The search\<close>

text \<open>
  What a search from nonce \<open>n\<close> with \<open>m\<close> attempts left, \<open>a\<close> of them already counted, may
  report: the first nonce that meets the target among the next \<open>m\<close> ones below \<open>2 ^ 64\<close>;
  or that the nonces are exhausted, when that comes first; or that the attempts are used
  up, with the nonce to go on from.
\<close>

definition search_outcome ::
    "(u64 \<Rightarrow> bool) \<Rightarrow> Block \<Rightarrow> u64 \<Rightarrow> nat \<Rightarrow> u64 \<Rightarrow> MiningResult \<Rightarrow> bool" where
  "search_outcome meets candidate n m a r \<longleftrightarrow>
     (case mr_value r of
        Inr b \<Rightarrow> (\<exists>k<m. unat n + k < 2 ^ 64 \<and> b = with_mining_nonce candidate (n + of_nat k) \<and>
          meets (n + of_nat k) \<and> (\<forall>j<k. \<not> meets (n + of_nat j)) \<and>
          mr_attempts r = a + of_nat (Suc k) \<and> mr_next_nonce r = None)
      | Inl e \<Rightarrow>
          (if 2 ^ 64 - unat n \<le> m
           then e = PE_nonce_exhausted \<and> (\<forall>j < 2 ^ 64 - unat n. \<not> meets (n + of_nat j)) \<and>
             mr_attempts r = a + of_nat (2 ^ 64 - unat n) \<and> mr_next_nonce r = None
           else e = PE_attempt_limit_reached \<and> (\<forall>j<m. \<not> meets (n + of_nat j)) \<and>
             mr_attempts r = a + of_nat m \<and> mr_next_nonce r = Some (n + of_nat m)))"

lemma all_less_Suc_shift:
  "(\<forall>j < Suc k. P j) \<longleftrightarrow> P 0 \<and> (\<forall>j<k. P (Suc j))"
  using less_Suc_eq_0_disj by auto

lemma search_outcome_step:
  assumes next_outcome: "search_outcome meets candidate (n + 1) m (a + 1) r"
    and "\<not> meets n" and "n \<noteq> - 1"
  shows "search_outcome meets candidate n (Suc m) a r"
proof (cases "mr_value r")
  case (Inr b)
  with next_outcome obtain k where "k < m" "unat (n + 1) + k < 2 ^ 64"
    "b = with_mining_nonce candidate (n + 1 + of_nat k)" "meets (n + 1 + of_nat k)"
    "\<forall>j<k. \<not> meets (n + 1 + of_nat j)" "mr_attempts r = a + 1 + of_nat (Suc k)" "mr_next_nonce r = None"
    unfolding search_outcome_def by auto
  moreover from this(2) have "unat n + Suc k < 2 ^ 64"
    unfolding unat_Suc_not_max [OF assms(3)] by simp
  ultimately have "Suc k < Suc m \<and> unat n + Suc k < 2 ^ 64 \<and> b = with_mining_nonce candidate (n + of_nat (Suc k)) \<and>
      meets (n + of_nat (Suc k)) \<and> (\<forall>j<Suc k. \<not> meets (n + of_nat j)) \<and>
      mr_attempts r = a + of_nat (Suc (Suc k)) \<and> mr_next_nonce r = None"
    using assms(2,3) unfolding all_less_Suc_shift
    by (simp add: algebra_simps)
  then show ?thesis unfolding search_outcome_def Inr by auto
next
  case (Inl e)
  have rest: "2 ^ 64 - unat n = Suc (2 ^ 64 - unat (n + 1))"
    using unat_lt_max [OF assms(3)] by (simp add: unat_Suc_not_max [OF assms(3)])
  show ?thesis
    using next_outcome assms(2) unfolding search_outcome_def Inl rest
    by (auto simp: all_less_Suc_shift algebra_simps split: if_splits)
qed

lemma mine_loop_outcome:
  assumes "header_sizes candidate"
    and "\<exists>n. header = serialize_header (candidate\<lparr> blk_mining_nonce := n \<rparr>)"
  shows "search_outcome
     (\<lambda>n. hash_meets_target (blk_id so (candidate\<lparr> blk_mining_nonce := n \<rparr>)) target)
     candidate nonce (unat maximum - unat attempts) attempts
     (mine_loop so candidate target maximum header nonce attempts)"
  using assms
proof (induction so candidate target maximum header nonce attempts rule: mine_loop.induct)
  case (1 so candidate target maximum header nonce attempts)
  let ?meets = "\<lambda>n. hash_meets_target (blk_id so (candidate\<lparr> blk_mining_nonce := n \<rparr>)) target"
  note unfold_loop = mine_loop.simps [of so candidate target maximum header nonce attempts]
  have overwrite: "write_mining_nonce header n = serialize_header (candidate\<lparr> blk_mining_nonce := n \<rparr>)" for n
    using "1.prems" by (auto simp: write_mining_nonce_header)
  then have hash: "sha256 so (write_mining_nonce header n) = blk_id so (candidate\<lparr> blk_mining_nonce := n \<rparr>)" for n
    by (simp add: blk_id_def)
  show ?case
  proof (cases "attempts < maximum")
    case False
    then have "unat maximum - unat attempts = 0" by (simp add: word_less_nat_alt)
    moreover have "\<not> 2 ^ 64 - unat nonce \<le> 0" using unat_u64_bound [of nonce] by simp
    ultimately show ?thesis using False unfold_loop
      by (simp add: search_outcome_def)
  next
    case less: True
    then have max: "attempts \<noteq> - 1" by (metis not_less word_order.extremum)
    then have m: "unat maximum - unat attempts = Suc (unat maximum - unat (attempts + 1))"
      using less by (simp add: unat_Suc_not_max word_less_nat_alt)
    consider (found) "?meets nonce" | (last) "\<not> ?meets nonce" "nonce = - 1"
      | (more) "\<not> ?meets nonce" "nonce \<noteq> - 1" by blast
    then show ?thesis
    proof cases
      case found
      then show ?thesis using less unfold_loop unat_u64_bound [of nonce]
        by (auto simp: search_outcome_def hash Let_def m intro!: exI [of _ 0])
    next
      case last
      then show ?thesis using less unfold_loop
        by (simp add: search_outcome_def hash Let_def m)
    next
      case more
      let ?r = "mine_loop so candidate target maximum (write_mining_nonce header nonce) (nonce + 1) (attempts + 1)"
      have "\<exists>n. write_mining_nonce header nonce = serialize_header (candidate\<lparr> blk_mining_nonce := n \<rparr>)"
        using overwrite by blast
      then have "search_outcome ?meets candidate (nonce + 1) (unat maximum - unat (attempts + 1)) (attempts + 1) ?r"
        using less more "1.prems"(1) by (intro "1.IH") (simp_all add: hash)
      then have "search_outcome ?meets candidate nonce (unat maximum - unat attempts) attempts ?r"
        unfolding m using more by (rule search_outcome_step)
      then show ?thesis using less more unfold_loop by (simp add: hash Let_def)
    qed
  qed
qed

section \<open>Properties\<close>

lemma validate_proof_of_work_none_iff:
  assumes "\<not> is_genesis b"
  shows "validate_proof_of_work so b = PE_none \<longleftrightarrow>
     blk_difficulty_target b = fixed_difficulty_target (blk_chain_id b) \<and>
     be_nat (blk_id so b) < be_nat (fixed_difficulty_target (blk_chain_id b))"
  using assms
  by (simp add: validate_proof_of_work_def hash_meets_target_def lexicographical_compare_be_nat
      blk_id_def Let_def)

text \<open>
  C20. Proof of Work accepts a block other than Genesis exactly when it carries the fixed
  target of its network and its identifier, read as a big-endian number, is below that
  target; the byte-wise comparison of the code is the comparison of the two numbers.
\<close>

theorem proof_of_work_numeric:
  "validate_proof_of_work so b =
     (if is_genesis b then PE_none
      else if blk_difficulty_target b \<noteq> fixed_difficulty_target (blk_chain_id b)
      then PE_unexpected_target
      else if be_nat (fixed_difficulty_target (blk_chain_id b)) \<le> be_nat (blk_id so b)
      then PE_target_not_met
      else PE_none)"
  by (auto simp: validate_proof_of_work_def hash_meets_target_def lexicographical_compare_be_nat
      blk_id_def Let_def)

text \<open>
  C18. Mining is an exact search. For a candidate with the network's target, started at its
  own nonce with \<open>maximum\<close> attempts, \<open>mine_block\<close> returns the block with the first nonce
  that meets the target if there is one within the attempts and below \<open>2 ^ 64\<close>, reports
  exhausted nonces if all remaining nonces were tried without success, and otherwise
  reports the attempt limit and the nonce to resume from; the attempt count is exact. A
  block it returns passes \<open>validate_proof_of_work\<close>.
\<close>

theorem mine_block_search:
  assumes "blk_valid so candidate" and "\<not> is_genesis candidate"
    and "blk_difficulty_target candidate = fixed_difficulty_target (blk_chain_id candidate)"
  shows "search_outcome
      (\<lambda>n. validate_proof_of_work so (with_mining_nonce candidate n) = PE_none)
      candidate (blk_mining_nonce candidate) (unat maximum) 0 (mine_block so candidate maximum) \<and>
    (\<forall>b. mr_value (mine_block so candidate maximum) = Inr b \<longrightarrow>
       blk_valid so b \<and> validate_proof_of_work so b = PE_none)"
proof
  have h: "header_sizes candidate" using assms(1) by (rule blk_valid_header_sizes)
  have "candidate = candidate\<lparr> blk_mining_nonce := blk_mining_nonce candidate \<rparr>" by simp
  then have "\<exists>n. serialize_header candidate = serialize_header (candidate\<lparr> blk_mining_nonce := n \<rparr>)"
    by metis
  note out = mine_loop_outcome [OF h this, of so "fixed_difficulty_target (blk_chain_id candidate)"
      "blk_mining_nonce candidate" maximum 0]
  have meets: "(\<lambda>n. validate_proof_of_work so (with_mining_nonce candidate n) = PE_none) =
      (\<lambda>n. hash_meets_target (blk_id so (candidate\<lparr> blk_mining_nonce := n \<rparr>))
         (fixed_difficulty_target (blk_chain_id candidate)))"
    using assms(2,3) by (simp add: fun_eq_iff validate_proof_of_work_def with_mining_nonce_def is_genesis_def)
  show outcome: "search_outcome
      (\<lambda>n. validate_proof_of_work so (with_mining_nonce candidate n) = PE_none)
      candidate (blk_mining_nonce candidate) (unat maximum) 0 (mine_block so candidate maximum)"
    unfolding meets using out assms(2,3) by (simp add: mine_block_def)
  have valid: "blk_valid so (with_mining_nonce candidate n)" for n
    using assms(1,2) by (simp add: blk_valid_def with_mining_nonce_def is_genesis_def)
  show "\<forall>b. mr_value (mine_block so candidate maximum) = Inr b \<longrightarrow>
       blk_valid so b \<and> validate_proof_of_work so b = PE_none"
    using outcome valid by (auto simp: search_outcome_def)
qed

lemma demo_meets_target: "hash_meets_target (sha256 demo_sodium x) (fixed_difficulty_target 1)"
proof -
  obtain r where "sha256 demo_sodium x = 0 # 0 # 0 # 0 # r" using demo_hash_zeros by blast
  moreover have "fixed_difficulty_target 1 = 0 # 0 # 0 # 255 # replicate 28 255" by code_simp
  ultimately show ?thesis by (simp add: hash_meets_target_def)
qed

theorem mine_block_search_witness:
  "mr_value (mine_block demo_sodium demo_candidate 5) = Inr (with_mining_nonce demo_candidate 0) \<and>
   validate_proof_of_work demo_sodium (with_mining_nonce demo_candidate 0) = PE_none"
proof -
  have target: "blk_difficulty_target demo_candidate = fixed_difficulty_target (blk_chain_id demo_candidate)"
    unfolding demo_candidate_simps by code_simp
  have "mr_value (mine_block demo_sodium demo_candidate 5) = Inr (with_mining_nonce demo_candidate 0)"
    using target
    by (simp add: mine_block_def demo_candidate_simps mine_loop.simps demo_meets_target Let_def)
  then show ?thesis
    using mine_block_search [OF demo_candidate_valid demo_candidate_simps(3) target, of 5] by blast
qed

end
