(* ===== verification/BBC_State.thy ===== *)
theory BBC_State
  imports BBC_Block
begin

text \<open>
  Account state: \<open>include/bbc/chain/state.hpp\<close> and \<open>src/chain/state.cpp\<close>. A block moves
  money between accounts and credits the miner with the subsidy and the fees. The
  properties are the ones a ledger needs: no transition loses or invents money apart
  from the subsidy, a failed transition changes nothing, and a nonce is used once.
\<close>

section \<open>Data\<close>

definition base_units_per_bbc :: u64 where
  "base_units_per_bbc = 100000000"

definition block_subsidy :: u64 where
  "block_subsidy = 50 * base_units_per_bbc"

record AccountState =
  balance :: u64
  next_nonce :: u64

definition AccountState_default :: AccountState where
  "AccountState_default = \<lparr> balance = 0, next_nonce = 0 \<rparr>"

text \<open>\<open>ChainState\<close> holds only \<open>std::map<Hash256, AccountState> accounts_\<close>.\<close>

type_synonym ChainState = "(bytes, AccountState) std_map"

definition ChainState_default :: ChainState where
  "ChainState_default = []"

definition account_of_hash :: "ChainState \<Rightarrow> bytes \<Rightarrow> AccountState" where
  "account_of_hash st h = (case map_of st h of None \<Rightarrow> AccountState_default | Some a \<Rightarrow> a)"

definition ChainState_account :: "ChainState \<Rightarrow> Address \<Rightarrow> AccountState" where
  "ChainState_account st address = account_of_hash st (addr_hash address)"

definition ChainState_account_count :: "ChainState \<Rightarrow> nat" where
  "ChainState_account_count st = length st"

datatype StateTransitionError =
    SE_none
  | SE_genesis_has_no_transition
  | SE_missing_reward_recipient
  | SE_invalid_account_nonce
  | SE_account_nonce_exhausted
  | SE_insufficient_balance
  | SE_recipient_balance_overflow
  | SE_fee_total_overflow
  | SE_reward_overflow

record StateTransitionResult =
  st_error :: StateTransitionError
  st_transaction_index :: "nat option"

section \<open>Operations\<close>

text \<open>
  One round of the loop over the transactions. \<open>accounts_[h]\<close> inserts a default account
  for a key that is absent and returns a reference into the map; the round writes through
  the reference before it takes the next one, so the accounts after each write are the map
  the next access sees, also when sender and recipient are the same account. An early
  return leaves the copy \<open>next_state\<close> behind, so only the error is kept.
\<close>

definition apply_transaction ::
    "sodium \<Rightarrow> SignedTransaction \<Rightarrow> ChainState \<times> u64 \<Rightarrow> StateTransitionError + (ChainState \<times> u64)" where
  "apply_transaction so value = (\<lambda>(next_state, total_fees).
     let sender_hash = addr_hash (tx_sender so value);
         sender = account_of_hash next_state sender_hash
     in if tx_account_nonce value \<noteq> next_nonce sender then Inl SE_invalid_account_nonce
        else if next_nonce sender = u64_max then Inl SE_account_nonce_exhausted
        else
          (let debit = tx_amount value + tx_fee value
           in if balance sender < debit then Inl SE_insufficient_balance
              else
                (let sender = \<lparr> balance = balance sender - debit, next_nonce = next_nonce sender + 1 \<rparr>;
                     next_state = std_map_set sender_hash sender next_state;
                     recipient_hash = addr_hash (tx_recipient value);
                     recipient = account_of_hash next_state recipient_hash
                 in if u64_max - tx_amount value < balance recipient then Inl SE_recipient_balance_overflow
                    else
                      (let next_state = std_map_set recipient_hash
                             (recipient\<lparr> balance := balance recipient + tx_amount value \<rparr>) next_state
                       in if u64_max - tx_fee value < total_fees then Inl SE_fee_total_overflow
                          else Inr (next_state, total_fees + tx_fee value)))))"

fun apply_transactions ::
    "sodium \<Rightarrow> nat \<Rightarrow> SignedTransaction list \<Rightarrow> ChainState \<times> u64 \<Rightarrow>
       StateTransitionResult + (ChainState \<times> u64)" where
  "apply_transactions so index [] acc = Inr acc"
| "apply_transactions so index (value # values) acc =
     (case apply_transaction so value acc of
        Inl e \<Rightarrow> Inl \<lparr> st_error = e, st_transaction_index = Some index \<rparr>
      | Inr acc' \<Rightarrow> apply_transactions so (Suc index) values acc')"

text \<open>\<open>apply_block_state\<close> writes its state argument: the result and the state afterwards.\<close>

definition apply_block_state ::
    "sodium \<Rightarrow> ChainState \<Rightarrow> Block \<Rightarrow> StateTransitionResult \<times> ChainState" where
  "apply_block_state so state block =
     (if is_genesis block
      then (\<lparr> st_error = SE_genesis_has_no_transition, st_transaction_index = None \<rparr>, state)
      else case blk_reward_recipient block of
        None \<Rightarrow> (\<lparr> st_error = SE_missing_reward_recipient, st_transaction_index = None \<rparr>, state)
      | Some reward_recipient \<Rightarrow>
          (case apply_transactions so 0 (blk_transactions block) (state, 0) of
             Inl r \<Rightarrow> (r, state)
           | Inr (next_state, total_fees) \<Rightarrow>
               if u64_max - block_subsidy < total_fees
               then (\<lparr> st_error = SE_reward_overflow, st_transaction_index = None \<rparr>, state)
               else
                 (let miner_credit = block_subsidy + total_fees;
                      miner_hash = addr_hash reward_recipient;
                      miner = account_of_hash next_state miner_hash
                  in if u64_max - miner_credit < balance miner
                     then (\<lparr> st_error = SE_reward_overflow, st_transaction_index = None \<rparr>, state)
                     else
                       (\<lparr> st_error = SE_none, st_transaction_index = None \<rparr>,
                        std_map_set miner_hash (miner\<lparr> balance := balance miner + miner_credit \<rparr>)
                          next_state))))"

fun state_transition_error_message :: "StateTransitionError \<Rightarrow> string" where
  "state_transition_error_message SE_none = ''no error''"
| "state_transition_error_message SE_genesis_has_no_transition =
     ''Genesis has no account-state transition''"
| "state_transition_error_message SE_missing_reward_recipient = ''block has no reward recipient''"
| "state_transition_error_message SE_invalid_account_nonce =
     ''transaction account nonce is not the next expected value''"
| "state_transition_error_message SE_account_nonce_exhausted = ''sender account nonce is exhausted''"
| "state_transition_error_message SE_insufficient_balance =
     ''sender balance is insufficient for amount plus fee''"
| "state_transition_error_message SE_recipient_balance_overflow = ''recipient balance would overflow''"
| "state_transition_error_message SE_fee_total_overflow =
     ''block transaction fee total would overflow''"
| "state_transition_error_message SE_reward_overflow = ''miner reward balance would overflow''"

section \<open>Accounts and totals\<close>

text \<open>The money in a state, as an unbounded number.\<close>

definition total_balance :: "ChainState \<Rightarrow> nat" where
  "total_balance st = std.total (\<lambda>a. unat (balance a)) st"

lemma account_of_hash_set:
  "std_map_ok st \<Longrightarrow>
     account_of_hash (std_map_set h a st) k = (if k = h then a else account_of_hash st k)"
  by (simp add: account_of_hash_def std.lookup_update)

lemma balance_default [simp]: "balance AccountState_default = 0" "next_nonce AccountState_default = 0"
  by (simp_all add: AccountState_default_def)

lemma total_balance_set:
  assumes "std_map_ok st"
  shows "total_balance (std_map_set h a st) + unat (balance (account_of_hash st h))
    = total_balance st + unat (balance a)"
  using std.total_update [OF assms, of "\<lambda>a. unat (balance a)" h a]
  by (simp add: total_balance_def account_of_hash_def split: option.splits)

lemma balance_le_total:
  assumes "std_map_ok st"
  shows "unat (balance (account_of_hash st h)) \<le> total_balance st"
  using std.total_ge [OF assms, of h _ "\<lambda>a. unat (balance a)"]
  by (simp add: total_balance_def account_of_hash_def split: option.splits)

lemma total_balance_default [simp]: "total_balance ChainState_default = 0"
  by (simp add: total_balance_def std.total_def ChainState_default_def)

lemma std_map_ok_default [simp]: "std_map_ok ChainState_default"
  by (simp add: ChainState_default_def)

lemma unat_block_subsidy: "unat block_subsidy = 5000000000"
  by (simp add: block_subsidy_def base_units_per_bbc_def)

section \<open>One transaction\<close>

text \<open>Everything a successful round tells about its inputs and outputs.\<close>

lemma apply_transaction_Inr:
  assumes "apply_transaction so tx (st, fees) = Inr (st', fees')"
  defines "s \<equiv> addr_hash (tx_sender so tx)" and "r \<equiv> addr_hash (tx_recipient tx)"
  defines "a \<equiv> account_of_hash st s"
  defines "st1 \<equiv> std_map_set s
    \<lparr> balance = balance a - (tx_amount tx + tx_fee tx), next_nonce = next_nonce a + 1 \<rparr> st"
  defines "b \<equiv> account_of_hash st1 r"
  shows "tx_account_nonce tx = next_nonce a" "next_nonce a \<noteq> u64_max"
    "tx_amount tx + tx_fee tx \<le> balance a" "\<not> u64_max - tx_amount tx < balance b"
    "\<not> u64_max - tx_fee tx < fees"
    "st' = std_map_set r (b\<lparr> balance := balance b + tx_amount tx \<rparr>) st1"
    "fees' = fees + tx_fee tx"
  using assms(1)
  unfolding apply_transaction_def b_def st1_def a_def r_def s_def Let_def prod.case
  by (simp_all split: if_splits add: not_less)

lemma apply_transaction_ok:
  assumes "std_map_ok st" and "apply_transaction so tx (st, fees) = Inr (st', fees')"
  shows "std_map_ok st'"
  using apply_transaction_Inr(6) [OF assms(2)] assms(1) by (simp add: std.invar_update)

lemma apply_transaction_fees:
  assumes "apply_transaction so tx (st, fees) = Inr (st', fees')"
  shows "unat fees' = unat fees + unat (tx_fee tx)"
  using apply_transaction_Inr(5,7) [OF assms] unat_add_guarded [of "tx_fee tx" fees]
  by (simp add: add.commute)

text \<open>What one transaction does to one account.\<close>

lemma apply_transaction_account:
  assumes ok: "std_map_ok st" and step: "apply_transaction so tx (st, fees) = Inr (st', fees')"
    and valid: "tx_valid so tx"
  shows "unat (balance (account_of_hash st' h)) +
      (if h = addr_hash (tx_sender so tx) then unat (tx_amount tx) + unat (tx_fee tx) else 0)
    = unat (balance (account_of_hash st h)) +
      (if h = addr_hash (tx_recipient tx) then unat (tx_amount tx) else 0)"
    and "unat (next_nonce (account_of_hash st' h)) =
      unat (next_nonce (account_of_hash st h)) + (if h = addr_hash (tx_sender so tx) then 1 else 0)"
proof -
  let ?s = "addr_hash (tx_sender so tx)" and ?r = "addr_hash (tx_recipient tx)"
  let ?a = "account_of_hash st ?s" and ?debit = "tx_amount tx + tx_fee tx"
  let ?st1 = "std_map_set ?s \<lparr> balance = balance ?a - ?debit, next_nonce = next_nonce ?a + 1 \<rparr> st"
  let ?b = "account_of_hash ?st1 ?r"
  note i = apply_transaction_Inr [OF step]
  have ok1: "std_map_ok ?st1" using ok by (rule std.invar_update)
  have debit: "unat ?debit = unat (tx_amount tx) + unat (tx_fee tx)"
    using valid by (rule tx_valid_debit)
  have paid: "unat (balance ?a - ?debit) + unat ?debit = unat (balance ?a)"
    using i(3) by (simp add: unat_sub word_le_nat_alt)
  have received: "unat (balance ?b + tx_amount tx) = unat (balance ?b) + unat (tx_amount tx)"
    using unat_add_guarded [OF i(4)] by (simp add: add.commute)
  have nonce: "unat (next_nonce ?a + 1) = Suc (unat (next_nonce ?a))"
    using i(2) by (rule unat_Suc_not_max)
  have st1: "account_of_hash ?st1 k =
      (if k = ?s then \<lparr> balance = balance ?a - ?debit, next_nonce = next_nonce ?a + 1 \<rparr>
       else account_of_hash st k)" for k
    using ok by (rule account_of_hash_set)
  have st': "account_of_hash st' k =
      (if k = ?r then ?b\<lparr> balance := balance ?b + tx_amount tx \<rparr> else account_of_hash ?st1 k)" for k
    unfolding i(6) using ok1 by (rule account_of_hash_set)
  show "unat (balance (account_of_hash st' h)) +
      (if h = ?s then unat (tx_amount tx) + unat (tx_fee tx) else 0)
    = unat (balance (account_of_hash st h)) + (if h = ?r then unat (tx_amount tx) else 0)"
  proof (cases "h = ?r")
    case True
    then have "unat (balance (account_of_hash st' h)) = unat (balance (account_of_hash ?st1 h)) + unat (tx_amount tx)"
      using received by (simp add: st')
    with True paid debit show ?thesis by (simp add: st1)
  next
    case False
    then have "account_of_hash st' h = account_of_hash ?st1 h" by (simp add: st')
    with False paid debit show ?thesis by (simp add: st1)
  qed
  have "next_nonce (account_of_hash st' h) = next_nonce (account_of_hash ?st1 h)"
    by (simp add: st')
  then show "unat (next_nonce (account_of_hash st' h)) =
      unat (next_nonce (account_of_hash st h)) + (if h = ?s then 1 else 0)"
    using nonce by (simp add: st1)
qed

lemma apply_transaction_total:
  assumes ok: "std_map_ok st" and step: "apply_transaction so tx (st, fees) = Inr (st', fees')"
    and valid: "tx_valid so tx"
  shows "total_balance st' + unat (tx_fee tx) = total_balance st"
proof -
  let ?s = "addr_hash (tx_sender so tx)" and ?r = "addr_hash (tx_recipient tx)"
  let ?a = "account_of_hash st ?s" and ?debit = "tx_amount tx + tx_fee tx"
  let ?a1 = "\<lparr> balance = balance ?a - ?debit, next_nonce = next_nonce ?a + 1 \<rparr>"
  let ?st1 = "std_map_set ?s ?a1 st"
  let ?b = "account_of_hash ?st1 ?r"
  note i = apply_transaction_Inr [OF step]
  have ok1: "std_map_ok ?st1" using ok by (rule std.invar_update)
  have "unat (balance ?a - ?debit) + unat ?debit = unat (balance ?a)"
    using i(3) by (simp add: unat_sub word_le_nat_alt)
  then have "total_balance ?st1 + unat (tx_amount tx) + unat (tx_fee tx) = total_balance st"
    using total_balance_set [OF ok, of ?s ?a1] tx_valid_debit [OF valid] by simp
  moreover have "unat (balance ?b + tx_amount tx) = unat (balance ?b) + unat (tx_amount tx)"
    using unat_add_guarded [OF i(4)] by (simp add: add.commute)
  then have "total_balance st' = total_balance ?st1 + unat (tx_amount tx)"
    unfolding i(6) using total_balance_set [OF ok1, of ?r "?b\<lparr> balance := balance ?b + tx_amount tx \<rparr>"]
    by simp
  ultimately show ?thesis by simp
qed

section \<open>The transactions of a block\<close>

text \<open>What an account pays and receives over a list of transactions.\<close>

definition debits :: "sodium \<Rightarrow> bytes \<Rightarrow> SignedTransaction list \<Rightarrow> nat" where
  "debits so h txs = (\<Sum>tx\<leftarrow>txs. if h = addr_hash (tx_sender so tx) then unat (tx_amount tx) + unat (tx_fee tx) else 0)"

definition credits :: "bytes \<Rightarrow> SignedTransaction list \<Rightarrow> nat" where
  "credits h txs = (\<Sum>tx\<leftarrow>txs. if h = addr_hash (tx_recipient tx) then unat (tx_amount tx) else 0)"

definition fees_of :: "SignedTransaction list \<Rightarrow> nat" where
  "fees_of txs = (\<Sum>tx\<leftarrow>txs. unat (tx_fee tx))"

definition sent_by :: "sodium \<Rightarrow> bytes \<Rightarrow> SignedTransaction list \<Rightarrow> SignedTransaction list" where
  "sent_by so h txs = filter (\<lambda>tx. addr_hash (tx_sender so tx) = h) txs"

lemma sent_by_simps [simp]:
  "sent_by so h [] = []"
  "sent_by so h (tx # txs) =
     (if addr_hash (tx_sender so tx) = h then tx # sent_by so h txs else sent_by so h txs)"
  "sent_by so h (txs @ txs') = sent_by so h txs @ sent_by so h txs'"
  by (simp_all add: sent_by_def)

lemma sum_simps [simp]:
  "debits so h [] = 0" "credits h [] = 0" "fees_of [] = 0"
  "debits so h (tx # txs) = (if h = addr_hash (tx_sender so tx) then unat (tx_amount tx) + unat (tx_fee tx) else 0) + debits so h txs"
  "credits h (tx # txs) = (if h = addr_hash (tx_recipient tx) then unat (tx_amount tx) else 0) + credits h txs"
  "fees_of (tx # txs) = unat (tx_fee tx) + fees_of txs"
  by (simp_all add: debits_def credits_def fees_of_def)

lemma apply_transactions_Cons_Inr:
  "apply_transactions so k (tx # txs) (st, fees) = Inr (st', fees') \<longleftrightarrow>
     (\<exists>st1 fees1. apply_transaction so tx (st, fees) = Inr (st1, fees1) \<and>
        apply_transactions so (Suc k) txs (st1, fees1) = Inr (st', fees'))"
  by (auto split: sum.splits)

lemma apply_transactions_step:
  assumes "std_map_ok st" and "apply_transactions so k (tx # txs) (st, fees) = Inr (st', fees')"
    and "list_all (tx_valid so) (tx # txs)"
  obtains st1 fees1 where "apply_transaction so tx (st, fees) = Inr (st1, fees1)" "tx_valid so tx"
    "std_map_ok st1" "apply_transactions so (Suc k) txs (st1, fees1) = Inr (st', fees')"
    "list_all (tx_valid so) txs"
  using assms apply_transaction_ok
  by (auto simp del: apply_transactions.simps simp: apply_transactions_Cons_Inr)

lemma apply_transactions_summary:
  assumes "std_map_ok st" and "apply_transactions so k txs (st, fees) = Inr (st', fees')"
    and "list_all (tx_valid so) txs"
  shows "std_map_ok st' \<and> unat fees' = unat fees + fees_of txs \<and>
    total_balance st' + fees_of txs = total_balance st \<and>
    unat (balance (account_of_hash st' h)) + debits so h txs
      = unat (balance (account_of_hash st h)) + credits h txs \<and>
    unat (next_nonce (account_of_hash st' h))
      = unat (next_nonce (account_of_hash st h)) + length (sent_by so h txs)"
  using assms
proof (induction txs arbitrary: k st fees)
  case Nil
  then show ?case by simp
next
  case (Cons tx txs)
  from Cons.prems obtain st1 fees1 where s: "apply_transaction so tx (st, fees) = Inr (st1, fees1)"
    and v: "tx_valid so tx" and rest: "std_map_ok st1"
      "apply_transactions so (Suc k) txs (st1, fees1) = Inr (st', fees')" "list_all (tx_valid so) txs"
    by (rule apply_transactions_step)
  note ih = Cons.IH [OF rest]
  note ok = Cons.prems(1)
  show ?case
    using ih apply_transaction_fees [OF s] apply_transaction_total [OF ok s v]
      apply_transaction_account [OF ok s v, of h]
    by (cases "h = addr_hash (tx_sender so tx)") auto
qed

lemmas apply_transactions_correct =
  apply_transactions_summary [THEN conjunct1]
  apply_transactions_summary [THEN conjunct2, THEN conjunct1]
  apply_transactions_summary [THEN conjunct2, THEN conjunct2, THEN conjunct1]
  apply_transactions_summary [THEN conjunct2, THEN conjunct2, THEN conjunct2, THEN conjunct1]
  apply_transactions_summary [THEN conjunct2, THEN conjunct2, THEN conjunct2, THEN conjunct2]

text \<open>The nonces of one sender within a block are consecutive.\<close>

lemma apply_transactions_nonces:
  assumes "std_map_ok st" and "apply_transactions so k txs (st, fees) = Inr (st', fees')"
    and "list_all (tx_valid so) txs"
  shows "map (\<lambda>tx. unat (tx_account_nonce tx)) (sent_by so h txs) =
    [unat (next_nonce (account_of_hash st h)) ..<
     unat (next_nonce (account_of_hash st h)) + length (sent_by so h txs)]"
  using assms
proof (induction txs arbitrary: k st fees)
  case (Cons tx txs)
  from Cons.prems obtain st1 fees1 where s: "apply_transaction so tx (st, fees) = Inr (st1, fees1)"
    and v: "tx_valid so tx" and rest: "std_map_ok st1"
      "apply_transactions so (Suc k) txs (st1, fees1) = Inr (st', fees')" "list_all (tx_valid so) txs"
    by (rule apply_transactions_step)
  note Cons.IH [OF rest]
  moreover note apply_transaction_account(2) [OF Cons.prems(1) s v, of h]
  moreover have "tx_account_nonce tx = next_nonce (account_of_hash st (addr_hash (tx_sender so tx)))"
    using s by (rule apply_transaction_Inr(1))
  ultimately show ?case
    by (cases "h = addr_hash (tx_sender so tx)") (auto simp: upt_conv_Cons simp del: upt_Suc)
qed simp

section \<open>Blocks\<close>

lemma apply_transactions_error: "apply_transactions so k txs acc = Inl q \<Longrightarrow> st_error q \<noteq> SE_none"
proof (induction txs arbitrary: k acc)
  case (Cons tx txs)
  have "apply_transaction so tx acc \<noteq> Inl SE_none"
    by (cases acc) (simp add: apply_transaction_def Let_def)
  with Cons show ?case by (fastforce split: sum.splits)
qed simp

lemma apply_block_state_none:
  assumes "apply_block_state so st b = (r, st')" and "st_error r = SE_none"
    and "list_all (tx_valid so) (blk_transactions b)"
  obtains a st1 fees where "\<not> is_genesis b" "blk_reward_recipient b = Some a"
    "apply_transactions so 0 (blk_transactions b) (st, 0) = Inr (st1, fees)"
    "\<not> u64_max - block_subsidy < fees"
    "\<not> u64_max - (block_subsidy + fees) < balance (account_of_hash st1 (addr_hash a))"
    "st' = std_map_set (addr_hash a) (account_of_hash st1 (addr_hash a)
       \<lparr> balance := balance (account_of_hash st1 (addr_hash a)) + (block_subsidy + fees) \<rparr>) st1"
    "r = \<lparr> st_error = SE_none, st_transaction_index = None \<rparr>"
  using assms(1,2) apply_transactions_error
  by (auto simp: apply_block_state_def Let_def intro: that
      split: if_splits option.splits sum.splits prod.splits)

lemma apply_block_state_failed:
  assumes "apply_block_state so st b = (r, st')" and "st_error r \<noteq> SE_none"
  shows "st' = st"
  using assms
  by (auto simp: apply_block_state_def Let_def split: if_splits option.splits sum.splits prod.splits)

text \<open>The reward an account gets from a block.\<close>

definition reward_of :: "Block \<Rightarrow> bytes \<Rightarrow> nat" where
  "reward_of b h =
     (if map_option addr_hash (blk_reward_recipient b) = Some h
      then unat block_subsidy + fees_of (blk_transactions b) else 0)"

lemma apply_block_state_correct:
  assumes "apply_block_state so st b = (r, st')" and "st_error r = SE_none"
    and "list_all (tx_valid so) (blk_transactions b)" and "std_map_ok st"
  shows "std_map_ok st'"
    and "total_balance st' = total_balance st + unat block_subsidy"
    and "unat (balance (account_of_hash st' h)) + debits so h (blk_transactions b)
      = unat (balance (account_of_hash st h)) + credits h (blk_transactions b) + reward_of b h"
    and "unat (next_nonce (account_of_hash st' h))
      = unat (next_nonce (account_of_hash st h)) + length (sent_by so h (blk_transactions b))"
proof -
  from assms(1-3) obtain a st1 fees where a: "blk_reward_recipient b = Some a"
    and t: "apply_transactions so 0 (blk_transactions b) (st, 0) = Inr (st1, fees)"
    and g1: "\<not> u64_max - block_subsidy < fees"
    and g2: "\<not> u64_max - (block_subsidy + fees) < balance (account_of_hash st1 (addr_hash a))"
    and st': "st' = std_map_set (addr_hash a) (account_of_hash st1 (addr_hash a)
       \<lparr> balance := balance (account_of_hash st1 (addr_hash a)) + (block_subsidy + fees) \<rparr>) st1"
    by (rule apply_block_state_none)
  note c = apply_transactions_correct [OF assms(4) t assms(3)]
  let ?m = "account_of_hash st1 (addr_hash a)"
  have credit: "unat (block_subsidy + fees) = unat block_subsidy + fees_of (blk_transactions b)"
    using unat_add_guarded [OF g1] c(2) by simp
  have paid: "unat (balance ?m + (block_subsidy + fees)) =
      unat (balance ?m) + unat block_subsidy + fees_of (blk_transactions b)"
    using unat_add_guarded [OF g2] credit by (simp add: add.commute)
  show "std_map_ok st'" unfolding st' using c(1) by (rule std.invar_update)
  show "total_balance st' = total_balance st + unat block_subsidy"
    using total_balance_set [OF c(1), of "addr_hash a" "?m\<lparr> balance := balance ?m + (block_subsidy + fees) \<rparr>"]
      paid c(3) unfolding st' by simp
  have acc: "account_of_hash st' h =
      (if h = addr_hash a then ?m\<lparr> balance := balance ?m + (block_subsidy + fees) \<rparr>
       else account_of_hash st1 h)"
    unfolding st' using c(1) by (rule account_of_hash_set)
  show "unat (balance (account_of_hash st' h)) + debits so h (blk_transactions b)
      = unat (balance (account_of_hash st h)) + credits h (blk_transactions b) + reward_of b h"
    using c(4) [of h] paid by (auto simp: acc reward_of_def a)
  show "unat (next_nonce (account_of_hash st' h))
      = unat (next_nonce (account_of_hash st h)) + length (sent_by so h (blk_transactions b))"
    using c(5) [of h] by (auto simp: acc)
qed

lemma apply_block_state_nonce_range:
  assumes "apply_block_state so st b = (r, st')" and "st_error r = SE_none"
    and "list_all (tx_valid so) (blk_transactions b)" and "std_map_ok st"
  shows "map (\<lambda>tx. unat (tx_account_nonce tx)) (sent_by so h (blk_transactions b)) =
      [unat (next_nonce (account_of_hash st h)) ..< unat (next_nonce (account_of_hash st' h))]"
proof -
  from assms(1-3) obtain st1 fees where
    t: "apply_transactions so 0 (blk_transactions b) (st, 0) = Inr (st1, fees)"
    by (rule apply_block_state_none)
  show ?thesis
    using apply_transactions_nonces [OF assms(4) t assms(3)] apply_block_state_correct(4) [OF assms] by simp
qed

section \<open>Properties\<close>

text \<open>
  C11. Applying a block conserves money. If \<open>apply_block_state\<close> reports an error the state
  is unchanged; if it succeeds, the sum of all balances grows by exactly the block
  subsidy, and every account ends with its old balance plus the amounts sent to it, plus
  subsidy and fees if it is the miner, minus the amounts and fees it paid. The sums are
  over unbounded numbers, so no 64-bit addition or subtraction wrapped around.
\<close>

theorem apply_block_state_conserves:
  assumes "std_map_ok st" and "list_all (tx_valid so) (blk_transactions b)"
    and "apply_block_state so st b = (r, st')"
  shows "(st_error r \<noteq> SE_none \<longrightarrow> st' = st) \<and>
    (st_error r = SE_none \<longrightarrow>
       std_map_ok st' \<and>
       total_balance st' = total_balance st + unat block_subsidy \<and>
       (\<forall>h. unat (balance (account_of_hash st' h)) + debits so h (blk_transactions b)
         = unat (balance (account_of_hash st h)) + credits h (blk_transactions b) + reward_of b h))"
  using apply_block_state_failed [OF assms(3)] apply_block_state_correct [OF assms(3) _ assms(2,1)]
  by blast

text \<open>
  Nonces are used once and in order. In a block that applies, the transactions of each
  sender carry, in block order, exactly the next nonces of its account, and the account's
  next nonce grows by their number (below \<open>2 ^ 64\<close>, so it never wraps to an old value).
\<close>

theorem apply_block_state_nonces:
  assumes "std_map_ok st" and "list_all (tx_valid so) (blk_transactions b)"
    and "apply_block_state so st b = (r, st')" and "st_error r = SE_none"
  shows "map (\<lambda>tx. unat (tx_account_nonce tx)) (sent_by so h (blk_transactions b)) =
      [unat (next_nonce (account_of_hash st h)) ..< unat (next_nonce (account_of_hash st' h))] \<and>
    unat (next_nonce (account_of_hash st' h)) =
      unat (next_nonce (account_of_hash st h)) + length (sent_by so h (blk_transactions b))"
  using apply_block_state_nonce_range [OF assms(3,4,2,1)] apply_block_state_correct(4) [OF assms(3,4,2,1)]
  by simp

section \<open>An example\<close>

definition demo_block :: Block where
  "demo_block =
     \<lparr> blk_chain_id = 1, blk_height = 1, blk_previous_block_hash = replicate 32 1,
       blk_transaction_root = replicate 32 0, blk_reward_recipient = Some (Address (replicate 32 9)),
       blk_timestamp = 1, blk_difficulty_target = replicate 32 0, blk_mining_nonce = 0,
       blk_transactions = [demo_tx 1 2 0] \<rparr>"

definition demo_state :: ChainState where
  "demo_state = [(addr_hash (tx_sender demo_sodium (demo_tx 1 2 0)), \<lparr> balance = 100, next_nonce = 0 \<rparr>)]"

lemma demo_block_applies:
  "st_error (fst (apply_block_state demo_sodium demo_state demo_block)) = SE_none"
  by code_simp

lemma demo_block_valid_transactions: "list_all (tx_valid demo_sodium) (blk_transactions demo_block)"
  by (simp add: demo_block_def tx_valid_demo)

lemma demo_state_ok: "std_map_ok demo_state"
  by (simp add: demo_state_def std_map_ok_def)

theorem apply_block_state_conserves_witness:
  "total_balance (snd (apply_block_state demo_sodium demo_state demo_block))
     = total_balance demo_state + unat block_subsidy"
  using apply_block_state_conserves [OF demo_state_ok demo_block_valid_transactions
      prod.collapse [symmetric]] demo_block_applies by blast

theorem apply_block_state_nonces_witness:
  "map (\<lambda>tx. unat (tx_account_nonce tx))
     (sent_by demo_sodium (addr_hash (tx_sender demo_sodium (demo_tx 1 2 0))) (blk_transactions demo_block)) =
   [0 ..< unat (next_nonce (account_of_hash (snd (apply_block_state demo_sodium demo_state demo_block))
      (addr_hash (tx_sender demo_sodium (demo_tx 1 2 0)))))]"
  using apply_block_state_nonces [OF demo_state_ok demo_block_valid_transactions
      prod.collapse [symmetric] demo_block_applies,
      of "addr_hash (tx_sender demo_sodium (demo_tx 1 2 0))"]
  by (simp add: demo_state_def account_of_hash_def)

end
