(* ===== verification/BBC_Blockchain.thy ===== *)
theory BBC_Blockchain
  imports BBC_Pow BBC_State "HOL-Library.Sublist"
begin

text \<open>
  The fork tree: \<open>include/bbc/chain/blockchain.hpp\<close> and \<open>src/chain/blockchain.cpp\<close>. All
  blocks ever accepted are stored with the index of their parent, the work of their
  branch and the account state after them; the active chain is the branch of most work,
  and a tie keeps the branch that was there first.
\<close>

section \<open>Data\<close>

datatype ChainError =
    CE_none
  | CE_genesis_cannot_be_appended
  | CE_unexpected_chain
  | CE_duplicate_block
  | CE_height_overflow
  | CE_unexpected_height
  | CE_unexpected_parent
  | CE_timestamp_not_increasing
  | CE_invalid_proof_of_work
  | CE_invalid_state_transition

record AppendResult =
  ar_error :: ChainError
  ar_transaction_index :: "nat option"
  ar_state_error :: StateTransitionError
  ar_active_chain_changed :: bool
  ar_reorganized :: bool
  ar_detached_blocks :: "Block list"
  ar_attached_blocks :: "Block list"

definition AppendResult_default :: AppendResult where
  "AppendResult_default =
     \<lparr> ar_error = CE_none, ar_transaction_index = None, ar_state_error = SE_none,
       ar_active_chain_changed = False, ar_reorganized = False, ar_detached_blocks = [],
       ar_attached_blocks = [] \<rparr>"

definition append_error :: "ChainError \<Rightarrow> AppendResult" where
  "append_error e = AppendResult_default\<lparr> ar_error := e \<rparr>"

record BlockNode =
  bn_parent_index :: nat
  bn_cumulative_work :: u64
  bn_state :: ChainState

record Blockchain =
  bc_stored_blocks :: "Block list"
  bc_nodes :: "BlockNode list"
  bc_index_by_id :: "(bytes, nat) std_map"
  bc_active_indices :: "nat list"
  bc_active_flags :: "bool list"
  bc_blocks :: "Block list"
  bc_state :: ChainState

section \<open>Operations\<close>

definition Blockchain_create :: "sodium \<Rightarrow> u32 \<Rightarrow> Blockchain" where
  "Blockchain_create so chain_id =
     \<lparr> bc_stored_blocks = [genesis_block so chain_id],
       bc_nodes = [\<lparr> bn_parent_index = 0, bn_cumulative_work = 0, bn_state = ChainState_default \<rparr>],
       bc_index_by_id = [(blk_id so (genesis_block so chain_id), 0)],
       bc_active_indices = [0],
       bc_active_flags = [True],
       bc_blocks = [genesis_block so chain_id],
       bc_state = ChainState_default \<rparr>"

definition bc_tip :: "Blockchain \<Rightarrow> Block" where
  "bc_tip bc = last (bc_blocks bc)"

definition bc_block_count :: "Blockchain \<Rightarrow> nat" where
  "bc_block_count bc = length (bc_blocks bc)"

definition bc_stored_block_count :: "Blockchain \<Rightarrow> nat" where
  "bc_stored_block_count bc = length (bc_stored_blocks bc)"

definition bc_contains :: "Blockchain \<Rightarrow> bytes \<Rightarrow> bool" where
  "bc_contains bc i \<longleftrightarrow> map_of (bc_index_by_id bc) i \<noteq> None"

definition bc_is_on_active_chain :: "Blockchain \<Rightarrow> bytes \<Rightarrow> bool" where
  "bc_is_on_active_chain bc i =
     (case map_of (bc_index_by_id bc) i of None \<Rightarrow> False | Some k \<Rightarrow> bc_active_flags bc ! k)"

definition bc_cumulative_work :: "Blockchain \<Rightarrow> bytes \<Rightarrow> u64 option" where
  "bc_cumulative_work bc i =
     (case map_of (bc_index_by_id bc) i of
        None \<Rightarrow> None
      | Some k \<Rightarrow> Some (bn_cumulative_work (bc_nodes bc ! k)))"

text \<open>
  The inner loop of \<open>block_locator\<close>: up to \<open>step\<close> parents up, stopping at index 0. The
  outer loop adds one entry per round and ends at \<open>maximum_entries\<close>; \<open>room\<close> is the number
  of entries still free.
\<close>

fun climb :: "BlockNode list \<Rightarrow> nat \<Rightarrow> nat \<Rightarrow> nat" where
  "climb nodes 0 index = index"
| "climb nodes (Suc steps) index =
     (if index = 0 then 0 else climb nodes steps (bn_parent_index (nodes ! index)))"

fun locator_loop ::
    "sodium \<Rightarrow> Blockchain \<Rightarrow> nat \<Rightarrow> nat \<Rightarrow> nat \<Rightarrow> nat \<Rightarrow> (u64 \<times> bytes) list \<Rightarrow> (u64 \<times> bytes) list" where
  "locator_loop so bc maximum_entries 0 index step locator = locator"
| "locator_loop so bc maximum_entries (Suc room) index step locator =
     (let block = bc_stored_blocks bc ! index;
          locator = locator @ [(blk_height block, blk_id so block)]
      in if index = 0 then locator
         else if length locator + 1 = maximum_entries
         then locator_loop so bc maximum_entries room 0 step locator
         else locator_loop so bc maximum_entries room
                (climb (bc_nodes bc) step index)
                (if 10 \<le> length locator \<and> step \<le> maximum_entries then step * 2 else step)
                locator)"

definition bc_block_locator :: "sodium \<Rightarrow> Blockchain \<Rightarrow> bytes \<Rightarrow> nat \<Rightarrow> (u64 \<times> bytes) list" where
  "bc_block_locator so bc start maximum_entries =
     (case map_of (bc_index_by_id bc) start of
        None \<Rightarrow> []
      | Some index \<Rightarrow>
          if maximum_entries = 0 then []
          else locator_loop so bc maximum_entries maximum_entries index 1 [])"

text \<open>
  The loop of \<open>append\<close> that follows the parents of the new block to index 0. Nothing in the
  code bounds it but the way the nodes are built, so it is a partial function: \<^const>\<open>None\<close>
  means that it does not end. The list is in the order of the loop, new block first.
\<close>

partial_function (option) path_to_genesis :: "BlockNode list \<Rightarrow> nat \<Rightarrow> nat list option" where
  "path_to_genesis nodes index =
     (if index = 0 then Some [index]
      else Option.bind (path_to_genesis nodes (bn_parent_index (nodes ! index)))
        (\<lambda>rest. Some (index # rest)))"

declare path_to_genesis.simps [code]

text \<open>The loop that counts the indices two chains share.\<close>

fun common_prefix_size :: "nat list \<Rightarrow> nat list \<Rightarrow> nat" where
  "common_prefix_size (a # as) (b # bs) = (if a = b then Suc (common_prefix_size as bs) else 0)"
| "common_prefix_size _ _ = 0"

text \<open>The part of \<open>append\<close> after the new block is stored: switch to its branch.\<close>

definition activate ::
    "Blockchain \<Rightarrow> nat list \<Rightarrow> AppendResult \<times> Blockchain" where
  "activate bc next_active_indices =
     (let common_size = common_prefix_size (bc_active_indices bc) next_active_indices;
          detached = map (\<lambda>index. bc_stored_blocks bc ! index) (drop common_size (bc_active_indices bc));
          attached = map (\<lambda>index. bc_stored_blocks bc ! index) (drop common_size next_active_indices)
      in (AppendResult_default\<lparr> ar_active_chain_changed := True,
            ar_reorganized := common_size < length (bc_active_indices bc),
            ar_detached_blocks := detached,
            ar_attached_blocks := attached \<rparr>,
          bc\<lparr> bc_active_indices := next_active_indices,
              bc_active_flags := fold (\<lambda>index flags. flags[index := True]) next_active_indices
                (replicate (length (bc_active_flags bc)) False),
              bc_blocks := map (\<lambda>index. bc_stored_blocks bc ! index) next_active_indices,
              bc_state := bn_state (bc_nodes bc ! last next_active_indices) \<rparr>))"

text \<open>\<open>Blockchain::append\<close>: the result and the object afterwards.\<close>

definition bc_append :: "sodium \<Rightarrow> Blockchain \<Rightarrow> Block \<Rightarrow> (AppendResult \<times> Blockchain) option" where
  "bc_append so bc block =
     (if is_genesis block then Some (append_error CE_genesis_cannot_be_appended, bc)
      else if blk_chain_id block \<noteq> blk_chain_id (bc_tip bc) then Some (append_error CE_unexpected_chain, bc)
      else
        (let block_id = blk_id so block
         in if map_of (bc_index_by_id bc) block_id \<noteq> None
            then Some (append_error CE_duplicate_block, bc)
            else case map_of (bc_index_by_id bc) (blk_previous_block_hash block) of
              None \<Rightarrow> Some (append_error CE_unexpected_parent, bc)
            | Some parent_index \<Rightarrow>
                (let parent_block = bc_stored_blocks bc ! parent_index
                 in if blk_height parent_block = u64_max then Some (append_error CE_height_overflow, bc)
                    else if blk_height block \<noteq> blk_height parent_block + 1
                    then Some (append_error CE_unexpected_height, bc)
                    else if blk_timestamp block \<le> blk_timestamp parent_block
                    then Some (append_error CE_timestamp_not_increasing, bc)
                    else if validate_proof_of_work so block \<noteq> PE_none
                    then Some (append_error CE_invalid_proof_of_work, bc)
                    else
                      (let (transition, next_state) =
                             apply_block_state so (bn_state (bc_nodes bc ! parent_index)) block
                       in if st_error transition \<noteq> SE_none
                          then Some ((append_error CE_invalid_state_transition)
                                 \<lparr> ar_transaction_index := st_transaction_index transition,
                                   ar_state_error := st_error transition \<rparr>, bc)
                          else
                            (let work = bn_cumulative_work (bc_nodes bc ! parent_index) + 1;
                                 new_index = length (bc_stored_blocks bc);
                                 bc = bc\<lparr> bc_stored_blocks := bc_stored_blocks bc @ [block],
                                          bc_nodes := bc_nodes bc @
                                            [\<lparr> bn_parent_index = parent_index, bn_cumulative_work = work,
                                               bn_state = next_state \<rparr>],
                                          bc_active_flags := bc_active_flags bc @ [False],
                                          bc_index_by_id := std_map_set block_id new_index (bc_index_by_id bc) \<rparr>
                             in if work \<le> bn_cumulative_work (bc_nodes bc ! last (bc_active_indices bc))
                                then Some (AppendResult_default, bc)
                                else map_option (\<lambda>path. activate bc (rev path))
                                       (path_to_genesis (bc_nodes bc) new_index))))))"

fun chain_error_message :: "ChainError \<Rightarrow> string" where
  "chain_error_message CE_none = ''no error''"
| "chain_error_message CE_genesis_cannot_be_appended =
     ''Genesis cannot be appended after the canonical chain origin''"
| "chain_error_message CE_unexpected_chain = ''block belongs to a different chain''"
| "chain_error_message CE_duplicate_block = ''block is already stored''"
| "chain_error_message CE_height_overflow = ''chain height is exhausted''"
| "chain_error_message CE_unexpected_height = ''block height does not follow its parent''"
| "chain_error_message CE_unexpected_parent = ''block parent is not stored''"
| "chain_error_message CE_timestamp_not_increasing =
     ''block timestamp must be greater than its parent's timestamp''"
| "chain_error_message CE_invalid_proof_of_work = ''block Proof of Work is invalid''"
| "chain_error_message CE_invalid_state_transition = ''block account-state transition is invalid''"

section \<open>The block tree\<close>

text \<open>
  What a stored block other than the first satisfies with respect to its parent. The
  parent is stored before it, so following parents ends at index 0.
\<close>

definition linked :: "sodium \<Rightarrow> Blockchain \<Rightarrow> nat \<Rightarrow> bool" where
  "linked so bc i \<longleftrightarrow>
     (let b = bc_stored_blocks bc ! i; n = bc_nodes bc ! i; p = bn_parent_index n;
          pb = bc_stored_blocks bc ! p; pn = bc_nodes bc ! p
      in p < i \<and> blk_valid so b \<and> \<not> is_genesis b \<and>
         blk_chain_id b = blk_chain_id pb \<and>
         blk_previous_block_hash b = blk_id so pb \<and>
         blk_height pb \<noteq> u64_max \<and> blk_height b = blk_height pb + 1 \<and>
         blk_timestamp pb < blk_timestamp b \<and>
         validate_proof_of_work so b = PE_none \<and>
         (\<exists>r. apply_block_state so (bn_state pn) b = (r, bn_state n) \<and> st_error r = SE_none) \<and>
         bn_cumulative_work n = bn_cumulative_work pn + 1)"

definition tree_ok :: "sodium \<Rightarrow> u32 \<Rightarrow> Blockchain \<Rightarrow> bool" where
  "tree_ok so c bc \<longleftrightarrow>
     supported_chain c \<and>
     length (bc_nodes bc) = length (bc_stored_blocks bc) \<and>
     bc_stored_blocks bc \<noteq> [] \<and>
     bc_stored_blocks bc ! 0 = genesis_block so c \<and>
     bc_nodes bc ! 0 = \<lparr> bn_parent_index = 0, bn_cumulative_work = 0, bn_state = ChainState_default \<rparr> \<and>
     std_map_ok (bc_index_by_id bc) \<and>
     (\<forall>h i. map_of (bc_index_by_id bc) h = Some i \<longleftrightarrow>
        i < length (bc_stored_blocks bc) \<and> blk_id so (bc_stored_blocks bc ! i) = h) \<and>
     (\<forall>i < length (bc_stored_blocks bc). 0 < i \<longrightarrow> linked so bc i)"

text \<open>The active branch is the path of a node of maximal work, and the cached views follow it.\<close>

definition active_ok :: "Blockchain \<Rightarrow> bool" where
  "active_ok bc \<longleftrightarrow>
     bc_active_indices bc \<noteq> [] \<and>
     last (bc_active_indices bc) < length (bc_stored_blocks bc) \<and>
     path_to_genesis (bc_nodes bc) (last (bc_active_indices bc)) = Some (rev (bc_active_indices bc)) \<and>
     (\<forall>i < length (bc_stored_blocks bc). bn_cumulative_work (bc_nodes bc ! i)
        \<le> bn_cumulative_work (bc_nodes bc ! last (bc_active_indices bc))) \<and>
     bc_blocks bc = map (\<lambda>i. bc_stored_blocks bc ! i) (bc_active_indices bc) \<and>
     bc_state bc = bn_state (bc_nodes bc ! last (bc_active_indices bc)) \<and>
     bc_active_flags bc =
       map (\<lambda>i. i \<in> set (bc_active_indices bc)) [0..<length (bc_stored_blocks bc)]"

definition bc_inv :: "sodium \<Rightarrow> u32 \<Rightarrow> Blockchain \<Rightarrow> bool" where
  "bc_inv so c bc \<longleftrightarrow> tree_ok so c bc \<and> active_ok bc"

lemma path_to_genesis_0 [simp]: "path_to_genesis nodes 0 = Some [0]"
  by (subst path_to_genesis.simps) simp

lemma path_to_genesis_step:
  "0 < i \<Longrightarrow> path_to_genesis nodes i =
     map_option ((#) i) (path_to_genesis nodes (bn_parent_index (nodes ! i)))"
  by (subst path_to_genesis.simps) (auto simp: map_conv_bind_option comp_def)

lemma Blockchain_create_inv:
  assumes "supported_chain c"
  shows "bc_inv so c (Blockchain_create so c)"
  using assms by (auto simp: bc_inv_def tree_ok_def active_ok_def Blockchain_create_def std_map_ok_def)

lemma tree_okD:
  assumes "tree_ok so c bc"
  shows "supported_chain c" "length (bc_nodes bc) = length (bc_stored_blocks bc)"
    "0 < length (bc_stored_blocks bc)" "bc_stored_blocks bc ! 0 = genesis_block so c"
    "bc_nodes bc ! 0 = \<lparr> bn_parent_index = 0, bn_cumulative_work = 0, bn_state = ChainState_default \<rparr>"
    "std_map_ok (bc_index_by_id bc)"
    "map_of (bc_index_by_id bc) h = Some i \<longleftrightarrow>
       i < length (bc_stored_blocks bc) \<and> blk_id so (bc_stored_blocks bc ! i) = h"
    "i < length (bc_stored_blocks bc) \<Longrightarrow> 0 < i \<Longrightarrow> linked so bc i"
  using assms unfolding tree_ok_def by auto

lemma linkedD:
  assumes "linked so bc i"
  shows "bn_parent_index (bc_nodes bc ! i) < i" "blk_valid so (bc_stored_blocks bc ! i)"
    "\<not> is_genesis (bc_stored_blocks bc ! i)"
    "blk_chain_id (bc_stored_blocks bc ! i) =
       blk_chain_id (bc_stored_blocks bc ! bn_parent_index (bc_nodes bc ! i))"
    "blk_previous_block_hash (bc_stored_blocks bc ! i) =
       blk_id so (bc_stored_blocks bc ! bn_parent_index (bc_nodes bc ! i))"
    "unat (blk_height (bc_stored_blocks bc ! i)) =
       Suc (unat (blk_height (bc_stored_blocks bc ! bn_parent_index (bc_nodes bc ! i))))"
    "blk_timestamp (bc_stored_blocks bc ! bn_parent_index (bc_nodes bc ! i))
       < blk_timestamp (bc_stored_blocks bc ! i)"
    "validate_proof_of_work so (bc_stored_blocks bc ! i) = PE_none"
    "\<exists>r. apply_block_state so (bn_state (bc_nodes bc ! bn_parent_index (bc_nodes bc ! i)))
       (bc_stored_blocks bc ! i) = (r, bn_state (bc_nodes bc ! i)) \<and> st_error r = SE_none"
  using assms by (auto simp: linked_def Let_def unat_Suc_not_max)

text \<open>Induction over the tree, from a block to its children.\<close>

lemma tree_induct [consumes 2, case_names genesis child]:
  assumes "tree_ok so c bc" and "i < length (bc_stored_blocks bc)"
    and "P 0"
    and "\<And>i. i < length (bc_stored_blocks bc) \<Longrightarrow> 0 < i \<Longrightarrow> linked so bc i \<Longrightarrow>
      bn_parent_index (bc_nodes bc ! i) < length (bc_stored_blocks bc) \<Longrightarrow>
      P (bn_parent_index (bc_nodes bc ! i)) \<Longrightarrow> P i"
  shows "P i"
  using assms(2)
proof (induction i rule: less_induct)
  case (less i)
  show ?case
  proof (cases "i = 0")
    case False
    then have l: "linked so bc i" using tree_okD(8) [OF assms(1)] less.prems by simp
    with less False linkedD(1) [OF l] assms(4) show ?thesis by auto
  qed (simp add: assms(3))
qed

text \<open>Work counts blocks, like the height, and the height does not wrap.\<close>

lemma work_is_height:
  assumes "tree_ok so c bc" and "i < length (bc_stored_blocks bc)"
  shows "bn_cumulative_work (bc_nodes bc ! i) = blk_height (bc_stored_blocks bc ! i)"
  using assms
proof (induction rule: tree_induct)
  case genesis
  then show ?case using tree_okD(4,5) [OF assms(1)] by simp
next
  case (child i)
  then show ?case by (simp add: linked_def Let_def)
qed

lemma chain_id_stored:
  assumes "tree_ok so c bc" and "i < length (bc_stored_blocks bc)"
  shows "blk_chain_id (bc_stored_blocks bc ! i) = c"
  using assms
proof (induction rule: tree_induct)
  case genesis
  then show ?case using tree_okD(4) [OF assms(1)] by simp
next
  case (child i)
  then show ?case using linkedD(4) by simp
qed

lemma blk_valid_stored:
  assumes "tree_ok so c bc" and "i < length (bc_stored_blocks bc)"
  shows "blk_valid so (bc_stored_blocks bc ! i)"
proof (cases "i = 0")
  case True
  then show ?thesis using tree_okD(1,4) [OF assms(1)] by (simp add: blk_valid_genesis)
next
  case False
  then have "linked so bc i" using tree_okD(8) [OF assms(1) assms(2)] by simp
  then show ?thesis by (rule linkedD(2))
qed

section \<open>Branches\<close>

text \<open>
  The blocks from Genesis to a stored block, and the state that replaying them from the
  empty state gives.
\<close>

definition branch :: "Blockchain \<Rightarrow> nat \<Rightarrow> Block list" where
  "branch bc i =
     map (\<lambda>k. bc_stored_blocks bc ! k) (rev (the (path_to_genesis (bc_nodes bc) i)))"

definition replay :: "sodium \<Rightarrow> Block list \<Rightarrow> ChainState" where
  "replay so bs = foldl (\<lambda>st b. snd (apply_block_state so st b)) ChainState_default (tl bs)"

lemma path_total:
  assumes "tree_ok so c bc" and "i < length (bc_stored_blocks bc)"
  shows "\<exists>p. path_to_genesis (bc_nodes bc) i = Some p \<and> p \<noteq> [] \<and> hd p = i \<and> last p = 0 \<and>
     (\<forall>k \<in> set p. k \<le> i) \<and> length p = Suc (unat (blk_height (bc_stored_blocks bc ! i)))"
  using assms
proof (induction rule: tree_induct)
  case genesis
  then show ?case using tree_okD(4) [OF assms(1)] by simp
next
  case (child i)
  then show ?case
    using linkedD(1,6) [OF child(3)] by (fastforce simp: path_to_genesis_step)
qed

lemma branch_genesis:
  "tree_ok so c bc \<Longrightarrow> branch bc 0 = [genesis_block so c]"
  by (simp add: branch_def tree_okD(4))

lemma branch_step:
  assumes "tree_ok so c bc" and "i < length (bc_stored_blocks bc)" and "0 < i"
  shows "branch bc i = branch bc (bn_parent_index (bc_nodes bc ! i)) @ [bc_stored_blocks bc ! i]"
proof -
  have "bn_parent_index (bc_nodes bc ! i) < i"
    using assms by (intro linkedD(1) tree_okD(8))
  then have "bn_parent_index (bc_nodes bc ! i) < length (bc_stored_blocks bc)" using assms(2) by simp
  from path_total [OF assms(1) this] obtain p where
    "path_to_genesis (bc_nodes bc) (bn_parent_index (bc_nodes bc ! i)) = Some p" by blast
  then show ?thesis using assms(3) by (simp add: branch_def path_to_genesis_step)
qed

lemma branch_not_empty:
  "tree_ok so c bc \<Longrightarrow> i < length (bc_stored_blocks bc) \<Longrightarrow> branch bc i \<noteq> []"
  using path_total [of so c bc i] by (auto simp: branch_def)

lemma replay_snoc: "bs \<noteq> [] \<Longrightarrow> replay so (bs @ [b]) = snd (apply_block_state so (replay so bs) b)"
  by (cases bs) (simp_all add: replay_def)

lemma node_state_replay:
  assumes "tree_ok so c bc" and "i < length (bc_stored_blocks bc)"
  shows "bn_state (bc_nodes bc ! i) = replay so (branch bc i)"
  using assms
proof (induction rule: tree_induct)
  case genesis
  then show ?case using assms(1) by (simp add: branch_genesis replay_def tree_okD(5))
next
  case (child i)
  then show ?case
    using linkedD(9) [OF child(3)] branch_not_empty [OF assms(1) child(4)]
    by (auto simp: branch_step [OF assms(1) child(1,2)] replay_snoc)
qed

section \<open>Appending a block\<close>

text \<open>The checks of \<open>append\<close> in one predicate, with the parent and the state they find.\<close>

definition append_checks :: "sodium \<Rightarrow> Blockchain \<Rightarrow> Block \<Rightarrow> nat \<Rightarrow> ChainState \<Rightarrow> bool" where
  "append_checks so bc b p st \<longleftrightarrow>
     \<not> is_genesis b \<and> blk_chain_id b = blk_chain_id (bc_tip bc) \<and>
     map_of (bc_index_by_id bc) (blk_id so b) = None \<and>
     map_of (bc_index_by_id bc) (blk_previous_block_hash b) = Some p \<and>
     blk_height (bc_stored_blocks bc ! p) \<noteq> u64_max \<and>
     blk_height b = blk_height (bc_stored_blocks bc ! p) + 1 \<and>
     blk_timestamp (bc_stored_blocks bc ! p) < blk_timestamp b \<and>
     validate_proof_of_work so b = PE_none \<and>
     (\<exists>r. apply_block_state so (bn_state (bc_nodes bc ! p)) b = (r, st) \<and> st_error r = SE_none)"

text \<open>The object after the new block is stored and before the active branch is chosen.\<close>

definition store_block :: "sodium \<Rightarrow> Blockchain \<Rightarrow> Block \<Rightarrow> nat \<Rightarrow> ChainState \<Rightarrow> Blockchain" where
  "store_block so bc b p st =
     bc\<lparr> bc_stored_blocks := bc_stored_blocks bc @ [b],
         bc_nodes := bc_nodes bc @
           [\<lparr> bn_parent_index = p, bn_cumulative_work = bn_cumulative_work (bc_nodes bc ! p) + 1,
              bn_state = st \<rparr>],
         bc_active_flags := bc_active_flags bc @ [False],
         bc_index_by_id := std_map_set (blk_id so b) (length (bc_stored_blocks bc)) (bc_index_by_id bc) \<rparr>"

lemma store_block_simps [simp]:
  "bc_stored_blocks (store_block so bc b p st) = bc_stored_blocks bc @ [b]"
  "bc_nodes (store_block so bc b p st) = bc_nodes bc @
     [\<lparr> bn_parent_index = p, bn_cumulative_work = bn_cumulative_work (bc_nodes bc ! p) + 1, bn_state = st \<rparr>]"
  "bc_active_flags (store_block so bc b p st) = bc_active_flags bc @ [False]"
  "bc_index_by_id (store_block so bc b p st) =
     std_map_set (blk_id so b) (length (bc_stored_blocks bc)) (bc_index_by_id bc)"
  "bc_active_indices (store_block so bc b p st) = bc_active_indices bc"
  "bc_blocks (store_block so bc b p st) = bc_blocks bc"
  "bc_state (store_block so bc b p st) = bc_state bc"
  by (simp_all add: store_block_def)

lemma bc_append_accepted:
  assumes "append_checks so bc b p st"
  shows "bc_append so bc b =
    (let bc1 = store_block so bc b p st; new_index = length (bc_stored_blocks bc)
     in if bn_cumulative_work (bc_nodes bc ! p) + 1
          \<le> bn_cumulative_work (bc_nodes bc1 ! last (bc_active_indices bc))
        then Some (AppendResult_default, bc1)
        else map_option (\<lambda>path. activate bc1 (rev path)) (path_to_genesis (bc_nodes bc1) new_index))"
proof -
  from assms obtain r where "apply_block_state so (bn_state (bc_nodes bc ! p)) b = (r, st)"
    and "st_error r = SE_none" by (auto simp: append_checks_def)
  with assms show ?thesis
    unfolding bc_append_def append_checks_def Let_def store_block_def by (auto simp: not_le)
qed

lemma bc_append_rejected:
  assumes "\<nexists>p st. append_checks so bc b p st"
  obtains e i s where "bc_append so bc b =
      Some (AppendResult_default\<lparr> ar_error := e, ar_transaction_index := i, ar_state_error := s \<rparr>, bc)"
    and "e \<noteq> CE_none"
proof -
  define R where "R x \<longleftrightarrow> (\<exists>e i s. x =
      Some (AppendResult_default\<lparr> ar_error := e, ar_transaction_index := i, ar_state_error := s \<rparr>, bc) \<and>
      e \<noteq> CE_none)" for x
  have err': "R (Some ((append_error e)\<lparr> ar_transaction_index := i, ar_state_error := s \<rparr>, bc))"
    if "e \<noteq> CE_none" for e i s
    using that by (auto simp: R_def append_error_def)
  have err: "R (Some (append_error e, bc))" if "e \<noteq> CE_none" for e
    using err' [OF that, where i = None and s = SE_none] by (simp add: append_error_def AppendResult_default_def)
  note [simp] = err err' ChainError.distinct
  consider "is_genesis b \<or> blk_chain_id b \<noteq> blk_chain_id (bc_tip bc) \<or>
        map_of (bc_index_by_id bc) (blk_id so b) \<noteq> None \<or>
        map_of (bc_index_by_id bc) (blk_previous_block_hash b) = None"
    | p where "\<not> is_genesis b" "blk_chain_id b = blk_chain_id (bc_tip bc)"
        "map_of (bc_index_by_id bc) (blk_id so b) = None"
        "map_of (bc_index_by_id bc) (blk_previous_block_hash b) = Some p"
    by auto
  then have "R (bc_append so bc b)"
  proof cases
    case 1
    then show ?thesis unfolding bc_append_def Let_def by (auto split: option.split)
  next
    case (2 p)
    obtain r st where t: "apply_block_state so (bn_state (bc_nodes bc ! p)) b = (r, st)" by fastforce
    have "\<not> append_checks so bc b p st" using assms by blast
    with 2 t have "blk_height (bc_stored_blocks bc ! p) = u64_max \<or>
        blk_height b \<noteq> blk_height (bc_stored_blocks bc ! p) + 1 \<or>
        blk_timestamp b \<le> blk_timestamp (bc_stored_blocks bc ! p) \<or>
        validate_proof_of_work so b \<noteq> PE_none \<or> st_error r \<noteq> SE_none"
      by (auto simp: append_checks_def)
    with 2 t show ?thesis unfolding bc_append_def Let_def by auto
  qed
  then show ?thesis using that by (auto simp: R_def)
qed

subsection \<open>The tree after an append\<close>

lemma linked_store_block:
  assumes "tree_ok so c bc" and "i < length (bc_stored_blocks bc)" and "0 < i"
  shows "linked so (store_block so bc b p st) i"
proof -
  have l: "linked so bc i" using assms by (intro tree_okD(8))
  then show ?thesis
    using linkedD(1) [OF l] assms(2) tree_okD(2) [OF assms(1)]
    by (simp add: linked_def Let_def nth_append)
qed

lemma path_store_block:
  assumes "tree_ok so c bc" and "i < length (bc_stored_blocks bc)"
  shows "path_to_genesis (bc_nodes bc @ ns) i = path_to_genesis (bc_nodes bc) i"
  using assms
proof (induction rule: tree_induct)
  case (child i)
  then show ?case using tree_okD(2) [OF assms(1)] by (simp add: path_to_genesis_step nth_append)
qed simp

lemma bc_invD:
  assumes "bc_inv so c bc"
  shows "tree_ok so c bc" "bc_active_indices bc \<noteq> []"
    "last (bc_active_indices bc) < length (bc_stored_blocks bc)"
    "path_to_genesis (bc_nodes bc) (last (bc_active_indices bc)) = Some (rev (bc_active_indices bc))"
    "i < length (bc_stored_blocks bc) \<Longrightarrow> bn_cumulative_work (bc_nodes bc ! i)
        \<le> bn_cumulative_work (bc_nodes bc ! last (bc_active_indices bc))"
    "bc_blocks bc = map (\<lambda>i. bc_stored_blocks bc ! i) (bc_active_indices bc)"
    "bc_state bc = bn_state (bc_nodes bc ! last (bc_active_indices bc))"
    "bc_active_flags bc =
       map (\<lambda>i. i \<in> set (bc_active_indices bc)) [0..<length (bc_stored_blocks bc)]"
  using assms unfolding bc_inv_def active_ok_def by auto

lemma active_indices_bound:
  assumes "bc_inv so c bc" and "i \<in> set (bc_active_indices bc)"
  shows "i < length (bc_stored_blocks bc)"
  using path_total [OF bc_invD(1) [OF assms(1)] bc_invD(3) [OF assms(1)]] bc_invD(3,4) [OF assms(1)] assms(2) by fastforce

lemma bc_blocks_branch:
  "bc_inv so c bc \<Longrightarrow> bc_blocks bc = branch bc (last (bc_active_indices bc))"
  by (simp add: branch_def bc_invD(4,6))

lemma bc_tip_eq:
  "bc_inv so c bc \<Longrightarrow> bc_tip bc = bc_stored_blocks bc ! last (bc_active_indices bc)"
  using bc_invD(2) [of so c bc] by (simp add: bc_tip_def bc_invD(6) last_map)

lemma tree_ok_store_block:
  assumes inv: "bc_inv so c bc" and valid: "blk_valid so b" and checks: "append_checks so bc b p st"
  shows "tree_ok so c (store_block so bc b p st)"
proof -
  let ?bc = "store_block so bc b p st" and ?n = "length (bc_stored_blocks bc)"
  have t: "tree_ok so c bc" using inv by (rule bc_invD)
  have p: "p < ?n" "blk_previous_block_hash b = blk_id so (bc_stored_blocks bc ! p)"
    and fresh: "map_of (bc_index_by_id bc) (blk_id so b) = None"
    using checks tree_okD(7) [OF t] unfolding append_checks_def by auto
  have "blk_chain_id b = blk_chain_id (bc_stored_blocks bc ! p)"
    using checks chain_id_stored [OF t] p(1) bc_invD(3) [OF inv]
    by (simp add: append_checks_def bc_tip_eq [OF inv])
  then have "linked so ?bc ?n"
    using checks valid p tree_okD(2) [OF t]
    by (simp add: linked_def Let_def nth_append append_checks_def)
  then have "linked so ?bc i" if "i < Suc ?n" "0 < i" for i
    using linked_store_block [OF t] that by (cases "i = ?n") simp_all
  moreover have "map_of (bc_index_by_id ?bc) h = Some i \<longleftrightarrow>
      i < Suc ?n \<and> blk_id so ((bc_stored_blocks bc @ [b]) ! i) = h" for h i
    using tree_okD(7) [OF t, of h i] tree_okD(7) [OF t, of "blk_id so b" i] fresh
    by (auto simp: std.lookup_update [OF tree_okD(6) [OF t]] nth_append less_Suc_eq)
  ultimately show ?thesis
    using tree_okD(1-6) [OF t] by (auto simp: tree_ok_def nth_append std.invar_update)
qed

subsection \<open>The active branch after an append\<close>

lemma fold_set_flags:
  "fold (\<lambda>i fs. fs[i := True]) xs (map P [0..<n]) = map (\<lambda>i. P i \<or> i \<in> set xs) [0..<n]"
proof (induction xs arbitrary: P)
  case (Cons x xs)
  have "(map P [0..<n])[x := True] = map (\<lambda>i. P i \<or> i = x) [0..<n]"
  proof (rule nth_equalityI)
    fix i
    assume "i < length ((map P [0..<n])[x := True])"
    then show "(map P [0..<n])[x := True] ! i = map (\<lambda>i. P i \<or> i = x) [0..<n] ! i"
      by (cases "i = x") simp_all
  qed simp
  then show ?case using Cons.IH [of "\<lambda>i. P i \<or> i = x"] by auto
qed simp

lemma replicate_False: "replicate n False = map (\<lambda>i. False) [0..<n]"
  by (simp add: map_replicate_const)

lemma active_ok_keep:
  assumes inv: "bc_inv so c bc"
    and work: "bn_cumulative_work (bc_nodes bc ! p) + 1
      \<le> bn_cumulative_work (bc_nodes bc ! last (bc_active_indices bc))"
  shows "active_ok (store_block so bc b p st)"
proof -
  have t: "tree_ok so c bc" using inv by (rule bc_invD)
  have bound: "i < length (bc_stored_blocks bc)" if "i \<in> set (bc_active_indices bc)" for i
    using active_indices_bound [OF inv that] .
  show ?thesis
    using work bc_invD(2-8) [OF inv] path_store_block [OF t bc_invD(3) [OF inv]] tree_okD(2) [OF t] bound
    by (auto simp: active_ok_def nth_append less_Suc_eq)
qed

lemma active_ok_activate:
  assumes t: "tree_ok so c bc" and i: "i < length (bc_stored_blocks bc)"
    and path: "path_to_genesis (bc_nodes bc) i = Some path"
    and flags: "length (bc_active_flags bc) = length (bc_stored_blocks bc)"
    and work: "\<And>k. k < length (bc_stored_blocks bc) \<Longrightarrow>
      bn_cumulative_work (bc_nodes bc ! k) \<le> bn_cumulative_work (bc_nodes bc ! i)"
  shows "active_ok (snd (activate bc (rev path)))"
proof -
  have "path \<noteq> []" "last (rev path) = i"
    using path_total [OF t i] path by (auto simp: last_rev)
  then show ?thesis
    using i path flags work
    by (simp add: active_ok_def activate_def Let_def replicate_False fold_set_flags)
qed

subsection \<open>The outcome of an append\<close>

lemma common_prefix_size_take:
  "take (common_prefix_size xs ys) xs = take (common_prefix_size xs ys) ys \<and>
   common_prefix_size xs ys \<le> length xs \<and> common_prefix_size xs ys \<le> length ys"
  by (induction xs ys rule: common_prefix_size.induct) auto

lemma common_prefix_size_maximal:
  "common_prefix_size xs ys < length xs \<Longrightarrow> common_prefix_size xs ys < length ys \<Longrightarrow>
   xs ! common_prefix_size xs ys \<noteq> ys ! common_prefix_size xs ys"
  by (induction xs ys rule: common_prefix_size.induct) auto

text \<open>
  A change of the active chain as a client sees it: the blocks before and after share a
  beginning, the old rest was detached and the new rest attached, and the two rests do not
  begin with the same block.
\<close>

definition chain_diff :: "Block list \<Rightarrow> AppendResult \<Rightarrow> Block list \<Rightarrow> bool" where
  "chain_diff before r after \<longleftrightarrow>
     (\<exists>common. common \<noteq> [] \<and> before = common @ ar_detached_blocks r \<and>
        after = common @ ar_attached_blocks r) \<and>
     (ar_detached_blocks r \<noteq> [] \<and> ar_attached_blocks r \<noteq> [] \<longrightarrow>
        hd (ar_detached_blocks r) \<noteq> hd (ar_attached_blocks r)) \<and>
     ar_active_chain_changed r = (ar_attached_blocks r \<noteq> []) \<and>
     ar_reorganized r = (ar_detached_blocks r \<noteq> [])"

text \<open>What an accepted block does to the chain.\<close>

definition accepted_as :: "Blockchain \<Rightarrow> Block \<Rightarrow> nat \<Rightarrow> AppendResult \<Rightarrow> Blockchain \<Rightarrow> bool" where
  "accepted_as bc b p r bc' \<longleftrightarrow>
     ar_error r = CE_none \<and> ar_transaction_index r = None \<and> ar_state_error r = SE_none \<and>
     bc_stored_blocks bc' = bc_stored_blocks bc @ [b] \<and>
     (if blk_height (bc_tip bc) < blk_height b
      then bc_blocks bc' = branch bc p @ [b]
      else bc_blocks bc' = bc_blocks bc \<and> bc_state bc' = bc_state bc) \<and>
     chain_diff (bc_blocks bc) r (bc_blocks bc')"

lemma stored_inject:
  assumes "tree_ok so c bc" "i < length (bc_stored_blocks bc)" "j < length (bc_stored_blocks bc)"
    "bc_stored_blocks bc ! i = bc_stored_blocks bc ! j"
  shows "i = j"
  using tree_okD(7) [OF assms(1), of "blk_id so (bc_stored_blocks bc ! i)" i]
    tree_okD(7) [OF assms(1), of "blk_id so (bc_stored_blocks bc ! i)" j] assms(2-4) by simp

lemma activate_diff:
  fixes bc :: Blockchain and xs :: "nat list"
  defines "ys \<equiv> bc_active_indices bc"
  assumes t: "tree_ok so c bc"
    and xs: "xs \<noteq> []" "hd xs = 0" "\<forall>i \<in> set xs. i < length (bc_stored_blocks bc)"
    and ys: "ys \<noteq> []" "hd ys = 0" "\<forall>i \<in> set ys. i < length (bc_stored_blocks bc)"
    and "last xs \<notin> set ys"
    and "bc_blocks bc = map (\<lambda>i. bc_stored_blocks bc ! i) ys"
  shows "chain_diff (bc_blocks bc) (fst (activate bc xs)) (bc_blocks (snd (activate bc xs)))"
proof -
  let ?f = "\<lambda>i. bc_stored_blocks bc ! i" and ?k = "common_prefix_size ys xs"
  note k = common_prefix_size_take [of ys xs]
  have pos: "0 < ?k" using xs(1,2) ys(1,2) by (cases xs; cases ys) auto
  have less: "?k < length xs"
  proof (rule ccontr)
    assume "\<not> ?thesis"
    then have "take ?k xs = xs" by simp
    then have "xs = take ?k ys" using k by metis
    then have "last xs \<in> set ys" using xs(1) last_in_set [of xs] set_take_subset [of ?k ys] by fastforce
    with assms(9) show False by simp
  qed
  have "?f (ys ! ?k) \<noteq> ?f (xs ! ?k)" if "?k < length ys"
    using common_prefix_size_maximal [OF that less] stored_inject [OF t] xs(3) ys(3) less that nth_mem
    by metis
  then have "hd (map ?f (drop ?k ys)) \<noteq> hd (map ?f (drop ?k xs))" if "drop ?k ys \<noteq> []"
    using that less by (simp add: hd_drop_conv_nth hd_map)
  moreover have "bc_blocks bc = map ?f (take ?k ys) @ map ?f (drop ?k ys)"
    using assms(10) by (simp flip: map_append)
  moreover have "map ?f xs = map ?f (take ?k ys) @ map ?f (drop ?k xs)"
    using k by (simp flip: map_append)
  moreover have "map ?f (take ?k ys) \<noteq> []" using pos ys(1) by simp
  ultimately show ?thesis
    using less unfolding chain_diff_def activate_def Let_def ys_def [symmetric]
    by (auto simp: AppendResult_default_def)
qed

lemma work_less_height:
  assumes "bc_inv so c bc" and "append_checks so bc b p st"
  shows "p < length (bc_stored_blocks bc)"
    and "bn_cumulative_work (bc_nodes bc ! p) + 1 = blk_height b"
    and "bn_cumulative_work (bc_nodes bc ! last (bc_active_indices bc)) = blk_height (bc_tip bc)"
proof -
  have t: "tree_ok so c bc" using assms(1) by (rule bc_invD)
  show p: "p < length (bc_stored_blocks bc)"
    using assms(2) tree_okD(7) [OF t] unfolding append_checks_def by auto
  show "bn_cumulative_work (bc_nodes bc ! p) + 1 = blk_height b"
    using assms(2) by (simp add: work_is_height [OF t p] append_checks_def)
  show "bn_cumulative_work (bc_nodes bc ! last (bc_active_indices bc)) = blk_height (bc_tip bc)"
    using work_is_height [OF t bc_invD(3) [OF assms(1)]] by (simp add: bc_tip_eq [OF assms(1)])
qed

lemma append_keeps_branch:
  assumes inv: "bc_inv so c bc" and valid: "blk_valid so b" and checks: "append_checks so bc b p st"
    and less: "blk_height b \<le> blk_height (bc_tip bc)"
  shows "bc_append so bc b = Some (AppendResult_default, store_block so bc b p st)"
    and "bc_inv so c (store_block so bc b p st)"
    and "accepted_as bc b p AppendResult_default (store_block so bc b p st)"
proof -
  note w = work_less_height [OF inv checks]
  note last_nth = nth_append [of "bc_nodes bc"] tree_okD(2) [OF bc_invD(1) [OF inv]] bc_invD(3) [OF inv]
  show "bc_append so bc b = Some (AppendResult_default, store_block so bc b p st)"
    using less w by (simp add: bc_append_accepted [OF checks] Let_def last_nth)
  show "bc_inv so c (store_block so bc b p st)"
    unfolding bc_inv_def using tree_ok_store_block [OF inv valid checks] active_ok_keep [OF inv] less w
    by simp
  show "accepted_as bc b p AppendResult_default (store_block so bc b p st)"
    using less bc_invD(2,6) [OF inv]
    by (simp add: accepted_as_def chain_diff_def AppendResult_default_def not_le [symmetric])
qed

lemma append_switches_branch:
  assumes inv: "bc_inv so c bc" and valid: "blk_valid so b" and checks: "append_checks so bc b p st"
    and less: "blk_height (bc_tip bc) < blk_height b"
  obtains r bc' where "bc_append so bc b = Some (r, bc')" "bc_inv so c bc'" "accepted_as bc b p r bc'"
proof -
  let ?n = "length (bc_stored_blocks bc)" and ?bc = "store_block so bc b p st"
  note w = work_less_height [OF inv checks]
  have t: "tree_ok so c bc" using inv by (rule bc_invD)
  have t1: "tree_ok so c ?bc" using inv valid checks by (rule tree_ok_store_block)
  have n: "length (bc_nodes bc) = ?n" using t by (rule tree_okD)
  from path_total [OF t w(1)] obtain q where q: "path_to_genesis (bc_nodes bc) p = Some q"
    "q \<noteq> []" "hd q = p" "last q = 0" "\<forall>k \<in> set q. k \<le> p" by blast
  have path: "path_to_genesis (bc_nodes ?bc) ?n = Some (?n # q)"
    using tree_okD(3) [OF t] path_store_block [OF t w(1)] q(1)
    by (simp add: path_to_genesis_step nth_append n)
  have eq: "bc_append so bc b = Some (activate ?bc (rev (?n # q)))"
    using less w path bc_invD(3) [OF inv]
    by (simp add: bc_append_accepted [OF checks] Let_def nth_append n not_le [symmetric])
  have max: "bn_cumulative_work (bc_nodes ?bc ! k) \<le> bn_cumulative_work (bc_nodes ?bc ! ?n)"
    if "k < length (bc_stored_blocks ?bc)" for k
  proof (cases "k = ?n")
    case False
    with that have "bn_cumulative_work (bc_nodes bc ! k) \<le> blk_height (bc_tip bc)"
      using bc_invD(5) [OF inv, of k] w(3) by simp
    then show ?thesis using less False that w(2) by (simp add: nth_append n)
  qed simp
  have "active_ok (snd (activate ?bc (rev (?n # q))))"
    using t1 path max bc_invD(8) [OF inv] by (intro active_ok_activate) auto
  moreover have "tree_ok so c (snd (activate ?bc (rev (?n # q))))"
    using t1 by (simp add: activate_def Let_def tree_ok_def linked_def)
  ultimately have inv': "bc_inv so c (snd (activate ?bc (rev (?n # q))))" by (simp add: bc_inv_def)
  have b0: "hd (bc_active_indices bc) = 0"
    using path_total [OF t bc_invD(3) [OF inv]] bc_invD(2,4) [OF inv] by (auto simp: last_rev)
  have blocks: "map (\<lambda>i. bc_stored_blocks ?bc ! i) (rev q) = branch bc p"
    using q(1,5) w(1) by (auto simp: branch_def nth_append rev_map)
  have old: "bc_blocks ?bc = map (\<lambda>i. bc_stored_blocks ?bc ! i) (bc_active_indices bc)"
    using bc_invD(6) [OF inv] active_indices_bound [OF inv] by (auto simp: nth_append)
  have diff: "chain_diff (bc_blocks ?bc) (fst (activate ?bc (rev (?n # q))))
      (bc_blocks (snd (activate ?bc (rev (?n # q)))))"
    using q w(1) t1 bc_invD(2) [OF inv] b0 active_indices_bound [OF inv] old
    by (intro activate_diff [OF t1]) (auto simp: hd_append hd_rev less_SucI)
  have "accepted_as bc b p (fst (activate ?bc (rev (?n # q)))) (snd (activate ?bc (rev (?n # q))))"
    using diff less blocks unfolding accepted_as_def
    by (simp add: activate_def Let_def AppendResult_default_def)
  with eq inv' that show ?thesis by (metis prod.collapse)
qed

lemma bc_append_outcome:
  assumes "bc_inv so c bc" and "blk_valid so b" and "append_checks so bc b p st"
  obtains r bc' where "bc_append so bc b = Some (r, bc')" "bc_inv so c bc'" "accepted_as bc b p r bc'"
proof (cases "blk_height (bc_tip bc) < blk_height b")
  case True
  then show ?thesis using append_switches_branch [OF assms] that by blast
next
  case False
  then have "blk_height b \<le> blk_height (bc_tip bc)" by simp
  from append_keeps_branch [OF assms this] show ?thesis by (rule that)
qed

text \<open>The chains that the operations of the class can produce, from blocks the decoders produce.\<close>

inductive bc_reachable :: "sodium \<Rightarrow> u32 \<Rightarrow> Blockchain \<Rightarrow> bool" for so c where
  create: "supported_chain c \<Longrightarrow> bc_reachable so c (Blockchain_create so c)"
| append: "bc_reachable so c bc \<Longrightarrow> blk_valid so b \<Longrightarrow> bc_append so bc b = Some (r, bc') \<Longrightarrow>
    bc_reachable so c bc'"

lemma bc_append_inv:
  assumes "bc_inv so c bc" and "blk_valid so b" and "bc_append so bc b = Some (r, bc')"
  shows "bc_inv so c bc'"
proof (cases "\<exists>p st. append_checks so bc b p st")
  case True
  then show ?thesis using bc_append_outcome [OF assms(1,2)] assms(3) by fastforce
next
  case False
  then obtain r' where "bc_append so bc b = Some (r', bc)" by (rule bc_append_rejected)
  then show ?thesis using assms by simp
qed

lemma bc_reachable_inv: "bc_reachable so c bc \<Longrightarrow> bc_inv so c bc"
  by (induction rule: bc_reachable.induct) (auto intro: Blockchain_create_inv bc_append_inv)

lemma append_checks_unique:
  "append_checks so bc b p st \<Longrightarrow> append_checks so bc b p' st' \<Longrightarrow> p' = p \<and> st' = st"
  by (auto simp: append_checks_def)

lemma bc_append_tree:
  assumes "append_checks so bc b p st" and "bc_append so bc b = Some (r, bc')"
  shows "bc_stored_blocks bc' = bc_stored_blocks bc @ [b]"
    and "bc_nodes bc' = bc_nodes (store_block so bc b p st)"
  using assms(2) unfolding bc_append_accepted [OF assms(1)] Let_def
  by (auto simp: activate_def Let_def split: if_splits)

lemma branch_append_old:
  assumes "tree_ok so c bc" and "i < length (bc_stored_blocks bc)"
    and "append_checks so bc b p st" and "bc_append so bc b = Some (r, bc')"
  shows "branch bc' i = branch bc i"
proof -
  from path_total [OF assms(1,2)] obtain q where
    "path_to_genesis (bc_nodes bc) i = Some q" "\<forall>k \<in> set q. k \<le> i" by blast
  then show ?thesis
    using path_store_block [OF assms(1,2)] assms(2)
    by (auto simp: branch_def bc_append_tree [OF assms(3,4)] nth_append rev_map)
qed

lemma branch_append_new:
  assumes "bc_inv so c bc" and "blk_valid so b"
    and "append_checks so bc b p st" and "bc_append so bc b = Some (r, bc')"
  shows "branch bc' (length (bc_stored_blocks bc)) = branch bc p @ [b]"
proof -
  let ?n = "length (bc_stored_blocks bc)"
  have t: "tree_ok so c bc" and t': "tree_ok so c bc'"
    using assms(1) bc_append_inv [OF assms(1,2,4)] by (auto intro: bc_invD(1))
  have "bn_parent_index (bc_nodes bc' ! ?n) = p" "bc_stored_blocks bc' ! ?n = b"
    using bc_append_tree [OF assms(3,4)] tree_okD(2) [OF t] by (simp_all add: nth_append)
  then show ?thesis
    using branch_step [OF t', of ?n] bc_append_tree(1) [OF assms(3,4)] tree_okD(3) [OF t]
      branch_append_old [OF t work_less_height(1) [OF assms(1,3)] assms(3,4)] by simp
qed

end
