(* ===== verification/BBC_Chain_Spec.thy ===== *)
theory BBC_Chain_Spec
  imports BBC_Blockchain
begin

text \<open>
  What the class \<open>Blockchain\<close> promises, without its indices, flags and caches: a growing
  set of valid chains that start at Genesis, and the first longest of them as the active
  one. The theorems show that \<open>append\<close> implements this, that the active chain is valid
  from Genesis on, that the money on it is the subsidy of its blocks, that no transaction
  is on it twice, and that the stored blocks in their order determine the whole object.
\<close>

section \<open>Valid chains\<close>

text \<open>A block that may follow a chain, and the chains built of such blocks.\<close>

definition follows :: "sodium \<Rightarrow> Block list \<Rightarrow> Block \<Rightarrow> bool" where
  "follows so bs b \<longleftrightarrow>
     blk_valid so b \<and> \<not> is_genesis b \<and>
     blk_chain_id b = blk_chain_id (last bs) \<and>
     blk_previous_block_hash b = blk_id so (last bs) \<and>
     unat (blk_height b) = Suc (unat (blk_height (last bs))) \<and>
     blk_timestamp (last bs) < blk_timestamp b \<and>
     validate_proof_of_work so b = PE_none \<and>
     st_error (fst (apply_block_state so (replay so bs) b)) = SE_none"

inductive valid_chain :: "sodium \<Rightarrow> u32 \<Rightarrow> Block list \<Rightarrow> bool" for so c where
  genesis: "supported_chain c \<Longrightarrow> valid_chain so c [genesis_block so c]"
| extend: "valid_chain so c bs \<Longrightarrow> follows so bs b \<Longrightarrow> valid_chain so c (bs @ [b])"

lemma valid_chain_not_empty: "valid_chain so c bs \<Longrightarrow> bs \<noteq> []"
  by (induction rule: valid_chain.induct) simp_all

lemma valid_chain_length:
  "valid_chain so c bs \<Longrightarrow> length bs = Suc (unat (blk_height (last bs)))"
  by (induction rule: valid_chain.induct) (auto simp: follows_def)

lemma last_branch:
  assumes "tree_ok so c bc" and "i < length (bc_stored_blocks bc)"
  shows "last (branch bc i) = bc_stored_blocks bc ! i"
  using path_total [OF assms] by (auto simp: branch_def last_map last_rev)

lemma Suc_height_iff:
  fixes h h' :: u64
  shows "h' \<noteq> u64_max \<and> h = h' + 1 \<longleftrightarrow> unat h = Suc (unat h')"
proof
  assume "unat h = Suc (unat h')"
  moreover from this have "h' \<noteq> u64_max" using unat_u64_bound [of h] by auto
  ultimately show "h' \<noteq> u64_max \<and> h = h' + 1" by (metis unat_Suc_not_max word_unat_eq_iff)
qed (simp add: unat_Suc_not_max)

lemma branch_valid:
  assumes "tree_ok so c bc" and "i < length (bc_stored_blocks bc)"
  shows "valid_chain so c (branch bc i)"
  using assms
proof (induction rule: tree_induct)
  case genesis
  then show ?case
    using assms(1) by (simp add: branch_genesis valid_chain.genesis tree_okD(1))
next
  case (child i)
  have "follows so (branch bc (bn_parent_index (bc_nodes bc ! i))) (bc_stored_blocks bc ! i)"
    using linkedD [OF child(3)]
    by (auto simp: follows_def last_branch [OF assms(1) child(4)]
        node_state_replay [OF assms(1) child(4), symmetric])
  then show ?case
    unfolding branch_step [OF assms(1) child(1,2)] using child(5) by (intro valid_chain.extend)
qed

text \<open>The checks of \<open>append\<close> are the conditions for following a stored branch.\<close>

lemma append_checks_iff:
  assumes inv: "bc_inv so c bc" and "blk_valid so b"
  shows "append_checks so bc b p st \<longleftrightarrow>
    blk_id so b \<notin> blk_id so ` set (bc_stored_blocks bc) \<and> p < length (bc_stored_blocks bc) \<and>
    follows so (branch bc p) b \<and> st = snd (apply_block_state so (replay so (branch bc p)) b)"
proof -
  have t: "tree_ok so c bc" using inv by (rule bc_invD)
  have fresh: "map_of (bc_index_by_id bc) (blk_id so b) = None \<longleftrightarrow>
      blk_id so b \<notin> blk_id so ` set (bc_stored_blocks bc)"
  proof -
    have "map_of (bc_index_by_id bc) (blk_id so b) = None \<longleftrightarrow>
        (\<forall>i. map_of (bc_index_by_id bc) (blk_id so b) \<noteq> Some i)" by auto
    also have "\<dots> \<longleftrightarrow> blk_id so b \<notin> blk_id so ` set (bc_stored_blocks bc)"
      unfolding tree_okD(7) [OF t] image_iff by (auto simp: in_set_conv_nth Bex_def eq_commute)
    finally show ?thesis .
  qed
  have tip: "blk_chain_id (bc_tip bc) = c"
    using chain_id_stored [OF t bc_invD(3) [OF inv]] by (simp add: bc_tip_eq [OF inv])
  show ?thesis
  proof (cases "p < length (bc_stored_blocks bc)")
    case True
    have tr: "(\<exists>r. apply_block_state so (replay so (branch bc p)) b = (r, st) \<and> st_error r = SE_none) \<longleftrightarrow>
        st_error (fst (apply_block_state so (replay so (branch bc p)) b)) = SE_none \<and>
        st = snd (apply_block_state so (replay so (branch bc p)) b)"
      by (cases "apply_block_state so (replay so (branch bc p)) b") auto
    show ?thesis
      unfolding append_checks_def follows_def fresh tip last_branch [OF t True] tree_okD(7) [OF t]
        node_state_replay [OF t True] tr Suc_height_iff [symmetric]
      using True assms(2) chain_id_stored [OF t True] by auto
  next
    case False
    then show ?thesis using tree_okD(7) [OF t] by (auto simp: append_checks_def)
  qed
qed

section \<open>The abstract fork choice\<close>

text \<open>
  The abstract state is the set of known chains and the active one. A step takes a block
  and says whether it is accepted.
\<close>

inductive fork_step ::
    "sodium \<Rightarrow> Block list set \<times> Block list \<Rightarrow> Block \<Rightarrow> bool \<Rightarrow> Block list set \<times> Block list \<Rightarrow> bool" for so where
  accept: "bs \<in> known \<Longrightarrow> follows so bs b \<Longrightarrow> blk_id so b \<notin> blk_id so ` last ` known \<Longrightarrow>
    fork_step so (known, active) b True
      (insert (bs @ [b]) known, if length active < length (bs @ [b]) then bs @ [b] else active)"
| reject: "blk_id so b \<in> blk_id so ` last ` known \<or> (\<forall>bs \<in> known. \<not> follows so bs b) \<Longrightarrow>
    fork_step so (known, active) b False (known, active)"

definition chains_of :: "Blockchain \<Rightarrow> Block list set" where
  "chains_of bc = branch bc ` {..<length (bc_stored_blocks bc)}"

lemma last_chains_of:
  assumes "tree_ok so c bc"
  shows "last ` chains_of bc = set (bc_stored_blocks bc)"
proof -
  have "last ` chains_of bc = (\<lambda>i. bc_stored_blocks bc ! i) ` {..<length (bc_stored_blocks bc)}"
    unfolding chains_of_def image_image by (intro image_cong) (simp_all add: last_branch [OF assms])
  then show ?thesis by (simp add: set_conv_nth lessThan_def image_Collect)
qed

lemma chains_of_append:
  assumes "bc_inv so c bc" and "blk_valid so b"
    and "append_checks so bc b p st" and "bc_append so bc b = Some (r, bc')"
  shows "chains_of bc' = insert (branch bc p @ [b]) (chains_of bc)"
proof -
  have t: "tree_ok so c bc" using assms(1) by (rule bc_invD)
  have "branch bc' ` {..<length (bc_stored_blocks bc)} = branch bc ` {..<length (bc_stored_blocks bc)}"
    by (intro image_cong) (simp_all add: branch_append_old [OF t _ assms(3,4)])
  then show ?thesis
    by (simp add: chains_of_def bc_append_tree(1) [OF assms(3,4)] lessThan_Suc
        branch_append_new [OF assms])
qed

lemma bc_blocks_valid:
  "bc_inv so c bc \<Longrightarrow> valid_chain so c (bc_blocks bc)"
  by (simp add: bc_blocks_branch branch_valid [OF bc_invD(1) bc_invD(3)])

lemma bc_state_replay:
  "bc_inv so c bc \<Longrightarrow> bc_state bc = replay so (bc_blocks bc)"
  by (simp add: bc_invD(7) bc_blocks_branch node_state_replay [OF bc_invD(1) bc_invD(3)])

lemma length_bc_blocks:
  "bc_inv so c bc \<Longrightarrow> length (bc_blocks bc) = Suc (unat (blk_height (bc_tip bc)))"
  using valid_chain_length [OF bc_blocks_valid] by (simp add: bc_tip_def)

lemma bc_append_fork_step:
  assumes inv: "bc_inv so c bc" and valid: "blk_valid so b" and step: "bc_append so bc b = Some (r, bc')"
  shows "fork_step so (chains_of bc, bc_blocks bc) b (ar_error r = CE_none) (chains_of bc', bc_blocks bc')"
proof -
  have t: "tree_ok so c bc" using inv by (rule bc_invD)
  show ?thesis
  proof (cases "\<exists>p st. append_checks so bc b p st")
    case True
    then obtain p st where checks: "append_checks so bc b p st" by blast
    with inv valid step have acc: "accepted_as bc b p r bc'" by (auto elim: bc_append_outcome)
    have p: "p < length (bc_stored_blocks bc)" "follows so (branch bc p) b"
      and fresh: "blk_id so b \<notin> blk_id so ` set (bc_stored_blocks bc)"
      using checks unfolding append_checks_iff [OF inv valid] by auto
    have "length (branch bc p) = unat (blk_height b)"
      using valid_chain_length [OF branch_valid [OF t p(1)]] p(2) by (simp add: follows_def)
    then have "blk_height (bc_tip bc) < blk_height b \<longleftrightarrow> length (bc_blocks bc) < length (branch bc p @ [b])"
      by (simp add: length_bc_blocks [OF inv] word_less_nat_alt)
    then have "bc_blocks bc' = (if length (bc_blocks bc) < length (branch bc p @ [b])
        then branch bc p @ [b] else bc_blocks bc)"
      using acc unfolding accepted_as_def by (simp split: if_splits)
    moreover have "ar_error r = CE_none" using acc by (simp add: accepted_as_def)
    moreover have "branch bc p \<in> chains_of bc" using p(1) by (simp add: chains_of_def)
    ultimately show ?thesis
      using p(2) fresh fork_step.accept [of "branch bc p" "chains_of bc" so b "bc_blocks bc"]
      by (simp only: chains_of_append [OF inv valid checks step] last_chains_of [OF t] simp_thms)
  next
    case False
    then obtain e i s where "bc_append so bc b =
        Some (AppendResult_default\<lparr> ar_error := e, ar_transaction_index := i, ar_state_error := s \<rparr>, bc)"
      "e \<noteq> CE_none" by (rule bc_append_rejected)
    then have "bc' = bc" "ar_error r \<noteq> CE_none" using step by auto
    moreover have "blk_id so b \<in> blk_id so ` set (bc_stored_blocks bc) \<or>
        (\<forall>bs \<in> chains_of bc. \<not> follows so bs b)"
      using False unfolding append_checks_iff [OF inv valid] chains_of_def by auto
    ultimately show ?thesis
      using fork_step.reject [of so b "chains_of bc" "bc_blocks bc"] by (simp add: last_chains_of [OF t])
  qed
qed

lemma bc_append_total:
  assumes "bc_inv so c bc" and "blk_valid so b"
  obtains r bc' where "bc_append so bc b = Some (r, bc')"
    and "ar_error r \<noteq> CE_none \<Longrightarrow> bc' = bc"
    and "chain_diff (bc_blocks bc) r (bc_blocks bc')"
    and "ar_error r = CE_none \<Longrightarrow> bc_stored_blocks bc' = bc_stored_blocks bc @ [b]"
proof (cases "\<exists>p st. append_checks so bc b p st")
  case True
  then obtain p st r bc' where "bc_append so bc b = Some (r, bc')" "accepted_as bc b p r bc'"
    using bc_append_outcome [OF assms] by metis
  then show ?thesis using that by (simp add: accepted_as_def)
next
  case False
  then obtain e i s where "bc_append so bc b =
      Some (AppendResult_default\<lparr> ar_error := e, ar_transaction_index := i, ar_state_error := s \<rparr>, bc)"
    "e \<noteq> CE_none" by (rule bc_append_rejected)
  then show ?thesis
    using bc_invD(2,6) [OF assms(1)]
    by (intro that [of "AppendResult_default\<lparr> ar_error := e, ar_transaction_index := i, ar_state_error := s \<rparr>" bc])
      (auto simp: chain_diff_def AppendResult_default_def)
qed

section \<open>Money and nonces along a chain\<close>

lemma follows_applies:
  assumes "follows so bs b"
  obtains r st where "apply_block_state so (replay so bs) b = (r, st)" "st_error r = SE_none"
    "list_all (tx_valid so) (blk_transactions b)"
    "bs \<noteq> [] \<Longrightarrow> replay so (bs @ [b]) = st"
  using assms blk_valid_transactions [of so b] that [OF prod.collapse [symmetric]]
  by (simp add: follows_def replay_snoc)

lemma valid_chain_supply:
  assumes "valid_chain so c bs"
  shows "std_map_ok (replay so bs) \<and>
    total_balance (replay so bs) = unat (blk_height (last bs)) * unat block_subsidy"
  using assms
proof (induction rule: valid_chain.induct)
  case genesis
  then show ?case
    by (simp add: replay_def ChainState_default_def total_balance_def std.total_def)
next
  case (extend bs b)
  obtain r st where "apply_block_state so (replay so bs) b = (r, st)" "st_error r = SE_none"
    "list_all (tx_valid so) (blk_transactions b)" "replay so (bs @ [b]) = st"
    using follows_applies [OF extend(2)] valid_chain_not_empty [OF extend(1)] by metis
  with apply_block_state_correct(1,2) [OF this(1-3)] extend show ?case
    by (simp add: follows_def)
qed

definition chain_transactions :: "Block list \<Rightarrow> SignedTransaction list" where
  "chain_transactions bs = concat (map blk_transactions bs)"

lemma valid_chain_nonces:
  assumes "valid_chain so c bs"
  shows "map (\<lambda>tx. unat (tx_account_nonce tx)) (sent_by so h (chain_transactions bs)) =
    [0 ..< unat (next_nonce (account_of_hash (replay so bs) h))]"
  using assms
proof (induction rule: valid_chain.induct)
  case genesis
  then show ?case
    by (simp add: replay_def ChainState_default_def chain_transactions_def account_of_hash_def)
next
  case (extend bs b)
  obtain r st where step: "apply_block_state so (replay so bs) b = (r, st)" "st_error r = SE_none"
    "list_all (tx_valid so) (blk_transactions b)" and st: "replay so (bs @ [b]) = st"
    using follows_applies [OF extend(2)] valid_chain_not_empty [OF extend(1)] by metis
  have ok: "std_map_ok (replay so bs)" using valid_chain_supply [OF extend(1)] by simp
  let ?n = "\<lambda>s. unat (next_nonce (account_of_hash s h))"
  have "[0 ..< ?n (replay so bs)] @ [?n (replay so bs) ..< ?n st] = [0 ..< ?n st]"
    using upt_add_eq_append [of 0 "?n (replay so bs)" "?n st - ?n (replay so bs)"]
      apply_block_state_correct(4) [OF step ok, of h] by simp
  then show ?case
    using apply_block_state_nonce_range [OF step ok, of h] extend.IH
    by (simp add: chain_transactions_def st)
qed

lemma distinct_pairs:
  assumes "\<And>h. distinct (map f (filter (\<lambda>x. g x = h) xs))"
  shows "distinct (map (\<lambda>x. (g x, f x)) xs)"
  using assms
proof (induction xs)
  case (Cons x xs)
  have "distinct (map f (filter (\<lambda>x. g x = h) xs))" for h
    using Cons.prems [of h] by (simp split: if_splits)
  moreover have "f x \<notin> f ` (set xs \<inter> {y. g y = g x})"
    using Cons.prems [of "g x"] by (auto simp: image_iff)
  ultimately show ?case using Cons.IH by auto
qed simp

lemma valid_chain_no_replay:
  assumes "valid_chain so c bs"
  shows "distinct (map (\<lambda>tx. (addr_hash (tx_sender so tx), unat (tx_account_nonce tx))) (chain_transactions bs))"
  by (rule distinct_pairs) (simp add: valid_chain_nonces [OF assms, unfolded sent_by_def])

section \<open>The stored blocks as a log\<close>

text \<open>
  An object that logs what it accepts and is unchanged by what it rejects can be rebuilt
  from its log. This is what a store that keeps only the log relies on.
\<close>

locale append_log =
  fixes init :: 's
    and append :: "'s \<Rightarrow> 'b \<Rightarrow> ('r \<times> 's) option"
    and accepted :: "'r \<Rightarrow> bool"
    and log :: "'s \<Rightarrow> 'b list"
    and valid :: "'b \<Rightarrow> bool"
    and invar :: "'s \<Rightarrow> bool"
  assumes invar_init: "invar init"
    and log_init: "log init = []"
    and append_total: "invar s \<Longrightarrow> valid b \<Longrightarrow> \<exists>r s'. append s b = Some (r, s') \<and> invar s'"
    and append_accepted: "invar s \<Longrightarrow> valid b \<Longrightarrow> append s b = Some (r, s') \<Longrightarrow> accepted r \<Longrightarrow> log s' = log s @ [b]"
    and append_rejected: "invar s \<Longrightarrow> valid b \<Longrightarrow> append s b = Some (r, s') \<Longrightarrow> \<not> accepted r \<Longrightarrow> s' = s"
begin

primrec feed :: "'s \<Rightarrow> 'b list \<Rightarrow> 's option" where
  "feed s [] = Some s"
| "feed s (b # bs) =
     (case append s b of None \<Rightarrow> None | Some (r, s') \<Rightarrow> if accepted r then feed s' bs else None)"

lemma feed_append: "feed s (bs @ bs') = Option.bind (feed s bs) (\<lambda>s'. feed s' bs')"
  by (induction bs arbitrary: s) (auto split: option.split)

lemma feed_log_step:
  assumes "feed init (log s) = Some s" and "invar s" and "valid b" and "append s b = Some (r, s')"
  shows "feed init (log s') = Some s'"
proof (cases "accepted r")
  case True
  then have "log s' = log s @ [b]" using assms by (intro append_accepted)
  then show ?thesis using True assms by (simp add: feed_append)
next
  case False
  then have "s' = s" using assms by (intro append_rejected)
  then show ?thesis using assms by simp
qed

lemma feed_init: "feed init (log init) = Some init"
  by (simp add: log_init)

lemma log_determines:
  assumes "feed init (log s) = Some s" and "feed init (log t) = Some t" and "log s = log t"
  shows "s = t"
  using assms by (metis option.inject)

end

lemma supported_chain_profile: "supported_chain c \<longleftrightarrow> (\<exists>profile. c = np_chain_id (network_parameters profile))"
proof
  assume "supported_chain c"
  then have "c = np_chain_id (network_parameters NP_development) \<or> c = np_chain_id (network_parameters NP_regtest)"
    by (simp add: supported_chain network_parameters_def development_def regtest_def)
  then show "\<exists>profile. c = np_chain_id (network_parameters profile)" by blast
qed (auto simp: network_parameters_chain)

interpretation chain_log: append_log
    "Blockchain_create so (np_chain_id (network_parameters profile))" "bc_append so"
    "\<lambda>r. ar_error r = CE_none" "\<lambda>bc. tl (bc_stored_blocks bc)" "blk_valid so"
    "bc_inv so (np_chain_id (network_parameters profile))" for so profile
proof
  let ?c = "np_chain_id (network_parameters profile)"
  show "bc_inv so ?c (Blockchain_create so ?c)"
    by (rule Blockchain_create_inv) (simp add: network_parameters_chain)
  show "tl (bc_stored_blocks (Blockchain_create so ?c)) = []" by (simp add: Blockchain_create_def)
  fix bc b
  assume inv: "bc_inv so ?c bc" and valid: "blk_valid so b"
  note outcome = bc_append_total [OF inv valid]
  show "\<exists>r bc'. bc_append so bc b = Some (r, bc') \<and> bc_inv so ?c bc'"
    using outcome bc_append_inv [OF inv valid] by metis
  fix r bc'
  assume step: "bc_append so bc b = Some (r, bc')"
  have "ar_error r = CE_none \<longrightarrow> bc_stored_blocks bc' = bc_stored_blocks bc @ [b]" "ar_error r \<noteq> CE_none \<longrightarrow> bc' = bc"
    using outcome step by (metis option.inject prod.inject)+
  then show "ar_error r = CE_none \<Longrightarrow> tl (bc_stored_blocks bc') = tl (bc_stored_blocks bc) @ [b]"
    and "ar_error r \<noteq> CE_none \<Longrightarrow> bc' = bc"
    using tree_okD(3) [OF bc_invD(1) [OF inv]] by (simp_all add: tl_append split: list.split)
qed

lemma bc_reachable_feed:
  assumes "bc_reachable so (np_chain_id (network_parameters profile)) bc"
  shows "chain_log.feed so (Blockchain_create so (np_chain_id (network_parameters profile)))
    (tl (bc_stored_blocks bc)) = Some bc"
  using assms
proof (induction rule: bc_reachable.induct)
  case create
  show ?case by (rule chain_log.feed_init)
next
  case (append bc b r bc')
  show ?case
    by (rule chain_log.feed_log_step [OF append(4) bc_reachable_inv [OF append(1)] append(2,3)])
qed

section \<open>Look-ups and locators\<close>

lemma lookup_stored:
  assumes "tree_ok so c bc"
  shows "(\<exists>i. map_of (bc_index_by_id bc) h = Some i) \<longleftrightarrow> h \<in> blk_id so ` set (bc_stored_blocks bc)"
  unfolding tree_okD(7) [OF assms] image_iff by (auto simp: in_set_conv_nth Bex_def eq_commute)

lemma is_on_active_chain_iff:
  assumes inv: "bc_inv so c bc"
  shows "bc_is_on_active_chain bc h \<longleftrightarrow> h \<in> blk_id so ` set (bc_blocks bc)"
proof (cases "map_of (bc_index_by_id bc) h")
  case None
  have "set (bc_blocks bc) \<subseteq> set (bc_stored_blocks bc)"
    using active_indices_bound [OF inv] by (auto simp: bc_invD(6) [OF inv])
  then show ?thesis
    using None lookup_stored [OF bc_invD(1) [OF inv], of h] by (auto simp: bc_is_on_active_chain_def)
next
  case (Some k)
  note idx = tree_okD(7) [OF bc_invD(1) [OF inv]]
  have k: "k < length (bc_stored_blocks bc)" "blk_id so (bc_stored_blocks bc ! k) = h"
    using Some unfolding idx by simp_all
  have "j = k" if "j \<in> set (bc_active_indices bc)" "blk_id so (bc_stored_blocks bc ! j) = h" for j
    using active_indices_bound [OF inv that(1)] that(2) Some idx [of h j] by simp
  then have "k \<in> set (bc_active_indices bc) \<longleftrightarrow> h \<in> blk_id so ` set (bc_blocks bc)"
    using k(2) by (auto simp: bc_invD(6) [OF inv])
  then show ?thesis using Some k by (simp add: bc_is_on_active_chain_def bc_invD(8) [OF inv])
qed

definition locator_entry :: "sodium \<Rightarrow> Block \<Rightarrow> u64 \<times> bytes" where
  "locator_entry so b = (blk_height b, blk_id so b)"

lemma climb_prefix:
  assumes "tree_ok so c bc" and "i < length (bc_stored_blocks bc)"
  shows "climb (bc_nodes bc) k i < length (bc_stored_blocks bc) \<and>
    prefix (branch bc (climb (bc_nodes bc) k i)) (branch bc i)"
  using assms(2)
proof (induction k arbitrary: i)
  case (Suc k)
  show ?case
  proof (cases "i = 0")
    case True
    then show ?thesis using Suc.prems by simp
  next
    case False
    let ?p = "bn_parent_index (bc_nodes bc ! i)"
    have "?p < i" using False Suc.prems assms(1) by (intro linkedD(1) tree_okD(8)) auto
    then have "?p < length (bc_stored_blocks bc)" using Suc.prems by simp
    from Suc.IH [OF this] False show ?thesis
      using branch_step [OF assms(1) Suc.prems] by (auto intro: prefix_order.trans)
  qed
qed simp

lemma prefix_branch_0:
  assumes "tree_ok so c bc" and "i < length (bc_stored_blocks bc)"
  shows "prefix (branch bc 0) (branch bc i)"
  using assms
proof (induction rule: tree_induct)
  case (child i)
  then show ?case using branch_step [OF assms(1) child(1,2)] by (auto intro: prefix_order.trans)
qed simp

lemma locator_loop_correct:
  assumes t: "tree_ok so c bc"
  shows "\<lbrakk> i < length (bc_stored_blocks bc); 0 < step; length loc + Suc room = m \<rbrakk> \<Longrightarrow>
    \<exists>bs. locator_loop so bc m (Suc room) i step loc = loc @ map (locator_entry so) bs \<and>
      bs \<noteq> [] \<and> hd bs = bc_stored_blocks bc ! i \<and> subseq (rev bs) (branch bc i) \<and>
      length bs \<le> Suc room \<and> (0 < room \<or> i = 0 \<longrightarrow> last bs = genesis_block so c)"
proof (induction room arbitrary: i step loc)
  case 0
  let ?b = "bc_stored_blocks bc ! i"
  have "?b \<in> set (branch bc i)"
    using last_branch [OF t 0(1)] branch_not_empty [OF t 0(1)] last_in_set by metis
  then have "subseq [?b] (branch bc i)" by (simp add: subseq_singleton_left)
  then show ?case
    using 0 tree_okD(4) [OF t] by (intro exI [of _ "[?b]"]) (auto simp: Let_def locator_entry_def)
next
  case (Suc room)
  let ?b = "bc_stored_blocks bc ! i" and ?loc = "loc @ [locator_entry so (bc_stored_blocks bc ! i)]"
  let ?p = "bn_parent_index (bc_nodes bc ! i)"
  show ?case
  proof (cases "i = 0")
    case True
    then show ?thesis
      using tree_okD(4) [OF t] branch_genesis [OF t]
      by (intro exI [of _ "[?b]"]) (simp add: Let_def locator_entry_def)
  next
    case False
    have bi: "branch bc i = branch bc ?p @ [?b]" using False Suc.prems(1) t by (intro branch_step) auto
    have "?p < i" using False Suc.prems(1) t by (intro linkedD(1) tree_okD(8)) auto
    then have p: "?p < length (bc_stored_blocks bc)" using Suc.prems(1) by simp
    define k where "k = (if length ?loc + 1 = m then 0 else climb (bc_nodes bc) step i)"
    define step' where "step' = (if length ?loc + 1 = m then step
        else if 10 \<le> length ?loc \<and> step \<le> m then step * 2 else step)"
    obtain s where s: "step = Suc s" using Suc.prems(2) by (cases step) auto
    have k: "k < length (bc_stored_blocks bc)" "prefix (branch bc k) (branch bc ?p)"
      using climb_prefix [OF t p, of s] prefix_branch_0 [OF t p] tree_okD(3) [OF t] False
      by (auto simp: k_def s)
    have "0 < step'" "length ?loc + Suc room = m" using Suc.prems by (simp_all add: step'_def)
    from Suc.IH [OF k(1) this] obtain bs where bs:
      "locator_loop so bc m (Suc room) k step' ?loc = ?loc @ map (locator_entry so) bs"
      "bs \<noteq> []" "subseq (rev bs) (branch bc k)" "length bs \<le> Suc room"
      "0 < room \<or> k = 0 \<longrightarrow> last bs = genesis_block so c" by blast
    have "locator_loop so bc m (Suc (Suc room)) i step loc = locator_loop so bc m (Suc room) k step' ?loc"
      using False by (simp add: Let_def k_def step'_def locator_entry_def)
    then have "locator_loop so bc m (Suc (Suc room)) i step loc = loc @ map (locator_entry so) (?b # bs)"
      unfolding bs(1) by simp
    moreover have "subseq (rev bs) (branch bc ?p)"
      using bs(3) prefix_imp_subseq [OF k(2)] by (rule subseq_order.trans)
    then have "subseq (rev (?b # bs)) (branch bc i)" unfolding bi by simp
    moreover have "0 < room \<or> k = 0" using Suc.prems(3) by (auto simp: k_def)
    ultimately show ?thesis using bs by (intro exI [of _ "?b # bs"]) auto
  qed
qed

lemma block_locator_branch:
  assumes "bc_reachable so c bc" and i: "i < length (bc_stored_blocks bc)" and "2 \<le> m"
  obtains bs where "bc_block_locator so bc (blk_id so (bc_stored_blocks bc ! i)) m = map (locator_entry so) bs"
    "bs \<noteq> []" "hd bs = bc_stored_blocks bc ! i" "last bs = genesis_block so c" "subseq (rev bs) (branch bc i)"
    "length bs \<le> m"
proof -
  have t: "tree_ok so c bc" using bc_invD(1) [OF bc_reachable_inv [OF assms(1)]] .
  from assms(3) obtain room where room: "m = Suc room" "0 < room" by (cases m) auto
  have "map_of (bc_index_by_id bc) (blk_id so (bc_stored_blocks bc ! i)) = Some i"
    using i tree_okD(7) [OF t] by simp
  then show thesis
    using locator_loop_correct [OF t i, of 1 "[]" room m] room that
    by (auto simp: bc_block_locator_def simp del: locator_loop.simps)
qed

section \<open>Properties\<close>

text \<open>
  C1. \<open>Blockchain::append\<close> implements the abstract fork choice. On every chain the class
  can produce and every well-formed block, the call returns (the loop to Genesis ends); it
  accepts the block exactly when its identifier is new and it follows the end of a stored
  branch; accepting adds that one extended branch and makes it the active chain exactly
  when it is strictly longer than the active one, so a tie keeps the chain that was there
  first; rejecting changes nothing at all.
\<close>

theorem append_refines_fork_choice:
  assumes "bc_reachable so c bc" and "blk_valid so b"
  shows "\<exists>r bc'. bc_append so bc b = Some (r, bc') \<and>
    fork_step so (chains_of bc, bc_blocks bc) b (ar_error r = CE_none) (chains_of bc', bc_blocks bc') \<and>
    (ar_error r \<noteq> CE_none \<longrightarrow> bc' = bc)"
proof -
  have inv: "bc_inv so c bc" using assms(1) by (rule bc_reachable_inv)
  from bc_append_total [OF inv assms(2)] obtain r bc' where "bc_append so bc b = Some (r, bc')"
    "ar_error r \<noteq> CE_none \<Longrightarrow> bc' = bc" by metis
  with bc_append_fork_step [OF inv assms(2)] show ?thesis by blast
qed

text \<open>
  C2. The active chain is valid and longest. It starts at Genesis, every block links to the
  one before it, has the next height, a later timestamp and valid Proof of Work, and its
  state transition succeeds; the published account state is the replay of the active
  blocks from the empty state; and no stored block is higher than the tip.
\<close>

theorem active_chain_valid:
  assumes "bc_reachable so c bc"
  shows "valid_chain so c (bc_blocks bc) \<and> bc_state bc = replay so (bc_blocks bc) \<and>
    bc_block_count bc = Suc (unat (blk_height (bc_tip bc))) \<and>
    (\<forall>b \<in> set (bc_stored_blocks bc). blk_height b \<le> blk_height (bc_tip bc))"
proof -
  have inv: "bc_inv so c bc" using assms by (rule bc_reachable_inv)
  have t: "tree_ok so c bc" using inv by (rule bc_invD)
  have "bc_state bc = replay so (bc_blocks bc)" using inv by (rule bc_state_replay)
  moreover have "blk_height (bc_stored_blocks bc ! i) \<le> blk_height (bc_tip bc)"
    if "i < length (bc_stored_blocks bc)" for i
    using bc_invD(5) [OF inv that] work_is_height [OF t that] work_is_height [OF t bc_invD(3) [OF inv]]
    by (simp add: bc_tip_eq [OF inv])
  then have "\<forall>b \<in> set (bc_stored_blocks bc). blk_height b \<le> blk_height (bc_tip bc)"
    by (simp add: in_set_conv_nth Ball_def) blast
  ultimately show ?thesis
    using bc_blocks_valid [OF inv] length_bc_blocks [OF inv] by (simp add: bc_block_count_def)
qed

text \<open>
  The result of an append describes the change of the active chain. The old and the new
  active chain share a non-empty beginning; the detached blocks are exactly the rest of
  the old chain and the attached blocks the rest of the new one, both in chain order and
  without a common first block; the chain is reported changed exactly when blocks were
  attached and reorganized exactly when blocks were detached.
\<close>

theorem append_result_describes_change:
  assumes "bc_reachable so c bc" and "blk_valid so b" and "bc_append so bc b = Some (r, bc')"
  shows "chain_diff (bc_blocks bc) r (bc_blocks bc')"
  using bc_append_total [OF bc_reachable_inv [OF assms(1)] assms(2)] assms(3)
  by (metis option.inject prod.inject)

text \<open>
  C3. The money on the active chain is the subsidy of its blocks: all balances together are
  the height of the tip times 50 BBC, whatever transactions, fees and reorganizations
  there were.
\<close>

theorem supply_is_height_times_subsidy:
  assumes "bc_reachable so c bc"
  shows "total_balance (bc_state bc) = unat (blk_height (bc_tip bc)) * 5000000000"
proof -
  have inv: "bc_inv so c bc" using assms by (rule bc_reachable_inv)
  have "bc_state bc = replay so (bc_blocks bc)" using inv by (rule bc_state_replay)
  then show ?thesis
    using valid_chain_supply [OF bc_blocks_valid [OF inv]]
    by (simp add: bc_tip_def block_subsidy_def base_units_per_bbc_def)
qed

text \<open>
  C12. No replay. Over the whole active chain the transactions of a sender carry the nonces
  0, 1, 2, ... up to the next nonce of its account, each once and in order; in particular
  no two transactions of the chain have the same sender and nonce.
\<close>

theorem active_chain_nonces_consecutive:
  assumes "bc_reachable so c bc"
  shows "map (\<lambda>tx. unat (tx_account_nonce tx)) (sent_by so h (chain_transactions (bc_blocks bc))) =
      [0 ..< unat (next_nonce (account_of_hash (bc_state bc) h))] \<and>
    distinct (map (\<lambda>tx. (addr_hash (tx_sender so tx), tx_account_nonce tx)) (chain_transactions (bc_blocks bc)))"
proof
  have inv: "bc_inv so c bc" using assms by (rule bc_reachable_inv)
  note v = bc_blocks_valid [OF inv]
  have "bc_state bc = replay so (bc_blocks bc)" using inv by (rule bc_state_replay)
  then show "map (\<lambda>tx. unat (tx_account_nonce tx)) (sent_by so h (chain_transactions (bc_blocks bc))) =
      [0 ..< unat (next_nonce (account_of_hash (bc_state bc) h))]"
    using valid_chain_nonces [OF v] by simp
  show "distinct (map (\<lambda>tx. (addr_hash (tx_sender so tx), tx_account_nonce tx)) (chain_transactions (bc_blocks bc)))"
    using valid_chain_no_replay [OF v] by (simp add: distinct_map inj_on_def)
qed

text \<open>
  The look-ups answer about the stored and the active blocks: \<open>contains\<close> is membership
  in the stored blocks, \<open>is_on_active_chain\<close> membership in the active chain, and
  \<open>cumulative_work\<close> of a stored block is its height.
\<close>

theorem chain_lookups:
  assumes "bc_reachable so c bc"
  shows "(bc_contains bc h \<longleftrightarrow> h \<in> blk_id so ` set (bc_stored_blocks bc)) \<and>
    (bc_is_on_active_chain bc h \<longleftrightarrow> h \<in> blk_id so ` set (bc_blocks bc)) \<and>
    (bc_cumulative_work bc h = None \<longleftrightarrow> h \<notin> blk_id so ` set (bc_stored_blocks bc)) \<and>
    (\<forall>b \<in> set (bc_stored_blocks bc). bc_cumulative_work bc (blk_id so b) = Some (blk_height b))"
proof (intro conjI ballI)
  have inv: "bc_inv so c bc" using assms by (rule bc_reachable_inv)
  have t: "tree_ok so c bc" using inv by (rule bc_invD)
  show "bc_contains bc h \<longleftrightarrow> h \<in> blk_id so ` set (bc_stored_blocks bc)"
    using lookup_stored [OF t, of h] by (simp add: bc_contains_def)
  show "bc_is_on_active_chain bc h \<longleftrightarrow> h \<in> blk_id so ` set (bc_blocks bc)"
    using inv by (rule is_on_active_chain_iff)
  show "bc_cumulative_work bc h = None \<longleftrightarrow> h \<notin> blk_id so ` set (bc_stored_blocks bc)"
    using lookup_stored [OF t, of h] by (auto simp: bc_cumulative_work_def split: option.split)
  fix b
  assume "b \<in> set (bc_stored_blocks bc)"
  then obtain i where i: "i < length (bc_stored_blocks bc)" "b = bc_stored_blocks bc ! i"
    by (auto simp: in_set_conv_nth)
  then have "map_of (bc_index_by_id bc) (blk_id so b) = Some i" using tree_okD(7) [OF t] by simp
  then show "bc_cumulative_work bc (blk_id so b) = Some (blk_height b)"
    using i work_is_height [OF t i(1)] by (simp add: bc_cumulative_work_def)
qed

text \<open>
  A block locator describes the branch of its start block. For a stored block and at
  least two entries it lists blocks of that branch from the start block down to Genesis,
  both included, in strictly descending chain order and within the limit; for an unknown
  block, or a limit of zero, it is empty.
\<close>

theorem block_locator_correct:
  assumes "bc_reachable so c bc"
  shows "(\<forall>i < length (bc_stored_blocks bc). 2 \<le> m \<longrightarrow>
      (\<exists>bs. bc_block_locator so bc (blk_id so (bc_stored_blocks bc ! i)) m = map (locator_entry so) bs \<and>
        bs \<noteq> [] \<and> hd bs = bc_stored_blocks bc ! i \<and> last bs = genesis_block so c \<and>
        subseq (rev bs) (branch bc i) \<and> length bs \<le> m)) \<and>
    (h \<notin> blk_id so ` set (bc_stored_blocks bc) \<or> m = 0 \<longrightarrow> bc_block_locator so bc h m = [])"
proof (intro conjI allI impI)
  have t: "tree_ok so c bc" using bc_invD(1) [OF bc_reachable_inv [OF assms]] .
  show "bc_block_locator so bc h m = []" if "h \<notin> blk_id so ` set (bc_stored_blocks bc) \<or> m = 0"
    using that lookup_stored [OF t, of h] by (auto simp: bc_block_locator_def split: option.split)
  fix i
  assume "i < length (bc_stored_blocks bc)" and "2 \<le> m"
  from block_locator_branch [OF assms this]
  show "\<exists>bs. bc_block_locator so bc (blk_id so (bc_stored_blocks bc ! i)) m = map (locator_entry so) bs \<and>
        bs \<noteq> [] \<and> hd bs = bc_stored_blocks bc ! i \<and> last bs = genesis_block so c \<and>
        subseq (rev bs) (branch bc i) \<and> length bs \<le> m" by metis
qed

text \<open>
  The stored blocks determine the chain object: two chains of a network that stored the
  same blocks in the same order have the same active chain, state, indices and flags,
  whatever rejected blocks they met on the way.
\<close>

theorem stored_blocks_determine_chain:
  assumes "bc_reachable so c bc1" and "bc_reachable so c bc2"
    and "bc_stored_blocks bc1 = bc_stored_blocks bc2"
  shows "bc1 = bc2"
proof -
  have "supported_chain c" using tree_okD(1) [OF bc_invD(1) [OF bc_reachable_inv [OF assms(1)]]] .
  then obtain profile where "c = np_chain_id (network_parameters profile)"
    using supported_chain_profile by blast
  with assms show ?thesis
    using chain_log.log_determines [OF bc_reachable_feed bc_reachable_feed] by simp
qed

section \<open>An example\<close>

text \<open>Blocks of the development network, all mined by the sender of the example transaction.\<close>

definition demo_child :: "Block \<Rightarrow> u64 \<Rightarrow> SignedTransaction list \<Rightarrow> Block" where
  "demo_child parent n txs =
     \<lparr> blk_chain_id = 1, blk_height = blk_height parent + 1,
       blk_previous_block_hash = blk_id demo_sodium parent,
       blk_transaction_root = calculate_transaction_root demo_sodium txs,
       blk_reward_recipient = Some (tx_sender demo_sodium (demo_tx 1 2 0)),
       blk_timestamp = blk_timestamp parent + 1,
       blk_difficulty_target = fixed_difficulty_target 1, blk_mining_nonce = n,
       blk_transactions = txs \<rparr>"

definition demo_b1 :: Block where
  "demo_b1 = demo_child (genesis_block demo_sodium 1) 1 []"

definition demo_b2 :: Block where
  "demo_b2 = demo_child demo_b1 2 [demo_tx 1 2 0]"

definition demo_append :: "Blockchain \<Rightarrow> Block \<Rightarrow> Blockchain" where
  "demo_append bc b = (case bc_append demo_sodium bc b of None \<Rightarrow> bc | Some (r, bc') \<Rightarrow> bc')"

definition demo_chain :: Blockchain where
  "demo_chain = demo_append (Blockchain_create demo_sodium 1) demo_b1"

lemma demo_b1_simps:
  "blk_chain_id demo_b1 = 1" "blk_height demo_b1 = 1" "\<not> is_genesis demo_b1" "blk_transactions demo_b1 = []"
  "blk_previous_block_hash demo_b1 = blk_id demo_sodium (genesis_block demo_sodium 1)"
  "blk_timestamp demo_b1 = 1" "blk_mining_nonce demo_b1 = 1"
  "blk_reward_recipient demo_b1 = Some (tx_sender demo_sodium (demo_tx 1 2 0))"
  "blk_difficulty_target demo_b1 = fixed_difficulty_target 1"
  by (simp_all add: demo_b1_def demo_child_def is_genesis_def)

lemma demo_child_valid:
  assumes "header_sizes parent" and "blk_height parent + 1 \<noteq> 0" and "list_all (tx_valid demo_sodium) txs"
    and "validate_transactions demo_sodium txs 1 = BE_none"
  shows "blk_valid demo_sodium (demo_child parent n txs)"
proof -
  have "addr_hash (tx_sender demo_sodium (demo_tx 1 2 0)) ! 31 = 32"
    by (simp add: tx_sender_def Address_from_public_key_def demo_hash_length demo_tx_def)
  moreover have "length (addr_hash (tx_sender demo_sodium (demo_tx 1 2 0))) = 32"
    by (simp add: tx_sender_def Address_from_public_key_def)
  ultimately have "\<not> is_zero (addr_hash (tx_sender demo_sodium (demo_tx 1 2 0)))"
    "length (addr_hash (tx_sender demo_sodium (demo_tx 1 2 0))) = 32"
    by (auto simp: is_zero_def list_all_length intro!: exI [of _ 31])
  then show ?thesis
    using assms demo_id_not_zero [OF assms(1)]
    by (simp add: blk_valid_def demo_child_def is_genesis_def supported_chain blk_id_def)
qed

lemma demo_children_valid: "blk_valid demo_sodium demo_b1" "blk_valid demo_sodium demo_b2"
proof -
  have "header_sizes (genesis_block demo_sodium 1)"
    by (rule blk_valid_header_sizes [OF blk_valid_genesis [of 1 demo_sodium]]) (simp add: supported_chain)
  then show b1: "blk_valid demo_sodium demo_b1"
    unfolding demo_b1_def by (intro demo_child_valid) (simp_all add: validate_transactions_none_iff)
  have "tx_chain_id (demo_tx 1 2 0) = 1" by (simp add: demo_tx_def)
  then show "blk_valid demo_sodium demo_b2"
    unfolding demo_b2_def
    by (intro demo_child_valid blk_valid_header_sizes [OF b1])
      (simp_all add: demo_b1_simps tx_valid_demo validate_transactions_none_iff)
qed

lemma demo_b1_applies: "\<exists>st. append_checks demo_sodium (Blockchain_create demo_sodium 1) demo_b1 0 st"
proof -
  have h: "header_sizes demo_b1" "header_sizes (genesis_block demo_sodium 1)"
    using blk_valid_header_sizes [OF demo_children_valid(1)]
      blk_valid_header_sizes [OF blk_valid_genesis [of 1 demo_sodium]] by (simp_all add: supported_chain)
  have "blk_id demo_sodium demo_b1 \<noteq> blk_id demo_sodium (genesis_block demo_sodium 1)"
    using demo_id_nonce [OF h(1)] demo_id_nonce [OF h(2)] by (auto simp: demo_b1_simps)
  moreover have "validate_proof_of_work demo_sodium demo_b1 = PE_none"
    by (simp add: validate_proof_of_work_def demo_b1_simps blk_id_def demo_meets_target Let_def)
  moreover have "st_error (fst (apply_block_state demo_sodium ChainState_default demo_b1)) = SE_none"
    by (simp add: apply_block_state_def demo_b1_simps account_of_hash_def ChainState_default_def Let_def
        AccountState_default_def add_guard_iff unat_block_subsidy)
  ultimately show ?thesis
    by (auto simp: append_checks_def demo_b1_simps Blockchain_create_def bc_tip_def
        intro!: exI [of _ "snd (apply_block_state demo_sodium ChainState_default demo_b1)"]
          exI [of _ "fst (apply_block_state demo_sodium ChainState_default demo_b1)"])
qed

lemma demo_chain_facts:
  "bc_stored_blocks demo_chain = [genesis_block demo_sodium 1, demo_b1]"
  "bc_blocks demo_chain = [genesis_block demo_sodium 1, demo_b1]" "blk_height (bc_tip demo_chain) = 1"
proof -
  let ?c = "Blockchain_create demo_sodium 1"
  have inv: "bc_inv demo_sodium 1 ?c" by (rule Blockchain_create_inv) (simp add: supported_chain)
  obtain st r bc where s: "bc_append demo_sodium ?c demo_b1 = Some (r, bc)" "accepted_as ?c demo_b1 0 r bc"
    using demo_b1_applies bc_append_outcome [OF inv demo_children_valid(1)] by metis
  moreover have "branch ?c 0 = [genesis_block demo_sodium 1]"
    by (rule branch_genesis [OF bc_invD(1) [OF inv]])
  moreover have "blk_height (bc_tip ?c) < blk_height demo_b1"
    by (simp add: bc_tip_def Blockchain_create_def demo_b1_simps)
  ultimately show "bc_stored_blocks demo_chain = [genesis_block demo_sodium 1, demo_b1]"
    "bc_blocks demo_chain = [genesis_block demo_sodium 1, demo_b1]" "blk_height (bc_tip demo_chain) = 1"
    by (simp_all add: demo_chain_def demo_append_def accepted_as_def bc_tip_def demo_b1_simps)
      (simp add: Blockchain_create_def)
qed

lemma demo_append_reachable:
  assumes "bc_reachable demo_sodium 1 bc" and "blk_valid demo_sodium b"
  shows "bc_reachable demo_sodium 1 (demo_append bc b)"
proof -
  obtain r bc' where "bc_append demo_sodium bc b = Some (r, bc')"
    using bc_append_total [OF bc_reachable_inv [OF assms(1)] assms(2)] by metis
  then show ?thesis using bc_reachable.append [OF assms] by (simp add: demo_append_def)
qed

lemma demo_chain_reachable:
  "bc_reachable demo_sodium 1 demo_chain" "bc_reachable demo_sodium 1 (demo_append demo_chain demo_b2)"
  unfolding demo_chain_def
  by (intro demo_append_reachable demo_children_valid bc_reachable.create; simp add: supported_chain)+

theorem append_refines_fork_choice_witness:
  "\<exists>r bc'. bc_append demo_sodium demo_chain demo_b2 = Some (r, bc') \<and>
    fork_step demo_sodium (chains_of demo_chain, bc_blocks demo_chain) demo_b2
      (ar_error r = CE_none) (chains_of bc', bc_blocks bc')"
  using append_refines_fork_choice [OF demo_chain_reachable(1) demo_children_valid(2)] by blast

theorem active_chain_valid_witness:
  "valid_chain demo_sodium 1 (bc_blocks demo_chain) \<and> bc_block_count demo_chain = 2"
  using active_chain_valid [OF demo_chain_reachable(1)] by (simp add: demo_chain_facts)

theorem append_result_describes_change_witness:
  "\<exists>r bc'. bc_append demo_sodium demo_chain demo_b2 = Some (r, bc') \<and>
    chain_diff (bc_blocks demo_chain) r (bc_blocks bc')"
proof -
  obtain r bc' where "bc_append demo_sodium demo_chain demo_b2 = Some (r, bc')"
    using bc_append_total [OF bc_reachable_inv [OF demo_chain_reachable(1)] demo_children_valid(2)] by metis
  with append_result_describes_change [OF demo_chain_reachable(1) demo_children_valid(2)]
  show ?thesis by blast
qed

theorem supply_is_height_times_subsidy_witness:
  "total_balance (bc_state demo_chain) = 5000000000"
  using supply_is_height_times_subsidy [OF demo_chain_reachable(1)] by (simp add: demo_chain_facts)

theorem active_chain_nonces_consecutive_witness:
  "distinct (map (\<lambda>tx. (addr_hash (tx_sender demo_sodium tx), tx_account_nonce tx))
     (chain_transactions (bc_blocks (demo_append demo_chain demo_b2))))"
  using active_chain_nonces_consecutive [OF demo_chain_reachable(2)] by blast

theorem chain_lookups_witness:
  "bc_contains demo_chain (blk_id demo_sodium demo_b1) \<and>
   bc_cumulative_work demo_chain (blk_id demo_sodium demo_b1) = Some 1"
  using chain_lookups [OF demo_chain_reachable(1), of "blk_id demo_sodium demo_b1"] by (simp add: demo_chain_facts demo_b1_simps)

theorem block_locator_correct_witness:
  "\<exists>bs. bc_block_locator demo_sodium demo_chain (blk_id demo_sodium (bc_stored_blocks demo_chain ! 1)) 4 =
      map (locator_entry demo_sodium) bs \<and> last bs = genesis_block demo_sodium 1"
  using block_locator_correct [OF demo_chain_reachable(1), of 4, THEN conjunct1, rule_format, of 1]
  by (auto simp: demo_chain_facts)

theorem stored_blocks_determine_chain_witness:
  "demo_append demo_chain demo_b1 = demo_chain"
proof -
  have r: "bc_reachable demo_sodium 1 (demo_append demo_chain demo_b1)"
    by (rule demo_append_reachable [OF demo_chain_reachable(1) demo_children_valid(1)])
  have "\<exists>i. map_of (bc_index_by_id demo_chain) (blk_id demo_sodium demo_b1) = Some i"
    unfolding lookup_stored [OF bc_invD(1) [OF bc_reachable_inv [OF demo_chain_reachable(1)]]]
    by (simp add: demo_chain_facts)
  moreover have "blk_chain_id (bc_tip demo_chain) = 1" by (simp add: bc_tip_def demo_chain_facts demo_b1_simps)
  ultimately have "bc_stored_blocks (demo_append demo_chain demo_b1) = bc_stored_blocks demo_chain"
    by (auto simp: demo_append_def bc_append_def demo_b1_simps)
  then show ?thesis using stored_blocks_determine_chain [OF r demo_chain_reachable(1)] by blast
qed

end
