(* ===== verification/BBC_Paths.thy ===== *)
theory BBC_Paths
  imports BBC_Files
begin

text \<open>
  Text in files, and the operations of \<open>std::filesystem::path\<close> that the sources use, on POSIX
  paths: \<open>/\<close>, \<open>is_absolute\<close>, \<open>parent_path\<close>, \<open>lexically_normal\<close> and \<open>absolute\<close>.
\<close>

section \<open>Text\<close>

definition text_bytes :: "string \<Rightarrow> bytes" where
  "text_bytes s = map of_char s"

definition bytes_text :: "bytes \<Rightarrow> string" where
  "bytes_text bs = map (\<lambda>b. char_of (unat b)) bs"

lemma byte_of_char [simp]: "char_of (unat (of_char c :: byte)) = c"
proof -
  have "(of_char c :: byte) = of_nat (of_char c)" by (rule of_nat_of_char [symmetric])
  moreover have "(of_char c :: nat) < 256" by simp
  ultimately show ?thesis by (simp add: unat_of_nat take_bit_eq_mod)
qed

lemma char_of_byte [simp]: "(of_char (char_of (unat b)) :: byte) = b"
proof -
  have "unat b < 256" using unsigned_less [of b] by simp
  then have "(of_char (char_of (unat b)) :: nat) = unat b" by simp
  then have "(of_nat (of_char (char_of (unat b))) :: byte) = of_nat (unat b)" by (rule arg_cong)
  then show ?thesis unfolding of_nat_of_char by simp
qed

lemma bytes_text_inverse [simp]: "bytes_text (text_bytes s) = s"
  by (simp add: bytes_text_def text_bytes_def comp_def)

lemma text_bytes_inverse [simp]: "text_bytes (bytes_text bs) = bs"
  by (simp add: bytes_text_def text_bytes_def comp_def)

lemma length_text_bytes [simp]: "length (text_bytes s) = length s"
  by (simp add: text_bytes_def)

lemma text_bytes_append [simp]: "text_bytes (s @ t) = text_bytes s @ text_bytes t"
  by (simp add: text_bytes_def)

text \<open>The whole file: a stream that opens and is read to its end.\<close>

definition fs_read_all :: "io \<Rightarrow> files \<Rightarrow> path \<Rightarrow> bytes option" where
  "fs_read_all io fs p = (if io_read_ok io then fs p else None)"

text \<open>A character in a range, as \<open>unsigned char\<close>.\<close>

definition char_between :: "char \<Rightarrow> char \<Rightarrow> char \<Rightarrow> bool" where
  "char_between lo hi c \<longleftrightarrow> (of_char lo :: nat) \<le> of_char c \<and> (of_char c :: nat) \<le> of_char hi"

text \<open>The parts of a text between the separators, empty ones included.\<close>

fun split_text :: "char \<Rightarrow> string \<Rightarrow> string list" where
  "split_text c [] = [[]]"
| "split_text c (x # xs) =
     (if x = c then [] # split_text c xs
      else (case split_text c xs of part # parts \<Rightarrow> (x # part) # parts | [] \<Rightarrow> [[x]]))"

fun join_text :: "char \<Rightarrow> string list \<Rightarrow> string" where
  "join_text c [] = []"
| "join_text c [part] = part"
| "join_text c (part # parts) = part @ c # join_text c parts"

lemma split_text_not_Nil [simp]: "split_text c xs \<noteq> []"
  by (induction xs) (auto split: list.splits)

lemma split_text_parts: "part \<in> set (split_text c xs) \<Longrightarrow> c \<notin> set part"
  by (induction xs arbitrary: part) (auto split: list.splits if_splits)

lemma join_split_text [simp]: "join_text c (split_text c xs) = xs"
proof (induction xs)
  case (Cons x xs)
  then show ?case by (cases "split_text c xs"; cases "tl (split_text c xs)") auto
qed simp

lemma split_text_append: "c \<notin> set part \<Longrightarrow> split_text c (part @ c # rest) = part # split_text c rest"
  by (induction part) auto

lemma split_text_single: "c \<notin> set part \<Longrightarrow> split_text c part = [part]"
  by (induction part) auto

lemma split_join_text:
  assumes "parts \<noteq> []" and "\<forall>part \<in> set parts. c \<notin> set part"
  shows "split_text c (join_text c parts) = parts" "split_text c (join_text c parts @ [c]) = parts @ [[]]"
  using assms by (induction c parts rule: join_text.induct) (auto simp: split_text_append split_text_single)

section \<open>Paths\<close>

definition path_separator :: char where "path_separator = CHR ''/''"

definition is_absolute :: "path \<Rightarrow> bool" where
  "is_absolute p \<longleftrightarrow> (case p of c # _ \<Rightarrow> c = path_separator | [] \<Rightarrow> False)"

text \<open>\<open>base / p\<close>.\<close>

definition path_append :: "path \<Rightarrow> path \<Rightarrow> path" where
  "path_append base p =
     (if is_absolute p then p
      else if base = [] \<or> last base = path_separator then base @ p
      else base @ path_separator # p)"

definition parent_path :: "path \<Rightarrow> path" where
  "parent_path p =
     (let directory = rev (dropWhile (\<lambda>c. c \<noteq> path_separator) (rev p));
          stripped = rev (dropWhile (\<lambda>c. c = path_separator) (rev directory))
      in if stripped = [] \<and> directory \<noteq> [] then [path_separator] else stripped)"

text \<open>
  \<open>lexically_normal\<close>: the parts of the path, the last one first, and whether the normal form ends
  in a separator.
\<close>

definition normal_step :: "bool \<Rightarrow> string \<Rightarrow> string list \<times> bool \<Rightarrow> string list \<times> bool" where
  "normal_step absolute part acc =
     (case acc of (stack, trailing) \<Rightarrow>
        if part = [] \<or> part = ''.'' then (stack, True)
        else if part = ''..''
        then (case stack of
                newest # rest \<Rightarrow> if newest = ''..'' then (''..'' # stack, False) else (rest, True)
              | [] \<Rightarrow> if absolute then ([], True) else ([''..''], False))
        else (part # stack, False))"

definition lexically_normal :: "path \<Rightarrow> path" where
  "lexically_normal p =
     (if p = [] then []
      else
        (let absolute = is_absolute p;
             (stack, trailing) = fold (normal_step absolute) (split_text path_separator p) ([], False);
             body = join_text path_separator (rev stack);
             tail = (if trailing \<and> stack \<noteq> [] \<and> hd stack \<noteq> ''..'' then [path_separator] else [])
         in if absolute then path_separator # body @ tail
            else if stack = [] then ''.''
            else body @ tail))"

text \<open>\<open>absolute(p, error)\<close> of a path that is not empty; \<open>cwd\<close> is \<^const>\<open>None\<close> when there is no working directory.\<close>

definition fs_absolute :: "path option \<Rightarrow> path \<Rightarrow> path option" where
  "fs_absolute cwd p = (if is_absolute p then Some p else map_option (\<lambda>directory. path_append directory p) cwd)"

text \<open>Examples of the C++ standard and some more.\<close>

lemma lexically_normal_examples:
  "lexically_normal ''foo/./bar/..'' = ''foo/''"
  "lexically_normal ''foo/.///bar/../'' = ''foo/''"
  "lexically_normal ''/a/../../b'' = ''/b''"
  "lexically_normal ''a/..'' = ''.''"
  "lexically_normal ''../../x/'' = ''../../x/''"
  "lexically_normal ''/..'' = ''/''"
  "lexically_normal ''../.'' = ''..''"
  by code_simp+

lemma is_absolute_iff: "is_absolute p \<longleftrightarrow> p \<noteq> [] \<and> hd p = path_separator"
  by (cases p) (auto simp: is_absolute_def)

text \<open>
  What the normal form of an absolute path looks like: none of its parts is empty, \<open>.\<close> or \<open>..\<close>,
  except that the last one may be empty (a separator at the end).
\<close>

definition normal_path :: "path \<Rightarrow> bool" where
  "normal_path p \<longleftrightarrow> is_absolute p \<and>
     (let parts = split_text path_separator (tl p)
      in list_all (\<lambda>part. part \<notin> {[], ''.'', ''..''}) (butlast parts) \<and> last parts \<notin> {''.'', ''..''})"

definition normal_stack :: "string list \<Rightarrow> bool" where
  "normal_stack stack \<longleftrightarrow> (\<forall>part \<in> set stack. part \<notin> {[], ''.'', ''..''} \<and> path_separator \<notin> set part)"

lemma normal_step_stack:
  "normal_stack (fst acc) \<Longrightarrow> path_separator \<notin> set part \<Longrightarrow> normal_stack (fst (normal_step True part acc))"
  by (cases acc; cases "fst acc") (simp_all add: normal_step_def normal_stack_def)

lemma normal_fold_stack:
  "normal_stack (fst acc) \<Longrightarrow> \<forall>part \<in> set parts. path_separator \<notin> set part \<Longrightarrow>
     normal_stack (fst (fold (normal_step True) parts acc))"
  by (induction parts arbitrary: acc) (simp_all add: normal_step_stack)

lemma normal_path_lexically_normal:
  assumes "is_absolute p"
  shows "normal_path (lexically_normal p)"
proof -
  obtain stack trailing where acc: "fold (normal_step True) (split_text path_separator p) ([], False) = (stack, trailing)"
    by (rule prod.exhaust)
  have stack: "normal_stack stack"
    using normal_fold_stack [of "([], False)" "split_text path_separator p"] split_text_parts acc
    by (fastforce simp: normal_stack_def)
  let ?tail = "if trailing \<and> stack \<noteq> [] \<and> hd stack \<noteq> ''..'' then [path_separator] else []"
  have p: "lexically_normal p = path_separator # join_text path_separator (rev stack) @ ?tail"
    using assms by (auto simp: lexically_normal_def acc is_absolute_def Let_def)
  show ?thesis
  proof (cases "stack = []")
    case False
    then have "split_text path_separator (join_text path_separator (rev stack) @ ?tail) =
        rev stack @ (if ?tail = [] then [] else [[]])"
      using split_join_text [of "rev stack" path_separator] stack by (auto simp: normal_stack_def)
    moreover have "last (rev stack) \<in> set stack" "set (butlast (rev stack)) \<subseteq> set stack"
      using False by (cases stack; auto simp: last_rev)+
    ultimately show ?thesis
      using stack by (auto simp: normal_path_def p is_absolute_def normal_stack_def list_all_iff butlast_append)
  qed (simp add: normal_path_def p is_absolute_def)
qed

lemma is_absolute_append: "is_absolute base \<Longrightarrow> is_absolute (path_append base p)"
  by (cases base) (auto simp: path_append_def is_absolute_def)

lemma is_absolute_parent: "is_absolute p \<Longrightarrow> is_absolute (parent_path p)"
proof -
  assume p: "is_absolute p"
  then obtain r where r: "p = path_separator # r" by (auto simp: is_absolute_def split: list.splits)
  let ?d = "rev (dropWhile (\<lambda>c. c \<noteq> path_separator) (rev p))"
  let ?s = "rev (dropWhile (\<lambda>c. c = path_separator) (rev ?d))"
  have pref: "\<exists>ys. xs = rev (dropWhile P (rev xs)) @ ys" for P and xs :: string
    using takeWhile_dropWhile_id [of P "rev xs"] by (metis rev_append rev_rev_ident)
  have head: "zs = [] \<or> hd zs = path_separator" if "p = zs @ ys" for zs ys
    using that r by (cases zs) auto
  obtain ys where d: "p = ?d @ ys" using pref by blast
  moreover obtain zs where "?d = ?s @ zs" using pref by blast
  ultimately have s: "?s = [] \<or> hd ?s = path_separator" using head by (metis append_assoc)
  have "path_separator \<in> set (rev p)" using r by simp
  then have "?d \<noteq> []" by (simp add: dropWhile_eq_Nil_conv)
  moreover have "parent_path p = (if ?s = [] \<and> ?d \<noteq> [] then [path_separator] else ?s)"
    by (simp only: parent_path_def Let_def)
  ultimately show ?thesis using s by (cases "?s = []") (simp_all only: is_absolute_iff simp_thms if_True if_False, simp)
qed

lemma fs_absolute_absolute:
  "fs_absolute cwd p = Some q \<Longrightarrow> (\<And>d. cwd = Some d \<Longrightarrow> is_absolute d) \<Longrightarrow> is_absolute q"
  by (auto simp: fs_absolute_def is_absolute_append split: if_splits)

end
