(* ===== verification/BBC_ChainStore.thy ===== *)
theory BBC_ChainStore
  imports BBC_Chain_Spec BBC_Paths
begin

text \<open>
  The chain store: \<open>include/bbc/storage/chain_store.hpp\<close> and
  \<open>src/storage/chain_store.cpp\<close>. The file \<open>blocks.dat\<close> is a sequence of records, one per
  stored block, each with a header and a checksum; a SQLite database beside it is an index
  that is rebuilt from the chain on every change. SQLite itself is a parameter: the outcome
  of its calls, over the documented behaviour of tables and transactions (an insert that
  violates a constraint fails, a rolled back transaction leaves the database as it was).
\<close>

section \<open>Data\<close>

datatype ChainStoreError =
    KE_none
  | KE_already_initialized
  | KE_not_initialized
  | KE_io_error
  | KE_invalid_record_header
  | KE_invalid_record_size
  | KE_invalid_record_checksum
  | KE_invalid_genesis_record
  | KE_invalid_block_record
  | KE_invalid_chain
  | KE_database_error

record ChainStoreAppendResult =
  car_storage_error :: ChainStoreError
  car_chain_result :: AppendResult

definition ChainStoreAppendResult_has_value :: "ChainStoreAppendResult \<Rightarrow> bool" where
  "ChainStoreAppendResult_has_value r \<longleftrightarrow>
     car_storage_error r = KE_none \<and> ar_error (car_chain_result r) = CE_none"

record ChainStore =
  cs_data_directory :: path
  cs_blockchain :: Blockchain
  cs_records :: "(u64 \<times> u64) list"

type_synonym ChainStoreResult = "ChainStoreError + ChainStore"

text \<open>The tables of the index, as the \<open>CREATE TABLE\<close> statements declare them.\<close>

record block_row =
  br_hash :: bytes
  br_height :: bytes
  br_parent_hash :: bytes
  br_cumulative_work :: bytes
  br_active :: bool
  br_file_offset :: u64
  br_record_size :: u64

record account_row =
  acc_address :: bytes
  acc_balance :: bytes
  acc_next_nonce :: bytes

record database =
  db_blocks :: "block_row list"
  db_accounts :: "account_row list"
  db_metadata :: "(bytes \<times> bytes) option"

definition empty_database :: database where
  "empty_database = \<lparr> db_blocks = [], db_accounts = [], db_metadata = None \<rparr>"

text \<open>What SQLite reports for the calls; the inserts are numbered in their order.\<close>

record sqlite =
  sq_open_ok :: bool
  sq_schema_ok :: bool
  sq_prepare_ok :: bool
  sq_insert_ok :: "nat \<Rightarrow> bool"
  sq_commit_ok :: bool

definition sqlite_ok :: sqlite where
  "sqlite_ok = \<lparr> sq_open_ok = True, sq_schema_ok = True, sq_prepare_ok = True,
     sq_insert_ok = (\<lambda>n. True), sq_commit_ok = True \<rparr>"

text \<open>The files and the database file, which is absent before it is first opened.\<close>

record disk =
  dk_files :: files
  dk_database :: "database option"

section \<open>Records\<close>

definition record_magic :: bytes where
  "record_magic = [0x42, 0x42, 0x52, 0x43]"

definition record_version :: byte where
  "record_version = 1"

definition record_header_size :: nat where
  "record_header_size = 12"

definition record_checksum_size :: nat where
  "record_checksum_size = hash256_size"

lemmas record_sizes = record_header_size_def record_checksum_size_def hash256_size_def

definition encode_record :: "sodium \<Rightarrow> Block \<Rightarrow> bytes" where
  "encode_record so block =
     (let payload = blk_serialize block;
          encoded = [] @ record_magic;
          encoded = encoded @ [record_version];
          encoded = encoded @ replicate 3 0;
          encoded = append_u32_le encoded (of_nat (length payload));
          encoded = encoded @ payload;
          encoded = encoded @ sha256 so payload
      in encoded)"

text \<open>\<open>read_exact\<close> on the stream, which stands at \<open>offset\<close> because records are read in order.\<close>

definition read_exact :: "io \<Rightarrow> bytes \<Rightarrow> nat \<Rightarrow> nat \<Rightarrow> bytes option" where
  "read_exact io data offset n =
     (if io_read_ok io \<and> offset + n \<le> length data then Some (take n (drop offset data)) else None)"

text \<open>The body of the loop of \<open>open\<close> up to the decoded block, with the size of its record.\<close>

definition read_record ::
    "sodium \<Rightarrow> io \<Rightarrow> bytes \<Rightarrow> nat \<Rightarrow> nat \<Rightarrow> ChainStoreError + (Block \<times> nat)" where
  "read_record so io data file_size offset =
     (if file_size - offset < record_header_size + record_checksum_size
      then Inl KE_invalid_record_size
      else case read_exact io data offset record_header_size of
        None \<Rightarrow> Inl KE_io_error
      | Some header \<Rightarrow>
          if take (length record_magic) header \<noteq> record_magic \<or> header ! 4 \<noteq> record_version \<or>
             header ! 5 \<noteq> 0 \<or> header ! 6 \<noteq> 0 \<or> header ! 7 \<noteq> 0
          then Inl KE_invalid_record_header
          else
            (let payload_size = unat (read_u32_le header 8)
             in if payload_size < block_header_size \<or> maximum_block_size < payload_size
                then Inl KE_invalid_record_size
                else
                  (let record_size = record_header_size + payload_size + record_checksum_size
                   in if file_size - offset < record_size then Inl KE_invalid_record_size
                      else case read_exact io data (offset + record_header_size) payload_size of
                        None \<Rightarrow> Inl KE_io_error
                      | Some payload \<Rightarrow>
                          (case read_exact io data (offset + record_header_size + payload_size)
                              record_checksum_size of
                             None \<Rightarrow> Inl KE_io_error
                           | Some checksum \<Rightarrow>
                               if sha256 so payload \<noteq> checksum then Inl KE_invalid_record_checksum
                               else case deserialize_block so payload of
                                 Inl _ \<Rightarrow> Inl KE_invalid_block_record
                               | Inr block \<Rightarrow> Inr (block, record_size)))))"

lemma read_record_size:
  "read_record so io data file_size offset = Inr (b, n) \<Longrightarrow> 0 < n \<and> n \<le> file_size - offset"
  by (auto simp: read_record_def Let_def record_sizes split: if_splits option.splits sum.splits)

section \<open>The index database\<close>

definition int64_max :: u64 where
  "int64_max = 0x7FFFFFFFFFFFFFFF"

text \<open>
  \<open>insert_block\<close> and \<open>insert_account\<close>: the table with the new row, unless SQLite refuses
  the call or a constraint of the table is violated.
\<close>

definition insert_block ::
    "sodium \<Rightarrow> sqlite \<Rightarrow> nat \<Rightarrow> block_row list \<Rightarrow> Block \<Rightarrow> u64 \<Rightarrow> bool \<Rightarrow> u64 \<times> u64 \<Rightarrow> block_row list option" where
  "insert_block so sq n table block cumulative_work active location =
     (if int64_max < fst location \<or> int64_max < snd location then None
      else
        (let row = \<lparr> br_hash = blk_id so block, br_height = encode_u64_be (blk_height block),
               br_parent_hash = blk_previous_block_hash block,
               br_cumulative_work = encode_u64_be cumulative_work, br_active = active,
               br_file_offset = fst location, br_record_size = snd location \<rparr>
         in if \<not> sq_insert_ok sq n \<or> br_hash row \<in> br_hash ` set table \<or> length (br_hash row) \<noteq> 32 \<or>
               length (br_height row) \<noteq> 8 \<or> length (br_parent_hash row) \<noteq> 32 \<or>
               length (br_cumulative_work row) \<noteq> 8 \<or> br_record_size row = 0
            then None else Some (table @ [row])))"

definition insert_account ::
    "sqlite \<Rightarrow> nat \<Rightarrow> account_row list \<Rightarrow> bytes \<Rightarrow> AccountState \<Rightarrow> account_row list option" where
  "insert_account sq n table address account =
     (let row = \<lparr> acc_address = address, acc_balance = encode_u64_be (balance account),
            acc_next_nonce = encode_u64_be (next_nonce account) \<rparr>
      in if \<not> sq_insert_ok sq n \<or> acc_address row \<in> acc_address ` set table \<or> length (acc_address row) \<noteq> 32 \<or>
            length (acc_balance row) \<noteq> 8 \<or> length (acc_next_nonce row) \<noteq> 8
         then None else Some (table @ [row]))"

text \<open>The two loops of \<open>rebuild_database\<close>.\<close>

fun insert_blocks ::
    "sodium \<Rightarrow> sqlite \<Rightarrow> Blockchain \<Rightarrow> nat \<Rightarrow> (Block \<times> u64 \<times> u64) list \<Rightarrow> block_row list \<Rightarrow> block_row list option" where
  "insert_blocks so sq bc n [] table = Some table"
| "insert_blocks so sq bc n ((block, location) # rest) table =
     (case bc_cumulative_work bc (blk_id so block) of
        None \<Rightarrow> None
      | Some work \<Rightarrow>
          (case insert_block so sq n table block work (bc_is_on_active_chain bc (blk_id so block)) location of
             None \<Rightarrow> None
           | Some table \<Rightarrow> insert_blocks so sq bc (Suc n) rest table))"

fun insert_accounts ::
    "sqlite \<Rightarrow> nat \<Rightarrow> (bytes \<times> AccountState) list \<Rightarrow> account_row list \<Rightarrow> account_row list option" where
  "insert_accounts sq n [] table = Some table"
| "insert_accounts sq n ((address, account) # rest) table =
     (case insert_account sq n table address account of
        None \<Rightarrow> None
      | Some table \<Rightarrow> insert_accounts sq (Suc n) rest table)"

definition rebuild_database ::
    "sodium \<Rightarrow> sqlite \<Rightarrow> ChainStore \<Rightarrow> database option \<Rightarrow> ChainStoreError \<times> database option" where
  "rebuild_database so sq cs db =
     (if \<not> sq_open_ok sq then (KE_database_error, db)
      else
        (let rolled_back = (KE_database_error,
               Some (case db of None \<Rightarrow> empty_database | Some old \<Rightarrow> old));
             bc = cs_blockchain cs;
             blocks = bc_stored_blocks bc
         in if \<not> sq_schema_ok sq then rolled_back
            else if \<not> sq_prepare_ok sq then rolled_back
            else if length blocks \<noteq> length (cs_records cs) then rolled_back
            else case insert_blocks so sq bc 0 (zip blocks (cs_records cs)) [] of
              None \<Rightarrow> rolled_back
            | Some block_table \<Rightarrow>
                (case insert_accounts sq (length blocks) (bc_state bc) [] of
                   None \<Rightarrow> rolled_back
                 | Some account_table \<Rightarrow>
                     (let tip_height = encode_u64_be (blk_height (bc_tip bc));
                          tip_hash = blk_id so (bc_tip bc)
                      in if \<not> sq_insert_ok sq (length blocks + length (bc_state bc)) \<or>
                            length tip_height \<noteq> 8 \<or> length tip_hash \<noteq> 32 \<or> \<not> sq_commit_ok sq
                         then rolled_back
                         else (KE_none,
                           Some \<lparr> db_blocks = block_table, db_accounts = account_table,
                             db_metadata = Some (tip_height, tip_hash) \<rparr>)))))"

section \<open>Operations of the store\<close>

definition blocks_path :: "path \<Rightarrow> path" where
  "blocks_path data_directory = path_append (path_append data_directory ''chain'') ''blocks.dat''"

text \<open>
  The loop of \<open>open\<close>. The outer option is the one of \<open>Blockchain::append\<close>. Offsets are
  bounded by the file size, which is below \<open>2 ^ 64\<close>.
\<close>

function open_loop ::
    "sodium \<Rightarrow> io \<Rightarrow> u32 \<Rightarrow> bytes \<Rightarrow> nat \<Rightarrow> Blockchain \<Rightarrow> (u64 \<times> u64) list \<Rightarrow> nat \<Rightarrow>
       (ChainStoreError + (Blockchain \<times> (u64 \<times> u64) list)) option" where
  "open_loop so io chain_id data file_size blockchain records offset =
     (if offset < file_size then
        (case read_record so io data file_size offset of
           Inl e \<Rightarrow> Some (Inl e)
         | Inr (block, record_size) \<Rightarrow>
             if records = [] then
               (if \<not> is_genesis block \<or> blk_id so block \<noteq> blk_id so (genesis_block so chain_id)
                then Some (Inl KE_invalid_genesis_record)
                else open_loop so io chain_id data file_size blockchain
                       (records @ [(of_nat offset, of_nat record_size)]) (offset + record_size))
             else
               (case bc_append so blockchain block of
                  None \<Rightarrow> None
                | Some (appended, blockchain) \<Rightarrow>
                    if ar_error appended \<noteq> CE_none then Some (Inl KE_invalid_chain)
                    else open_loop so io chain_id data file_size blockchain
                           (records @ [(of_nat offset, of_nat record_size)]) (offset + record_size)))
      else Some (Inr (blockchain, records)))"
  by pat_completeness auto
termination
proof (relation "measure (\<lambda>(so, io, c, data, file_size, bc, rs, offset). file_size - offset)", goal_cases)
  case (2 so io chain_id data file_size blockchain records offset x2 block record_size)
  then show ?case using read_record_size [of so io data file_size offset block record_size] by auto
next
  case (3 so io chain_id data file_size blockchain records offset x2 block record_size)
  then show ?case using read_record_size [of so io data file_size offset block record_size] by auto
qed simp

declare open_loop.simps [simp del]

definition cs_open ::
    "sodium \<Rightarrow> io \<Rightarrow> sqlite \<Rightarrow> disk \<Rightarrow> path \<Rightarrow> u32 \<Rightarrow> (ChainStoreResult \<times> disk) option" where
  "cs_open so io sq dk data_directory chain_id =
     (let blocks_file = blocks_path data_directory;
          (regular, file_error) = fs_is_regular_file io (dk_files dk) blocks_file
      in if \<not> regular then Some (Inl (if file_error then KE_io_error else KE_not_initialized), dk)
         else case fs_file_size io (dk_files dk) blocks_file of
           None \<Rightarrow> Some (Inl KE_io_error, dk)
         | Some encoded_file_size \<Rightarrow>
             if 2 ^ 64 \<le> encoded_file_size then Some (Inl KE_io_error, dk)
             else if \<not> io_read_ok io then Some (Inl KE_io_error, dk)
             else case open_loop so io chain_id (the (dk_files dk blocks_file)) encoded_file_size
                 (Blockchain_create so chain_id) [] 0 of
               None \<Rightarrow> None
             | Some (Inl e) \<Rightarrow> Some (Inl e, dk)
             | Some (Inr (blockchain, records)) \<Rightarrow>
                 if records = [] then Some (Inl KE_invalid_genesis_record, dk)
                 else
                   (let store = \<lparr> cs_data_directory = data_directory, cs_blockchain = blockchain,
                          cs_records = records \<rparr>;
                        (database_error, db) = rebuild_database so sq store (dk_database dk);
                        dk = dk\<lparr> dk_database := db \<rparr>
                    in if database_error \<noteq> KE_none then Some (Inl database_error, dk)
                       else Some (Inr store, dk)))"

text \<open>
  \<open>initialize\<close>. The calls before the file is opened (\<open>exists\<close> twice and
  \<open>create_directories\<close>) return \<open>io_error\<close> when they fail, as opening the file does.
  \<open>io'\<close> is what the system does during \<open>open\<close>.
\<close>

definition cs_initialize ::
    "sodium \<Rightarrow> io \<Rightarrow> io \<Rightarrow> sqlite \<Rightarrow> disk \<Rightarrow> path \<Rightarrow> u32 \<Rightarrow> (ChainStoreResult \<times> disk) option" where
  "cs_initialize so io io' sq dk data_directory chain_id =
     (let blocks_file = blocks_path data_directory;
          (blocks_exist, file_error) = fs_exists io (dk_files dk) blocks_file
      in if file_error then Some (Inl KE_io_error, dk)
         else if blocks_exist \<or> dk_database dk \<noteq> None then Some (Inl KE_already_initialized, dk)
         else
           (let genesis_record = encode_record so (genesis_block so chain_id)
            in case fs_open_trunc io (dk_files dk) blocks_file of
                 None \<Rightarrow> Some (Inl KE_io_error, dk)
               | Some fs \<Rightarrow>
                   (let (written, fs) = fs_write io fs blocks_file genesis_record
                    in if \<not> written
                       then Some (Inl KE_io_error, dk\<lparr> dk_files := fs_remove io fs blocks_file \<rparr>)
                       else case cs_open so io' sq (dk\<lparr> dk_files := fs \<rparr>) data_directory chain_id of
                         None \<Rightarrow> None
                       | Some (Inr store, dk) \<Rightarrow> Some (Inr store, dk)
                       | Some (Inl e, dk) \<Rightarrow>
                           Some (Inl e, dk\<lparr> dk_database := (if io_remove_ok io then None else dk_database dk),
                                            dk_files := fs_remove io (dk_files dk) blocks_file \<rparr>))))"

definition cs_append ::
    "sodium \<Rightarrow> io \<Rightarrow> sqlite \<Rightarrow> disk \<Rightarrow> ChainStore \<Rightarrow> Block \<Rightarrow>
       (ChainStoreAppendResult \<times> disk \<times> ChainStore) option" where
  "cs_append so io sq dk cs block =
     (let storage_failed = (\<lambda>e. \<lparr> car_storage_error = e, car_chain_result = AppendResult_default \<rparr>);
          p = blocks_path (cs_data_directory cs)
      in case bc_append so (cs_blockchain cs) block of
           None \<Rightarrow> None
         | Some (appended, next_blockchain) \<Rightarrow>
             if ar_error appended \<noteq> CE_none
             then Some (\<lparr> car_storage_error = KE_none, car_chain_result = appended \<rparr>, dk, cs)
             else case fs_file_size io (dk_files dk) p of
               None \<Rightarrow> Some (storage_failed KE_io_error, dk, cs)
             | Some original_size \<Rightarrow>
                 if 2 ^ 64 \<le> original_size then Some (storage_failed KE_io_error, dk, cs)
                 else
                   (let record = encode_record so block
                    in case fs_open_app io (dk_files dk) p of
                         None \<Rightarrow> Some (storage_failed KE_io_error, dk, cs)
                       | Some fs \<Rightarrow>
                           (let (written, fs) = fs_write io fs p record
                            in if \<not> written
                               then Some (storage_failed KE_io_error,
                                      dk\<lparr> dk_files := fst (fs_resize io fs p original_size) \<rparr>, cs)
                               else
                                 (let next_store = cs\<lparr> cs_blockchain := next_blockchain,
                                        cs_records := cs_records cs @ [(of_nat original_size, of_nat (length record))] \<rparr>;
                                      (database_error, db) = rebuild_database so sq next_store (dk_database dk)
                                  in if database_error \<noteq> KE_none
                                     then (let (fs, resize_error) = fs_resize io fs p original_size
                                           in Some (storage_failed (if resize_error then KE_io_error else database_error),
                                                \<lparr> dk_files = fs, dk_database = db \<rparr>, cs))
                                     else Some (\<lparr> car_storage_error = KE_none, car_chain_result = appended \<rparr>,
                                            \<lparr> dk_files = fs, dk_database = db \<rparr>, next_store)))))"

fun chain_store_error_message :: "ChainStoreError \<Rightarrow> string" where
  "chain_store_error_message KE_none = ''no error''"
| "chain_store_error_message KE_already_initialized = ''chain store is already initialized''"
| "chain_store_error_message KE_not_initialized = ''chain store is not initialized''"
| "chain_store_error_message KE_io_error = ''chain store file I/O failed''"
| "chain_store_error_message KE_invalid_record_header = ''block record header is invalid''"
| "chain_store_error_message KE_invalid_record_size = ''block record size is invalid or truncated''"
| "chain_store_error_message KE_invalid_record_checksum = ''block record checksum is invalid''"
| "chain_store_error_message KE_invalid_genesis_record = ''chain store does not begin with canonical Genesis''"
| "chain_store_error_message KE_invalid_block_record = ''chain store contains an invalid encoded block''"
| "chain_store_error_message KE_invalid_chain =
     ''chain store contains a block that does not extend its chain''"
| "chain_store_error_message KE_database_error = ''chain index database update failed''"

section \<open>The record format\<close>

lemma encode_record_eq:
  "encode_record so b =
     record_magic @ [record_version] @ [0, 0, 0] @ le_bytes 4 (of_nat (length (blk_serialize b)) :: u32) @
     blk_serialize b @ sha256 so (blk_serialize b)"
  by (simp add: encode_record_def append_u32_le_def numeral_3_eq_3 Let_def)

lemma length_record_magic [simp]: "length record_magic = 4"
  by (simp add: record_magic_def)

lemma length_encode_record: "length (encode_record so b) = 44 + length (blk_serialize b)"
  by (simp add: encode_record_eq)

lemma blk_serialize_bounds:
  assumes "blk_valid so b"
  shows "165 \<le> length (blk_serialize b)" "length (blk_serialize b) \<le> 161165"
  using length_blk_serialize [OF assms] blk_valid_length_transactions [OF assms] by simp_all

lemma read_record_encode:
  assumes valid: "blk_valid so b" and io: "io_read_ok io"
    and data: "data = pre @ encode_record so b @ post" and offset: "offset = length pre"
  shows "read_record so io data (length data) offset = Inr (b, length (encode_record so b))"
proof -
  let ?p = "blk_serialize b"
  let ?h = "record_magic @ [record_version] @ [0, 0, 0] @ le_bytes 4 (of_nat (length ?p) :: u32)"
  note bounds = blk_serialize_bounds [OF valid]
  have n: "unat (of_nat (length ?p) :: u32) = length ?p" using bounds by (simp add: unat_of_nat)
  have d: "drop offset data = ?h @ ?p @ sha256 so ?p @ post"
    by (simp add: data offset encode_record_eq)
  have len: "length data - offset = 44 + length ?p + length post"
    by (simp add: data offset length_encode_record)
  have le: "offset \<le> length data" by (simp add: data offset)
  have header: "read_exact io data offset 12 = Some ?h"
    using io len le by (simp add: read_exact_def d)
  define h where "h = ?h"
  have lh: "length h = 12" by (simp add: h_def)
  have slice: "drop (offset + k) data = drop k (h @ ?p @ sha256 so ?p @ post)" for k
    unfolding h_def d [symmetric] by (simp add: add.commute)
  have payload: "read_exact io data (offset + 12) (length ?p) = Some ?p"
    using io len le by (simp add: read_exact_def slice lh)
  have checksum: "read_exact io data (offset + 12 + length ?p) 32 = Some (sha256 so ?p)"
    using io len le slice [of "12 + length ?p"] by (simp add: read_exact_def add.assoc lh)
  have fields: "take 4 ?h = record_magic" "?h ! 4 = record_version" "?h ! 5 = 0" "?h ! 6 = 0" "?h ! 7 = 0"
    "read_u32_le ?h 8 = of_nat (length ?p)"
    by (simp_all add: field_read)
  show ?thesis
    unfolding read_record_def record_sizes header option.case fields Let_def length_record_magic
    using bounds len payload checksum deserialize_blk_serialize [OF valid]
    by (simp add: n fields block_sizes length_encode_record)
qed

lemma header_join:
  assumes "length h = 12" and "take 4 h = record_magic" and "h ! 4 = record_version"
    and "h ! 5 = 0" and "h ! 6 = 0" and "h ! 7 = 0"
  shows "h = record_magic @ [record_version] @ [0, 0, 0] @ le_bytes 4 (read_u32_le h 8)"
proof -
  have "le_bytes 4 (read_u32_le h 8) = take 4 (drop 8 h)" using assms(1) by (simp add: u32.enc_dec)
  moreover have "drop 4 h = [h ! 4, h ! 5, h ! 6, h ! 7] @ drop 8 h"
    using assms(1) Cons_nth_drop_Suc [of 4 h] Cons_nth_drop_Suc [of 5 h] Cons_nth_drop_Suc [of 6 h]
      Cons_nth_drop_Suc [of 7 h] by simp
  then have "drop 4 h = [record_version] @ [0, 0, 0] @ drop 8 h" using assms by simp
  ultimately show ?thesis using assms(1,2) append_take_drop_id [of 4 h] by simp
qed

lemma read_record_Inr:
  assumes "read_record so io data (length data) offset = Inr (b, n)"
  shows "blk_valid so b \<and> n = length (encode_record so b) \<and> take n (drop offset data) = encode_record so b \<and>
    offset + n \<le> length data"
proof -
  let ?h = "take 12 (drop offset data)" and ?k = "unat (read_u32_le (take 12 (drop offset data)) 8)"
  let ?p = "take ?k (drop (offset + 12) data)"
  from assms have size: "44 + ?k \<le> length data - offset" and n: "n = 44 + ?k" and io: "io_read_ok io"
    and h: "take 4 ?h = record_magic" "?h ! 4 = record_version" "?h ! 5 = 0" "?h ! 6 = 0" "?h ! 7 = 0"
    and b: "deserialize_block so ?p = Inr b"
    and sum: "sha256 so ?p = take 32 (drop (offset + 12 + ?k) data)"
    by (auto simp: read_record_def Let_def record_sizes read_exact_def split: if_splits option.splits sum.splits)
  have len: "length ?h = 12" "length ?p = ?k" using size by simp_all
  have v: "blk_valid so b" "blk_serialize b = ?p" using blk_codec.decode_iff [of so] b by auto
  have "encode_record so b = ?h @ ?p @ take 32 (drop (offset + 12 + ?k) data)"
    unfolding encode_record_eq v(2) len(2) sum [symmetric] using header_join [OF len(1) h] by simp
  also have "\<dots> = take n (drop offset data)"
    using n by (simp add: field_join)
  finally show ?thesis using v n size len(2) length_encode_record [of so b] by simp
qed

section \<open>The loop of \<open>open\<close>\<close>

text \<open>Where the records of a list of blocks stand in the file.\<close>

primrec record_table :: "sodium \<Rightarrow> nat \<Rightarrow> Block list \<Rightarrow> (u64 \<times> u64) list" where
  "record_table so offset [] = []"
| "record_table so offset (b # bs) =
     (of_nat offset, of_nat (length (encode_record so b))) #
     record_table so (offset + length (encode_record so b)) bs"

definition encode_records :: "sodium \<Rightarrow> Block list \<Rightarrow> bytes" where
  "encode_records so bs = concat (map (encode_record so) bs)"

lemma encode_records_simps [simp]:
  "encode_records so [] = []" "encode_records so (b # bs) = encode_record so b @ encode_records so bs"
  "encode_records so (bs @ cs) = encode_records so bs @ encode_records so cs"
  by (simp_all add: encode_records_def)

lemma length_record_table [simp]: "length (record_table so offset bs) = length bs"
  by (induction bs arbitrary: offset) simp_all

lemma record_table_snoc:
  "record_table so offset (bs @ [b]) = record_table so offset bs @
     [(of_nat (offset + length (encode_records so bs)), of_nat (length (encode_record so b)))]"
  by (induction bs arbitrary: offset) (simp_all add: add.assoc)

lemma feed_reachable:
  assumes "bc_reachable so c bc" and "list_all (blk_valid so) bs" and "chain_log.feed so bc bs = Some bc'"
  shows "bc_reachable so c bc' \<and> bc_stored_blocks bc' = bc_stored_blocks bc @ bs"
  using assms
proof (induction bs arbitrary: bc)
  case (Cons b bs)
  from Cons.prems(3) obtain r bc1 where step: "bc_append so bc b = Some (r, bc1)" "ar_error r = CE_none"
    "chain_log.feed so bc1 bs = Some bc'"
    by (auto split: option.splits if_splits)
  have v: "blk_valid so b" using Cons.prems(2) by simp
  have "bc_reachable so c bc1" using Cons.prems(1) v step(1) by (rule bc_reachable.append)
  moreover have "bc_stored_blocks bc1 = bc_stored_blocks bc @ [b]"
    using bc_append_total [OF bc_reachable_inv [OF Cons.prems(1)] v] step by (metis option.inject prod.inject)
  ultimately show ?case using Cons.IH [of bc1] Cons.prems(2) step(3) by simp
qed simp

lemma open_loop_step:
  assumes "blk_valid so b" and "io_read_ok io" and "data = pre @ encode_record so b @ post"
    and "offset = length pre"
  shows "open_loop so io c data (length data) bc rs offset =
    (let rs' = rs @ [(of_nat offset, of_nat (length (encode_record so b)))];
         offset' = offset + length (encode_record so b)
     in if rs = [] then
          (if \<not> is_genesis b \<or> blk_id so b \<noteq> blk_id so (genesis_block so c)
           then Some (Inl KE_invalid_genesis_record) else open_loop so io c data (length data) bc rs' offset')
        else (case bc_append so bc b of None \<Rightarrow> None
          | Some (r, bc') \<Rightarrow> if ar_error r \<noteq> CE_none then Some (Inl KE_invalid_chain)
              else open_loop so io c data (length data) bc' rs' offset'))"
proof -
  have "offset < length data" using assms(3,4) by (simp add: length_encode_record)
  then show ?thesis
    by (subst open_loop.simps) (simp add: read_record_encode [OF assms] Let_def)
qed

lemma open_loop_prefix:
  assumes "list_all (blk_valid so) bs" and "io_read_ok io" and "data = pre @ encode_records so bs @ post"
    and "offset = length pre" and "rs \<noteq> []" and "chain_log.feed so bc bs = Some bc'"
  shows "open_loop so io c data (length data) bc rs offset =
    open_loop so io c data (length data) bc' (rs @ record_table so offset bs)
      (offset + length (encode_records so bs))"
  using assms
proof (induction bs arbitrary: pre offset bc rs)
  case (Cons b bs)
  from Cons.prems(6) obtain r bc1 where step: "bc_append so bc b = Some (r, bc1)" "ar_error r = CE_none"
    "chain_log.feed so bc1 bs = Some bc'"
    by (auto split: option.splits if_splits)
  have "open_loop so io c data (length data) bc1 (rs @ [(of_nat offset, of_nat (length (encode_record so b)))])
      (offset + length (encode_record so b)) =
    open_loop so io c data (length data) bc' ((rs @ [(of_nat offset, of_nat (length (encode_record so b)))]) @
      record_table so (offset + length (encode_record so b)) bs)
      (offset + length (encode_record so b) + length (encode_records so bs))"
    using Cons.prems step(3) by (intro Cons.IH [of "pre @ encode_record so b"]) auto
  then show ?case
    using Cons.prems step open_loop_step [of so b io data pre "encode_records so bs @ post" offset c bc rs]
    by (simp add: Let_def add.assoc)
qed simp

lemma open_loop_end: "open_loop so io c data (length data) bc rs (length data) = Some (Inr (bc, rs))"
  by (subst open_loop.simps) simp

lemma open_loop_Inl:
  "offset < n \<Longrightarrow> read_record so io data n offset = Inl e \<Longrightarrow> open_loop so io c data n bc rs offset = Some (Inl e)"
  by (subst open_loop.simps) simp

lemma open_loop_decode:
  assumes "open_loop so io c data (length data) bc rs offset = Some (Inr (bc', rs'))"
    and "offset \<le> length data" and "rs \<noteq> []"
  shows "\<exists>bs. drop offset data = encode_records so bs \<and> list_all (blk_valid so) bs \<and>
    chain_log.feed so bc bs = Some bc' \<and> rs' = rs @ record_table so offset bs"
  using assms
proof (induction so io c data "length data" bc rs offset rule: open_loop.induct)
  case (1 so io c data bc rs offset)
  show ?case
  proof (cases "offset < length data")
    case False
    then show ?thesis using "1.prems" by (subst (asm) open_loop.simps) (auto intro: exI [of _ "[]"])
  next
    case True
    obtain b n r bc1 where read: "read_record so io data (length data) offset = Inr (b, n)"
      and app: "bc_append so bc b = Some (r, bc1)" "ar_error r = CE_none"
      and rest: "open_loop so io c data (length data) bc1 (rs @ [(of_nat offset, of_nat n)]) (offset + n) = Some (Inr (bc', rs'))"
      using "1.prems" True
      by (subst (asm) open_loop.simps) (auto split: sum.splits prod.splits option.splits if_splits)
    note rec = read_record_Inr [OF read]
    have "\<exists>bs. drop (offset + n) data = encode_records so bs \<and> list_all (blk_valid so) bs \<and>
        chain_log.feed so bc1 bs = Some bc' \<and>
        rs' = (rs @ [(of_nat offset, of_nat n)]) @ record_table so (offset + n) bs"
      by (rule "1.hyps"(2) [OF True read refl "1.prems"(3) app(1) refl _ rest]) (use app rec in auto)
    then obtain bs where bs: "drop (offset + n) data = encode_records so bs" "list_all (blk_valid so) bs"
      "chain_log.feed so bc1 bs = Some bc'" "rs' = (rs @ [(of_nat offset, of_nat n)]) @ record_table so (offset + n) bs"
      by blast
    have "drop offset data = encode_record so b @ encode_records so bs"
      using rec bs(1) by (metis add.commute append_take_drop_id drop_drop)
    then show ?thesis
      using bs app rec by (intro exI [of _ "b # bs"]) auto
  qed
qed

lemma open_loop_total:
  assumes "bc_reachable so c' bc"
  shows "\<exists>r. open_loop so io c data (length data) bc rs offset = Some r"
  using assms
proof (induction so io c data "length data" bc rs offset rule: open_loop.induct)
  case (1 so io c data bc rs offset)
  show ?case
  proof (cases "offset < length data \<and> (\<exists>b n. read_record so io data (length data) offset = Inr (b, n))")
    case False
    then show ?thesis by (subst open_loop.simps) (auto split: sum.splits)
  next
    case True
    then obtain b n where less: "offset < length data"
      and read: "read_record so io data (length data) offset = Inr (b, n)" by blast
    have v: "blk_valid so b" using read_record_Inr [OF read] by simp
    obtain r bc1 where app: "bc_append so bc b = Some (r, bc1)"
      using bc_append_total [OF bc_reachable_inv [OF "1.prems"] v] by metis
    have r: "bc_reachable so c' bc1" using "1.prems" v app by (rule bc_reachable.append)
    show ?thesis
      using "1.hyps"(1) [OF less read refl _ _ "1.prems"] "1.hyps"(2) [OF less read refl _ app refl _ r] less read app
      by (subst open_loop.simps) auto
  qed
qed

section \<open>The index\<close>

text \<open>The rows a chain and its record table give.\<close>

definition block_rows :: "sodium \<Rightarrow> Blockchain \<Rightarrow> (u64 \<times> u64) list \<Rightarrow> block_row list" where
  "block_rows so bc records =
     map (\<lambda>(b, location). \<lparr> br_hash = blk_id so b, br_height = encode_u64_be (blk_height b),
         br_parent_hash = blk_previous_block_hash b, br_cumulative_work = encode_u64_be (blk_height b),
         br_active = (b \<in> set (bc_blocks bc)), br_file_offset = fst location, br_record_size = snd location \<rparr>)
       (zip (bc_stored_blocks bc) records)"

definition account_rows :: "ChainState \<Rightarrow> account_row list" where
  "account_rows st = map (\<lambda>(h, a). \<lparr> acc_address = h, acc_balance = encode_u64_be (balance a),
     acc_next_nonce = encode_u64_be (next_nonce a) \<rparr>) st"

definition index_of :: "sodium \<Rightarrow> Blockchain \<Rightarrow> (u64 \<times> u64) list \<Rightarrow> database" where
  "index_of so bc records =
     \<lparr> db_blocks = block_rows so bc records, db_accounts = account_rows (bc_state bc),
       db_metadata = Some (encode_u64_be (blk_height (bc_tip bc)), blk_id so (bc_tip bc)) \<rparr>"

lemma length_encode_u64_be [simp]: "length (encode_u64_be v) = 8"
  by (simp add: encode_u64_be_def)

definition locations_ok :: "(u64 \<times> u64) list \<Rightarrow> bool" where
  "locations_ok records \<longleftrightarrow> (\<forall>(offset, n) \<in> set records. offset \<le> int64_max \<and> n \<le> int64_max \<and> n \<noteq> 0)"

lemma insert_blocks_ok:
  assumes "list_all (\<lambda>b. length (blk_previous_block_hash b) = 32) (map fst xs)"
    and "distinct (map (\<lambda>x. blk_id so (fst x)) xs)"
    and "set (map (\<lambda>x. blk_id so (fst x)) xs) \<inter> br_hash ` set table = {}"
    and "locations_ok (map snd xs)"
    and "\<And>b. b \<in> fst ` set xs \<Longrightarrow> bc_cumulative_work bc (blk_id so b) = Some (w b)"
  shows "insert_blocks so sqlite_ok bc n xs table = Some (table @ map (\<lambda>(b, location).
      \<lparr> br_hash = blk_id so b, br_height = encode_u64_be (blk_height b),
        br_parent_hash = blk_previous_block_hash b, br_cumulative_work = encode_u64_be (w b),
        br_active = bc_is_on_active_chain bc (blk_id so b), br_file_offset = fst location,
        br_record_size = snd location \<rparr>) xs)"
  using assms
proof (induction xs arbitrary: n table)
  case (Cons x xs)
  obtain b loc where x: "x = (b, loc)" by (rule prod.exhaust)
  let ?row = "\<lparr> br_hash = blk_id so b, br_height = encode_u64_be (blk_height b),
        br_parent_hash = blk_previous_block_hash b, br_cumulative_work = encode_u64_be (w b),
        br_active = bc_is_on_active_chain bc (blk_id so b), br_file_offset = fst loc,
        br_record_size = snd loc \<rparr>"
  have "insert_block so sqlite_ok n table b (w b) (bc_is_on_active_chain bc (blk_id so b)) loc = Some (table @ [?row])"
    using Cons.prems
    by (auto simp: insert_block_def Let_def sqlite_ok_def x locations_ok_def blk_id_def)
  moreover have "insert_blocks so sqlite_ok bc (Suc n) xs (table @ [?row]) = Some ((table @ [?row]) @ map (\<lambda>(b, location).
      \<lparr> br_hash = blk_id so b, br_height = encode_u64_be (blk_height b),
        br_parent_hash = blk_previous_block_hash b, br_cumulative_work = encode_u64_be (w b),
        br_active = bc_is_on_active_chain bc (blk_id so b), br_file_offset = fst location,
        br_record_size = snd location \<rparr>) xs)"
    using Cons.prems by (intro Cons.IH) (auto simp: x locations_ok_def)
  ultimately show ?case using Cons.prems(5) [of b] by (simp add: x)
qed simp

lemma insert_accounts_ok:
  assumes "list_all (\<lambda>(h, a). length h = 32) xs" and "distinct (map fst xs)"
    and "fst ` set xs \<inter> acc_address ` set table = {}"
  shows "insert_accounts sqlite_ok n xs table = Some (table @ account_rows xs)"
  using assms
proof (induction xs arbitrary: n table)
  case (Cons x xs)
  obtain h a where x: "x = (h, a)" by fastforce
  let ?row = "\<lparr> acc_address = h, acc_balance = encode_u64_be (balance a), acc_next_nonce = encode_u64_be (next_nonce a) \<rparr>"
  have "insert_account sqlite_ok n table h a = Some (table @ [?row])"
    using Cons.prems by (auto simp: insert_account_def sqlite_ok_def x)
  moreover have "insert_accounts sqlite_ok (Suc n) xs (table @ [?row]) = Some ((table @ [?row]) @ account_rows xs)"
    using Cons.prems by (intro Cons.IH) (auto simp: x)
  ultimately show ?case by (simp add: x account_rows_def)
qed (simp add: account_rows_def)

lemma apply_transaction_keys:
  assumes "apply_transaction so tx (st, fees) = Inr (st', fees')" and "tx_valid so tx"
    and "\<forall>h \<in> fst ` set st. length h = 32"
  shows "\<forall>h \<in> fst ` set st'. length h = 32"
  using assms
  unfolding apply_transaction_Inr(6) [OF assms(1)] fst_std_map_set
  by (auto simp: tx_valid_def tx_sender_def Address_from_public_key_def)

lemma apply_transactions_keys:
  assumes "apply_transactions so k txs (st, fees) = Inr (st', fees')" and "list_all (tx_valid so) txs"
    and "\<forall>h \<in> fst ` set st. length h = 32"
  shows "\<forall>h \<in> fst ` set st'. length h = 32"
  using assms
proof (induction txs arbitrary: k st fees)
  case (Cons tx txs)
  from Cons.prems(1) obtain st1 fees1 where 1: "apply_transaction so tx (st, fees) = Inr (st1, fees1)"
    and 2: "apply_transactions so (Suc k) txs (st1, fees1) = Inr (st', fees')"
    unfolding apply_transactions_Cons_Inr by blast
  have v: "tx_valid so tx" "list_all (tx_valid so) txs" using Cons.prems(2) by simp_all
  show ?case by (rule Cons.IH [OF 2 v(2) apply_transaction_keys [OF 1 v(1) Cons.prems(3)]])
qed simp

lemma valid_chain_keys:
  assumes "valid_chain so c bs"
  shows "\<forall>h \<in> fst ` set (replay so bs). length h = 32"
  using assms
proof (induction rule: valid_chain.induct)
  case genesis
  show ?case by (simp add: replay_def ChainState_default_def)
next
  case (extend bs b)
  obtain r st where step: "apply_block_state so (replay so bs) b = (r, st)" "st_error r = SE_none"
    "list_all (tx_valid so) (blk_transactions b)" and st: "replay so (bs @ [b]) = st"
    using follows_applies [OF extend(2)] valid_chain_not_empty [OF extend(1)] by metis
  from step obtain a st1 fees where a: "blk_reward_recipient b = Some a"
    and t: "apply_transactions so 0 (blk_transactions b) (replay so bs, 0) = Inr (st1, fees)"
    and "st = std_map_set (addr_hash a) (account_of_hash st1 (addr_hash a)
       \<lparr> balance := balance (account_of_hash st1 (addr_hash a)) + (block_subsidy + fees) \<rparr>) st1"
    by (rule apply_block_state_none)
  moreover have "length (addr_hash a) = 32"
    using extend(2) a by (auto simp: follows_def blk_valid_def)
  ultimately show ?case
    unfolding st using apply_transactions_keys [OF t step(3) extend.IH] by (auto simp: fst_std_map_set)
qed

lemma rebuild_database_ok:
  assumes "bc_reachable so c (cs_blockchain cs)"
    and "length (cs_records cs) = length (bc_stored_blocks (cs_blockchain cs))" and "locations_ok (cs_records cs)"
  shows "rebuild_database so sqlite_ok cs db =
    (KE_none, Some (index_of so (cs_blockchain cs) (cs_records cs)))"
proof -
  let ?bc = "cs_blockchain cs" and ?rs = "cs_records cs"
  have inv: "bc_inv so c ?bc" using assms(1) by (rule bc_reachable_inv)
  have t: "tree_ok so c ?bc" using inv by (rule bc_invD)
  let ?xs = "zip (bc_stored_blocks ?bc) ?rs"
  have stored: "b \<in> set (bc_stored_blocks ?bc) \<Longrightarrow> blk_valid so b" for b
    using blk_valid_stored [OF t] by (auto simp: in_set_conv_nth)
  have work: "bc_cumulative_work ?bc (blk_id so b) = Some (blk_height b)" if b: "b \<in> set (bc_stored_blocks ?bc)" for b
  proof -
    from b obtain i where i: "i < length (bc_stored_blocks ?bc)" "b = bc_stored_blocks ?bc ! i"
      by (auto simp: in_set_conv_nth)
    then have "map_of (bc_index_by_id ?bc) (blk_id so b) = Some i" using tree_okD(7) [OF t] by simp
    then show ?thesis using i work_is_height [OF t i(1)] by (simp add: bc_cumulative_work_def)
  qed
  have ids: "distinct (map (blk_id so) (bc_stored_blocks ?bc))"
    unfolding distinct_conv_nth using tree_okD(7) [OF t] by (metis length_map nth_map option.inject)
  have active: "bc_is_on_active_chain ?bc (blk_id so b) \<longleftrightarrow> b \<in> set (bc_blocks ?bc)"
    if "b \<in> set (bc_stored_blocks ?bc)" for b
  proof -
    have "set (bc_blocks ?bc) \<subseteq> set (bc_stored_blocks ?bc)"
      using active_indices_bound [OF inv] by (auto simp: bc_invD(6) [OF inv])
    moreover have "inj_on (blk_id so) (set (bc_stored_blocks ?bc))" using ids by (simp add: distinct_map)
    ultimately show ?thesis
      unfolding is_on_active_chain_iff [OF inv] using that by (auto dest: inj_onD)
  qed
  have fsts: "map fst ?xs = bc_stored_blocks ?bc" "map snd ?xs = ?rs" using assms(2) by simp_all
  then have fst_set: "fst ` set ?xs = set (bc_stored_blocks ?bc)" by (metis set_map)
  have "insert_blocks so sqlite_ok ?bc 0 ?xs [] = Some (block_rows so ?bc ?rs)"
  proof -
    have "map (\<lambda>x. blk_id so (fst x)) ?xs = map (blk_id so) (map fst ?xs)" by simp
    then have "distinct (map (\<lambda>x. blk_id so (fst x)) ?xs)" using ids fsts(1) by metis
    moreover have "list_all (\<lambda>b. length (blk_previous_block_hash b) = 32) (map fst ?xs)"
      unfolding fsts list_all_iff using stored blk_valid_header_sizes by (auto simp: header_sizes_def)
    ultimately have "insert_blocks so sqlite_ok ?bc 0 ?xs [] = Some ([] @ map (\<lambda>(b, location).
      \<lparr> br_hash = blk_id so b, br_height = encode_u64_be (blk_height b),
        br_parent_hash = blk_previous_block_hash b, br_cumulative_work = encode_u64_be (blk_height b),
        br_active = bc_is_on_active_chain ?bc (blk_id so b), br_file_offset = fst location,
        br_record_size = snd location \<rparr>) ?xs)"
      using assms(3) work fst_set fsts(2) by (intro insert_blocks_ok) auto
    then show ?thesis
      using active by (auto simp: block_rows_def dest: set_zip_leftD)
  qed
  moreover have "insert_accounts sqlite_ok (length (bc_stored_blocks ?bc)) (bc_state ?bc) [] =
      Some (account_rows (bc_state ?bc))"
    using insert_accounts_ok [of "bc_state ?bc" "[]"] valid_chain_keys [OF bc_blocks_valid [OF inv]]
      std_map_ok_distinct [of "bc_state ?bc"] valid_chain_supply [OF bc_blocks_valid [OF inv]]
    by (simp add: bc_state_replay [OF inv] list_all_iff case_prod_beta)
  ultimately show ?thesis
    using assms(2) by (simp add: rebuild_database_def Let_def sqlite_ok_def index_of_def blk_id_def)
qed

section \<open>The store on disk\<close>

text \<open>
  A store and its files agree: the chain is one the class can produce, the file holds the
  records of its stored blocks in order, and the record table points at them.
\<close>

definition store_ok :: "sodium \<Rightarrow> u32 \<Rightarrow> disk \<Rightarrow> ChainStore \<Rightarrow> bool" where
  "store_ok so c dk cs \<longleftrightarrow>
     bc_reachable so c (cs_blockchain cs) \<and>
     dk_files dk (blocks_path (cs_data_directory cs)) =
       Some (encode_records so (bc_stored_blocks (cs_blockchain cs))) \<and>
     cs_records cs = record_table so 0 (bc_stored_blocks (cs_blockchain cs))"

lemma stored_blocks_genesis:
  assumes "bc_reachable so c bc"
  shows "bc_stored_blocks bc = genesis_block so c # tl (bc_stored_blocks bc)"
    and "list_all (blk_valid so) (tl (bc_stored_blocks bc))"
    and "blk_valid so (genesis_block so c)"
    and "chain_log.feed so (Blockchain_create so c) (tl (bc_stored_blocks bc)) = Some bc"
proof -
  have t: "tree_ok so c bc" using bc_invD(1) [OF bc_reachable_inv [OF assms]] .
  show 1: "bc_stored_blocks bc = genesis_block so c # tl (bc_stored_blocks bc)"
    using tree_okD(3,4) [OF t] by (cases "bc_stored_blocks bc") auto
  have "list_all (blk_valid so) (bc_stored_blocks bc)"
    using blk_valid_stored [OF t] by (auto simp: list_all_length)
  then show "list_all (blk_valid so) (tl (bc_stored_blocks bc))" "blk_valid so (genesis_block so c)"
    using 1 by (metis list.pred_inject(2))+
  obtain profile where "c = np_chain_id (network_parameters profile)"
    using tree_okD(1) [OF t] supported_chain_profile by blast
  then show "chain_log.feed so (Blockchain_create so c) (tl (bc_stored_blocks bc)) = Some bc"
    using bc_reachable_feed [of so profile bc] assms by simp
qed

lemma open_loop_stored:
  assumes "bc_reachable so c bc" and "io_read_ok io"
    and "data = encode_records so (bc_stored_blocks bc) @ post"
  shows "open_loop so io c data (length data) (Blockchain_create so c) [] 0 =
    open_loop so io c data (length data) bc (record_table so 0 (bc_stored_blocks bc))
      (length (encode_records so (bc_stored_blocks bc)))"
proof -
  let ?g = "genesis_block so c" and ?bs = "tl (bc_stored_blocks bc)"
  note st = stored_blocks_genesis [OF assms(1)]
  have data: "data = [] @ encode_record so ?g @ encode_records so ?bs @ post"
    using assms(3) by (subst (asm) st(1)) simp
  have "open_loop so io c data (length data) (Blockchain_create so c) [] 0 =
      open_loop so io c data (length data) (Blockchain_create so c)
        [(0, of_nat (length (encode_record so ?g)))] (length (encode_record so ?g))"
    using open_loop_step [OF st(3) assms(2) data, of 0 c "Blockchain_create so c" "[]"] by (simp add: Let_def)
  also have "\<dots> = open_loop so io c data (length data) bc
      ([(0, of_nat (length (encode_record so ?g)))] @ record_table so (length (encode_record so ?g)) ?bs)
      (length (encode_record so ?g) + length (encode_records so ?bs))"
    by (rule open_loop_prefix [OF st(2) assms(2) _ _ _ st(4)]) (auto simp: data)
  also have "[(0, of_nat (length (encode_record so ?g)))] @ record_table so (length (encode_record so ?g)) ?bs =
      record_table so 0 (?g # ?bs)" by simp
  also have "length (encode_record so ?g) + length (encode_records so ?bs) = length (encode_records so (?g # ?bs))"
    by simp
  finally show ?thesis unfolding st(1) [symmetric] .
qed

lemma record_table_locations:
  assumes "offset + length (encode_records so bs) < 2 ^ 63"
  shows "locations_ok (record_table so offset bs)"
  using assms
proof (induction bs arbitrary: offset)
  case (Cons b bs)
  let ?n = "length (encode_record so b)"
  have bound: "offset < 2 ^ 63" "?n < 2 ^ 63" "0 < ?n"
    using Cons.prems by (simp_all add: length_encode_record)
  then have "unat (of_nat offset :: u64) = offset" "unat (of_nat ?n :: u64) = ?n" by (simp_all add: unat_of_nat)
  with bound have "of_nat offset \<le> int64_max" "of_nat ?n \<le> int64_max" "(of_nat ?n :: u64) \<noteq> 0"
    by (auto simp: word_le_nat_alt int64_max_def)
  then show ?case using Cons.IH [of "offset + ?n"] Cons.prems by (simp add: locations_ok_def)
qed (simp add: locations_ok_def)

lemma cs_open_stored:
  assumes ok: "store_ok so c dk cs"
    and small: "length (encode_records so (bc_stored_blocks (cs_blockchain cs))) < 2 ^ 63"
  shows "cs_open so io_ok sqlite_ok dk (cs_data_directory cs) c =
    Some (Inr cs, dk\<lparr> dk_database := Some (index_of so (cs_blockchain cs) (cs_records cs)) \<rparr>)"
proof -
  let ?bc = "cs_blockchain cs" and ?data = "encode_records so (bc_stored_blocks (cs_blockchain cs))"
  have r: "bc_reachable so c ?bc" and rs: "cs_records cs = record_table so 0 (bc_stored_blocks ?bc)"
    and content: "dk_files dk (blocks_path (cs_data_directory cs)) = Some ?data"
    using ok by (simp_all add: store_ok_def)
  have loop: "open_loop so io_ok c ?data (length ?data) (Blockchain_create so c) [] 0 = Some (Inr (?bc, cs_records cs))"
    using open_loop_stored [OF r, of io_ok ?data "[]"] by (simp add: io_ok_def rs open_loop_end)
  have "cs_records cs \<noteq> []"
    unfolding rs using tree_okD(3) [OF bc_invD(1) [OF bc_reachable_inv [OF r]]]
    by (metis length_0_conv length_record_table less_numeral_extra(3))
  moreover have "rebuild_database so sqlite_ok
      \<lparr> cs_data_directory = cs_data_directory cs, cs_blockchain = ?bc, cs_records = cs_records cs \<rparr> (dk_database dk) =
      (KE_none, Some (index_of so ?bc (cs_records cs)))"
    using record_table_locations [of 0 so "bc_stored_blocks ?bc"] small
    by (subst rebuild_database_ok [where c = c]) (simp_all add: r rs)
  ultimately show ?thesis
    using loop small content
    by (simp add: cs_open_def Let_def fs_is_regular_file_def fs_file_size_def io_ok_def)
qed

text \<open>What SQLite accepts, it accepts without faults too.\<close>

lemma insert_blocks_mono:
  "insert_blocks so sq bc n xs table = Some t \<Longrightarrow> insert_blocks so sqlite_ok bc n xs table = Some t"
  by (induction so sq bc n xs table rule: insert_blocks.induct)
    (auto simp: insert_block_def sqlite_ok_def Let_def split: option.splits if_splits)

lemma insert_accounts_mono:
  "insert_accounts sq n xs table = Some t \<Longrightarrow> insert_accounts sqlite_ok n xs table = Some t"
  by (induction sq n xs table rule: insert_accounts.induct)
    (auto simp: insert_account_def sqlite_ok_def Let_def split: option.splits if_splits)

lemma rebuild_database_none:
  assumes "rebuild_database so sq cs db = (KE_none, db')"
  shows "rebuild_database so sqlite_ok cs db = (KE_none, db')"
  using assms insert_blocks_mono insert_accounts_mono
  by (fastforce simp: rebuild_database_def Let_def sqlite_ok_def split: if_splits option.splits)

lemma rebuild_database_failed:
  assumes "rebuild_database so sq cs db = (e, db')" and "e \<noteq> KE_none"
  shows "e = KE_database_error \<and> (db' = db \<or> db = None \<and> db' = Some empty_database)"
  using assms by (auto simp: rebuild_database_def Let_def split: if_splits option.splits)

lemma store_index:
  assumes "bc_reachable so c (cs_blockchain cs)"
    and "cs_records cs = record_table so 0 (bc_stored_blocks (cs_blockchain cs))"
    and "length (encode_records so (bc_stored_blocks (cs_blockchain cs))) < 2 ^ 63"
    and "rebuild_database so sq cs db = (KE_none, db')"
  shows "db' = Some (index_of so (cs_blockchain cs) (cs_records cs))"
  using rebuild_database_none [OF assms(4)] rebuild_database_ok [OF assms(1)]
    record_table_locations [of 0 so "bc_stored_blocks (cs_blockchain cs)"] assms(2,3) by simp

lemma fs_resize_undo:
  assumes "fs p = Some old" and "io_remove_ok io"
  shows "fs_resize io (fs(p \<mapsto> old @ extra)) p (length old) = (fs, False)"
  using assms by (auto simp: fs_resize_def)

section \<open>Properties\<close>

lemma cs_append_cases:
  assumes ok: "store_ok so c dk cs" and v: "blk_valid so b"
    and app: "bc_append so (cs_blockchain cs) b = Some (appended, bc')" and none: "ar_error appended = CE_none"
  shows "bc_reachable so c bc'" and "bc_stored_blocks bc' = bc_stored_blocks (cs_blockchain cs) @ [b]"
proof -
  have r: "bc_reachable so c (cs_blockchain cs)" using ok by (simp add: store_ok_def)
  show "bc_reachable so c bc'" using r v app by (rule bc_reachable.append)
  show "bc_stored_blocks bc' = bc_stored_blocks (cs_blockchain cs) @ [b]"
    using bc_append_total [OF bc_reachable_inv [OF r] v] app none by (metis option.inject prod.inject)
qed

lemma cs_append_accepted:
  assumes ok: "store_ok so c dk cs" and v: "blk_valid so b"
    and app: "bc_append so (cs_blockchain cs) b = Some (appended, bc')" and none: "ar_error appended = CE_none"
  obtains (written) dk' cs' where
      "cs_append so io sq dk cs b = Some (\<lparr> car_storage_error = KE_none, car_chain_result = appended \<rparr>, dk', cs')"
      "cs_blockchain cs' = bc'" "cs_data_directory cs' = cs_data_directory cs" "store_ok so c dk' cs'"
      "rebuild_database so sq cs' (dk_database dk) = (KE_none, dk_database dk')"
      "dk_files dk' = (dk_files dk)(blocks_path (cs_data_directory cs) \<mapsto>
         encode_records so (bc_stored_blocks (cs_blockchain cs)) @ encode_record so b)"
  | (failed) e dk' where
      "cs_append so io sq dk cs b = Some (\<lparr> car_storage_error = e, car_chain_result = AppendResult_default \<rparr>, dk', cs)"
      "e \<in> {KE_io_error, KE_database_error}" "io_remove_ok io \<longrightarrow> dk_files dk' = dk_files dk"
      "dk_database dk' = dk_database dk \<or> dk_database dk = None \<and> dk_database dk' = Some empty_database"
proof -
  let ?p = "blocks_path (cs_data_directory cs)" and ?old = "encode_records so (bc_stored_blocks (cs_blockchain cs))"
    and ?new = "encode_record so b"
  have content: "dk_files dk ?p = Some ?old"
    and rs: "cs_records cs = record_table so 0 (bc_stored_blocks (cs_blockchain cs))"
    using ok by (simp_all add: store_ok_def)
  note nxt = cs_append_cases [OF ok v app none]
  define cs' where "cs' = cs\<lparr> cs_blockchain := bc', cs_records := cs_records cs @ [(of_nat (length ?old), of_nat (length ?new))] \<rparr>"
  define files' where "files' = (dk_files dk)(?p \<mapsto> ?old @ ?new)"
  obtain e db where db: "rebuild_database so sq cs' (dk_database dk) = (e, db)" by (rule prod.exhaust)
  have ok': "store_ok so c \<lparr> dk_files = files', dk_database = db \<rparr> cs'"
    using nxt by (simp add: store_ok_def cs'_def files'_def rs record_table_snoc)
  show thesis
  proof (cases "\<not> io_size_error io \<and> length ?old < 2 ^ 64 \<and> io_open_ok io \<and> io_write_ok io")
    case True
    then have eq: "cs_append so io sq dk cs b =
        (if e \<noteq> KE_none
         then (let (fs, resize_error) = fs_resize io files' ?p (length ?old)
               in Some (\<lparr> car_storage_error = if resize_error then KE_io_error else e,
                    car_chain_result = AppendResult_default \<rparr>, \<lparr> dk_files = fs, dk_database = db \<rparr>, cs))
         else Some (\<lparr> car_storage_error = KE_none, car_chain_result = appended \<rparr>,
                \<lparr> dk_files = files', dk_database = db \<rparr>, cs'))"
      using app none content db
      by (simp add: cs_append_def fs_file_size_def fs_open_app_def fs_write_def cs'_def files'_def Let_def)
    show thesis
    proof (cases "e = KE_none")
      case True
      then show thesis using eq db ok' by (intro written [of "\<lparr> dk_files = files', dk_database = db \<rparr>" cs']) (simp_all add: cs'_def files'_def)
    next
      case False
      note f = rebuild_database_failed [OF db False]
      obtain fs re where fs: "fs_resize io files' ?p (length ?old) = (fs, re)" by (rule prod.exhaust)
      have "io_remove_ok io \<longrightarrow> fs = dk_files dk"
        using fs_resize_undo [of "dk_files dk" ?p ?old io ?new] content fs by (auto simp: files'_def)
      then show thesis
        using f False eq fs by (intro failed [of "if re then KE_io_error else e" "\<lparr> dk_files = fs, dk_database = db \<rparr>"]) auto
    qed
  next
    case False
    then show thesis
      using app none content fs_resize_undo [of "dk_files dk" ?p ?old io]
      by (cases "io_size_error io \<or> \<not> length ?old < 2 ^ 64 \<or> \<not> io_open_ok io")
        (auto intro: failed simp: cs_append_def fs_file_size_def fs_open_app_def fs_write_def Let_def)
  qed
qed

lemma store_ok_same_files:
  "store_ok so c dk cs \<Longrightarrow> dk_files dk' = dk_files dk \<Longrightarrow> store_ok so c dk' cs"
  by (simp add: store_ok_def)

lemma cs_open_Inr:
  assumes "cs_open so io sq dk dir c = Some (Inr cs, dk')"
  obtains data where "dk_files dk (blocks_path dir) = Some data" "io_read_ok io"
    "open_loop so io c data (length data) (Blockchain_create so c) [] 0 = Some (Inr (cs_blockchain cs, cs_records cs))"
    "cs_records cs \<noteq> []" "cs_data_directory cs = dir" "dk_files dk' = dk_files dk"
    "rebuild_database so sq cs (dk_database dk) = (KE_none, dk_database dk')"
  using assms
  by (auto simp: cs_open_def Let_def fs_is_regular_file_def fs_file_size_def
      split: if_splits option.splits sum.splits prod.splits)

lemma cs_open_total:
  assumes "supported_chain c"
  shows "\<exists>r dk'. cs_open so io sq dk dir c = Some (r, dk') \<and> dk_files dk' = dk_files dk"
proof -
  have reach: "bc_reachable so c (Blockchain_create so c)" using assms by (rule bc_reachable.create)
  obtain x where x: "open_loop so io c (the (dk_files dk (blocks_path dir))) (length (the (dk_files dk (blocks_path dir))))
      (Blockchain_create so c) [] 0 = Some x"
    using open_loop_total [OF reach] by blast
  consider (failed) e where "x = Inl e" | (read) bc rs where "x = Inr (bc, rs)"
    by (cases x) auto
  then show ?thesis
    using x by cases (auto simp: cs_open_def Let_def fs_is_regular_file_def fs_file_size_def split: option.splits prod.splits)
qed

lemma cs_open_records:
  assumes "cs_open so io sq dk dir c = Some (Inr cs, dk')" and r: "bc_reachable so c bc"
    and "dk_files dk (blocks_path dir) = Some (encode_records so (bc_stored_blocks bc))"
  shows "store_ok so c dk' cs \<and> cs_data_directory cs = dir \<and> cs_blockchain cs = bc"
proof -
  let ?data = "encode_records so (bc_stored_blocks bc)"
  obtain data where 1: "dk_files dk (blocks_path dir) = Some data" "io_read_ok io"
    "open_loop so io c data (length data) (Blockchain_create so c) [] 0 = Some (Inr (cs_blockchain cs, cs_records cs))"
    "cs_data_directory cs = dir" "dk_files dk' = dk_files dk"
    using cs_open_Inr [OF assms(1)] by metis
  have "open_loop so io c ?data (length ?data) (Blockchain_create so c) [] 0 =
      Some (Inr (bc, record_table so 0 (bc_stored_blocks bc)))"
    using open_loop_stored [OF r 1(2), of ?data "[]"] by (simp add: open_loop_end)
  with 1 assms(3) have "cs_blockchain cs = bc" "cs_records cs = record_table so 0 (bc_stored_blocks bc)" by auto
  then show ?thesis using 1(4,5) assms(3) r by (simp add: store_ok_def)
qed

lemma cs_initialize_Inr:
  assumes "cs_initialize so io io' sq dk dir c = Some (Inr cs, dk')" and "supported_chain c"
  shows "store_ok so c dk' cs \<and> cs_data_directory cs = dir \<and> cs_blockchain cs = Blockchain_create so c"
proof -
  let ?fs = "(dk_files dk)(blocks_path dir \<mapsto> encode_record so (genesis_block so c))"
  have r: "bc_reachable so c (Blockchain_create so c)" using assms(2) by (rule bc_reachable.create)
  have g: "bc_stored_blocks (Blockchain_create so c) = [genesis_block so c]" by (simp add: Blockchain_create_def)
  have "cs_open so io' sq (dk\<lparr> dk_files := ?fs \<rparr>) dir c = Some (Inr cs, dk')"
    using assms(1)
    by (auto simp: cs_initialize_def Let_def fs_exists_def fs_open_trunc_def fs_write_def
        split: if_splits option.splits sum.splits prod.splits)
  from cs_open_records [OF this r] show ?thesis by (simp add: g)
qed

text \<open>A record whose end is missing is recognised.\<close>

lemma read_record_truncated:
  assumes valid: "blk_valid so b" and io: "io_read_ok io" and k: "k < length (encode_record so b)"
    and data: "data = pre @ take k (encode_record so b)" and offset: "offset = length pre"
  shows "read_record so io data (length data) offset = Inl KE_invalid_record_size"
proof (cases "k < 44")
  case True
  then show ?thesis using k by (simp add: read_record_def record_sizes data offset)
next
  case False
  let ?p = "blk_serialize b"
  let ?h = "record_magic @ [record_version] @ [0, 0, 0] @ le_bytes 4 (of_nat (length ?p) :: u32)"
  note bounds = blk_serialize_bounds [OF valid]
  have n: "unat (of_nat (length ?p) :: u32) = length ?p" using bounds by (simp add: unat_of_nat)
  have rec: "encode_record so b = ?h @ ?p @ sha256 so ?p" by (simp add: encode_record_eq)
  have "take 12 (take k (encode_record so b)) = ?h" using False by (simp add: rec min_def)
  then have header: "read_exact io data offset 12 = Some ?h"
    using io False k by (simp add: read_exact_def data offset)
  have len: "length data - offset = k" using k by (simp add: data offset)
  have fields: "take 4 ?h = record_magic" "?h ! 4 = record_version" "?h ! 5 = 0" "?h ! 6 = 0" "?h ! 7 = 0"
    "read_u32_le ?h 8 = of_nat (length ?p)"
    by (simp_all add: field_read)
  show ?thesis
    unfolding read_record_def record_sizes header option.case fields Let_def length_record_magic
    using bounds len k by (simp add: n fields block_sizes length_encode_record)
qed

text \<open>
  The life of a store: it is initialized on an empty directory, then blocks are appended and
  the store is opened again. The calls may have any outcome, with one condition, stated in the
  rule \<open>appended\<close>: an append that fails in storage (the write, the flush or the index) can cut
  the file back with \<open>resize_file\<close>, whose result the code does not look at. What happens when
  it cannot is the subject of \<open>chain_store_truncated_tail\<close>.
\<close>

inductive store_run :: "sodium \<Rightarrow> u32 \<Rightarrow> path \<Rightarrow> disk \<Rightarrow> ChainStore \<Rightarrow> bool" for so c dir where
  initialized: "supported_chain c \<Longrightarrow> cs_initialize so io io' sq dk dir c = Some (Inr cs, dk') \<Longrightarrow>
    store_run so c dir dk' cs"
| appended: "store_run so c dir dk cs \<Longrightarrow> blk_valid so b \<Longrightarrow>
    cs_append so io sq dk cs b = Some (r, dk', cs') \<Longrightarrow>
    (car_storage_error r \<noteq> KE_none \<longrightarrow> io_remove_ok io) \<Longrightarrow> store_run so c dir dk' cs'"
| reopened: "store_run so c dir dk cs \<Longrightarrow> cs_open so io sq dk dir c = Some (Inr cs', dk') \<Longrightarrow>
    store_run so c dir dk' cs'"

lemma cs_append_store_ok:
  assumes "store_ok so c dk cs" and "blk_valid so b"
    and "cs_append so io sq dk cs b = Some (r, dk', cs')"
    and "car_storage_error r \<noteq> KE_none \<longrightarrow> io_remove_ok io"
  shows "store_ok so c dk' cs' \<and> cs_data_directory cs' = cs_data_directory cs"
proof -
  have reach: "bc_reachable so c (cs_blockchain cs)" using assms(1) by (simp add: store_ok_def)
  obtain a bc' where app: "bc_append so (cs_blockchain cs) b = Some (a, bc')"
    using bc_append_total [OF bc_reachable_inv [OF reach] assms(2)] by metis
  show ?thesis
  proof (cases "ar_error a = CE_none")
    case True
    from assms(1,2) app True show ?thesis
      by (cases rule: cs_append_accepted [where io = io and sq = sq])
        (use assms store_ok_same_files [OF assms(1)] in auto)
  qed (use app assms in \<open>simp add: cs_append_def Let_def\<close>)
qed

lemma store_run_ok:
  assumes "store_run so c dir dk cs"
  shows "store_ok so c dk cs \<and> cs_data_directory cs = dir"
  using assms
proof induction
  case (initialized io io' sq dk cs dk')
  then show ?case using cs_initialize_Inr by blast
next
  case (appended dk cs b io sq r dk' cs')
  then show ?case using cs_append_store_ok [of so c dk cs b io sq r dk' cs'] by simp
next
  case (reopened dk cs io sq cs' dk')
  then show ?case using cs_open_records [of so io sq dk dir c cs' dk' "cs_blockchain cs"] by (auto simp: store_ok_def)
qed

text \<open>
  C27. \<open>ChainStore::append\<close> is atomic. On a store that agrees with its file, for every
  outcome of the file and SQLite calls: a block the chain refuses changes nothing and the
  result carries the chain's error; a storage error leaves the store as it was, and the file
  as well whenever it could be cut back to its original size; otherwise the record of the
  block is the new end of the file, the in-memory chain is the one \<open>Blockchain::append\<close>
  gives, the record table still describes the file, and the tables of the index hold exactly
  the blocks, accounts and tip of the new chain.\<close>

theorem chain_store_append_atomic:
  assumes ok: "store_ok so c dk cs" and v: "blk_valid so b"
    and small: "length (encode_records so (bc_stored_blocks (cs_blockchain cs) @ [b])) < 2 ^ 63"
  shows "\<exists>appended bc' r dk' cs'. bc_append so (cs_blockchain cs) b = Some (appended, bc') \<and>
    cs_append so io sq dk cs b = Some (r, dk', cs') \<and>
    (if ar_error appended \<noteq> CE_none
     then r = \<lparr> car_storage_error = KE_none, car_chain_result = appended \<rparr> \<and> dk' = dk \<and> cs' = cs
     else if car_storage_error r \<noteq> KE_none
     then cs' = cs \<and> (io_remove_ok io \<longrightarrow> dk_files dk' = dk_files dk \<and> store_ok so c dk' cs)
     else car_chain_result r = appended \<and> cs_blockchain cs' = bc' \<and> store_ok so c dk' cs' \<and>
       dk_files dk' = (dk_files dk)(blocks_path (cs_data_directory cs) \<mapsto>
         encode_records so (bc_stored_blocks (cs_blockchain cs) @ [b])) \<and>
       dk_database dk' = Some (index_of so bc' (cs_records cs')))"
proof -
  have r: "bc_reachable so c (cs_blockchain cs)" using ok by (simp add: store_ok_def)
  obtain appended bc' where app: "bc_append so (cs_blockchain cs) b = Some (appended, bc')"
    using bc_append_total [OF bc_reachable_inv [OF r] v] by metis
  show ?thesis
  proof (cases "ar_error appended = CE_none")
    case False
    then show ?thesis using app by (simp add: cs_append_def Let_def)
  next
    case True
    from ok v app True show ?thesis
    proof (cases rule: cs_append_accepted [where io = io and sq = sq])
      case (written dk' cs')
      have "dk_database dk' = Some (index_of so (cs_blockchain cs') (cs_records cs'))"
        using written(4) small cs_append_cases(2) [OF ok v app True] written(2)
        by (intro store_index [where c = c, OF _ _ _ written(5)]) (simp_all add: store_ok_def)
      then show ?thesis using written app True by simp
    next
      case (failed e dk')
      then show ?thesis using app True store_ok_same_files [OF ok] by auto
    qed
  qed
qed

text \<open>
  C28. A store survives a restart. After any history of initialization, appended blocks,
  refused blocks, failed calls and earlier restarts in which every append that failed in
  storage could cut the file back to its size, opening the directory again yields the
  same store: the same stored blocks, fork tree, active chain, state and record table. The
  files are not changed by it and the index is the one of the chain.\<close>

theorem chain_store_reopen:
  assumes "store_run so c dir dk cs"
    and "length (encode_records so (bc_stored_blocks (cs_blockchain cs))) < 2 ^ 63"
  shows "cs_open so io_ok sqlite_ok dk dir c =
    Some (Inr cs, dk\<lparr> dk_database := Some (index_of so (cs_blockchain cs) (cs_records cs)) \<rparr>)"
  using store_run_ok [OF assms(1)] cs_open_stored [of so c dk cs] assms(2) by auto

lemma cs_open_sound:
  assumes "supported_chain c" and opened: "cs_open so io sq dk dir c = Some (Inr cs, dk')"
  shows "bc_reachable so c (cs_blockchain cs)"
    and "store_ok so c dk' cs \<and> cs_data_directory cs = dir \<or>
      (\<exists>c'. c' \<noteq> c \<and> supported_chain c' \<and> blk_id so (genesis_block so c') = blk_id so (genesis_block so c))"
proof -
  have reach: "bc_reachable so c (Blockchain_create so c)" using assms(1) by (rule bc_reachable.create)
  obtain data where 1: "dk_files dk (blocks_path dir) = Some data"
    "open_loop so io c data (length data) (Blockchain_create so c) [] 0 = Some (Inr (cs_blockchain cs, cs_records cs))"
    "cs_records cs \<noteq> []" "cs_data_directory cs = dir" "dk_files dk' = dk_files dk"
    using cs_open_Inr [OF opened] by metis
  then obtain g n where read: "read_record so io data (length data) 0 = Inr (g, n)"
    and g: "is_genesis g" "blk_id so g = blk_id so (genesis_block so c)"
    and rest: "open_loop so io c data (length data) (Blockchain_create so c) [(0, of_nat n)] n =
      Some (Inr (cs_blockchain cs, cs_records cs))"
    by (subst (asm) open_loop.simps) (auto split: sum.splits prod.splits if_splits)
  note rec = read_record_Inr [OF read]
  obtain bs where bs: "drop n data = encode_records so bs" "list_all (blk_valid so) bs"
    "chain_log.feed so (Blockchain_create so c) bs = Some (cs_blockchain cs)"
    "cs_records cs = [(0, of_nat n)] @ record_table so n bs"
    using open_loop_decode [OF rest] rec by auto
  have data: "data = encode_record so g @ encode_records so bs"
    using rec bs(1) append_take_drop_id [of n data] by (metis drop0)
  have stored: "bc_reachable so c (cs_blockchain cs)" "bc_stored_blocks (cs_blockchain cs) = genesis_block so c # bs"
    using feed_reachable [OF reach bs(2,3)] by (simp_all add: Blockchain_create_def)
  then show "bc_reachable so c (cs_blockchain cs)" by simp
  show "store_ok so c dk' cs \<and> cs_data_directory cs = dir \<or>
      (\<exists>c'. c' \<noteq> c \<and> supported_chain c' \<and> blk_id so (genesis_block so c') = blk_id so (genesis_block so c))"
  proof (cases "blk_chain_id g = c")
    case True
    then have "g = genesis_block so c" using rec g by (simp add: blk_valid_def)
    then show ?thesis using stored data bs(4) rec 1 by (simp add: store_ok_def)
  next
    case False
    moreover have "supported_chain (blk_chain_id g)" "g = genesis_block so (blk_chain_id g)"
      using rec g by (simp_all add: blk_valid_def)
    ultimately show ?thesis using g(2) by metis
  qed
qed

text \<open>
  C29. Only a sound file opens. Whatever bytes the file holds and whatever the calls report,
  \<open>ChainStore::open\<close> returns and does not change the file; when it returns a store, the file
  is exactly the sequence of records of the stored blocks, in an order in which every block
  was accepted by the fork tree, and the record table points at them. The one escape is a
  SHA-256 collision between the Genesis blocks of two networks.\<close>

theorem chain_store_open_sound:
  assumes "supported_chain c"
  shows "\<exists>r dk'. cs_open so io sq dk dir c = Some (r, dk') \<and> dk_files dk' = dk_files dk \<and>
    (\<forall>cs. r = Inr cs \<longrightarrow> store_ok so c dk' cs \<and> cs_data_directory cs = dir \<or>
      (\<exists>c'. c' \<noteq> c \<and> supported_chain c' \<and> blk_id so (genesis_block so c') = blk_id so (genesis_block so c)))"
  using cs_open_total [OF assms, of so io sq dk dir] cs_open_sound(2) [OF assms, of so io sq dk dir] by blast

text \<open>
  A write that was cut short is noticed. When the file of a store ends in a proper,
  non-empty part of the record of a valid block, which is what an append leaves behind that
  could neither finish nor cut the file back, opening it reports a truncated record and
  returns no chain.\<close>

theorem chain_store_truncated_tail:
  assumes "bc_reachable so c bc" and "blk_valid so b" and "0 < k" and "k < length (encode_record so b)"
    and "dk_files dk (blocks_path dir) = Some (encode_records so (bc_stored_blocks bc) @ take k (encode_record so b))"
    and "length (encode_records so (bc_stored_blocks bc)) < 2 ^ 63"
  shows "cs_open so io_ok sq dk dir c = Some (Inl KE_invalid_record_size, dk)"
proof -
  let ?data = "encode_records so (bc_stored_blocks bc) @ take k (encode_record so b)"
  have io: "io_read_ok io_ok" by (simp add: io_ok_def)
  have read: "read_record so io_ok ?data (length ?data) (length (encode_records so (bc_stored_blocks bc))) =
      Inl KE_invalid_record_size"
    by (rule read_record_truncated [OF assms(2) io assms(4) refl refl])
  have "open_loop so io_ok c ?data (length ?data) bc (record_table so 0 (bc_stored_blocks bc))
      (length (encode_records so (bc_stored_blocks bc))) = Some (Inl KE_invalid_record_size)"
    using assms(3,4) by (intro open_loop_Inl [OF _ read]) simp
  then have "open_loop so io_ok c ?data (length ?data) (Blockchain_create so c) [] 0 = Some (Inl KE_invalid_record_size)"
    using open_loop_stored [OF assms(1) io refl, of "take k (encode_record so b)"] by metis
  moreover have "length ?data < 2 ^ 64"
    using assms(4,6) blk_serialize_bounds [OF assms(2)] by (simp add: length_encode_record)
  ultimately show ?thesis
    using assms(5) by (simp add: cs_open_def fs_is_regular_file_def fs_file_size_def io_ok_def Let_def)
qed

section \<open>An example\<close>

definition demo_disk :: disk where
  "demo_disk = \<lparr> dk_files = [blocks_path ''d'' \<mapsto> encode_records demo_sodium (bc_stored_blocks demo_chain)],
     dk_database = None \<rparr>"

definition demo_store :: ChainStore where
  "demo_store = \<lparr> cs_data_directory = ''d'', cs_blockchain = demo_chain,
     cs_records = record_table demo_sodium 0 (bc_stored_blocks demo_chain) \<rparr>"

lemma demo_store_ok: "store_ok demo_sodium 1 demo_disk demo_store"
  using demo_chain_reachable(1) by (simp add: store_ok_def demo_disk_def demo_store_def)

lemma demo_stored_valid: "list_all (blk_valid demo_sodium) [genesis_block demo_sodium 1, demo_b1, demo_b2]"
  using demo_children_valid stored_blocks_genesis(3) [OF demo_chain_reachable(1)] by simp

lemma demo_records_length:
  "length (encode_records demo_sodium (bc_stored_blocks demo_chain)) < 2 ^ 63"
  "length (encode_records demo_sodium (bc_stored_blocks demo_chain @ [demo_b2])) < 2 ^ 63"
  using demo_stored_valid blk_serialize_bounds(2) [of demo_sodium "genesis_block demo_sodium 1"]
    blk_serialize_bounds(2) [of demo_sodium demo_b1] blk_serialize_bounds(2) [of demo_sodium demo_b2]
  by (simp_all add: demo_chain_facts length_encode_record)

theorem chain_store_append_atomic_witness:
  "\<exists>appended bc' r dk' cs'. bc_append demo_sodium demo_chain demo_b2 = Some (appended, bc') \<and>
    cs_append demo_sodium io_ok sqlite_ok demo_disk demo_store demo_b2 = Some (r, dk', cs')"
  using chain_store_append_atomic [OF demo_store_ok demo_children_valid(2), of io_ok sqlite_ok] demo_records_length(2)
  by (auto simp: demo_store_def)

theorem chain_store_open_sound_witness:
  "\<exists>r dk'. cs_open demo_sodium io_ok sqlite_ok demo_disk ''d'' 1 = Some (r, dk') \<and> dk_files dk' = dk_files demo_disk"
  using chain_store_open_sound [of 1 demo_sodium io_ok sqlite_ok demo_disk "''d''"] by (auto simp: supported_chain)

theorem chain_store_truncated_tail_witness:
  "cs_open demo_sodium io_ok sqlite_ok
     \<lparr> dk_files = [blocks_path ''d'' \<mapsto> encode_records demo_sodium (bc_stored_blocks demo_chain) @
         take 7 (encode_record demo_sodium demo_b2)], dk_database = None \<rparr> ''d'' 1 =
   Some (Inl KE_invalid_record_size,
     \<lparr> dk_files = [blocks_path ''d'' \<mapsto> encode_records demo_sodium (bc_stored_blocks demo_chain) @
         take 7 (encode_record demo_sodium demo_b2)], dk_database = None \<rparr>)"
  by (rule chain_store_truncated_tail [OF demo_chain_reachable(1) demo_children_valid(2), of 7])
    (use demo_records_length(1) in \<open>simp_all add: length_encode_record\<close>)

text \<open>An initialized store.\<close>

lemma demo_initialize:
  "\<exists>cs dk'. cs_initialize demo_sodium io_ok io_ok sqlite_ok \<lparr> dk_files = (\<lambda>p. None), dk_database = None \<rparr> ''d'' 1 =
     Some (Inr cs, dk') \<and> cs_blockchain cs = Blockchain_create demo_sodium 1"
proof -
  let ?fs = "[blocks_path ''d'' \<mapsto> encode_record demo_sodium (genesis_block demo_sodium 1)]"
  let ?cs = "\<lparr> cs_data_directory = ''d'', cs_blockchain = Blockchain_create demo_sodium 1,
    cs_records = record_table demo_sodium 0 [genesis_block demo_sodium 1] \<rparr>"
  have r: "bc_reachable demo_sodium 1 (Blockchain_create demo_sodium 1)"
    by (rule bc_reachable.create) (simp add: supported_chain)
  have g: "bc_stored_blocks (Blockchain_create demo_sodium 1) = [genesis_block demo_sodium 1]"
    by (simp add: Blockchain_create_def)
  have "store_ok demo_sodium 1 \<lparr> dk_files = ?fs, dk_database = None \<rparr> ?cs"
    using r by (simp add: store_ok_def g)
  moreover have "length (encode_records demo_sodium (bc_stored_blocks (cs_blockchain ?cs))) < 2 ^ 63"
    using demo_records_length(1) by (simp add: g demo_chain_facts)
  ultimately show ?thesis
    using cs_open_stored [of demo_sodium 1 "\<lparr> dk_files = ?fs, dk_database = None \<rparr>" ?cs]
    by (simp add: cs_initialize_def fs_exists_def fs_open_trunc_def fs_write_def io_ok_def Let_def)
qed

theorem chain_store_reopen_witness:
  "\<exists>dk cs. cs_blockchain cs = Blockchain_create demo_sodium 1 \<and>
    cs_open demo_sodium io_ok sqlite_ok dk ''d'' 1 =
      Some (Inr cs, dk\<lparr> dk_database := Some (index_of demo_sodium (cs_blockchain cs) (cs_records cs)) \<rparr>)"
proof -
  obtain cs dk where init: "cs_initialize demo_sodium io_ok io_ok sqlite_ok \<lparr> dk_files = (\<lambda>p. None), dk_database = None \<rparr> ''d'' 1 =
     Some (Inr cs, dk)" and bc: "cs_blockchain cs = Blockchain_create demo_sodium 1"
    using demo_initialize by blast
  have "length (encode_records demo_sodium (bc_stored_blocks (cs_blockchain cs))) < 2 ^ 63"
    using demo_records_length(1) by (simp add: bc demo_chain_facts Blockchain_create_def)
  moreover have "store_run demo_sodium 1 ''d'' dk cs"
    using init by (rule store_run.initialized [rotated]) (simp add: supported_chain)
  ultimately show ?thesis using chain_store_reopen bc by blast
qed

end
