(* ===== verification/BBC_Merkle.thy ===== *)
theory BBC_Merkle
  imports BBC_Block
begin

text \<open>
  What the Merkle root and the block identifier commit to. The loop of
  \<open>calculate_transaction_root\<close> is related to an explicit binary tree; from there, two valid
  blocks with the same identifier are equal unless the hash function collides on one of the
  byte strings the code hashes for them. The repeated last hash of odd levels makes the root
  alone ambiguous; the check for repeated identifiers removes the ambiguity.
\<close>

section \<open>Merkle trees\<close>

datatype mtree = MLeaf bytes | MNode mtree mtree

fun tree_hash :: "sodium \<Rightarrow> mtree \<Rightarrow> bytes" where
  "tree_hash so (MLeaf i) = hash_leaf so i"
| "tree_hash so (MNode l r) = hash_node so (tree_hash so l) (tree_hash so r)"

fun leaves :: "mtree \<Rightarrow> bytes list" where
  "leaves (MLeaf i) = [i]"
| "leaves (MNode l r) = leaves l @ leaves r"

text \<open>The byte strings that are hashed to compute the hash of a tree.\<close>

fun tree_inputs :: "sodium \<Rightarrow> mtree \<Rightarrow> bytes set" where
  "tree_inputs so (MLeaf i) = {merkle_leaf_domain # i}"
| "tree_inputs so (MNode l r) =
     insert (merkle_node_domain # tree_hash so l @ tree_hash so r) (tree_inputs so l \<union> tree_inputs so r)"

definition pad_level :: "'a list \<Rightarrow> 'a list" where
  "pad_level xs = (if length xs mod 2 \<noteq> 0 then xs @ [last xs] else xs)"

definition pair_up :: "('a \<Rightarrow> 'a \<Rightarrow> 'b) \<Rightarrow> 'a list \<Rightarrow> 'b list" where
  "pair_up f xs = map (\<lambda>k. f (xs ! (2 * k)) (xs ! (2 * k + 1))) [0..<length xs div 2]"

lemma pair_up_simps [simp]:
  "pair_up f [] = []"
  "pair_up f (x # y # xs) = f x y # pair_up f xs"
proof -
  have "[0..<Suc (length xs div 2)] = 0 # map Suc [0..<length xs div 2]"
    by (simp add: upt_conv_Cons map_Suc_upt del: upt_Suc)
  then show "pair_up f (x # y # xs) = f x y # pair_up f xs" by (simp add: pair_up_def)
qed (simp add: pair_up_def)

lemma even_list_induct [consumes 1, case_names Nil pair]:
  assumes "even (length xs)" and "P []" and "\<And>x y xs. even (length xs) \<Longrightarrow> P xs \<Longrightarrow> P (x # y # xs)"
  shows "P xs"
  using assms by (induction xs rule: induct_list012) auto

lemma even_pad_level: "even (length (pad_level xs))"
  by (simp add: pad_level_def mod2_eq_if)

lemma next_merkle_level_eq: "next_merkle_level so level = pair_up (hash_node so) (pad_level level)"
  by (simp add: next_merkle_level_def pair_up_def pad_level_def Let_def)

function merkle_tree :: "mtree list \<Rightarrow> mtree" where
  "merkle_tree ts = (if 1 < length ts then merkle_tree (pair_up MNode (pad_level ts)) else ts ! 0)"
  by pat_completeness auto
termination
proof (relation "measure length", goal_cases)
  case (2 ts)
  then have "length (pad_level ts) div 2 < length ts" by (simp add: pad_level_def; presburger)
  then show ?case by (simp add: pair_up_def)
qed simp

declare merkle_tree.simps [simp del]

lemma pair_up_hash:
  assumes "even (length ts)"
  shows "pair_up (hash_node so) (map (tree_hash so) ts) = map (tree_hash so) (pair_up MNode ts)"
  using assms by (induction ts rule: even_list_induct) simp_all

lemma merkle_root_tree:
  "ts \<noteq> [] \<Longrightarrow> merkle_root so (map (tree_hash so) ts) = tree_hash so (merkle_tree ts)"
proof (induction ts rule: merkle_tree.induct)
  case (1 ts)
  have pad: "pad_level (map (tree_hash so) ts) = map (tree_hash so) (pad_level ts)"
    using "1.prems" by (simp add: pad_level_def last_map)
  show ?case
  proof (cases "1 < length ts")
    case True
    have "pair_up MNode (pad_level ts) \<noteq> []"
      using True by (cases ts; cases "tl ts") (auto simp: pad_level_def)
    with "1.IH" [OF True] True show ?thesis
      using pair_up_hash [OF even_pad_level, of so ts]
      by (simp add: merkle_root.simps [of so "map _ _"] merkle_tree.simps [of ts] next_merkle_level_eq pad)
  next
    case False
    then show ?thesis
      using "1.prems" by (simp add: merkle_root.simps [of so "map _ _"] merkle_tree.simps [of ts])
  qed
qed

lemma leaves_pair_up:
  assumes "even (length ts)"
  shows "concat (map leaves (pair_up MNode ts)) = concat (map leaves ts)"
  using assms by (induction ts rule: even_list_induct) simp_all

lemma leaves_merkle_tree:
  "ts \<noteq> [] \<Longrightarrow> (\<exists>zs. leaves (merkle_tree ts) = concat (map leaves ts) @ zs) \<and>
     set (leaves (merkle_tree ts)) = set (concat (map leaves ts))"
proof (induction ts rule: merkle_tree.induct)
  case (1 ts)
  show ?case
  proof (cases "1 < length ts")
    case True
    have ne: "pair_up MNode (pad_level ts) \<noteq> []"
      using True by (cases ts; cases "tl ts") (auto simp: pad_level_def)
    have "last ts \<in> set ts" using "1.prems" by simp
    then have "set (concat (map leaves (pad_level ts))) = set (concat (map leaves ts))"
      "\<exists>zs. concat (map leaves (pad_level ts)) = concat (map leaves ts) @ zs"
      by (auto simp: pad_level_def)
    with "1.IH" [OF True ne] True show ?thesis
      by (auto simp: merkle_tree.simps [of ts] leaves_pair_up [OF even_pad_level])
  next
    case False
    then obtain t where "ts = [t]" using "1.prems" by (cases ts; cases "tl ts") auto
    then show ?thesis by (simp add: merkle_tree.simps)
  qed
qed

section \<open>Commitment\<close>

lemma length_tree_hash [simp]: "length (tree_hash so t) = 32"
  by (cases t) (simp_all add: hash_leaf_def hash_node_def)

definition outer_input :: "sodium \<Rightarrow> mtree \<Rightarrow> bytes" where
  "outer_input so t = (case t of MLeaf i \<Rightarrow> merkle_leaf_domain # i
     | MNode l r \<Rightarrow> merkle_node_domain # tree_hash so l @ tree_hash so r)"

lemma tree_hash_outer: "tree_hash so t = sha256 so (outer_input so t)" "outer_input so t \<in> tree_inputs so t"
  by (cases t; simp add: outer_input_def hash_leaf_def hash_node_def)+

lemma outer_input_inject:
  "inj_on (sha256 so) (tree_inputs so t \<union> tree_inputs so t') \<Longrightarrow> tree_hash so t = tree_hash so t' \<Longrightarrow>
     outer_input so t = outer_input so t'"
  by (metis UnI1 UnI2 inj_onD tree_hash_outer)

lemma tree_hash_inject:
  assumes "inj_on (sha256 so) (tree_inputs so t \<union> tree_inputs so t')" and "tree_hash so t = tree_hash so t'"
  shows "t = t'"
  using assms
proof (induction t arbitrary: t')
  case (MLeaf i)
  have "outer_input so (MLeaf i) = outer_input so t'"
    using MLeaf.prems by (rule outer_input_inject)
  then show ?case
    by (cases t') (simp_all add: outer_input_def merkle_leaf_domain_def merkle_node_domain_def)
next
  case (MNode l r)
  have eq: "outer_input so (MNode l r) = outer_input so t'"
    using MNode.prems by (rule outer_input_inject)
  then obtain l' r' where t': "t' = MNode l' r'"
    by (cases t') (simp_all add: outer_input_def merkle_leaf_domain_def merkle_node_domain_def)
  have "inj_on (sha256 so) (tree_inputs so l \<union> tree_inputs so l')"
    "inj_on (sha256 so) (tree_inputs so r \<union> tree_inputs so r')"
    using MNode.prems(1) unfolding t' by (auto elim: inj_on_subset)
  then show ?case using eq MNode.IH by (auto simp: t' outer_input_def)
qed

text \<open>Lists without repetition are determined by their padded form.\<close>

lemma padded_inject:
  assumes "xs @ zs = ys @ zs'" and "distinct xs" and "distinct ys"
    and "set (xs @ zs) = set xs" and "set (ys @ zs') = set ys"
  shows "xs = ys"
proof -
  have "set xs = set ys" using assms by metis
  then have "length xs = length ys" using assms(2,3) by (metis distinct_card)
  with assms(1) show ?thesis by simp
qed

definition root_inputs :: "sodium \<Rightarrow> SignedTransaction list \<Rightarrow> bytes set" where
  "root_inputs so txs =
     (if txs = [] then {[empty_root_domain]}
      else tree_inputs so (merkle_tree (map (\<lambda>tx. MLeaf (tx_id so tx)) txs)))"

lemma transaction_root_tree:
  assumes "txs \<noteq> []"
  shows "calculate_transaction_root so txs = tree_hash so (merkle_tree (map (\<lambda>tx. MLeaf (tx_id so tx)) txs))"
  using assms merkle_root_tree [of "map (\<lambda>tx. MLeaf (tx_id so tx)) txs" so]
  by (simp add: calculate_transaction_root_def comp_def)

lemma leaves_transaction_tree:
  assumes "txs \<noteq> []"
  obtains zs where "leaves (merkle_tree (map (\<lambda>tx. MLeaf (tx_id so tx)) txs)) = map (tx_id so) txs @ zs"
    "set (map (tx_id so) txs @ zs) = set (map (tx_id so) txs)"
proof -
  have "concat (map leaves (map (\<lambda>tx. MLeaf (tx_id so tx)) txs)) = map (tx_id so) txs"
    by (induction txs) simp_all
  then show ?thesis
    using leaves_merkle_tree [of "map (\<lambda>tx. MLeaf (tx_id so tx)) txs"] assms that by (metis map_is_Nil_conv)
qed

lemma transaction_root_inject:
  assumes inj: "inj_on (sha256 so) (root_inputs so txs \<union> root_inputs so txs')"
    and root: "calculate_transaction_root so txs = calculate_transaction_root so txs'"
    and distinct: "distinct (map (tx_id so) txs)" "distinct (map (tx_id so) txs')"
  shows "map (tx_id so) txs = map (tx_id so) txs'"
proof -
  have empty: False
    if "inj_on (sha256 so) (root_inputs so [] \<union> root_inputs so qs)" "qs \<noteq> []"
      "calculate_transaction_root so [] = calculate_transaction_root so qs" for qs
  proof -
    let ?t = "merkle_tree (map (\<lambda>tx. MLeaf (tx_id so tx)) qs)"
    have "sha256 so [empty_root_domain] = sha256 so (outer_input so ?t)"
      using that(2,3) tree_hash_outer(1) by (simp add: transaction_root_tree calculate_transaction_root_def [of so "[]"])
    then have "[empty_root_domain] = outer_input so ?t"
      using that(1,2) tree_hash_outer(2) [of so ?t] by (auto simp: root_inputs_def dest: inj_onD)
    then show False
      by (simp add: outer_input_def empty_root_domain_def merkle_leaf_domain_def merkle_node_domain_def
          split: mtree.splits)
  qed
  show ?thesis
  proof (cases "txs = [] \<or> txs' = []")
    case True
    then have "txs = [] \<and> txs' = []"
      using empty [of txs] empty [of txs'] inj root by (metis Un_commute)
    then show ?thesis by simp
  next
    case False
    then have ne: "txs \<noteq> []" "txs' \<noteq> []" by simp_all
    then have "merkle_tree (map (\<lambda>tx. MLeaf (tx_id so tx)) txs) = merkle_tree (map (\<lambda>tx. MLeaf (tx_id so tx)) txs')"
      using inj root by (intro tree_hash_inject) (simp_all add: transaction_root_tree root_inputs_def)
    then show ?thesis
      using leaves_transaction_tree [OF ne(1), of so] leaves_transaction_tree [OF ne(2), of so]
        padded_inject distinct by metis
  qed
qed

section \<open>Block identifiers\<close>

lemma serialize_header_inject:
  assumes "header_sizes b" and "header_sizes b'" and "serialize_header b = serialize_header b'"
  shows "blk_chain_id b = blk_chain_id b' \<and> blk_height b = blk_height b' \<and>
    blk_previous_block_hash b = blk_previous_block_hash b' \<and>
    blk_transaction_root b = blk_transaction_root b' \<and> reward_hash b = reward_hash b' \<and>
    blk_timestamp b = blk_timestamp b' \<and> blk_difficulty_target b = blk_difficulty_target b' \<and>
    blk_mining_nonce b = blk_mining_nonce b'"
  using assms by (simp add: serialize_header_eq header_sizes_def u32.enc_inject u64.enc_inject)

text \<open>The byte strings the code hashes for the identifier of a block and what it covers.\<close>

definition block_inputs :: "sodium \<Rightarrow> Block \<Rightarrow> bytes set" where
  "block_inputs so b =
     {serialize_header b} \<union> root_inputs so (blk_transactions b) \<union> tx_serialize ` set (blk_transactions b)"

lemma tx_ids_inject:
  assumes inj: "inj_on (sha256 so) (tx_serialize ` set txs \<union> tx_serialize ` set txs')"
    and valid: "list_all (tx_valid so) txs" "list_all (tx_valid so) txs'"
    and ids: "map (tx_id so) txs = map (tx_id so) txs'"
  shows "txs = txs'"
proof -
  have "map tx_serialize txs = map tx_serialize txs'"
  proof (rule map_inj_on)
    show "map (sha256 so) (map tx_serialize txs) = map (sha256 so) (map tx_serialize txs')"
      using ids by (simp add: tx_id_def [abs_def] comp_def)
    show "inj_on (sha256 so) (set (map tx_serialize txs) \<union> set (map tx_serialize txs'))"
      using inj by simp
  qed
  then show ?thesis using valid tx_codec.map_encode_inject [of so] by (auto simp: list_all_iff)
qed

lemma block_transactions_inject:
  assumes "blk_valid so b" and "blk_valid so b'"
    and "inj_on (sha256 so) (block_inputs so b \<union> block_inputs so b')"
    and "blk_transaction_root b = blk_transaction_root b'"
  shows "blk_transactions b = blk_transactions b'"
proof -
  have root: "blk_transaction_root x = calculate_transaction_root so (blk_transactions x) \<and>
      distinct (map (tx_id so) (blk_transactions x))" if "blk_valid so x" for x
    using that by (cases rule: blk_valid_cases) (simp_all add: validate_transactions_none_iff)
  have "map (tx_id so) (blk_transactions b) = map (tx_id so) (blk_transactions b')"
    using root [OF assms(1)] root [OF assms(2)] assms(3,4)
    by (intro transaction_root_inject) (auto simp: block_inputs_def elim: inj_on_subset)
  then show ?thesis
    using assms(3) blk_valid_transactions [OF assms(1)] blk_valid_transactions [OF assms(2)]
    by (intro tx_ids_inject) (auto simp: block_inputs_def elim: inj_on_subset)
qed

text \<open>
  C19. A block identifier commits to the whole block. If the hash function does not collide
  on the byte strings hashed for two valid blocks (their headers, their transactions and
  the nodes of their Merkle trees), then equal identifiers mean equal blocks, transactions
  and their order included.
\<close>

theorem block_id_commits:
  assumes "blk_valid so b" and "blk_valid so b'"
    and "inj_on (sha256 so) (block_inputs so b \<union> block_inputs so b')"
    and "blk_id so b = blk_id so b'"
  shows "b = b'"
proof -
  have "serialize_header b = serialize_header b'"
    using assms(4) unfolding blk_id_def by (rule inj_onD [OF assms(3)]) (simp_all add: block_inputs_def)
  with serialize_header_inject [OF assms(1,2) [THEN blk_valid_header_sizes]]
  have f: "blk_chain_id b = blk_chain_id b'" "blk_height b = blk_height b'"
    "blk_previous_block_hash b = blk_previous_block_hash b'"
    "blk_transaction_root b = blk_transaction_root b'" "reward_hash b = reward_hash b'"
    "blk_timestamp b = blk_timestamp b'" "blk_difficulty_target b = blk_difficulty_target b'"
    "blk_mining_nonce b = blk_mining_nonce b'" by simp_all
  have "blk_reward_recipient b = blk_reward_recipient b'"
  proof (cases "is_genesis b")
    case True
    with f(2) have "is_genesis b'" by (simp add: is_genesis_def)
    with True assms(1,2) f(1) show ?thesis by (simp add: blk_valid_def)
  next
    case False
    with f(2) have "\<not> is_genesis b'" by (simp add: is_genesis_def)
    with False assms(1,2) f(5) show ?thesis
      by (auto simp: blk_valid_def reward_hash_def intro: Address.expand)
  qed
  with f show ?thesis
    using block_transactions_inject [OF assms(1-3) f(4)] by (intro Block.equality) simp_all
qed

text \<open>
  The repeated hash of odd levels cannot be used to alter a block. Repeating the last
  transaction of a list of odd length above one keeps the Merkle root, but the longer list
  is refused because it repeats an identifier.
\<close>

theorem duplicated_tail_rejected:
  assumes "odd (length txs)" and "1 < length txs"
  shows "calculate_transaction_root so (txs @ [last txs]) = calculate_transaction_root so txs \<and>
    validate_transactions so (txs @ [last txs]) c \<noteq> BE_none"
proof
  let ?l = "\<lambda>txs. map (\<lambda>tx. hash_leaf so (tx_id so tx)) txs"
  have ne: "txs \<noteq> []" using assms(2) by auto
  have "pad_level (?l (txs @ [last txs])) = pad_level (?l txs)"
    using assms(1) ne by (auto simp: pad_level_def last_map mod2_eq_if)
  then show "calculate_transaction_root so (txs @ [last txs]) = calculate_transaction_root so txs"
    using assms(2) ne
    by (simp add: calculate_transaction_root_def merkle_root.simps [of so "?l txs"]
        merkle_root.simps [of so "?l txs @ _"] next_merkle_level_eq)
  show "validate_transactions so (txs @ [last txs]) c \<noteq> BE_none"
    using ne by (simp add: validate_transactions_none_iff)
qed

section \<open>Examples\<close>

theorem block_id_commits_witness:
  "blk_id demo_sodium (with_mining_nonce demo_candidate 5) \<noteq> blk_id demo_sodium demo_candidate"
proof
  let ?b = "with_mining_nonce demo_candidate 5"
  assume eq: "blk_id demo_sodium ?b = blk_id demo_sodium demo_candidate"
  have b: "?b = demo_candidate\<lparr> blk_mining_nonce := 5 \<rparr>"
    by (simp add: with_mining_nonce_def demo_candidate_simps)
  have txs: "blk_transactions ?b = [demo_tx 1 2 0]" "blk_transactions demo_candidate = [demo_tx 1 2 0]"
    by (simp_all add: b demo_candidate_simps)
  have h: "header_sizes ?b" "header_sizes demo_candidate"
    using blk_valid_header_sizes [OF demo_candidate_valid] by (simp_all add: b header_sizes_def reward_hash_def)
  let ?xs = "[serialize_header ?b, serialize_header demo_candidate,
      merkle_leaf_domain # tx_id demo_sodium (demo_tx 1 2 0), tx_serialize (demo_tx 1 2 0)]"
  have "sha256 demo_sodium (serialize_header ?b) \<noteq> sha256 demo_sodium (serialize_header demo_candidate)"
    using demo_id_nonce [OF h(1)] demo_id_nonce [OF h(2)] by (auto simp: blk_id_def b demo_candidate_simps)
  moreover have "length (tx_serialize (demo_tx 1 2 0)) = 161"
    using tx_valid_demo [of 2 1 0] by (intro length_tx_serialize) simp
  moreover have "x \<noteq> y" if "x ! 31 \<noteq> y ! 31" for x y :: bytes using that by auto
  ultimately have "distinct (map (sha256 demo_sodium) ?xs)"
    using length_serialize_header [OF h(1)] length_serialize_header [OF h(2)]
    by (auto simp: demo_hash_length tx_id_def)
  then have "inj_on (sha256 demo_sodium) (set ?xs)" by (simp only: distinct_map)
  moreover have "block_inputs demo_sodium ?b \<union> block_inputs demo_sodium demo_candidate = set ?xs"
    by (auto simp: block_inputs_def txs root_inputs_def merkle_tree.simps)
  moreover have "blk_valid demo_sodium ?b"
    using demo_candidate_valid by (auto simp: with_mining_nonce_def blk_valid_def is_genesis_def)
  ultimately have "?b = demo_candidate"
    using block_id_commits [OF _ demo_candidate_valid _ eq] by simp
  moreover have "blk_mining_nonce ?b \<noteq> blk_mining_nonce demo_candidate"
    by (simp add: b demo_candidate_simps)
  ultimately show False by simp
qed

theorem duplicated_tail_rejected_witness:
  "validate_transactions demo_sodium [demo_tx 1 2 0, demo_tx 2 2 0, demo_tx 3 2 0, demo_tx 3 2 0] 1 \<noteq> BE_none \<and>
   calculate_transaction_root demo_sodium [demo_tx 1 2 0, demo_tx 2 2 0, demo_tx 3 2 0, demo_tx 3 2 0] =
   calculate_transaction_root demo_sodium [demo_tx 1 2 0, demo_tx 2 2 0, demo_tx 3 2 0]"
  using duplicated_tail_rejected [of "[demo_tx 1 2 0, demo_tx 2 2 0, demo_tx 3 2 0]"] by simp

end
