(* ===== verification/BBC_Mempool.thy ===== *)
theory BBC_Mempool
  imports BBC_State "HOL-Library.Multiset" "HOL-Library.Sublist"
begin

text \<open>
  The pool of pending transactions: \<open>include/bbc/mempool/mempool.hpp\<close> and
  \<open>src/mempool/mempool.cpp\<close>. The pool keeps, per sender, transactions with consecutive
  nonces that the confirmed balance covers; \<open>select\<close> orders them by fee without breaking
  the nonce order of a sender. The main property is that what it selects can be put into a
  block.
\<close>

section \<open>Data\<close>

definition maximum_mempool_transactions :: nat where
  "maximum_mempool_transactions = 10000"

datatype MempoolError =
    ME_none
  | ME_full
  | ME_duplicate_transaction
  | ME_account_nonce_conflict
  | ME_unexpected_account_nonce
  | ME_account_nonce_exhausted
  | ME_insufficient_balance

record Mempool =
  mp_chain_state :: ChainState
  mp_transactions :: "SignedTransaction list"

record SenderQueue =
  sq_transaction_indices :: "nat list"
  sq_next :: nat

section \<open>Operations\<close>

definition Mempool_create :: "ChainState \<Rightarrow> Mempool" where
  "Mempool_create chain_state = \<lparr> mp_chain_state = chain_state, mp_transactions = [] \<rparr>"

text \<open>The loop of \<open>add\<close> over the pending transactions, with \<open>reserved\<close> and \<open>pending_count\<close>.\<close>

fun add_scan ::
    "sodium \<Rightarrow> SignedTransaction \<Rightarrow> SignedTransaction list \<Rightarrow> u64 \<Rightarrow> u64 \<Rightarrow> MempoolError + (u64 \<times> u64)" where
  "add_scan so tx [] reserved pending_count = Inr (reserved, pending_count)"
| "add_scan so tx (pending # rest) reserved pending_count =
     (if tx_id so pending = tx_id so tx then Inl ME_duplicate_transaction
      else if tx_sender so pending \<noteq> tx_sender so tx then add_scan so tx rest reserved pending_count
      else if tx_account_nonce pending = tx_account_nonce tx then Inl ME_account_nonce_conflict
      else
        (let debit = tx_amount pending + tx_fee pending
         in if u64_max - debit < reserved then Inl ME_insufficient_balance
            else add_scan so tx rest (reserved + debit) (pending_count + 1)))"

definition mp_add :: "sodium \<Rightarrow> Mempool \<Rightarrow> SignedTransaction \<Rightarrow> MempoolError \<times> Mempool" where
  "mp_add so mp tx =
     (if maximum_mempool_transactions \<le> length (mp_transactions mp) then (ME_full, mp)
      else
        (let account = ChainState_account (mp_chain_state mp) (tx_sender so tx)
         in case add_scan so tx (mp_transactions mp) 0 0 of
              Inl e \<Rightarrow> (e, mp)
            | Inr (reserved, pending_count) \<Rightarrow>
                if next_nonce account = u64_max \<or> u64_max - next_nonce account < pending_count
                then (ME_account_nonce_exhausted, mp)
                else if tx_account_nonce tx \<noteq> next_nonce account + pending_count
                then (ME_unexpected_account_nonce, mp)
                else
                  (let debit = tx_amount tx + tx_fee tx
                   in if balance account < reserved \<or> balance account - reserved < debit
                      then (ME_insufficient_balance, mp)
                      else (ME_none, mp\<lparr> mp_transactions := mp_transactions mp @ [tx] \<rparr>))))"

definition mp_revalidate :: "sodium \<Rightarrow> Mempool \<Rightarrow> ChainState \<Rightarrow> nat \<times> Mempool" where
  "mp_revalidate so mp chain_state =
     (let previous = mp_transactions mp;
          mp = fold (\<lambda>pending mp. snd (mp_add so mp pending)) previous
            \<lparr> mp_chain_state = chain_state, mp_transactions = [] \<rparr>
      in (length previous - length (mp_transactions mp), mp))"

definition mp_size :: "Mempool \<Rightarrow> nat" where
  "mp_size mp = length (mp_transactions mp)"

text \<open>The first loop of \<open>select\<close>: \<open>queues[h]\<close> inserts an empty queue for a new sender.\<close>

definition sender_queues :: "sodium \<Rightarrow> SignedTransaction list \<Rightarrow> (bytes, SenderQueue) std_map" where
  "sender_queues so txs =
     foldl (\<lambda>queues index.
         (let h = addr_hash (tx_sender so (txs ! index));
              queue = (case map_of queues h of
                  None \<Rightarrow> \<lparr> sq_transaction_indices = [], sq_next = 0 \<rparr>
                | Some queue \<Rightarrow> queue)
          in std_map_set h
               (queue\<lparr> sq_transaction_indices := sq_transaction_indices queue @ [index] \<rparr>) queues))
       [] [0..<length txs]"

text \<open>The comparison of the inner loop.\<close>

definition better :: "sodium \<Rightarrow> SignedTransaction \<Rightarrow> SignedTransaction \<Rightarrow> bool" where
  "better so candidate best \<longleftrightarrow>
     tx_fee best < tx_fee candidate \<or> tx_fee candidate = tx_fee best \<and> tx_id so candidate < tx_id so best"

text \<open>
  The inner loop: the key of the best queue, which stands for the pointer, and its next
  transaction.
\<close>

definition best_of ::
    "sodium \<Rightarrow> SignedTransaction list \<Rightarrow> (bytes, SenderQueue) std_map \<Rightarrow> (bytes \<times> SignedTransaction) option" where
  "best_of so txs queues =
     foldl (\<lambda>best (sender, queue).
         if length (sq_transaction_indices queue) \<le> sq_next queue then best
         else
           (let candidate = txs ! (sq_transaction_indices queue ! sq_next queue)
            in case best of
                 None \<Rightarrow> Some (sender, candidate)
               | Some (best_sender, best_transaction) \<Rightarrow>
                   if better so candidate best_transaction then Some (sender, candidate) else best))
       None queues"

text \<open>
  The outer loop adds one transaction per round and stops at \<open>maximum_count\<close>; \<open>room\<close> is
  the number that may still be added.
\<close>

fun select_loop ::
    "sodium \<Rightarrow> SignedTransaction list \<Rightarrow> nat \<Rightarrow> (bytes, SenderQueue) std_map \<Rightarrow>
       SignedTransaction list \<Rightarrow> SignedTransaction list" where
  "select_loop so txs 0 queues selected = selected"
| "select_loop so txs (Suc room) queues selected =
     (case best_of so txs queues of
        None \<Rightarrow> selected
      | Some (sender, best_transaction) \<Rightarrow>
          (let queue = the (map_of queues sender)
           in select_loop so txs room
                (std_map_set sender (queue\<lparr> sq_next := sq_next queue + 1 \<rparr>) queues)
                (selected @ [best_transaction])))"

definition mp_select :: "sodium \<Rightarrow> Mempool \<Rightarrow> nat \<Rightarrow> SignedTransaction list" where
  "mp_select so mp maximum_count =
     select_loop so (mp_transactions mp) maximum_count (sender_queues so (mp_transactions mp)) []"

fun mempool_error_message :: "MempoolError \<Rightarrow> string" where
  "mempool_error_message ME_none = ''no error''"
| "mempool_error_message ME_full = ''mempool transaction limit reached''"
| "mempool_error_message ME_duplicate_transaction = ''transaction is already in the mempool''"
| "mempool_error_message ME_account_nonce_conflict =
     ''another transaction uses the same sender account nonce''"
| "mempool_error_message ME_unexpected_account_nonce =
     ''transaction account nonce is not the next pending value''"
| "mempool_error_message ME_account_nonce_exhausted = ''sender account nonce is exhausted''"
| "mempool_error_message ME_insufficient_balance =
     ''confirmed sender balance is insufficient for pending debits''"

section \<open>The invariant of the pool\<close>

definition mp_inv :: "sodium \<Rightarrow> Mempool \<Rightarrow> bool" where
  "mp_inv so mp \<longleftrightarrow>
     std_map_ok (mp_chain_state mp) \<and>
     length (mp_transactions mp) \<le> 10000 \<and>
     list_all (tx_valid so) (mp_transactions mp) \<and>
     distinct (map (tx_id so) (mp_transactions mp)) \<and>
     (\<forall>h. map (\<lambda>tx. unat (tx_account_nonce tx)) (sent_by so h (mp_transactions mp)) =
          [unat (next_nonce (account_of_hash (mp_chain_state mp) h)) ..<
           unat (next_nonce (account_of_hash (mp_chain_state mp) h)) + length (sent_by so h (mp_transactions mp))]) \<and>
     (\<forall>h. debits so h (mp_transactions mp) \<le> unat (balance (account_of_hash (mp_chain_state mp) h))) \<and>
     (\<forall>h. sent_by so h (mp_transactions mp) \<noteq> [] \<longrightarrow>
        next_nonce (account_of_hash (mp_chain_state mp) h) \<noteq> u64_max)"

lemma Mempool_create_inv: "std_map_ok st \<Longrightarrow> mp_inv so (Mempool_create st)"
  by (simp add: mp_inv_def Mempool_create_def)

lemma mp_invD:
  assumes "mp_inv so mp"
  shows "std_map_ok (mp_chain_state mp)" "length (mp_transactions mp) \<le> 10000"
    "list_all (tx_valid so) (mp_transactions mp)" "distinct (map (tx_id so) (mp_transactions mp))"
    "map (\<lambda>tx. unat (tx_account_nonce tx)) (sent_by so h (mp_transactions mp)) =
       [unat (next_nonce (account_of_hash (mp_chain_state mp) h)) ..<
        unat (next_nonce (account_of_hash (mp_chain_state mp) h)) + length (sent_by so h (mp_transactions mp))]"
    "debits so h (mp_transactions mp) \<le> unat (balance (account_of_hash (mp_chain_state mp) h))"
    "sent_by so h (mp_transactions mp) \<noteq> [] \<Longrightarrow> next_nonce (account_of_hash (mp_chain_state mp) h) \<noteq> u64_max"
  using assms by (simp_all add: mp_inv_def)

text \<open>The scan passes exactly when no pending transaction has the identifier, or the sender and nonce.\<close>

definition clash :: "sodium \<Rightarrow> SignedTransaction \<Rightarrow> SignedTransaction \<Rightarrow> bool" where
  "clash so tx p \<longleftrightarrow> tx_id so p = tx_id so tx \<or>
     tx_sender so p = tx_sender so tx \<and> tx_account_nonce p = tx_account_nonce tx"

lemma sender_eq_iff: "tx_sender so p = tx_sender so tx \<longleftrightarrow> addr_hash (tx_sender so p) = addr_hash (tx_sender so tx)"
  by (auto intro: Address.expand)

lemma add_scan_Inl: "add_scan so tx ps r c = Inl e \<Longrightarrow> e \<noteq> ME_none"
  by (induction so tx ps r c rule: add_scan.induct) (auto simp: Let_def split: if_splits)

lemma add_scan_Inr: "add_scan so tx ps r c = Inr rc \<Longrightarrow> p \<in> set ps \<Longrightarrow> \<not> clash so tx p"
  by (induction so tx ps r c rule: add_scan.induct) (auto simp: clash_def Let_def split: if_splits)

lemma add_scan_passes:
  assumes "\<forall>p \<in> set ps. \<not> clash so tx p" and "list_all (tx_valid so) ps"
    and "unat r + debits so (addr_hash (tx_sender so tx)) ps < 2 ^ 64"
  shows "\<exists>r'. add_scan so tx ps r c =
      Inr (r', c + of_nat (length (sent_by so (addr_hash (tx_sender so tx)) ps))) \<and>
    unat r' = unat r + debits so (addr_hash (tx_sender so tx)) ps"
  using assms
proof (induction ps arbitrary: r c)
  case (Cons p ps)
  have p: "tx_id so p \<noteq> tx_id so tx" and v: "tx_valid so p" and rest: "\<forall>p \<in> set ps. \<not> clash so tx p"
    "list_all (tx_valid so) ps"
    using Cons.prems by (simp_all add: clash_def)
  show ?case
  proof (cases "tx_sender so p = tx_sender so tx")
    case False
    then have "addr_hash (tx_sender so p) \<noteq> addr_hash (tx_sender so tx)" by (simp add: sender_eq_iff)
    with False p Cons.IH [OF rest, of r c] Cons.prems(3) show ?thesis by simp
  next
    case True
    then have n: "tx_account_nonce p \<noteq> tx_account_nonce tx" using Cons.prems(1) by (simp add: clash_def)
    have d: "unat (tx_amount p + tx_fee p) = unat (tx_amount p) + unat (tx_fee p)"
      using v by (rule tx_valid_debit)
    have guard: "\<not> u64_max - (tx_amount p + tx_fee p) < r"
      using Cons.prems(3) True d by (simp add: add_guard_iff)
    then have "unat (r + (tx_amount p + tx_fee p)) = unat r + unat (tx_amount p) + unat (tx_fee p)"
      using unat_add_guarded [OF guard] d by (simp add: add.commute)
    with Cons.IH [OF rest, of "r + (tx_amount p + tx_fee p)" "c + 1"] Cons.prems(3) True p n guard show ?thesis
      by (simp add: Let_def algebra_simps)
  qed
qed simp

text \<open>When a transaction is admitted, over unbounded numbers.\<close>

definition admissible :: "sodium \<Rightarrow> Mempool \<Rightarrow> SignedTransaction \<Rightarrow> bool" where
  "admissible so mp tx \<longleftrightarrow>
     (let h = addr_hash (tx_sender so tx); a = account_of_hash (mp_chain_state mp) h
      in length (mp_transactions mp) < 10000 \<and>
         tx_id so tx \<notin> tx_id so ` set (mp_transactions mp) \<and>
         next_nonce a \<noteq> u64_max \<and>
         unat (tx_account_nonce tx) = unat (next_nonce a) + length (sent_by so h (mp_transactions mp)) \<and>
         debits so h (mp_transactions mp) + unat (tx_amount tx) + unat (tx_fee tx) \<le> unat (balance a))"

lemma no_clash_iff:
  assumes "mp_inv so mp"
    and "unat (tx_account_nonce tx) = unat (next_nonce (account_of_hash (mp_chain_state mp) (addr_hash (tx_sender so tx)))) +
      length (sent_by so (addr_hash (tx_sender so tx)) (mp_transactions mp))"
  shows "(\<forall>p \<in> set (mp_transactions mp). \<not> clash so tx p) \<longleftrightarrow> tx_id so tx \<notin> tx_id so ` set (mp_transactions mp)"
proof -
  have "unat (tx_account_nonce p) < unat (tx_account_nonce tx)"
    if "p \<in> set (mp_transactions mp)" "tx_sender so p = tx_sender so tx" for p
  proof -
    have "unat (tx_account_nonce p) \<in>
        set (map (\<lambda>tx. unat (tx_account_nonce tx)) (sent_by so (addr_hash (tx_sender so tx)) (mp_transactions mp)))"
      using that by (auto simp: sent_by_def)
    then show ?thesis unfolding mp_invD(5) [OF assms(1)] assms(2) by simp
  qed
  then show ?thesis unfolding clash_def image_iff by (metis less_irrefl)
qed

lemma pending_nonce_iff:
  fixes n v :: u64
  assumes "k < 2 ^ 64"
  shows "\<not> u64_max - n < of_nat k \<and> v = n + of_nat k \<longleftrightarrow> unat v = unat n + k"
proof -
  have k: "unat (of_nat k :: u64) = k" using assms by (simp add: unat_of_nat)
  show ?thesis
  proof
    assume l: "\<not> u64_max - n < of_nat k \<and> v = n + of_nat k"
    then show "unat v = unat n + k" using unat_add_guarded [of n "of_nat k"] k by simp
  next
    assume r: "unat v = unat n + k"
    then have "unat n + unat (of_nat k :: u64) < 2 ^ LENGTH(64)" using k unat_u64_bound [of v] by simp
    then show "\<not> u64_max - n < of_nat k \<and> v = n + of_nat k"
      using r k unat_add_bounded [of n "of_nat k :: u64"] by (simp add: add_guard_iff word_unat_eq_iff)
  qed
qed

lemma mp_add_none_iff:
  assumes inv: "mp_inv so mp" and valid: "tx_valid so tx"
  shows "fst (mp_add so mp tx) = ME_none \<longleftrightarrow> admissible so mp tx"
proof -
  let ?h = "addr_hash (tx_sender so tx)" and ?ps = "mp_transactions mp"
  let ?a = "account_of_hash (mp_chain_state mp) ?h" and ?k = "length (sent_by so ?h ?ps)"
  have "?k \<le> length ?ps" by (simp add: sent_by_def)
  then have len: "?k < 2 ^ 64" using mp_invD(2) [OF inv] by simp
  have deb: "debits so ?h ?ps \<le> unat (balance ?a)" using inv by (rule mp_invD)
  have d: "unat (tx_amount tx + tx_fee tx) = unat (tx_amount tx) + unat (tx_fee tx)"
    using valid by (rule tx_valid_debit)
  show ?thesis
  proof (cases "length ?ps < 10000 \<and> (\<forall>p \<in> set ?ps. \<not> clash so tx p)")
    case True
    then obtain r where scan: "add_scan so tx ?ps 0 0 = Inr (r, of_nat ?k)" and r: "unat r = debits so ?h ?ps"
      using add_scan_passes [OF _ mp_invD(3) [OF inv], of tx 0 0] deb unat_u64_bound [of "balance ?a"] by auto
    have bal: "balance ?a < r \<or> balance ?a - r < tx_amount tx + tx_fee tx \<longleftrightarrow>
        \<not> debits so ?h ?ps + unat (tx_amount tx) + unat (tx_fee tx) \<le> unat (balance ?a)"
      using deb r d by (auto simp: word_less_nat_alt unat_sub word_le_nat_alt not_less)
    have "fst (mp_add so mp tx) = ME_none \<longleftrightarrow> next_nonce ?a \<noteq> u64_max \<and>
        (\<not> u64_max - next_nonce ?a < of_nat ?k \<and> tx_account_nonce tx = next_nonce ?a + of_nat ?k) \<and>
        \<not> (balance ?a < r \<or> balance ?a - r < tx_amount tx + tx_fee tx)"
      using True scan
      by (auto simp: mp_add_def Let_def ChainState_account_def maximum_mempool_transactions_def)
    then show ?thesis
      unfolding pending_nonce_iff [OF len] bal admissible_def Let_def
      using True no_clash_iff [OF inv, of tx] by auto
  next
    case False
    then have "fst (mp_add so mp tx) \<noteq> ME_none"
      using add_scan_Inl [of so tx ?ps 0 0] add_scan_Inr [of so tx ?ps 0 0]
      by (cases "add_scan so tx ?ps 0 0")
        (auto simp: mp_add_def Let_def maximum_mempool_transactions_def split: if_splits)
    moreover have "\<not> admissible so mp tx"
      using False no_clash_iff [OF inv, of tx] by (auto simp: admissible_def Let_def)
    ultimately show ?thesis by simp
  qed
qed

lemma mp_add_result:
  "snd (mp_add so mp tx) =
     (if fst (mp_add so mp tx) = ME_none then mp\<lparr> mp_transactions := mp_transactions mp @ [tx] \<rparr> else mp)"
  using add_scan_Inl [of so tx "mp_transactions mp" 0 0]
  by (auto simp: mp_add_def Let_def split: sum.split if_splits)

lemma admissible_inv:
  assumes inv: "mp_inv so mp" and valid: "tx_valid so tx" and adm: "admissible so mp tx"
  shows "mp_inv so (mp\<lparr> mp_transactions := mp_transactions mp @ [tx] \<rparr>)"
proof -
  note a = adm [unfolded admissible_def Let_def]
  have deb: "debits so h (mp_transactions mp @ [tx]) \<le> unat (balance (account_of_hash (mp_chain_state mp) h))" for h
    using a mp_invD(6) [OF inv, of h] by (auto simp: debits_def)
  have non: "map (\<lambda>tx. unat (tx_account_nonce tx)) (sent_by so h (mp_transactions mp @ [tx])) =
       [unat (next_nonce (account_of_hash (mp_chain_state mp) h)) ..<
        unat (next_nonce (account_of_hash (mp_chain_state mp) h)) + length (sent_by so h (mp_transactions mp @ [tx]))]" for h
    using a mp_invD(5) [OF inv, of h] by simp
  have "next_nonce (account_of_hash (mp_chain_state mp) h) \<noteq> u64_max" if "sent_by so h (mp_transactions mp @ [tx]) \<noteq> []" for h
    using a mp_invD(7) [OF inv, of h] that by (cases "addr_hash (tx_sender so tx) = h") auto
  then show ?thesis
    using a deb non mp_invD(1-4) [OF inv] valid by (simp add: mp_inv_def)
qed

lemma mp_add_inv:
  assumes "mp_inv so mp" and "tx_valid so tx"
  shows "mp_inv so (snd (mp_add so mp tx))"
  using admissible_inv [OF assms] mp_add_none_iff [OF assms] assms(1) by (simp add: mp_add_result)

lemma fold_mp_add:
  assumes "mp_inv so mp" and "list_all (tx_valid so) txs"
  shows "mp_inv so (fold (\<lambda>pending mp. snd (mp_add so mp pending)) txs mp) \<and>
    mp_chain_state (fold (\<lambda>pending mp. snd (mp_add so mp pending)) txs mp) = mp_chain_state mp \<and>
    (\<exists>zs. subseq zs txs \<and>
      mp_transactions (fold (\<lambda>pending mp. snd (mp_add so mp pending)) txs mp) = mp_transactions mp @ zs)"
  using assms
proof (induction txs arbitrary: mp)
  case (Cons tx txs)
  let ?mp = "snd (mp_add so mp tx)"
  have "mp_inv so ?mp" using Cons.prems by (simp add: mp_add_inv)
  from Cons.IH [OF this] Cons.prems(2) obtain zs where zs: "subseq zs txs"
    "mp_transactions (fold (\<lambda>pending mp. snd (mp_add so mp pending)) txs ?mp) = mp_transactions ?mp @ zs"
    and rest: "mp_inv so (fold (\<lambda>pending mp. snd (mp_add so mp pending)) txs ?mp)"
    "mp_chain_state (fold (\<lambda>pending mp. snd (mp_add so mp pending)) txs ?mp) = mp_chain_state ?mp"
    by auto
  show ?case
  proof (cases "fst (mp_add so mp tx) = ME_none")
    case True
    then show ?thesis using zs rest
      by (auto simp: mp_add_result [of so mp tx] intro!: exI [of _ "tx # zs"])
  next
    case False
    then show ?thesis using zs rest by (auto simp: mp_add_result [of so mp tx])
  qed
qed auto

section \<open>Selection\<close>

subsection \<open>The order of candidates\<close>

lemma better_irrefl [simp]: "\<not> better so a a"
  by (simp add: better_def)

lemma not_better_trans: "\<not> better so a b \<Longrightarrow> \<not> better so b c \<Longrightarrow> \<not> better so a c"
  by (auto simp: better_def not_less)

lemma better_asym: "better so a b \<Longrightarrow> \<not> better so b a"
  by (auto simp: better_def)

subsection \<open>The queues\<close>

definition queue_of :: "sodium \<Rightarrow> SignedTransaction list \<Rightarrow> SignedTransaction list \<Rightarrow> bytes \<Rightarrow> SenderQueue option \<Rightarrow> bool" where
  "queue_of so txs selected h queue \<longleftrightarrow>
     (case queue of
        None \<Rightarrow> sent_by so h txs = [] \<and> sent_by so h selected = []
      | Some q \<Rightarrow> map (\<lambda>i. txs ! i) (sq_transaction_indices q) = sent_by so h txs \<and>
          sq_next q \<le> length (sent_by so h txs) \<and>
          sent_by so h selected = take (sq_next q) (sent_by so h txs))"

definition queues_ok :: "sodium \<Rightarrow> SignedTransaction list \<Rightarrow> (bytes, SenderQueue) std_map \<Rightarrow> SignedTransaction list \<Rightarrow> bool" where
  "queues_ok so txs queues selected \<longleftrightarrow>
     std_map_ok queues \<and> (\<forall>h. queue_of so txs selected h (map_of queues h))"

lemma sender_queues_prefix:
  fixes so :: sodium and txs :: "SignedTransaction list"
  defines "step \<equiv> \<lambda>queues index.
         (let h = addr_hash (tx_sender so (txs ! index));
              queue = (case map_of queues h of
                  None \<Rightarrow> \<lparr> sq_transaction_indices = [], sq_next = 0 \<rparr>
                | Some queue \<Rightarrow> queue)
          in std_map_set h
               (queue\<lparr> sq_transaction_indices := sq_transaction_indices queue @ [index] \<rparr>) queues)"
  shows "n \<le> length txs \<Longrightarrow> std_map_ok (foldl step [] [0..<n]) \<and>
    (\<forall>h. case map_of (foldl step [] [0..<n]) h of
        None \<Rightarrow> sent_by so h (take n txs) = []
      | Some q \<Rightarrow> map (\<lambda>i. txs ! i) (sq_transaction_indices q) = sent_by so h (take n txs) \<and> sq_next q = 0)"
proof (induction n)
  case (Suc n)
  define Q where "Q = foldl step [] [0..<n]"
  let ?k = "addr_hash (tx_sender so (txs ! n))"
  have ok: "std_map_ok Q" and old: "\<And>h. case map_of Q h of
        None \<Rightarrow> sent_by so h (take n txs) = []
      | Some q \<Rightarrow> map (\<lambda>i. txs ! i) (sq_transaction_indices q) = sent_by so h (take n txs) \<and> sq_next q = 0"
    using Suc by (auto simp: Q_def)
  have take: "take (Suc n) txs = take n txs @ [txs ! n]"
    using Suc.prems by (simp add: take_Suc_conv_app_nth)
  define q where "q = (case map_of Q ?k of None \<Rightarrow> \<lparr> sq_transaction_indices = [], sq_next = 0 \<rparr> | Some q \<Rightarrow> q)"
  have q: "map (\<lambda>i. txs ! i) (sq_transaction_indices q) = sent_by so ?k (take n txs) \<and> sq_next q = 0"
    using old [of ?k] by (auto simp: q_def split: option.splits)
  have new: "foldl step [] [0..<Suc n] =
      std_map_set ?k (q\<lparr> sq_transaction_indices := sq_transaction_indices q @ [n] \<rparr>) Q"
  proof -
    have "foldl step [] [0..<Suc n] = step Q n" by (simp add: Q_def)
    then show ?thesis by (simp add: step_def q_def Let_def)
  qed
  have "case map_of (std_map_set ?k (q\<lparr> sq_transaction_indices := sq_transaction_indices q @ [n] \<rparr>) Q) h of
        None \<Rightarrow> sent_by so h (take (Suc n) txs) = []
      | Some q \<Rightarrow> map (\<lambda>i. txs ! i) (sq_transaction_indices q) = sent_by so h (take (Suc n) txs) \<and> sq_next q = 0" for h
    using old [of h] q by (auto simp: std.lookup_update [OF ok] take split: option.splits)
  then show ?case unfolding new using std.invar_update [OF ok] by blast
qed simp

lemma sender_queues_ok: "queues_ok so txs (sender_queues so txs) []"
  using sender_queues_prefix [of "length txs" txs so]
  unfolding queues_ok_def sender_queues_def queue_of_def by (fastforce split: option.splits)

subsection \<open>The best candidate\<close>

definition queue_head :: "SignedTransaction list \<Rightarrow> SenderQueue \<Rightarrow> SignedTransaction option" where
  "queue_head txs q =
     (if length (sq_transaction_indices q) \<le> sq_next q then None
      else Some (txs ! (sq_transaction_indices q ! sq_next q)))"

definition best_step ::
    "sodium \<Rightarrow> SignedTransaction list \<Rightarrow> (bytes \<times> SignedTransaction) option \<Rightarrow> bytes \<times> SenderQueue \<Rightarrow>
       (bytes \<times> SignedTransaction) option" where
  "best_step so txs best sq =
     (case queue_head txs (snd sq) of
        None \<Rightarrow> best
      | Some candidate \<Rightarrow>
          (case best of None \<Rightarrow> Some (fst sq, candidate)
           | Some b \<Rightarrow> if better so candidate (snd b) then Some (fst sq, candidate) else best))"

lemma best_of_eq: "best_of so txs queues = foldl (best_step so txs) None queues"
proof -
  have "(\<lambda>best (sender, queue).
         if length (sq_transaction_indices queue) \<le> sq_next queue then best
         else
           (let candidate = txs ! (sq_transaction_indices queue ! sq_next queue)
            in case best of
                 None \<Rightarrow> Some (sender, candidate)
               | Some (best_sender, best_transaction) \<Rightarrow>
                   if better so candidate best_transaction then Some (sender, candidate) else best)) =
      best_step so txs"
    by (auto simp: fun_eq_iff best_step_def queue_head_def Let_def split: option.split)
  then show ?thesis by (simp add: best_of_def)
qed

lemma foldl_best_step:
  shows "foldl (best_step so txs) acc qs = None \<longleftrightarrow> acc = None \<and> (\<forall>x \<in> set qs. queue_head txs (snd x) = None)"
    and "foldl (best_step so txs) acc qs = Some r \<Longrightarrow>
      (acc = Some r \<or> (\<exists>q. (fst r, q) \<in> set qs \<and> queue_head txs q = Some (snd r))) \<and>
      (\<forall>a. acc = Some a \<longrightarrow> \<not> better so (snd a) (snd r)) \<and>
      (\<forall>x \<in> set qs. \<forall>d. queue_head txs (snd x) = Some d \<longrightarrow> \<not> better so d (snd r))"
proof (induction qs arbitrary: acc)
  case Nil
  { case 1 show ?case by simp }
  { case 2 then show ?case by simp }
next
  case (Cons x qs)
  { case 1
    show ?case using Cons.IH(1) [of "best_step so txs acc x"] by (auto simp: best_step_def split: option.splits) }
  { case 2
    then have step: "foldl (best_step so txs) (best_step so txs acc x) qs = Some r" by simp
    note ih = Cons.IH(2) [OF step]
    show ?case
    proof (cases "queue_head txs (snd x)")
      case None
      then show ?thesis using ih by (auto simp: best_step_def)
    next
      case (Some c)
      show ?thesis
      proof (cases "\<exists>a. acc = Some a \<and> \<not> better so c (snd a)")
        case True
        then obtain a where a: "acc = Some a" "\<not> better so c (snd a)" by blast
        then have "best_step so txs acc x = acc" using Some by (simp add: best_step_def)
        moreover from this a(1) ih have "\<not> better so (snd a) (snd r)" by metis
        then have "\<not> better so c (snd r)" using a(2) not_better_trans by metis
        ultimately show ?thesis using ih Some by auto
      next
        case False
        then have "best_step so txs acc x = Some (fst x, c)"
          using Some by (auto simp: best_step_def split: option.splits)
        moreover have "\<not> better so (snd a) (snd r)" if "acc = Some a" for a
        proof -
          have "\<not> better so (snd a) c" using False that better_asym by metis
          moreover have "\<not> better so c (snd r)" using ih \<open>best_step so txs acc x = Some (fst x, c)\<close> by (metis snd_conv)
          ultimately show ?thesis by (rule not_better_trans)
        qed
        ultimately show ?thesis using ih Some by (cases x) auto
      qed
    qed }
qed

subsection \<open>The loop\<close>

text \<open>
  A selection is greedy at a position if no sender's next transaction, given what was
  selected before, is better than the one at the position.
\<close>

definition greedy_at :: "sodium \<Rightarrow> SignedTransaction list \<Rightarrow> SignedTransaction list \<Rightarrow> nat \<Rightarrow> bool" where
  "greedy_at so txs sel k \<longleftrightarrow>
     (\<forall>h. length (sent_by so h (take k sel)) < length (sent_by so h txs) \<longrightarrow>
        \<not> better so (sent_by so h txs ! length (sent_by so h (take k sel))) (sel ! k))"

lemma queues_ok_Some:
  assumes "queues_ok so txs queues sel" and "map_of queues h = Some q"
  shows "map (\<lambda>i. txs ! i) (sq_transaction_indices q) = sent_by so h txs"
    "sq_next q \<le> length (sent_by so h txs)" "sent_by so h sel = take (sq_next q) (sent_by so h txs)"
proof -
  have "queue_of so txs sel h (map_of queues h)" using assms(1) by (simp add: queues_ok_def)
  then show "map (\<lambda>i. txs ! i) (sq_transaction_indices q) = sent_by so h txs"
    "sq_next q \<le> length (sent_by so h txs)" "sent_by so h sel = take (sq_next q) (sent_by so h txs)"
    by (simp_all add: assms(2) queue_of_def)
qed

lemma queues_ok_none:
  assumes "queues_ok so txs queues sel" and "map_of queues h = None"
  shows "sent_by so h txs = []" "sent_by so h sel = []"
proof -
  have "queue_of so txs sel h (map_of queues h)" using assms(1) by (simp add: queues_ok_def)
  then show "sent_by so h txs = []" "sent_by so h sel = []" by (simp_all add: assms(2) queue_of_def)
qed

lemma queues_ok_head:
  assumes "queues_ok so txs queues sel" and "map_of queues h = Some q"
  shows "queue_head txs q =
      (if length (sent_by so h sel) < length (sent_by so h txs)
       then Some (sent_by so h txs ! length (sent_by so h sel)) else None)"
    and "sq_next q = length (sent_by so h sel)"
proof -
  note q = queues_ok_Some [OF assms]
  from q(2,3) show next_eq: "sq_next q = length (sent_by so h sel)" by simp
  have len: "length (sq_transaction_indices q) = length (sent_by so h txs)"
    using q(1) by (metis length_map)
  have "txs ! (sq_transaction_indices q ! k) = sent_by so h txs ! k" if "k < length (sent_by so h txs)" for k
    using that len q(1) by (metis nth_map)
  then show "queue_head txs q =
      (if length (sent_by so h sel) < length (sent_by so h txs)
       then Some (sent_by so h txs ! length (sent_by so h sel)) else None)"
    by (simp add: queue_head_def len next_eq not_le [symmetric])
qed

lemma best_of_correct:
  assumes ok: "queues_ok so txs queues sel"
  shows "best_of so txs queues = None \<Longrightarrow> sent_by so h sel = sent_by so h txs"
    and "best_of so txs queues = Some (s, c) \<Longrightarrow>
      \<exists>q. map_of queues s = Some q \<and> queue_head txs q = Some c \<and> greedy_at so txs (sel @ [c]) (length sel)"
proof -
  have m: "std_map_ok queues" using ok by (simp add: queues_ok_def)
  have mem: "(h, q) \<in> set queues \<longleftrightarrow> map_of queues h = Some q" for h q
    using std_map_ok_distinct [OF m] by (auto dest: map_of_SomeD)
  show "sent_by so h sel = sent_by so h txs" if "best_of so txs queues = None"
  proof (cases "map_of queues h")
    case None
    then show ?thesis using queues_ok_none [OF ok] by simp
  next
    case (Some q)
    then have "(h, q) \<in> set queues" using mem by blast
    then have "queue_head txs q = None"
      using that unfolding best_of_eq foldl_best_step(1) by (metis snd_conv)
    then have "\<not> length (sent_by so h sel) < length (sent_by so h txs)"
      using queues_ok_head(1) [OF ok Some] by (auto split: if_splits)
    then show ?thesis using queues_ok_Some(2,3) [OF ok Some] by simp
  qed
  assume b: "best_of so txs queues = Some (s, c)"
  note r = foldl_best_step(2) [OF b [unfolded best_of_eq]]
  from r obtain q where "(s, q) \<in> set queues" "queue_head txs q = Some c" by auto
  then have q: "map_of queues s = Some q" "queue_head txs q = Some c" using mem by blast+
  have "\<not> better so (sent_by so h txs ! length (sent_by so h sel)) c"
    if less: "length (sent_by so h sel) < length (sent_by so h txs)" for h
  proof -
    from less obtain p where p: "map_of queues h = Some p"
      using queues_ok_none(1) [OF ok, of h] by (cases "map_of queues h") auto
    then have "queue_head txs p = Some (sent_by so h txs ! length (sent_by so h sel))"
      using queues_ok_head(1) [OF ok p] less by simp
    moreover have "(h, p) \<in> set queues" using p mem by blast
    ultimately show ?thesis using r by (metis snd_conv)
  qed
  with q show "\<exists>q. map_of queues s = Some q \<and> queue_head txs q = Some c \<and> greedy_at so txs (sel @ [c]) (length sel)"
    by (auto simp: greedy_at_def)
qed

lemma queues_ok_step:
  assumes ok: "queues_ok so txs queues sel" and q: "map_of queues s = Some q" "queue_head txs q = Some c"
  shows "queues_ok so txs (std_map_set s (q\<lparr> sq_next := sq_next q + 1 \<rparr>) queues) (sel @ [c])"
proof -
  have m: "std_map_ok queues" using ok by (simp add: queues_ok_def)
  have less: "sq_next q < length (sent_by so s txs)" and c: "c = sent_by so s txs ! sq_next q"
    using queues_ok_head [OF ok q(1)] q(2) by (auto split: if_splits)
  have "c \<in> set (sent_by so s txs)" using less by (simp add: c)
  then have s: "addr_hash (tx_sender so c) = s" by (simp add: sent_by_def)
  have old: "queue_of so txs sel h (map_of queues h)" for h using ok by (simp add: queues_ok_def)
  have "queue_of so txs (sel @ [c]) h (map_of (std_map_set s (q\<lparr> sq_next := sq_next q + 1 \<rparr>) queues) h)" for h
    using old [of h] q(1) s less
    by (auto simp: queue_of_def std.lookup_update [OF m] c take_Suc_conv_app_nth split: option.splits)
  then show ?thesis using m by (simp add: queues_ok_def std.invar_update)
qed

lemma select_loop_correct:
  assumes "queues_ok so txs queues sel"
  shows "\<exists>queues' new. select_loop so txs room queues sel = sel @ new \<and> length new \<le> room \<and>
    queues_ok so txs queues' (sel @ new) \<and>
    (length new < room \<longrightarrow> (\<forall>h. sent_by so h (sel @ new) = sent_by so h txs)) \<and>
    (\<forall>k < length new. greedy_at so txs (sel @ new) (length sel + k))"
  using assms
proof (induction room arbitrary: queues sel)
  case 0
  then show ?case by (intro exI [of _ queues] exI [of _ "[]"]) simp
next
  case (Suc room)
  show ?case
  proof (cases "best_of so txs queues")
    case None
    then show ?thesis
      using best_of_correct(1) [OF Suc.prems None] Suc.prems
      by (intro exI [of _ queues] exI [of _ "[]"]) simp
  next
    case (Some r)
    obtain s c where r: "r = (s, c)" by fastforce
    from best_of_correct(2) [OF Suc.prems, of s c] Some r obtain q where
      q: "map_of queues s = Some q" "queue_head txs q = Some c"
      and g: "greedy_at so txs (sel @ [c]) (length sel)" by auto
    from Suc.IH [OF queues_ok_step [OF Suc.prems q]] obtain queues' new where
      new: "select_loop so txs room (std_map_set s (q\<lparr> sq_next := sq_next q + 1 \<rparr>) queues) (sel @ [c]) = (sel @ [c]) @ new"
      "length new \<le> room" "queues_ok so txs queues' ((sel @ [c]) @ new)"
      "length new < room \<longrightarrow> (\<forall>h. sent_by so h ((sel @ [c]) @ new) = sent_by so h txs)"
      "\<forall>k < length new. greedy_at so txs ((sel @ [c]) @ new) (length (sel @ [c]) + k)" by blast
    have "greedy_at so txs (sel @ c # new) (length sel + k)" if "k < Suc (length new)" for k
      using new(5) g that by (cases k) (auto simp: greedy_at_def)
    then show ?thesis
      using new Some r q by (intro exI [of _ queues'] exI [of _ "c # new"]) simp
  qed
qed

section \<open>What is selected can be applied\<close>

lemma apply_transaction_ready:
  assumes ok: "std_map_ok st" and valid: "tx_valid so tx"
    and nonce: "tx_account_nonce tx = next_nonce (account_of_hash st (addr_hash (tx_sender so tx)))"
      "tx_account_nonce tx \<noteq> u64_max"
    and funds: "unat (tx_amount tx) + unat (tx_fee tx)
      \<le> unat (balance (account_of_hash st (addr_hash (tx_sender so tx))))"
    and total: "total_balance st + unat fees < 2 ^ 64"
  shows "\<exists>st' fees'. apply_transaction so tx (st, fees) = Inr (st', fees')"
proof -
  let ?s = "addr_hash (tx_sender so tx)" and ?r = "addr_hash (tx_recipient tx)"
  let ?a = "account_of_hash st ?s" and ?d = "tx_amount tx + tx_fee tx"
  let ?a1 = "\<lparr> balance = balance ?a - ?d, next_nonce = next_nonce ?a + 1 \<rparr>"
  let ?st1 = "std_map_set ?s ?a1 st"
  have d: "unat ?d = unat (tx_amount tx) + unat (tx_fee tx)" using valid by (rule tx_valid_debit)
  then have le: "\<not> balance ?a < ?d" using funds by (simp add: word_less_nat_alt)
  then have "unat (balance ?a - ?d) + unat ?d = unat (balance ?a)" by (simp add: unat_sub word_less_nat_alt word_le_nat_alt)
  then have t1: "total_balance ?st1 + unat ?d = total_balance st"
    using total_balance_set [OF ok, of ?s ?a1] by simp
  have "unat (balance (account_of_hash ?st1 ?r)) \<le> total_balance ?st1"
    by (rule balance_le_total) (rule std.invar_update [OF ok])
  then have "\<not> u64_max - tx_amount tx < balance (account_of_hash ?st1 ?r)"
    using t1 d total by (simp add: add_guard_iff)
  moreover have "\<not> u64_max - tx_fee tx < fees"
    using t1 d total by (simp add: add_guard_iff)
  ultimately show ?thesis
    using nonce le by (simp add: apply_transaction_def Let_def)
qed

lemma apply_transactions_ready:
  assumes "std_map_ok st" and "list_all (tx_valid so) txs"
    and "\<And>h. map (\<lambda>tx. unat (tx_account_nonce tx)) (sent_by so h txs) =
       [unat (next_nonce (account_of_hash st h)) ..<
        unat (next_nonce (account_of_hash st h)) + length (sent_by so h txs)]"
    and "\<forall>tx \<in> set txs. tx_account_nonce tx \<noteq> u64_max"
    and "\<And>h. debits so h txs \<le> unat (balance (account_of_hash st h))"
    and "total_balance st + unat fees < 2 ^ 64"
  shows "\<exists>st' fees'. apply_transactions so k txs (st, fees) = Inr (st', fees')"
  using assms
proof (induction txs arbitrary: k st fees)
  case (Cons tx txs)
  let ?s = "addr_hash (tx_sender so tx)"
  have v: "tx_valid so tx" using Cons.prems(2) by simp
  have "unat (tx_account_nonce tx) = unat (next_nonce (account_of_hash st ?s))"
    using Cons.prems(3) [of ?s] by (simp add: upt_conv_Cons del: upt_Suc)
  then have n: "tx_account_nonce tx = next_nonce (account_of_hash st ?s)" by (simp add: word_unat_eq_iff)
  have f: "unat (tx_amount tx) + unat (tx_fee tx) \<le> unat (balance (account_of_hash st ?s))"
    using Cons.prems(5) [of ?s] by simp
  from apply_transaction_ready [OF Cons.prems(1) v n _ f Cons.prems(6)] Cons.prems(4) obtain st1 fees1 where
    step: "apply_transaction so tx (st, fees) = Inr (st1, fees1)" by auto
  note acc = apply_transaction_account [OF Cons.prems(1) step v]
  have "\<exists>st' fees'. apply_transactions so (Suc k) txs (st1, fees1) = Inr (st', fees')"
  proof (rule Cons.IH)
    show "std_map_ok st1" using Cons.prems(1) step by (rule apply_transaction_ok)
    show "list_all (tx_valid so) txs" "\<forall>tx \<in> set txs. tx_account_nonce tx \<noteq> u64_max"
      using Cons.prems(2,4) by simp_all
    show "total_balance st1 + unat fees1 < 2 ^ 64"
      using apply_transaction_total [OF Cons.prems(1) step v] apply_transaction_fees [OF step] Cons.prems(6) by simp
    fix h
    show "map (\<lambda>tx. unat (tx_account_nonce tx)) (sent_by so h txs) =
       [unat (next_nonce (account_of_hash st1 h)) ..<
        unat (next_nonce (account_of_hash st1 h)) + length (sent_by so h txs)]"
      using Cons.prems(3) [of h] acc(2) [of h]
      by (cases "h = ?s") (auto simp: upt_conv_Cons simp del: upt_Suc)
    show "debits so h txs \<le> unat (balance (account_of_hash st1 h))"
      using Cons.prems(5) [of h] acc(1) [of h] by (cases "h = ?s") (auto split: if_splits)
  qed
  then show ?case using step by simp
qed simp

lemma apply_block_state_ready:
  assumes "std_map_ok st" and "list_all (tx_valid so) (blk_transactions b)"
    and "\<And>h. map (\<lambda>tx. unat (tx_account_nonce tx)) (sent_by so h (blk_transactions b)) =
       [unat (next_nonce (account_of_hash st h)) ..<
        unat (next_nonce (account_of_hash st h)) + length (sent_by so h (blk_transactions b))]"
    and "\<forall>tx \<in> set (blk_transactions b). tx_account_nonce tx \<noteq> u64_max"
    and "\<And>h. debits so h (blk_transactions b) \<le> unat (balance (account_of_hash st h))"
    and total: "total_balance st + unat block_subsidy < 2 ^ 64"
    and "\<not> is_genesis b" and "blk_reward_recipient b = Some a"
  shows "st_error (fst (apply_block_state so st b)) = SE_none"
proof -
  have "total_balance st + unat (0 :: u64) < 2 ^ 64" using total by simp
  from apply_transactions_ready [OF assms(1-5) this] obtain st1 fees where
    t: "apply_transactions so 0 (blk_transactions b) (st, 0) = Inr (st1, fees)" by blast
  note c = apply_transactions_correct [OF assms(1) t assms(2)]
  have fees: "total_balance st1 + unat fees = total_balance st" using c(2,3) by simp
  have "\<not> u64_max - block_subsidy < fees" using fees total by (simp add: add_guard_iff)
  moreover have "unat (block_subsidy + fees) = unat block_subsidy + unat fees"
    using calculation by (rule unat_add_guarded)
  then have "\<not> u64_max - (block_subsidy + fees) < balance (account_of_hash st1 (addr_hash a))"
    using fees total balance_le_total [OF c(1), of "addr_hash a"] by (simp add: add_guard_iff)
  ultimately show ?thesis using assms(7,8) t by (simp add: apply_block_state_def Let_def)
qed

section \<open>Selections and revalidation\<close>

text \<open>The pools the operations of the class can produce.\<close>

inductive mp_reachable :: "sodium \<Rightarrow> Mempool \<Rightarrow> bool" for so where
  create: "std_map_ok st \<Longrightarrow> mp_reachable so (Mempool_create st)"
| add: "mp_reachable so mp \<Longrightarrow> tx_valid so tx \<Longrightarrow> mp_reachable so (snd (mp_add so mp tx))"
| revalidate: "mp_reachable so mp \<Longrightarrow> std_map_ok st \<Longrightarrow> mp_reachable so (snd (mp_revalidate so mp st))"

lemma mp_revalidate_fold:
  assumes "list_all (tx_valid so) (mp_transactions mp)" and "std_map_ok st"
  shows "mp_inv so (snd (mp_revalidate so mp st))"
    and "mp_chain_state (snd (mp_revalidate so mp st)) = st"
    and "subseq (mp_transactions (snd (mp_revalidate so mp st))) (mp_transactions mp)"
  using fold_mp_add [OF Mempool_create_inv [OF assms(2)] assms(1)]
  by (auto simp: mp_revalidate_def Let_def Mempool_create_def)

lemma mp_reachable_inv: "mp_reachable so mp \<Longrightarrow> mp_inv so mp"
  by (induction rule: mp_reachable.induct)
    (auto intro: Mempool_create_inv mp_add_inv mp_revalidate_fold(1) mp_invD(3))

lemma mp_select_summary:
  shows "length (mp_select so mp n) \<le> n"
    and "prefix (sent_by so h (mp_select so mp n)) (sent_by so h (mp_transactions mp))"
    and "length (mp_select so mp n) < n \<Longrightarrow>
      sent_by so h (mp_select so mp n) = sent_by so h (mp_transactions mp)"
    and "k < length (mp_select so mp n) \<Longrightarrow> greedy_at so (mp_transactions mp) (mp_select so mp n) k"
proof -
  from select_loop_correct [OF sender_queues_ok, of so "mp_transactions mp" n] obtain queues where
    r: "length (mp_select so mp n) \<le> n"
      "queues_ok so (mp_transactions mp) queues (mp_select so mp n)"
      "length (mp_select so mp n) < n \<longrightarrow> (\<forall>h. sent_by so h (mp_select so mp n) = sent_by so h (mp_transactions mp))"
      "\<forall>k < length (mp_select so mp n). greedy_at so (mp_transactions mp) (mp_select so mp n) k"
    by (auto simp: mp_select_def)
  show "prefix (sent_by so h (mp_select so mp n)) (sent_by so h (mp_transactions mp))"
    using queues_ok_none [OF r(2), of h] queues_ok_Some(3) [OF r(2), of h]
    by (cases "map_of queues h") (auto simp: take_is_prefix)
  show "length (mp_select so mp n) \<le> n"
    "length (mp_select so mp n) < n \<Longrightarrow> sent_by so h (mp_select so mp n) = sent_by so h (mp_transactions mp)"
    "k < length (mp_select so mp n) \<Longrightarrow> greedy_at so (mp_transactions mp) (mp_select so mp n) k"
    using r by simp_all
qed

lemma count_sent_by:
  "count (mset txs) tx = count (mset (sent_by so (addr_hash (tx_sender so tx)) txs)) tx"
  by (simp add: sent_by_def mset_filter)

lemma mset_subset_by_sender:
  assumes "\<And>h. prefix (sent_by so h xs) (sent_by so h ys)"
  shows "mset xs \<subseteq># mset ys"
proof (rule mset_subset_eqI)
  fix tx
  let ?h = "addr_hash (tx_sender so tx)"
  from assms [of ?h] obtain zs where "sent_by so ?h ys = sent_by so ?h xs @ zs" by (auto simp: prefix_def)
  then show "count (mset xs) tx \<le> count (mset ys) tx"
    unfolding count_sent_by [of xs tx so] count_sent_by [of ys tx so] by simp
qed

lemma prefix_upt_map:
  assumes "prefix xs ys" and "map f ys = [a ..< a + length ys]"
  shows "map f xs = [a ..< a + length xs]"
proof -
  from assms(1) obtain zs where "ys = xs @ zs" by (auto simp: prefix_def)
  then have "map f xs = take (length xs) [a ..< a + length ys]" using assms(2) by (metis append_eq_conv_conj map_append length_map)
  then show ?thesis using \<open>ys = xs @ zs\<close> by (simp add: take_upt)
qed

lemma debits_sent_by: "debits so h txs = (\<Sum>tx\<leftarrow>sent_by so h txs. unat (tx_amount tx) + unat (tx_fee tx))"
  by (induction txs) auto

lemma mp_select_ready:
  assumes "mp_inv so mp"
  shows "list_all (tx_valid so) (mp_select so mp n)"
    and "map (\<lambda>tx. unat (tx_account_nonce tx)) (sent_by so h (mp_select so mp n)) =
       [unat (next_nonce (account_of_hash (mp_chain_state mp) h)) ..<
        unat (next_nonce (account_of_hash (mp_chain_state mp) h)) + length (sent_by so h (mp_select so mp n))]"
    and "debits so h (mp_select so mp n) \<le> unat (balance (account_of_hash (mp_chain_state mp) h))"
    and "mset (mp_select so mp n) \<subseteq># mset (mp_transactions mp)"
proof -
  show sub: "mset (mp_select so mp n) \<subseteq># mset (mp_transactions mp)"
    by (rule mset_subset_by_sender) (rule mp_select_summary)
  show "list_all (tx_valid so) (mp_select so mp n)"
    using set_mset_mono [OF sub] mp_invD(3) [OF assms] by (auto simp: list_all_iff)
  note pre = mp_select_summary(2) [of so h mp n]
  show "map (\<lambda>tx. unat (tx_account_nonce tx)) (sent_by so h (mp_select so mp n)) =
       [unat (next_nonce (account_of_hash (mp_chain_state mp) h)) ..<
        unat (next_nonce (account_of_hash (mp_chain_state mp) h)) + length (sent_by so h (mp_select so mp n))]"
    using pre mp_invD(5) [OF assms] by (rule prefix_upt_map)
  from pre obtain zs where "sent_by so h (mp_transactions mp) = sent_by so h (mp_select so mp n) @ zs"
    by (auto simp: prefix_def)
  then show "debits so h (mp_select so mp n) \<le> unat (balance (account_of_hash (mp_chain_state mp) h))"
    using mp_invD(6) [OF assms, of h] by (simp add: debits_sent_by)
qed

text \<open>A pool that is revalidated against its own state keeps everything.\<close>

lemma mp_inv_prefix:
  assumes "mp_inv so (mp\<lparr> mp_transactions := ps @ [tx] \<rparr>)"
  shows "mp_inv so (mp\<lparr> mp_transactions := ps \<rparr>)" and "admissible so (mp\<lparr> mp_transactions := ps \<rparr>) tx"
proof -
  note i = mp_invD [OF assms, simplified]
  let ?n = "\<lambda>h. unat (next_nonce (account_of_hash (mp_chain_state mp) h))"
  have non: "map (\<lambda>tx. unat (tx_account_nonce tx)) (sent_by so h ps) = [?n h ..< ?n h + length (sent_by so h ps)]" for h
    using i(5) [of h] by (cases "addr_hash (tx_sender so tx) = h") auto
  have deb: "debits so h ps \<le> unat (balance (account_of_hash (mp_chain_state mp) h))" for h
    using i(6) [of h] by (simp add: debits_sent_by split: if_splits)
  show "mp_inv so (mp\<lparr> mp_transactions := ps \<rparr>)"
    using i(1-4) i(7) non deb by (simp add: mp_inv_def)
  show "admissible so (mp\<lparr> mp_transactions := ps \<rparr>) tx"
    using i(2,4) i(5-7) [of "addr_hash (tx_sender so tx)"] non [of "addr_hash (tx_sender so tx)"]
    by (simp add: admissible_def Let_def debits_sent_by)
qed

lemma fold_mp_add_keeps:
  assumes "mp_inv so (mp\<lparr> mp_transactions := txs \<rparr>)"
  shows "fold (\<lambda>pending mp. snd (mp_add so mp pending)) txs (mp\<lparr> mp_transactions := [] \<rparr>) =
    mp\<lparr> mp_transactions := txs \<rparr>"
  using assms
proof (induction txs rule: rev_induct)
  case (snoc tx txs)
  note p = mp_inv_prefix [OF snoc.prems]
  have "tx_valid so tx" using mp_invD(3) [OF snoc.prems] by simp
  then have "fst (mp_add so (mp\<lparr> mp_transactions := txs \<rparr>) tx) = ME_none"
    using mp_add_none_iff [OF p(1)] p(2) by simp
  then show ?case using snoc.IH [OF p(1)] by (simp add: mp_add_result)
qed simp

lemma mined_selection_applies:
  assumes inv: "mp_inv so mp" and "blk_transactions b = mp_select so mp n"
    and "\<not> is_genesis b" and "blk_reward_recipient b = Some a"
    and "total_balance (mp_chain_state mp) + unat block_subsidy < 2 ^ 64"
    and last: "\<forall>tx \<in> set (mp_transactions mp). tx_account_nonce tx \<noteq> u64_max"
  shows "st_error (fst (apply_block_state so (mp_chain_state mp) b)) = SE_none"
proof -
  note r = mp_select_ready [OF inv, where n = n]
  have "set (mp_select so mp n) \<subseteq> set (mp_transactions mp)" using set_mset_mono [OF r(4)] by simp
  then have "\<forall>tx \<in> set (mp_select so mp n). tx_account_nonce tx \<noteq> u64_max" using last by blast
  then show ?thesis
    using mp_invD(1) [OF inv] r(1-3) assms(2-5) by (intro apply_block_state_ready) auto
qed

section \<open>Properties\<close>

text \<open>
  C15. What the pool selects can be mined. A block with a reward recipient whose transactions
  are a selection of a reachable pool passes \<open>apply_block_state\<close> on the pool's chain state,
  provided that the money in circulation including the new subsidy fits 64 bits and that no
  pending transaction carries the last nonce \<open>2 ^ 64 - 1\<close>.
\<close>

theorem selection_applies:
  assumes "mp_reachable so mp" and "blk_transactions b = mp_select so mp n"
    and "\<not> is_genesis b" and "blk_reward_recipient b = Some a"
    and "total_balance (mp_chain_state mp) + unat block_subsidy < 2 ^ 64"
    and "\<forall>tx \<in> set (mp_transactions mp). tx_account_nonce tx \<noteq> u64_max"
  shows "st_error (fst (apply_block_state so (mp_chain_state mp) b)) = SE_none"
  by (rule mined_selection_applies [OF mp_reachable_inv [OF assms(1)] assms(2-6)])

text \<open>
  C16. Admission to the pool. On a reachable pool a valid transaction is admitted exactly when
  the pool is not full, its identifier is new, its nonce is the sender's next one after the
  pending ones, the account's nonces are not used up, and the confirmed balance covers its
  amount and fee on top of all pending debits; it is then appended, and every other outcome
  leaves the pool unchanged.
\<close>

theorem mempool_add_correct:
  assumes "mp_reachable so mp" and "tx_valid so tx"
  shows "(fst (mp_add so mp tx) = ME_none \<longleftrightarrow> admissible so mp tx) \<and>
    snd (mp_add so mp tx) =
      (if admissible so mp tx then mp\<lparr> mp_transactions := mp_transactions mp @ [tx] \<rparr> else mp)"
  using mp_add_none_iff [OF mp_reachable_inv [OF assms(1)] assms(2)] mp_add_result [of so mp tx] by simp

text \<open>
  C17. Selection is by fee within the nonce order. It has at most the requested number of
  transactions of the pool; each sender's transactions come in pool order without gaps; at
  each position the transaction has the highest fee, and among equal fees the smallest
  identifier, of all senders' next transactions; and a selection shorter than requested
  contains the whole pool.
\<close>

theorem selection_greedy:
  "length (mp_select so mp n) \<le> n \<and>
   mset (mp_select so mp n) \<subseteq># mset (mp_transactions mp) \<and>
   (\<forall>h. prefix (sent_by so h (mp_select so mp n)) (sent_by so h (mp_transactions mp))) \<and>
   (\<forall>k. length (mp_select so mp n) \<le> k \<or> greedy_at so (mp_transactions mp) (mp_select so mp n) k) \<and>
   (length (mp_select so mp n) = n \<or> mset (mp_select so mp n) = mset (mp_transactions mp))"
proof (intro conjI allI)
  show "length (mp_select so mp n) \<le> n"
    "prefix (sent_by so h (mp_select so mp n)) (sent_by so h (mp_transactions mp))" for h
    by (rule mp_select_summary)+
  show "mset (mp_select so mp n) \<subseteq># mset (mp_transactions mp)"
    by (rule mset_subset_by_sender) (rule mp_select_summary)
  show "length (mp_select so mp n) \<le> k \<or> greedy_at so (mp_transactions mp) (mp_select so mp n) k" for k
    using mp_select_summary(4) not_less by blast
  show "length (mp_select so mp n) = n \<or> mset (mp_select so mp n) = mset (mp_transactions mp)"
  proof (cases "length (mp_select so mp n) < n")
    case True
    then have "\<And>h. sent_by so h (mp_select so mp n) = sent_by so h (mp_transactions mp)"
      by (rule mp_select_summary)
    then show ?thesis using mset_subset_by_sender [of so] by (metis prefix_order.refl subset_mset.antisym)
  next
    case False
    then show ?thesis using mp_select_summary(1) [where so = so and mp = mp and n = n] by simp
  qed
qed

text \<open>
  Revalidation. After \<open>revalidate\<close> the pool satisfies its invariant for the new chain
  state (nonces of each sender consecutive from the account's next nonce, debits covered by
  the balance, identifiers distinct), keeps a subsequence of the pending transactions and
  returns how many it dropped; against an unchanged state it drops nothing.
\<close>

theorem revalidate_correct:
  assumes "mp_reachable so mp" and "std_map_ok st"
  shows "mp_inv so (snd (mp_revalidate so mp st)) \<and>
    mp_chain_state (snd (mp_revalidate so mp st)) = st \<and>
    subseq (mp_transactions (snd (mp_revalidate so mp st))) (mp_transactions mp) \<and>
    fst (mp_revalidate so mp st) + mp_size (snd (mp_revalidate so mp st)) = mp_size mp \<and>
    mp_revalidate so mp (mp_chain_state mp) = (0, mp)"
proof -
  have inv: "mp_inv so mp" using assms(1) by (rule mp_reachable_inv)
  note f = mp_revalidate_fold [OF mp_invD(3) [OF inv] assms(2)]
  have "length (mp_transactions (snd (mp_revalidate so mp st))) \<le> length (mp_transactions mp)"
    using f(3) by (rule list_emb_length)
  then have "fst (mp_revalidate so mp st) + mp_size (snd (mp_revalidate so mp st)) = mp_size mp"
    by (simp add: mp_revalidate_def mp_size_def Let_def)
  moreover have "mp_revalidate so mp (mp_chain_state mp) = (0, mp)"
  proof -
    have eq: "\<lparr> mp_chain_state = mp_chain_state mp, mp_transactions = [] \<rparr> = mp\<lparr> mp_transactions := [] \<rparr>"
      "mp\<lparr> mp_transactions := mp_transactions mp \<rparr> = mp" by simp_all
    show ?thesis
      using fold_mp_add_keeps [where so = so and mp = mp and txs = "mp_transactions mp"] inv unfolding mp_revalidate_def Let_def eq by simp
  qed
  ultimately show ?thesis using f by blast
qed

section \<open>Examples\<close>

definition demo_pool :: Mempool where
  "demo_pool = snd (mp_add demo_sodium (snd (mp_add demo_sodium (Mempool_create demo_state)
     (demo_tx 1 2 0))) (demo_tx 1 3 1))"

lemma demo_ids: "distinct (map (tx_id demo_sodium) [demo_tx 1 2 0, demo_tx 1 3 1, demo_tx 1 9 2])"
proof -
  have "map (\<lambda>tx. tx_id demo_sodium tx ! 17) [demo_tx 1 2 0, demo_tx 1 3 1, demo_tx 1 9 2] = [2, 3, 9]"
    by code_simp
  then show ?thesis by auto
qed

lemma demo_tx_simps:
  "tx_sender demo_sodium (demo_tx n fee nonce) = Address_from_public_key demo_sodium (demo_seed n)"
  "tx_amount (demo_tx n fee nonce) = 10" "tx_fee (demo_tx n fee nonce) = fee"
  "tx_account_nonce (demo_tx n fee nonce) = nonce"
  by (simp_all add: tx_sender_def demo_tx_def)

lemmas demo_admissible = admissible_def Let_def demo_state_def account_of_hash_def demo_tx_simps

lemma demo_pool_reachable: "mp_reachable demo_sodium demo_pool"
  unfolding demo_pool_def by (intro mp_reachable.intros demo_state_ok tx_valid_demo) simp_all

lemma demo_pool_transactions: "mp_transactions demo_pool = [demo_tx 1 2 0, demo_tx 1 3 1]"
proof -
  have "admissible demo_sodium (Mempool_create demo_state) (demo_tx 1 2 0)"
    by (simp add: demo_admissible Mempool_create_def)
  then have 1: "snd (mp_add demo_sodium (Mempool_create demo_state) (demo_tx 1 2 0)) =
      \<lparr> mp_chain_state = demo_state, mp_transactions = [demo_tx 1 2 0] \<rparr>" (is "?m = ?n")
    using mp_add_none_iff [OF Mempool_create_inv [OF demo_state_ok, of demo_sodium] tx_valid_demo [of 2 1 0]]
    by (simp add: mp_add_result [of demo_sodium "Mempool_create demo_state"]) (simp add: Mempool_create_def)
  have inv: "mp_inv demo_sodium ?n"
    unfolding 1 [symmetric] by (intro mp_add_inv Mempool_create_inv demo_state_ok tx_valid_demo) simp
  have "admissible demo_sodium ?n (demo_tx 1 3 1)"
    using demo_ids
    by (auto simp: demo_admissible)
  then show ?thesis
    using mp_add_none_iff [OF inv tx_valid_demo [of 3 1 1]] unfolding demo_pool_def 1
    by (simp add: mp_add_result)
qed

theorem selection_applies_witness:
  "st_error (fst (apply_block_state demo_sodium (mp_chain_state demo_pool)
     (demo_block\<lparr> blk_transactions := mp_select demo_sodium demo_pool 10 \<rparr>))) = SE_none"
proof -
  have "total_balance (mp_chain_state demo_pool) + unat block_subsidy < 2 ^ 64"
    by (simp add: demo_pool_def mp_add_result Mempool_create_def demo_state_def total_balance_def
        std.total_def unat_block_subsidy)
  then show ?thesis
    by (intro selection_applies [OF demo_pool_reachable, where n = 10 and a = "Address (replicate 32 9)"])
      (simp_all add: demo_block_def is_genesis_def demo_pool_transactions demo_tx_def)
qed

theorem mempool_add_correct_witness:
  "fst (mp_add demo_sodium demo_pool (demo_tx 1 9 2)) = ME_none \<and> admissible demo_sodium demo_pool (demo_tx 1 9 2)"
proof -
  have "mp_chain_state demo_pool = demo_state" by (simp add: demo_pool_def mp_add_result Mempool_create_def)
  then have "admissible demo_sodium demo_pool (demo_tx 1 9 2)"
    using demo_ids
    by (auto simp: demo_admissible demo_pool_transactions)
  moreover have "tx_valid demo_sodium (demo_tx 1 9 2)" by (rule tx_valid_demo) simp
  ultimately show ?thesis using mempool_add_correct [OF demo_pool_reachable] by blast
qed

theorem revalidate_correct_witness:
  "mp_revalidate demo_sodium demo_pool (mp_chain_state demo_pool) = (0, demo_pool)"
  using revalidate_correct [OF demo_pool_reachable demo_state_ok] by blast

definition exhausted_pool :: Mempool where
  "exhausted_pool = snd (mp_add demo_sodium
     (Mempool_create [(addr_hash (tx_sender demo_sodium (demo_tx 1 2 0)), \<lparr> balance = 100, next_nonce = - 2 \<rparr>)])
     (demo_tx 1 2 (- 2)))"

lemma last_nonce_refused:
  "tx \<in> set txs \<Longrightarrow> tx_account_nonce tx = u64_max \<Longrightarrow> apply_transactions so k txs acc \<noteq> Inr acc'"
proof (induction so k txs acc rule: apply_transactions.induct)
  case (2 so k t txs acc)
  show ?case
  proof (cases "t = tx")
    case True
    then have "\<exists>e. apply_transaction so t acc = Inl e"
      using 2(3) by (cases acc) (simp add: apply_transaction_def Let_def)
    then show ?thesis by auto
  next
    case False
    then show ?thesis using 2 by (auto split: sum.splits)
  qed
qed simp

lemma selection_takes_all:
  assumes "length (mp_transactions mp) < n" and "tx \<in> set (mp_transactions mp)"
  shows "tx \<in> set (mp_select so mp n)"
proof -
  have "mset (mp_select so mp n) \<subseteq># mset (mp_transactions mp)"
    by (rule mset_subset_by_sender) (rule mp_select_summary)
  then have "length (mp_select so mp n) < n" using assms(1) size_mset_mono by fastforce
  from mp_select_summary(3) [OF this, of "addr_hash (tx_sender so tx)"] have
    "sent_by so (addr_hash (tx_sender so tx)) (mp_select so mp n) = sent_by so (addr_hash (tx_sender so tx)) (mp_transactions mp)" .
  then show ?thesis using assms(2) by (auto simp: sent_by_def filter_eq_Cons_iff dest!: arg_cong [where f = set])
qed

text \<open>
  C26. The last nonce. When pending transactions of a sender take the nonces up to \<open>2 ^ 64 - 2\<close>, a
  reachable pool with room and enough balance admits a new transaction of the sender with nonce
  \<open>2 ^ 64 - 1\<close>. But no block with that transaction, in whatever position and on whatever state,
  passes the state transition; in particular every block that takes the whole pool is refused:
  the guard of \<open>add\<close> compares the number of pending transactions with the distance to the largest
  nonce, where the state transition needs the distance to be larger.
\<close>

theorem last_nonce_admitted_but_not_minable:
  fixes so mp tx
  defines "h \<equiv> addr_hash (tx_sender so tx)"
  defines "pool \<equiv> mp_transactions mp" and "account \<equiv> account_of_hash (mp_chain_state mp) h"
  assumes "mp_reachable so mp" and "tx_valid so tx" and "tx_account_nonce tx = u64_max"
    and "length pool < 10000" and "tx_id so tx \<notin> tx_id so ` set pool"
    and "sent_by so h pool \<noteq> []" and "unat (next_nonce account) + length (sent_by so h pool) = 2 ^ 64 - 1"
    and "debits so h pool + unat (tx_amount tx) + unat (tx_fee tx) \<le> unat (balance account)"
  shows "mp_add so mp tx = (ME_none, mp\<lparr> mp_transactions := pool @ [tx] \<rparr>) \<and>
    (\<forall>st b. tx \<in> set (blk_transactions b) \<longrightarrow> st_error (fst (apply_block_state so st b)) \<noteq> SE_none) \<and>
    (\<forall>n st b. length (pool @ [tx]) < n \<and> blk_transactions b = mp_select so (snd (mp_add so mp tx)) n \<longrightarrow>
       st_error (fst (apply_block_state so st b)) \<noteq> SE_none)"
proof -
  have max: "unat (u64_max :: u64) = 2 ^ 64 - 1" by simp
  have "next_nonce account \<noteq> u64_max" using assms(9,10) max by (cases "sent_by so h pool") auto
  then have "admissible so mp tx"
    using assms(6-8,10,11) max by (simp add: admissible_def Let_def h_def pool_def account_def)
  then have add: "mp_add so mp tx = (ME_none, mp\<lparr> mp_transactions := pool @ [tx] \<rparr>)"
    using mp_add_none_iff [OF mp_reachable_inv [OF assms(4)] assms(5)] mp_add_result [of so mp tx]
    by (simp add: prod_eq_iff pool_def)
  have refused: "st_error (fst (apply_block_state so st b)) \<noteq> SE_none" if "tx \<in> set (blk_transactions b)" for st b
    using last_nonce_refused [OF that assms(6)] apply_transactions_error
    by (auto simp: apply_block_state_def split: option.split sum.split prod.split)
  moreover have "tx \<in> set (mp_select so (mp\<lparr> mp_transactions := pool @ [tx] \<rparr>) n)" if "length (pool @ [tx]) < n" for n
    by (rule selection_takes_all) (use that in simp_all)
  ultimately show ?thesis using add by (auto simp: refused)
qed

theorem last_nonce_admitted_but_not_minable_witness:
  "fst (mp_add demo_sodium exhausted_pool (demo_tx 1 2 (- 1))) = ME_none \<and>
   st_error (fst (apply_block_state demo_sodium (mp_chain_state exhausted_pool)
     (demo_block\<lparr> blk_transactions := mp_select demo_sodium (snd (mp_add demo_sodium exhausted_pool (demo_tx 1 2 (- 1)))) 10 \<rparr>)))
   \<noteq> SE_none"
proof -
  let ?h = "addr_hash (tx_sender demo_sodium (demo_tx 1 2 0))"
  have "std_map_ok [(?h, \<lparr> balance = 100, next_nonce = - 2 \<rparr> :: AccountState)]" by (simp add: std_map_ok_def)
  then have reach: "mp_reachable demo_sodium exhausted_pool"
    unfolding exhausted_pool_def by (intro mp_reachable.intros tx_valid_demo) simp_all
  have pool: "exhausted_pool = \<lparr> mp_chain_state = [(?h, \<lparr> balance = 100, next_nonce = - 2 \<rparr>)],
      mp_transactions = [demo_tx 1 2 (- 2)] \<rparr>" by code_simp
  have ids: "tx_id demo_sodium (demo_tx 1 2 (- 1)) \<noteq> tx_id demo_sodium (demo_tx 1 2 (- 2))" by code_simp
  have start: "tx_account_nonce (demo_tx 1 2 (- 1)) = u64_max" "length (mp_transactions exhausted_pool) < 10000"
      "tx_id demo_sodium (demo_tx 1 2 (- 1)) \<notin> tx_id demo_sodium ` set (mp_transactions exhausted_pool)"
    using ids by (simp_all add: pool demo_tx_simps)
  have pending: "sent_by demo_sodium (addr_hash (tx_sender demo_sodium (demo_tx 1 2 (- 1)))) (mp_transactions exhausted_pool)
      = [demo_tx 1 2 (- 2)]"
    by (simp add: pool demo_tx_simps sent_by_def)
  have account: "account_of_hash (mp_chain_state exhausted_pool) (addr_hash (tx_sender demo_sodium (demo_tx 1 2 (- 1)))) =
      \<lparr> balance = 100, next_nonce = - 2 \<rparr>"
    by (simp add: pool demo_tx_simps account_of_hash_def)
  have facts: "mp_add demo_sodium exhausted_pool (demo_tx 1 2 (- 1)) =
        (ME_none, exhausted_pool\<lparr> mp_transactions := mp_transactions exhausted_pool @ [demo_tx 1 2 (- 1)] \<rparr>) \<and>
      (\<forall>st b. demo_tx 1 2 (- 1) \<in> set (blk_transactions b) \<longrightarrow>
         st_error (fst (apply_block_state demo_sodium st b)) \<noteq> SE_none) \<and>
      (\<forall>n st b. length (mp_transactions exhausted_pool @ [demo_tx 1 2 (- 1)]) < n \<and>
         blk_transactions b = mp_select demo_sodium (snd (mp_add demo_sodium exhausted_pool (demo_tx 1 2 (- 1)))) n \<longrightarrow>
         st_error (fst (apply_block_state demo_sodium st b)) \<noteq> SE_none)"
    by (rule last_nonce_admitted_but_not_minable [OF reach tx_valid_demo start])
      (simp_all add: pending account debits_def, simp_all add: pool demo_tx_simps account_of_hash_def)
  have room: "length (mp_transactions exhausted_pool @ [demo_tx 1 2 (- 1)]) < 10" by (simp add: pool)
  show ?thesis
    by (intro conjI facts [THEN conjunct2, THEN conjunct2, rule_format, of 10] room)
      (simp_all add: conjunct1 [OF facts] del: One_nat_def)
qed

end
