(* ===== verification/BBC_MempoolStore.thy ===== *)
theory BBC_MempoolStore
  imports BBC_Mempool
begin

text \<open>
  The mempool store: \<open>include/bbc/storage/mempool_store.hpp\<close> and
  \<open>src/storage/mempool_store.cpp\<close>. The pool is mirrored in a table of a SQLite database,
  one row per pending transaction in order of arrival. SQLite is a parameter: the outcome of
  its calls, over the documented behaviour of a table with a unique column and of
  transactions (what is not committed leaves the table as it was).
\<close>

section \<open>Data\<close>

datatype MempoolStoreError = MS_none | MS_io_error | MS_database_error

record MempoolStoreAddResult =
  msa_storage_error :: MempoolStoreError
  msa_mempool_error :: MempoolError

definition MempoolStoreAddResult_has_value :: "MempoolStoreAddResult \<Rightarrow> bool" where
  "MempoolStoreAddResult_has_value r \<longleftrightarrow> msa_storage_error r = MS_none \<and> msa_mempool_error r = ME_none"

record MempoolStoreRevalidationResult =
  msv_error :: MempoolStoreError
  msv_removed :: nat

record MempoolStoreReorganizationResult =
  msr_error :: MempoolStoreError
  msr_removed :: nat
  msr_detached :: nat
  msr_restored :: nat
  msr_transactions_to_relay :: "SignedTransaction list"

record MempoolStore =
  ms_data_directory :: string
  ms_mempool :: Mempool

type_synonym MempoolStoreResult = "MempoolStoreError + MempoolStore"

text \<open>
  A row: \<open>transaction_id\<close> and \<open>payload\<close>. The table lists the rows by \<open>arrival_order\<close>,
  which SQLite assigns one above the largest in use, so that a new row is the last.
\<close>

type_synonym pool_table = "(bytes \<times> bytes) list"

record pool_sqlite =
  pq_open_ok :: bool
  pq_schema_ok :: bool
  pq_begin_ok :: bool \<comment> \<open>\<open>BEGIN IMMEDIATE\<close>, and \<open>DELETE\<close> in \<open>rewrite\<close>\<close>
  pq_prepare_ok :: bool
  pq_insert_ok :: "nat \<Rightarrow> bool" \<comment> \<open>the inserts are numbered in their order\<close>
  pq_commit_ok :: bool
  pq_query_ok :: bool \<comment> \<open>preparing the query\<close>
  pq_rows_ok :: bool \<comment> \<open>stepping ends in \<open>SQLITE_DONE\<close>\<close>

definition pool_sqlite_ok :: pool_sqlite where
  "pool_sqlite_ok = \<lparr> pq_open_ok = True, pq_schema_ok = True, pq_begin_ok = True, pq_prepare_ok = True,
     pq_insert_ok = (\<lambda>n. True), pq_commit_ok = True, pq_query_ok = True, pq_rows_ok = True \<rparr>"

section \<open>Operations\<close>

definition insert_transaction ::
    "sodium \<Rightarrow> pool_sqlite \<Rightarrow> nat \<Rightarrow> pool_table \<Rightarrow> SignedTransaction \<Rightarrow> pool_table option" where
  "insert_transaction so sq n table tx =
     (let id = tx_id so tx; payload = tx_serialize tx
      in if \<not> pq_insert_ok sq n \<or> id \<in> fst ` set table then None else Some (table @ [(id, payload)]))"

fun insert_transactions ::
    "sodium \<Rightarrow> pool_sqlite \<Rightarrow> nat \<Rightarrow> SignedTransaction list \<Rightarrow> pool_table \<Rightarrow> pool_table option" where
  "insert_transactions so sq n [] table = Some table"
| "insert_transactions so sq n (pending # rest) table =
     (case insert_transaction so sq n table pending of
        None \<Rightarrow> None
      | Some table \<Rightarrow> insert_transactions so sq (Suc n) rest table)"

definition rewrite :: "sodium \<Rightarrow> pool_sqlite \<Rightarrow> pool_table \<Rightarrow> Mempool \<Rightarrow> MempoolStoreError \<times> pool_table" where
  "rewrite so sq table mp =
     (if \<not> pq_open_ok sq \<or> \<not> pq_schema_ok sq \<or> \<not> pq_begin_ok sq then (MS_database_error, table)
      else if \<not> pq_prepare_ok sq then (MS_database_error, table)
      else case insert_transactions so sq 0 (mp_transactions mp) [] of
        None \<Rightarrow> (MS_database_error, table)
      | Some table' \<Rightarrow>
          if \<not> pq_commit_ok sq then (MS_database_error, table) else (MS_none, table'))"

definition append_transaction ::
    "sodium \<Rightarrow> pool_sqlite \<Rightarrow> pool_table \<Rightarrow> SignedTransaction \<Rightarrow> MempoolStoreError \<times> pool_table" where
  "append_transaction so sq table tx =
     (if \<not> pq_open_ok sq \<or> \<not> pq_schema_ok sq \<or> \<not> pq_begin_ok sq then (MS_database_error, table)
      else if \<not> pq_prepare_ok sq then (MS_database_error, table)
      else case insert_transaction so sq 0 table tx of
        None \<Rightarrow> (MS_database_error, table)
      | Some table' \<Rightarrow>
          if \<not> pq_commit_ok sq then (MS_database_error, table) else (MS_none, table'))"

text \<open>The loop of \<open>open\<close>: SQLite gives a null pointer for an empty payload.\<close>

fun load_rows :: "sodium \<Rightarrow> pool_table \<Rightarrow> Mempool \<Rightarrow> Mempool" where
  "load_rows so [] loaded = loaded"
| "load_rows so ((transaction_id, payload) # rest) loaded =
     (if payload = [] then load_rows so rest loaded
      else case deserialize_transaction so payload of
        Inl e \<Rightarrow> load_rows so rest loaded
      | Inr tx \<Rightarrow> load_rows so rest (snd (mp_add so loaded tx)))"

text \<open>\<open>directory_ok\<close>: \<open>create_directories\<close> succeeds. \<open>sq'\<close> is what SQLite does for \<open>rewrite\<close>.\<close>

definition ms_open ::
    "sodium \<Rightarrow> bool \<Rightarrow> pool_sqlite \<Rightarrow> pool_sqlite \<Rightarrow> pool_table \<Rightarrow> string \<Rightarrow> ChainState \<Rightarrow>
       MempoolStoreResult \<times> pool_table" where
  "ms_open so directory_ok sq sq' table data_directory chain_state =
     (if \<not> directory_ok then (Inl MS_io_error, table)
      else if \<not> pq_open_ok sq \<or> \<not> pq_schema_ok sq then (Inl MS_database_error, table)
      else if \<not> pq_query_ok sq then (Inl MS_database_error, table)
      else
        (let loaded = load_rows so table (Mempool_create chain_state)
         in if \<not> pq_rows_ok sq then (Inl MS_database_error, table)
            else
              (let (storage_error, table) = rewrite so sq' table loaded
               in if storage_error \<noteq> MS_none then (Inl MS_database_error, table)
                  else (Inr \<lparr> ms_data_directory = data_directory, ms_mempool = loaded \<rparr>, table))))"

definition ms_add ::
    "sodium \<Rightarrow> pool_sqlite \<Rightarrow> pool_table \<Rightarrow> MempoolStore \<Rightarrow> SignedTransaction \<Rightarrow>
       MempoolStoreAddResult \<times> pool_table \<times> MempoolStore" where
  "ms_add so sq table ms tx =
     (let (validation_error, next) = mp_add so (ms_mempool ms) tx
      in if validation_error \<noteq> ME_none
         then (\<lparr> msa_storage_error = MS_none, msa_mempool_error = validation_error \<rparr>, table, ms)
         else
           (let (storage_error, table) = append_transaction so sq table (last (mp_transactions next))
            in if storage_error \<noteq> MS_none
               then (\<lparr> msa_storage_error = storage_error, msa_mempool_error = ME_none \<rparr>, table, ms)
               else (\<lparr> msa_storage_error = MS_none, msa_mempool_error = ME_none \<rparr>, table,
                     ms\<lparr> ms_mempool := next \<rparr>)))"

definition ms_revalidate ::
    "sodium \<Rightarrow> pool_sqlite \<Rightarrow> pool_table \<Rightarrow> MempoolStore \<Rightarrow> ChainState \<Rightarrow>
       MempoolStoreRevalidationResult \<times> pool_table \<times> MempoolStore" where
  "ms_revalidate so sq table ms chain_state =
     (let (removed, next) = mp_revalidate so (ms_mempool ms) chain_state;
          (storage_error, table) = rewrite so sq table next
      in if storage_error \<noteq> MS_none then (\<lparr> msv_error = storage_error, msv_removed = 0 \<rparr>, table, ms)
         else (\<lparr> msv_error = MS_none, msv_removed = removed \<rparr>, table, ms\<lparr> ms_mempool := next \<rparr>))"

text \<open>
  The loops of \<open>reconcile_reorganization\<close>: over the transactions of the detached blocks,
  with \<open>detached\<close>, \<open>restored\<close> and \<open>transactions_to_relay\<close>, and over the pending ones.
\<close>

fun restore_transactions ::
    "sodium \<Rightarrow> SignedTransaction list \<Rightarrow> Mempool \<times> nat \<times> nat \<times> SignedTransaction list \<Rightarrow>
       Mempool \<times> nat \<times> nat \<times> SignedTransaction list" where
  "restore_transactions so [] s = s"
| "restore_transactions so (transaction # rest) (next, detached, restored, to_relay) =
     (let (e, next') = mp_add so next transaction
      in restore_transactions so rest
           (if e = ME_none then (next', detached + 1, restored + 1, to_relay @ [transaction])
            else (next', detached + 1, restored, to_relay)))"

fun restore_blocks ::
    "sodium \<Rightarrow> Block list \<Rightarrow> Mempool \<times> nat \<times> nat \<times> SignedTransaction list \<Rightarrow>
       Mempool \<times> nat \<times> nat \<times> SignedTransaction list" where
  "restore_blocks so [] s = s"
| "restore_blocks so (block # rest) s = restore_blocks so rest (restore_transactions so (blk_transactions block) s)"

fun retain_transactions :: "sodium \<Rightarrow> SignedTransaction list \<Rightarrow> Mempool \<times> nat \<Rightarrow> Mempool \<times> nat" where
  "retain_transactions so [] s = s"
| "retain_transactions so (transaction # rest) (next, retained) =
     (let (e, next') = mp_add so next transaction
      in retain_transactions so rest (next', if e = ME_none then retained + 1 else retained))"

definition ms_reconcile_reorganization ::
    "sodium \<Rightarrow> pool_sqlite \<Rightarrow> pool_table \<Rightarrow> MempoolStore \<Rightarrow> ChainState \<Rightarrow> Block list \<Rightarrow>
       MempoolStoreReorganizationResult \<times> pool_table \<times> MempoolStore" where
  "ms_reconcile_reorganization so sq table ms chain_state detached_blocks =
     (let (next, detached, restored, transactions_to_relay) =
            restore_blocks so detached_blocks (Mempool_create chain_state, 0, 0, []);
          (next, retained) = retain_transactions so (mp_transactions (ms_mempool ms)) (next, 0);
          removed = mp_size (ms_mempool ms) - retained;
          (storage_error, table) = rewrite so sq table next
      in if storage_error \<noteq> MS_none
         then (\<lparr> msr_error = storage_error, msr_removed = 0, msr_detached = 0, msr_restored = 0,
                 msr_transactions_to_relay = [] \<rparr>, table, ms)
         else (\<lparr> msr_error = MS_none, msr_removed = removed, msr_detached = detached, msr_restored = restored,
                 msr_transactions_to_relay = transactions_to_relay \<rparr>, table, ms\<lparr> ms_mempool := next \<rparr>))"

fun mempool_store_error_message :: "MempoolStoreError \<Rightarrow> string" where
  "mempool_store_error_message MS_none = ''no error''"
| "mempool_store_error_message MS_io_error = ''mempool directory I/O failed''"
| "mempool_store_error_message MS_database_error = ''mempool database operation failed''"

section \<open>The table mirrors the pool\<close>

definition pool_rows :: "sodium \<Rightarrow> SignedTransaction list \<Rightarrow> pool_table" where
  "pool_rows so txs = map (\<lambda>tx. (tx_id so tx, tx_serialize tx)) txs"

lemma pool_rows_simps [simp]:
  "pool_rows so [] = []" "pool_rows so (tx # txs) = (tx_id so tx, tx_serialize tx) # pool_rows so txs"
  "pool_rows so (xs @ ys) = pool_rows so xs @ pool_rows so ys"
  "fst ` set (pool_rows so txs) = tx_id so ` set txs"
  by (auto simp: pool_rows_def image_image)

definition ms_ok :: "sodium \<Rightarrow> pool_table \<Rightarrow> MempoolStore \<Rightarrow> bool" where
  "ms_ok so table ms \<longleftrightarrow> mp_inv so (ms_mempool ms) \<and> table = pool_rows so (mp_transactions (ms_mempool ms))"

lemma insert_transactions_Some:
  "insert_transactions so sq n txs table = Some table' \<Longrightarrow> table' = table @ pool_rows so txs"
  by (induction so sq n txs table rule: insert_transactions.induct)
    (auto simp: insert_transaction_def Let_def split: option.splits if_splits)

lemma insert_transactions_ok:
  assumes "distinct (map (tx_id so) txs)" and "tx_id so ` set txs \<inter> fst ` set table = {}"
  shows "insert_transactions so pool_sqlite_ok n txs table = Some (table @ pool_rows so txs)"
  using assms
proof (induction txs arbitrary: n table)
  case (Cons tx txs)
  then show ?case
    using Cons.IH [of "table @ [(tx_id so tx, tx_serialize tx)]" "Suc n"]
    by (auto simp: insert_transaction_def pool_sqlite_ok_def Let_def)
qed simp

text \<open>A transaction of the database either takes effect in full or not at all.\<close>

lemma rewrite_cases:
  "rewrite so sq table mp = (MS_none, pool_rows so (mp_transactions mp)) \<or>
   rewrite so sq table mp = (MS_database_error, table)"
  by (auto simp: rewrite_def dest!: insert_transactions_Some split: option.splits)

lemma rewrite_ok:
  "mp_inv so mp \<Longrightarrow> rewrite so pool_sqlite_ok table mp = (MS_none, pool_rows so (mp_transactions mp))"
  using mp_invD(4) [of so mp] insert_transactions_ok [of so "mp_transactions mp" "[]" 0]
  by (simp add: rewrite_def) (simp add: pool_sqlite_ok_def)

lemma append_transaction_cases:
  "append_transaction so sq table tx = (MS_none, table @ [(tx_id so tx, tx_serialize tx)]) \<or>
   append_transaction so sq table tx = (MS_database_error, table)"
  by (auto simp: append_transaction_def insert_transaction_def Let_def)

section \<open>Loading\<close>

abbreviation offer :: "sodium \<Rightarrow> SignedTransaction list \<Rightarrow> Mempool \<Rightarrow> Mempool" where
  "offer so \<equiv> fold (\<lambda>pending mp. snd (mp_add so mp pending))"

text \<open>The transactions a table contains.\<close>

definition decoded_rows :: "sodium \<Rightarrow> pool_table \<Rightarrow> SignedTransaction list" where
  "decoded_rows so table =
     concat (map (\<lambda>row. case deserialize_transaction so (snd row) of Inl e \<Rightarrow> [] | Inr tx \<Rightarrow> [tx]) table)"

lemma deserialize_empty: "deserialize_transaction so [] = Inl TE_invalid_size"
  by (simp add: deserialize_transaction_def signed_transaction_size_def)

lemma load_rows_offer: "load_rows so table mp = offer so (decoded_rows so table) mp"
  by (induction so table mp rule: load_rows.induct)
    (auto simp: decoded_rows_def deserialize_empty split: sum.split)

lemma decoded_rows_valid: "list_all (tx_valid so) (decoded_rows so table)"
  by (induction table) (auto simp: decoded_rows_def tx_codec.decode_iff split: sum.split)

lemma decoded_pool_rows:
  "list_all (tx_valid so) txs \<Longrightarrow> decoded_rows so (pool_rows so txs) = txs"
  by (induction txs) (simp_all add: decoded_rows_def tx_codec.decode_encode)

lemma offer_revalidate:
  "offer so (mp_transactions mp) (Mempool_create st) = snd (mp_revalidate so mp st)"
  by (simp add: mp_revalidate_def Mempool_create_def Let_def)

section \<open>Reorganization\<close>

lemma restore_transactions_result:
  assumes "restore_transactions so txs (mp, d, r, relay) = (mp', d', r', relay')"
  shows "mp' = offer so txs mp \<and> d' = d + length txs \<and>
    (\<exists>zs. subseq zs txs \<and> mp_transactions mp' = mp_transactions mp @ zs \<and> relay' = relay @ zs \<and> r' = r + length zs)"
  using assms
proof (induction txs arbitrary: mp d r relay)
  case (Cons tx txs)
  show ?case
  proof (cases "fst (mp_add so mp tx) = ME_none")
    case True
    with Cons.prems have "restore_transactions so txs (snd (mp_add so mp tx), d + 1, r + 1, relay @ [tx]) = (mp', d', r', relay')"
      by (cases "mp_add so mp tx") simp
    from Cons.IH [OF this] obtain zs where "subseq zs txs" "mp' = offer so (tx # txs) mp" "d' = d + length (tx # txs)"
      "mp_transactions mp' = mp_transactions mp @ tx # zs" "relay' = relay @ tx # zs" "r' = r + length (tx # zs)"
      using True by (auto simp: mp_add_result [of so mp tx])
    then show ?thesis by (intro conjI exI [of _ "tx # zs"]) auto
  next
    case False
    with Cons.prems have "restore_transactions so txs (snd (mp_add so mp tx), d + 1, r, relay) = (mp', d', r', relay')"
      by (cases "mp_add so mp tx") simp
    from Cons.IH [OF this] show ?thesis using False by (auto simp: mp_add_result [of so mp tx])
  qed
qed auto

lemma restore_blocks_concat:
  "restore_blocks so bs s = restore_transactions so (concat (map blk_transactions bs)) s"
proof (induction bs arbitrary: s)
  case (Cons b bs)
  have "restore_transactions so (xs @ ys) s = restore_transactions so ys (restore_transactions so xs s)" for xs ys
    by (induction so xs s rule: restore_transactions.induct) (auto simp: Let_def split: prod.split)
  then show ?case using Cons.IH by simp
qed simp

lemma retain_transactions_result:
  assumes "retain_transactions so txs (mp, r) = (mp', r')"
  shows "mp' = offer so txs mp \<and> (\<exists>zs. subseq zs txs \<and> mp_transactions mp' = mp_transactions mp @ zs \<and> r' = r + length zs)"
  using assms
proof (induction txs arbitrary: mp r)
  case (Cons tx txs)
  show ?case
  proof (cases "fst (mp_add so mp tx) = ME_none")
    case True
    with Cons.prems have "retain_transactions so txs (snd (mp_add so mp tx), r + 1) = (mp', r')"
      by (cases "mp_add so mp tx") simp
    from Cons.IH [OF this] obtain zs where "subseq zs txs" "mp' = offer so (tx # txs) mp"
      "mp_transactions mp' = mp_transactions mp @ tx # zs" "r' = r + length (tx # zs)"
      using True by (auto simp: mp_add_result [of so mp tx])
    then show ?thesis by (intro conjI exI [of _ "tx # zs"]) auto
  next
    case False
    with Cons.prems have "retain_transactions so txs (snd (mp_add so mp tx), r) = (mp', r')"
      by (cases "mp_add so mp tx") simp
    from Cons.IH [OF this] show ?thesis using False by (auto simp: mp_add_result [of so mp tx])
  qed
qed auto

section \<open>The life of a store\<close>

lemma offer_inv:
  assumes "std_map_ok st" and "list_all (tx_valid so) txs"
  shows "mp_inv so (offer so txs (Mempool_create st))" "mp_chain_state (offer so txs (Mempool_create st)) = st"
  using fold_mp_add [OF Mempool_create_inv [OF assms(1)] assms(2)] by (simp_all add: Mempool_create_def)

lemma ms_open_ok:
  assumes "ms_open so d sq sq' table dir st = (Inr ms, table')" and "std_map_ok st"
  shows "ms_ok so table' ms"
  using assms offer_inv(1) [OF assms(2) decoded_rows_valid, of so table]
    rewrite_cases [of so sq' table "load_rows so table (Mempool_create st)"]
  by (auto simp: ms_open_def ms_ok_def load_rows_offer Let_def split: if_splits)

lemma ms_open_chain_state:
  assumes "ms_open so d sq sq' table dir st = (Inr ms, table')" and "std_map_ok st"
  shows "mp_chain_state (ms_mempool ms) = st"
  using assms offer_inv(2) [OF assms(2) decoded_rows_valid, of so table]
  by (auto simp: ms_open_def load_rows_offer Let_def split: if_splits prod.splits)

lemma ms_add_ok:
  assumes "ms_ok so table ms" and "tx_valid so tx" and "ms_add so sq table ms tx = (r, table', ms')"
  shows "ms_ok so table' ms'"
proof (cases "fst (mp_add so (ms_mempool ms) tx) = ME_none")
  case True
  then have added: "mp_add so (ms_mempool ms) tx =
      (ME_none, (ms_mempool ms)\<lparr> mp_transactions := mp_transactions (ms_mempool ms) @ [tx] \<rparr>)"
    using mp_add_result [of so "ms_mempool ms" tx] by (simp add: prod_eq_iff)
  have "mp_inv so (snd (mp_add so (ms_mempool ms) tx))"
    using assms(1,2) by (simp add: ms_ok_def mp_add_inv)
  then show ?thesis
    using assms(1,3) append_transaction_cases [of so sq table tx]
    by (auto simp: ms_add_def ms_ok_def added split: if_splits)
next
  case False
  then show ?thesis using assms(1,3) by (auto simp: ms_add_def case_prod_beta split: if_splits)
qed

lemma ms_revalidate_ok:
  assumes "ms_ok so table ms" and "std_map_ok st" and "ms_revalidate so sq table ms st = (r, table', ms')"
  shows "ms_ok so table' ms'"
proof -
  have "mp_inv so (snd (mp_revalidate so (ms_mempool ms) st))"
    using assms(1,2) mp_invD(3) by (intro mp_revalidate_fold) (auto simp: ms_ok_def)
  then show ?thesis
    using assms rewrite_cases [of so sq table "snd (mp_revalidate so (ms_mempool ms) st)"]
    by (auto simp: ms_revalidate_def ms_ok_def case_prod_beta Let_def split: if_splits)
qed

lemma ms_reconcile_result:
  assumes "ms_reconcile_reorganization so sq table ms st bs = (r, table', ms')"
  shows "msr_error r \<noteq> MS_none \<and> table' = table \<and> ms' = ms \<or>
    msr_error r = MS_none \<and> ms_data_directory ms' = ms_data_directory ms \<and>
    table' = pool_rows so (mp_transactions (ms_mempool ms')) \<and>
    ms_mempool ms' = offer so (concat (map blk_transactions bs) @ mp_transactions (ms_mempool ms)) (Mempool_create st) \<and>
    (\<exists>restored kept. subseq restored (concat (map blk_transactions bs)) \<and>
      subseq kept (mp_transactions (ms_mempool ms)) \<and>
      mp_transactions (ms_mempool ms') = restored @ kept \<and>
      msr_transactions_to_relay r = restored \<and> msr_restored r = length restored \<and>
      msr_detached r = length (concat (map blk_transactions bs)) \<and>
      msr_removed r = mp_size (ms_mempool ms) - length kept)"
proof -
  let ?txs = "concat (map blk_transactions bs)" and ?old = "mp_transactions (ms_mempool ms)"
  obtain mp1 d1 r1 relay1 where 1: "restore_transactions so ?txs (Mempool_create st, 0, 0, []) = (mp1, d1, r1, relay1)"
    by (metis prod_cases4)
  obtain mp2 r2 where 2: "retain_transactions so ?old (mp1, 0) = (mp2, r2)" by (rule prod.exhaust)
  obtain zs where zs: "mp1 = offer so ?txs (Mempool_create st)" "d1 = length ?txs" "subseq zs ?txs"
    "mp_transactions mp1 = zs" "relay1 = zs" "r1 = length zs"
    using restore_transactions_result [OF 1] by (auto simp: Mempool_create_def)
  obtain ys where ys: "mp2 = offer so ?old mp1" "subseq ys ?old" "mp_transactions mp2 = zs @ ys" "r2 = length ys"
    using retain_transactions_result [OF 2] zs(4) by auto
  have eq: "ms_reconcile_reorganization so sq table ms st bs =
      (let (e, table') = rewrite so sq table mp2
       in if e \<noteq> MS_none
          then (\<lparr> msr_error = e, msr_removed = 0, msr_detached = 0, msr_restored = 0,
                 msr_transactions_to_relay = [] \<rparr>, table', ms)
          else (\<lparr> msr_error = MS_none, msr_removed = mp_size (ms_mempool ms) - r2, msr_detached = d1,
                 msr_restored = r1, msr_transactions_to_relay = relay1 \<rparr>, table', ms\<lparr> ms_mempool := mp2 \<rparr>))"
    by (simp add: ms_reconcile_reorganization_def restore_blocks_concat 1 2)
  from rewrite_cases [of so sq table mp2] show ?thesis
  proof
    assume "rewrite so sq table mp2 = (MS_none, pool_rows so (mp_transactions mp2))"
    with eq assms have "r = \<lparr> msr_error = MS_none, msr_removed = mp_size (ms_mempool ms) - length ys,
        msr_detached = length ?txs, msr_restored = length zs, msr_transactions_to_relay = zs \<rparr>"
      "table' = pool_rows so (mp_transactions mp2)" "ms' = ms\<lparr> ms_mempool := mp2 \<rparr>"
      by (simp_all add: zs(2,5,6) ys(4))
    then show ?thesis using zs ys by auto
  next
    assume "rewrite so sq table mp2 = (MS_database_error, table)"
    with eq assms show ?thesis by auto
  qed
qed

text \<open>A store is opened on whatever the database holds and then used.\<close>

inductive ms_run :: "sodium \<Rightarrow> pool_table \<Rightarrow> MempoolStore \<Rightarrow> bool" for so where
  opened: "std_map_ok st \<Longrightarrow> ms_open so d sq sq' table dir st = (Inr ms, table') \<Longrightarrow> ms_run so table' ms"
| added: "ms_run so table ms \<Longrightarrow> tx_valid so tx \<Longrightarrow> ms_add so sq table ms tx = (ra, table', ms') \<Longrightarrow>
    ms_run so table' ms'"
| revalidated: "ms_run so table ms \<Longrightarrow> std_map_ok st \<Longrightarrow> ms_revalidate so sq table ms st = (rv, table', ms') \<Longrightarrow>
    ms_run so table' ms'"
| reconciled: "ms_run so table ms \<Longrightarrow> std_map_ok st \<Longrightarrow> list_all (tx_valid so) (concat (map blk_transactions bs)) \<Longrightarrow>
    ms_reconcile_reorganization so sq table ms st bs = (rr, table', ms') \<Longrightarrow> ms_run so table' ms'"

lemma ms_reconcile_ok:
  assumes "ms_ok so table ms" and "std_map_ok st" and "list_all (tx_valid so) (concat (map blk_transactions bs))"
    and "ms_reconcile_reorganization so sq table ms st bs = (rr, table', ms')"
  shows "ms_ok so table' ms'"
  using ms_reconcile_result [OF assms(4)]
proof (elim disjE conjE)
  assume new: "ms_mempool ms' = offer so (concat (map blk_transactions bs) @ mp_transactions (ms_mempool ms)) (Mempool_create st)"
    "table' = pool_rows so (mp_transactions (ms_mempool ms'))"
  have "list_all (tx_valid so) (concat (map blk_transactions bs) @ mp_transactions (ms_mempool ms))"
    using assms(1,3) mp_invD(3) by (simp add: ms_ok_def)
  then have "mp_inv so (ms_mempool ms')" unfolding new(1) by (rule offer_inv [OF assms(2)])
  with new(2) show ?thesis by (simp add: ms_ok_def)
qed (use assms(1) in simp)

lemma ms_reconcile_no_error:
  assumes "ms_ok so table ms" and "std_map_ok st" and "list_all (tx_valid so) (concat (map blk_transactions bs))"
    and "ms_reconcile_reorganization so pool_sqlite_ok table ms st bs = (rr, table', ms')"
  shows "msr_error rr = MS_none"
proof -
  let ?txs = "concat (map blk_transactions bs)" and ?old = "mp_transactions (ms_mempool ms)"
  obtain mp1 d1 r1 relay1 where 1: "restore_transactions so ?txs (Mempool_create st, 0, 0, []) = (mp1, d1, r1, relay1)"
    by (metis prod_cases4)
  obtain mp2 r2 where 2: "retain_transactions so ?old (mp1, 0) = (mp2, r2)" by (rule prod.exhaust)
  have "mp2 = offer so (?txs @ ?old) (Mempool_create st)"
    using restore_transactions_result [OF 1] retain_transactions_result [OF 2] by simp
  moreover have "list_all (tx_valid so) (?txs @ ?old)" using assms(1,3) mp_invD(3) by (simp add: ms_ok_def)
  ultimately have "mp_inv so mp2" using offer_inv(1) [OF assms(2)] by blast
  from rewrite_ok [OF this] show ?thesis
    using assms(4) by (auto simp: ms_reconcile_reorganization_def restore_blocks_concat 1 2)
qed

lemma ms_run_ok: "ms_run so table ms \<Longrightarrow> ms_ok so table ms"
  by (induction rule: ms_run.induct)
    (blast intro: ms_open_ok ms_add_ok ms_revalidate_ok ms_reconcile_ok)+

section \<open>Properties\<close>

text \<open>
  C30. The database mirrors the pool. After any history of opening (on any table contents),
  adding, revalidating and reorganizing, with any outcome of the SQLite calls, the pool
  satisfies its invariant and the rows are exactly its transactions in order. Opening the
  database again against a chain state yields the pool revalidated against that state, which
  for the same state is the same pool.\<close>

theorem mempool_store_mirrors:
  assumes "ms_run so table ms" and "std_map_ok st"
  shows "mp_inv so (ms_mempool ms) \<and> table = pool_rows so (mp_transactions (ms_mempool ms)) \<and>
    ms_open so True pool_sqlite_ok pool_sqlite_ok table dir st =
      (Inr \<lparr> ms_data_directory = dir, ms_mempool = snd (mp_revalidate so (ms_mempool ms) st) \<rparr>,
       pool_rows so (mp_transactions (snd (mp_revalidate so (ms_mempool ms) st)))) \<and>
    snd (mp_revalidate so (ms_mempool ms) (mp_chain_state (ms_mempool ms))) = ms_mempool ms"
proof -
  have ok: "mp_inv so (ms_mempool ms)" "table = pool_rows so (mp_transactions (ms_mempool ms))"
    using ms_run_ok [OF assms(1)] by (simp_all add: ms_ok_def)
  let ?mp = "snd (mp_revalidate so (ms_mempool ms) st)"
  have "load_rows so table (Mempool_create st) = ?mp"
    unfolding load_rows_offer ok(2) decoded_pool_rows [OF mp_invD(3) [OF ok(1)]] by (rule offer_revalidate)
  moreover have "mp_inv so ?mp" using mp_invD(3) [OF ok(1)] assms(2) by (rule mp_revalidate_fold)
  moreover note rewrite_ok [OF this, of table]
  moreover have "snd (mp_revalidate so (ms_mempool ms) (mp_chain_state (ms_mempool ms))) = ms_mempool ms"
  proof -
    have eq: "Mempool_create (mp_chain_state (ms_mempool ms)) = (ms_mempool ms)\<lparr> mp_transactions := [] \<rparr>"
      "(ms_mempool ms)\<lparr> mp_transactions := mp_transactions (ms_mempool ms) \<rparr> = ms_mempool ms"
      by (simp_all add: Mempool_create_def)
    show ?thesis
      unfolding offer_revalidate [symmetric] eq(1)
      using fold_mp_add_keeps [where so = so and mp = "ms_mempool ms" and txs = "mp_transactions (ms_mempool ms)"] ok(1) unfolding eq(2) .
  qed
  ultimately show ?thesis
    using ok by (simp add: ms_open_def Let_def) (simp add: pool_sqlite_ok_def)
qed

text \<open>
  C31. A reorganization gives back transactions. \<open>reconcile_reorganization\<close> either fails and
  changes neither the table nor the pool, or it offers the transactions of the detached
  blocks and then the pending ones to an empty pool over the new state. The result is a pool
  in order for that state; the detached transactions it took back come first, in their order,
  and are exactly the ones to relay; the pending ones it kept follow in their order; and the
  counters say how many were detached, restored and removed.\<close>

theorem reorganization_restores:
  assumes "ms_run so table ms" and "std_map_ok st"
    and "list_all (tx_valid so) (concat (map blk_transactions bs))"
    and "ms_reconcile_reorganization so sq table ms st bs = (r, table', ms')"
  shows "(if msr_error r \<noteq> MS_none then table' = table \<and> ms' = ms
    else mp_inv so (ms_mempool ms') \<and> mp_chain_state (ms_mempool ms') = st \<and>
      table' = pool_rows so (mp_transactions (ms_mempool ms')) \<and>
      ms_mempool ms' = fold (\<lambda>tx mp. snd (mp_add so mp tx))
        (concat (map blk_transactions bs) @ mp_transactions (ms_mempool ms)) (Mempool_create st) \<and>
      (\<exists>restored kept. mp_transactions (ms_mempool ms') = restored @ kept \<and>
        subseq restored (concat (map blk_transactions bs)) \<and> subseq kept (mp_transactions (ms_mempool ms)) \<and>
        msr_transactions_to_relay r = restored \<and> msr_restored r = length restored \<and>
        msr_detached r = length (concat (map blk_transactions bs)) \<and>
        msr_removed r + length kept = mp_size (ms_mempool ms)))"
proof -
  have ok: "ms_ok so table ms" using assms(1) by (rule ms_run_ok)
  have v: "list_all (tx_valid so) (concat (map blk_transactions bs) @ mp_transactions (ms_mempool ms))"
    using ok assms(3) mp_invD(3) by (simp add: ms_ok_def)
  from ms_reconcile_result [OF assms(4)] show ?thesis
  proof (elim disjE conjE exE)
    fix restored kept
    assume "subseq kept (mp_transactions (ms_mempool ms))"
    then have "length kept \<le> mp_size (ms_mempool ms)" by (simp add: mp_size_def list_emb_length)
    moreover assume "msr_error r = MS_none" "table' = pool_rows so (mp_transactions (ms_mempool ms'))"
      "ms_mempool ms' = offer so (concat (map blk_transactions bs) @ mp_transactions (ms_mempool ms)) (Mempool_create st)"
      "subseq restored (concat (map blk_transactions bs))" "subseq kept (mp_transactions (ms_mempool ms))"
      "mp_transactions (ms_mempool ms') = restored @ kept" "msr_transactions_to_relay r = restored"
      "msr_restored r = length restored" "msr_detached r = length (concat (map blk_transactions bs))"
      "msr_removed r = mp_size (ms_mempool ms) - length kept"
    moreover note offer_inv [OF assms(2) v]
    ultimately show ?thesis by (auto simp del: fold_append)
  qed simp
qed

section \<open>An example\<close>

definition demo_ms :: MempoolStore where
  "demo_ms = \<lparr> ms_data_directory = ''d'', ms_mempool = demo_pool \<rparr>"

lemma demo_ms_run: "ms_run demo_sodium (pool_rows demo_sodium [demo_tx 1 2 0, demo_tx 1 3 1]) demo_ms"
proof -
  have inv: "mp_inv demo_sodium demo_pool" by (rule mp_reachable_inv [OF demo_pool_reachable])
  have state: "mp_chain_state demo_pool = demo_state" by (simp add: demo_pool_def mp_add_result Mempool_create_def)
  have empty: "Mempool_create demo_state = demo_pool\<lparr> mp_transactions := [] \<rparr>"
    "demo_pool\<lparr> mp_transactions := mp_transactions demo_pool \<rparr> = demo_pool"
    by (simp_all add: Mempool_create_def state)
  have "load_rows demo_sodium (pool_rows demo_sodium (mp_transactions demo_pool)) (Mempool_create demo_state) = demo_pool"
    unfolding load_rows_offer decoded_pool_rows [OF mp_invD(3) [OF inv]] empty(1)
    using fold_mp_add_keeps [where so = demo_sodium and mp = demo_pool and txs = "mp_transactions demo_pool"] inv
    unfolding empty(2) .
  then have "ms_open demo_sodium True pool_sqlite_ok pool_sqlite_ok (pool_rows demo_sodium (mp_transactions demo_pool)) ''d''
      demo_state = (Inr demo_ms, pool_rows demo_sodium (mp_transactions demo_pool))"
    using rewrite_ok [OF inv] by (simp add: ms_open_def demo_ms_def Let_def) (simp add: pool_sqlite_ok_def)
  then show ?thesis
    unfolding demo_pool_transactions using demo_state_ok by (rule ms_run.opened [rotated])
qed

theorem mempool_store_mirrors_witness:
  "ms_open demo_sodium True pool_sqlite_ok pool_sqlite_ok
     (pool_rows demo_sodium [demo_tx 1 2 0, demo_tx 1 3 1]) ''d'' [] =
   (Inr \<lparr> ms_data_directory = ''d'', ms_mempool = snd (mp_revalidate demo_sodium demo_pool []) \<rparr>,
    pool_rows demo_sodium (mp_transactions (snd (mp_revalidate demo_sodium demo_pool []))))"
proof -
  have "std_map_ok ([] :: ChainState)" "ms_mempool demo_ms = demo_pool" by (simp_all add: std_map_ok_def demo_ms_def)
  then show ?thesis using mempool_store_mirrors [OF demo_ms_run, of "[]" "''d''"] by metis
qed

theorem reorganization_restores_witness:
  "let (r, table', ms') = ms_reconcile_reorganization demo_sodium pool_sqlite_ok
       (pool_rows demo_sodium [demo_tx 1 2 0, demo_tx 1 3 1]) demo_ms demo_state
       [demo_block\<lparr> blk_transactions := [demo_tx 1 2 0] \<rparr>]
   in if msr_error r \<noteq> MS_none then ms' = demo_ms
      else mp_inv demo_sodium (ms_mempool ms') \<and> msr_detached r = 1"
proof -
  let ?bs = "[demo_block\<lparr> blk_transactions := [demo_tx 1 2 0] \<rparr>]"
  have v: "list_all (tx_valid demo_sodium) (concat (map blk_transactions ?bs))" by (simp add: tx_valid_demo)
  obtain r table' ms' where eq: "ms_reconcile_reorganization demo_sodium pool_sqlite_ok
      (pool_rows demo_sodium [demo_tx 1 2 0, demo_tx 1 3 1]) demo_ms demo_state ?bs = (r, table', ms')"
    by (metis prod_cases3)
  show ?thesis
    using reorganization_restores [OF demo_ms_run demo_state_ok v eq] unfolding eq by (auto split: if_splits)
qed

end
