(* ===== verification/BBC_Protocol.thy ===== *)
theory BBC_Protocol
  imports BBC_Block
begin

text \<open>
  The frames and messages of the peer protocol: \<open>include/bbc/network/protocol.hpp\<close> and
  \<open>src/network/protocol.cpp\<close>. A frame is a header of 44 bytes (network magic, wire version,
  message type, payload length, payload checksum) and a payload whose size must suit the
  message type.
\<close>

section \<open>Constants and data\<close>

definition frame_header_size :: nat where "frame_header_size = 44"
definition maximum_frame_payload_size :: nat where "maximum_frame_payload_size = 1024 * 1024"
definition hello_payload_size :: nat where "hello_payload_size = 104"
definition ping_payload_size :: nat where "ping_payload_size = 8"
definition block_locator_entry_size :: nat where "block_locator_entry_size = 40"
definition maximum_block_locator_entries :: nat where "maximum_block_locator_entries = 32"

definition get_blocks_payload_minimum_size :: nat where
  "get_blocks_payload_minimum_size = 8 + 2 + block_locator_entry_size + 2"

definition get_blocks_payload_maximum_size :: nat where
  "get_blocks_payload_maximum_size = 8 + 2 + maximum_block_locator_entries * block_locator_entry_size + 2"

definition blocks_payload_minimum_size :: nat where "blocks_payload_minimum_size = 11"
definition maximum_blocks_per_sync_batch :: nat where "maximum_blocks_per_sync_batch = 4"
definition wire_version :: u16 where "wire_version = 1"
definition protocol_version :: u16 where "protocol_version = 1"
definition full_node_service :: u64 where "full_node_service = push_bit 0 1"
definition mining_service :: u64 where "mining_service = push_bit 1 1"

lemmas protocol_sizes = frame_header_size_def maximum_frame_payload_size_def hello_payload_size_def
  ping_payload_size_def block_locator_entry_size_def maximum_block_locator_entries_def
  get_blocks_payload_minimum_size_def get_blocks_payload_maximum_size_def
  blocks_payload_minimum_size_def maximum_blocks_per_sync_batch_def

datatype MessageType =
    MT_hello
  | MT_ping
  | MT_pong
  | MT_template_request
  | MT_block_template
  | MT_block_submit
  | MT_block
  | MT_block_result
  | MT_transaction_submit
  | MT_transaction
  | MT_transaction_result
  | MT_get_blocks
  | MT_blocks

text \<open>The value of the underlying type: \<open>static_cast<std::uint16_t>(type)\<close>.\<close>

fun message_type_value :: "MessageType \<Rightarrow> u16" where
  "message_type_value MT_hello = 1"
| "message_type_value MT_ping = 2"
| "message_type_value MT_pong = 3"
| "message_type_value MT_template_request = 10"
| "message_type_value MT_block_template = 11"
| "message_type_value MT_block_submit = 12"
| "message_type_value MT_block = 13"
| "message_type_value MT_block_result = 14"
| "message_type_value MT_transaction_submit = 20"
| "message_type_value MT_transaction = 21"
| "message_type_value MT_transaction_result = 22"
| "message_type_value MT_get_blocks = 30"
| "message_type_value MT_blocks = 31"

datatype ProtocolError =
    NE_none
  | NE_invalid_header_size
  | NE_invalid_magic
  | NE_unsupported_wire_version
  | NE_unknown_message_type
  | NE_oversized_payload
  | NE_invalid_payload_size
  | NE_invalid_checksum
  | NE_invalid_protocol_range

record FrameHeader =
  fh_type :: MessageType
  fh_payload_length :: u32
  fh_payload_checksum :: bytes

record HelloPayload =
  hp_minimum_protocol_version :: u16
  hp_maximum_protocol_version :: u16
  hp_chain_id :: u32
  hp_services :: u64
  hp_session_nonce :: bytes
  hp_tip_height :: u64
  hp_tip_block_id :: bytes
  hp_genesis_block_id :: bytes

type_synonym FrameHeaderResult = "ProtocolError + FrameHeader"
type_synonym HelloPayloadResult = "ProtocolError + HelloPayload"

section \<open>Operations\<close>

definition decode_message_type :: "u16 \<Rightarrow> MessageType option" where
  "decode_message_type v =
     (if v = message_type_value MT_hello then Some MT_hello
      else if v = message_type_value MT_ping then Some MT_ping
      else if v = message_type_value MT_pong then Some MT_pong
      else if v = message_type_value MT_template_request then Some MT_template_request
      else if v = message_type_value MT_block_template then Some MT_block_template
      else if v = message_type_value MT_block_submit then Some MT_block_submit
      else if v = message_type_value MT_block then Some MT_block
      else if v = message_type_value MT_block_result then Some MT_block_result
      else if v = message_type_value MT_transaction_submit then Some MT_transaction_submit
      else if v = message_type_value MT_transaction then Some MT_transaction
      else if v = message_type_value MT_transaction_result then Some MT_transaction_result
      else if v = message_type_value MT_get_blocks then Some MT_get_blocks
      else if v = message_type_value MT_blocks then Some MT_blocks
      else None)"

fun valid_payload_size :: "MessageType \<Rightarrow> nat \<Rightarrow> bool" where
  "valid_payload_size MT_hello n \<longleftrightarrow> n = hello_payload_size"
| "valid_payload_size MT_ping n \<longleftrightarrow> n = ping_payload_size"
| "valid_payload_size MT_pong n \<longleftrightarrow> n = ping_payload_size"
| "valid_payload_size MT_template_request n \<longleftrightarrow> n = 8 + hash256_size"
| "valid_payload_size MT_block_template n \<longleftrightarrow> 8 + block_header_size \<le> n \<and> n \<le> 8 + maximum_block_size"
| "valid_payload_size MT_block_submit n \<longleftrightarrow> block_header_size \<le> n \<and> n \<le> maximum_block_size"
| "valid_payload_size MT_block n \<longleftrightarrow> block_header_size \<le> n \<and> n \<le> maximum_block_size"
| "valid_payload_size MT_block_result n \<longleftrightarrow> n = hash256_size + 3"
| "valid_payload_size MT_transaction_submit n \<longleftrightarrow> n = signed_transaction_size"
| "valid_payload_size MT_transaction n \<longleftrightarrow> n = signed_transaction_size"
| "valid_payload_size MT_transaction_result n \<longleftrightarrow> n = hash256_size + 3"
| "valid_payload_size MT_get_blocks n \<longleftrightarrow>
     get_blocks_payload_minimum_size \<le> n \<and> n \<le> get_blocks_payload_maximum_size"
| "valid_payload_size MT_blocks n \<longleftrightarrow> blocks_payload_minimum_size \<le> n \<and> n \<le> maximum_frame_payload_size"

definition serialize_frame :: "sodium \<Rightarrow> MessageType \<Rightarrow> bytes \<Rightarrow> u32 \<Rightarrow> bytes" where
  "serialize_frame so type payload chain_id =
     (case network_parameters_for_chain chain_id of
        None \<Rightarrow> []
      | Some network \<Rightarrow>
          if maximum_frame_payload_size < length payload \<or> 2 ^ 32 - 1 < length payload \<or>
             \<not> valid_payload_size type (length payload)
          then []
          else
            (let encoded = [] @ np_p2p_magic network;
                 encoded = append_u16_le encoded wire_version;
                 encoded = append_u16_le encoded (message_type_value type);
                 encoded = append_u32_le encoded (of_nat (length payload));
                 encoded = encoded @ sha256 so payload;
                 encoded = encoded @ payload
             in encoded))"

definition deserialize_frame_header :: "bytes \<Rightarrow> u32 \<Rightarrow> FrameHeaderResult" where
  "deserialize_frame_header encoded chain_id =
     (if length encoded \<noteq> frame_header_size then Inl NE_invalid_header_size
      else case network_parameters_for_chain chain_id of
        None \<Rightarrow> Inl NE_invalid_magic
      | Some network \<Rightarrow>
          if np_p2p_magic network \<noteq> take (length (np_p2p_magic network)) encoded then Inl NE_invalid_magic
          else if read_u16_le encoded 4 \<noteq> wire_version then Inl NE_unsupported_wire_version
          else case decode_message_type (read_u16_le encoded 6) of
            None \<Rightarrow> Inl NE_unknown_message_type
          | Some type \<Rightarrow>
              (let payload_length = read_u32_le encoded 8
               in if maximum_frame_payload_size < unat payload_length then Inl NE_oversized_payload
                  else if \<not> valid_payload_size type (unat payload_length) then Inl NE_invalid_payload_size
                  else Inr \<lparr> fh_type = type, fh_payload_length = payload_length,
                             fh_payload_checksum = read_array hash256_size encoded 12 \<rparr>))"

definition validate_frame_payload :: "sodium \<Rightarrow> FrameHeader \<Rightarrow> bytes \<Rightarrow> ProtocolError" where
  "validate_frame_payload so header payload =
     (if length payload \<noteq> unat (fh_payload_length header) then NE_invalid_payload_size
      else if sha256 so payload = fh_payload_checksum header then NE_none
      else NE_invalid_checksum)"

definition serialize_hello :: "HelloPayload \<Rightarrow> bytes" where
  "serialize_hello hello =
     (let encoded = append_u16_le [] (hp_minimum_protocol_version hello);
          encoded = append_u16_le encoded (hp_maximum_protocol_version hello);
          encoded = append_u32_le encoded (hp_chain_id hello);
          encoded = append_u64_le encoded (hp_services hello);
          encoded = encoded @ hp_session_nonce hello;
          encoded = append_u64_le encoded (hp_tip_height hello);
          encoded = encoded @ hp_tip_block_id hello;
          encoded = encoded @ hp_genesis_block_id hello
      in encoded)"

definition deserialize_hello :: "bytes \<Rightarrow> HelloPayloadResult" where
  "deserialize_hello encoded =
     (if length encoded \<noteq> hello_payload_size then Inl NE_invalid_payload_size
      else
        (let hello = \<lparr> hp_minimum_protocol_version = read_u16_le encoded 0,
               hp_maximum_protocol_version = read_u16_le encoded 2,
               hp_chain_id = read_u32_le encoded 4,
               hp_services = read_u64_le encoded 8,
               hp_session_nonce = read_array 16 encoded 16,
               hp_tip_height = read_u64_le encoded 32,
               hp_tip_block_id = read_array hash256_size encoded 40,
               hp_genesis_block_id = read_array hash256_size encoded 72 \<rparr>
         in if hp_minimum_protocol_version hello = 0 \<or>
               hp_maximum_protocol_version hello < hp_minimum_protocol_version hello
            then Inl NE_invalid_protocol_range
            else Inr hello))"

definition serialize_ping_nonce :: "u64 \<Rightarrow> bytes" where
  "serialize_ping_nonce nonce = append_u64_le [] nonce"

definition deserialize_ping_nonce :: "bytes \<Rightarrow> u64" where
  "deserialize_ping_nonce encoded = (if length encoded = ping_payload_size then read_u64_le encoded 0 else 0)"

fun protocol_error_message :: "ProtocolError \<Rightarrow> string" where
  "protocol_error_message NE_none = ''no error''"
| "protocol_error_message NE_invalid_header_size = ''invalid frame header size''"
| "protocol_error_message NE_invalid_magic = ''invalid network magic''"
| "protocol_error_message NE_unsupported_wire_version = ''unsupported wire version''"
| "protocol_error_message NE_unknown_message_type = ''unknown message type''"
| "protocol_error_message NE_oversized_payload = ''frame payload exceeds the limit''"
| "protocol_error_message NE_invalid_payload_size = ''invalid message payload size''"
| "protocol_error_message NE_invalid_checksum = ''invalid frame payload checksum''"
| "protocol_error_message NE_invalid_protocol_range = ''invalid protocol version range''"

section \<open>Message types\<close>

lemma decode_message_type_value: "decode_message_type (message_type_value t) = Some t"
  by (cases t) (simp_all add: decode_message_type_def)

lemma decode_message_type_Some: "decode_message_type v = Some t \<Longrightarrow> v = message_type_value t"
  by (auto simp: decode_message_type_def split: if_splits)

lemma valid_payload_size_bound: "valid_payload_size t n \<Longrightarrow> n \<le> 1048576"
  by (cases t) (simp_all add: protocol_sizes block_sizes crypto_sizes signed_transaction_size_def
      unsigned_transaction_size_def)

section \<open>Frames\<close>

definition frame_ok :: "MessageType \<Rightarrow> bytes \<Rightarrow> u32 \<Rightarrow> bool" where
  "frame_ok t payload c \<longleftrightarrow> supported_chain c \<and> valid_payload_size t (length payload)"

definition frame_header :: "sodium \<Rightarrow> MessageType \<Rightarrow> bytes \<Rightarrow> u32 \<Rightarrow> bytes" where
  "frame_header so t payload c =
     np_p2p_magic (the (network_parameters_for_chain c)) @ le_bytes 2 wire_version @
     le_bytes 2 (message_type_value t) @ le_bytes 4 (of_nat (length payload) :: u32) @ sha256 so payload"

lemma serialize_frame_eq:
  "serialize_frame so t payload c = (if frame_ok t payload c then frame_header so t payload c @ payload else [])"
  using valid_payload_size_bound [of t "length payload"]
  by (auto simp: serialize_frame_def frame_ok_def frame_header_def Let_def append_u16_le_def append_u32_le_def
      protocol_sizes split: option.split)

lemma length_frame_header:
  "supported_chain c \<Longrightarrow> length (frame_header so t payload c) = 44"
  using network_parameters_for_chain_Some [of c] by (auto simp: frame_header_def)

lemma deserialize_frame_header_encode:
  assumes "frame_ok t payload c"
  shows "deserialize_frame_header (frame_header so t payload c) c =
    Inr \<lparr> fh_type = t, fh_payload_length = of_nat (length payload), fh_payload_checksum = sha256 so payload \<rparr>"
proof -
  from assms obtain network where net: "network_parameters_for_chain c = Some network"
    and size: "valid_payload_size t (length payload)" by (auto simp: frame_ok_def)
  have magic: "length (np_p2p_magic network) = 4" using network_parameters_for_chain_Some [OF net] by simp
  have "unat (of_nat (length payload) :: u32) = length payload"
    using valid_payload_size_bound [OF size] by (simp add: unat_of_nat)
  then show ?thesis
    using size magic valid_payload_size_bound [OF size] net
    by (simp add: deserialize_frame_header_def frame_header_def protocol_sizes field_read
        decode_message_type_value Let_def crypto_sizes)
qed

lemma deserialize_frame_header_Inr:
  assumes "deserialize_frame_header bs c = Inr h" and "length payload = unat (fh_payload_length h)"
    and "sha256 so payload = fh_payload_checksum h"
  shows "frame_ok (fh_type h) payload c \<and> bs = frame_header so (fh_type h) payload c"
proof -
  from assms(1) obtain network t where net: "network_parameters_for_chain c = Some network"
    and len: "length bs = 44" and magic: "np_p2p_magic network = take (length (np_p2p_magic network)) bs"
    and ver: "read_u16_le bs 4 = wire_version" and type: "decode_message_type (read_u16_le bs 6) = Some t"
    and size: "valid_payload_size t (unat (read_u32_le bs 8))"
    and h: "h = \<lparr> fh_type = t, fh_payload_length = read_u32_le bs 8, fh_payload_checksum = read_array 32 bs 12 \<rparr>"
    by (auto simp: deserialize_frame_header_def protocol_sizes Let_def crypto_sizes split: if_splits option.splits)
  have m: "np_p2p_magic network = take 4 bs" using magic network_parameters_for_chain_Some [OF net] by simp
  have "frame_header so t payload c = take 4 bs @ le_bytes 2 (read_u16_le bs 4) @ le_bytes 2 (read_u16_le bs 6) @
      le_bytes 4 (read_u32_le bs 8) @ read_array 32 bs 12"
    using assms(2,3) decode_message_type_Some [OF type] net
    by (simp add: frame_header_def m h ver)
  also have "\<dots> = bs" using len by (simp add: read_array_def u16.enc_dec u32.enc_dec field_join)
  finally show ?thesis using net size assms(2) by (simp add: h frame_ok_def)
qed

section \<open>Hello\<close>

definition hello_valid :: "HelloPayload \<Rightarrow> bool" where
  "hello_valid h \<longleftrightarrow> length (hp_session_nonce h) = 16 \<and> length (hp_tip_block_id h) = 32 \<and>
     length (hp_genesis_block_id h) = 32 \<and> 0 < hp_minimum_protocol_version h \<and>
     hp_minimum_protocol_version h \<le> hp_maximum_protocol_version h"

lemma serialize_hello_eq:
  "serialize_hello h = le_bytes 2 (hp_minimum_protocol_version h) @ le_bytes 2 (hp_maximum_protocol_version h) @
     le_bytes 4 (hp_chain_id h) @ le_bytes 8 (hp_services h) @ hp_session_nonce h @ le_bytes 8 (hp_tip_height h) @
     hp_tip_block_id h @ hp_genesis_block_id h"
  by (simp add: serialize_hello_def append_u16_le_def append_u32_le_def append_u64_le_def Let_def)

interpretation hello_codec: canonical_codec serialize_hello deserialize_hello hello_valid
proof unfold_locales
  fix h bs
  show "deserialize_hello (serialize_hello h) = Inr h" if "hello_valid h"
    using that
    by (cases h) (simp add: deserialize_hello_def serialize_hello_eq hello_valid_def protocol_sizes crypto_sizes
        field_read Let_def not_less word_neq_0_conv)
  show "hello_valid h" if "deserialize_hello bs = Inr h"
    using that
    by (auto simp: deserialize_hello_def hello_valid_def protocol_sizes crypto_sizes Let_def not_less
        word_neq_0_conv split: if_splits)
  show "serialize_hello h = bs" if "deserialize_hello bs = Inr h"
    using that
    by (auto simp: deserialize_hello_def serialize_hello_eq protocol_sizes crypto_sizes Let_def read_array_def
        u16.enc_dec u32.enc_dec u64.enc_dec field_join split: if_splits)
qed

lemma ping_nonce_roundtrip: "deserialize_ping_nonce (serialize_ping_nonce n) = n"
  by (simp add: deserialize_ping_nonce_def serialize_ping_nonce_def append_u64_le_def ping_payload_size_def
      u64.dec_single)

section \<open>Properties\<close>

text \<open>
  C32. Frames are canonical. A 44-byte header and a payload pass the two checks of a receiver
  (\<open>deserialize_frame_header\<close>, then \<open>validate_frame_payload\<close>) with a message type exactly
  when together they are the frame that \<open>serialize_frame\<close> produces for that type and payload
  on that network. In particular every frame a node sends is accepted by its peers, and what
  a peer accepts has the type, length and checksum that were sent.\<close>

theorem frame_format_canonical:
  "(\<exists>h. deserialize_frame_header header c = Inr h \<and> fh_type h = t \<and> validate_frame_payload so h payload = NE_none) \<longleftrightarrow>
   length header = 44 \<and> serialize_frame so t payload c \<noteq> [] \<and> header @ payload = serialize_frame so t payload c"
proof (intro iffI; elim exE conjE)
  fix h
  assume h: "deserialize_frame_header header c = Inr h" "fh_type h = t" "validate_frame_payload so h payload = NE_none"
  then have "frame_ok t payload c \<and> header = frame_header so t payload c"
    using deserialize_frame_header_Inr [OF h(1), of payload so] by (auto simp: validate_frame_payload_def split: if_splits)
  then show "length header = 44 \<and> serialize_frame so t payload c \<noteq> [] \<and> header @ payload = serialize_frame so t payload c"
    using length_frame_header [of c so t payload] by (auto simp: serialize_frame_eq frame_ok_def)
next
  assume a: "length header = 44" "serialize_frame so t payload c \<noteq> []" "header @ payload = serialize_frame so t payload c"
  then have ok: "frame_ok t payload c" by (simp add: serialize_frame_eq split: if_splits)
  with a have "header = frame_header so t payload c"
    using length_frame_header [of c so t payload] by (simp add: serialize_frame_eq frame_ok_def)
  moreover have "unat (of_nat (length payload) :: u32) = length payload"
    using ok valid_payload_size_bound [of t "length payload"] by (simp add: frame_ok_def unat_of_nat)
  ultimately show "\<exists>h. deserialize_frame_header header c = Inr h \<and> fh_type h = t \<and> validate_frame_payload so h payload = NE_none"
    using deserialize_frame_header_encode [OF ok, of so] by (simp add: validate_frame_payload_def)
qed

text \<open>
  C33. A receiver never reserves more than one mebibyte. Whatever 44 bytes a peer sends, the
  header check either names an error or gives a payload length that suits the message type
  and is at most \<open>maximum_frame_payload_size\<close>; and a frame the node produces itself is never
  longer than that payload and its header.\<close>

theorem frame_sizes_bounded:
  "(case deserialize_frame_header header c of
      Inl e \<Rightarrow> e \<noteq> NE_none
    | Inr h \<Rightarrow> valid_payload_size (fh_type h) (unat (fh_payload_length h)) \<and>
        unat (fh_payload_length h) \<le> maximum_frame_payload_size \<and> length (fh_payload_checksum h) = 32) \<and>
   length (serialize_frame so t payload c) \<le> frame_header_size + maximum_frame_payload_size"
proof
  show "case deserialize_frame_header header c of
      Inl e \<Rightarrow> e \<noteq> NE_none
    | Inr h \<Rightarrow> valid_payload_size (fh_type h) (unat (fh_payload_length h)) \<and>
        unat (fh_payload_length h) \<le> maximum_frame_payload_size \<and> length (fh_payload_checksum h) = 32"
    by (auto simp: deserialize_frame_header_def Let_def crypto_sizes frame_header_size_def not_less
        split: option.split)
  show "length (serialize_frame so t payload c) \<le> frame_header_size + maximum_frame_payload_size"
    using length_frame_header [of c so t payload] valid_payload_size_bound [of t "length payload"]
    by (auto simp: serialize_frame_eq frame_ok_def protocol_sizes)
qed

end
