(* ===== verification/BBC_Peer.thy ===== *)
theory BBC_Peer
  imports BBC_Protocol
begin

text \<open>
  The peer network: \<open>include/bbc/network/peer_network.hpp\<close> and
  \<open>src/network/peer_network.cpp\<close>. One thread runs all handlers, one after the other, so a
  handler is a function on the state and the program a sequence of handlers. Sessions and
  targets are shared objects: the state has a store for each, next to the containers
  \<open>sessions_\<close> and \<open>targets_\<close>, because handlers of a session can run after it left its
  container. The sockets and timers of the library are the environment: what is pending is
  recorded, and the step relation says which completions may run.
\<close>

section \<open>Data\<close>

datatype PeerDirection = PD_inbound | PD_outbound

datatype PeerAddressScope = AS_loopback | AS_private_network | AS_public_network

record PeerStatus =
  ps_id :: u64
  ps_direction :: PeerDirection
  ps_endpoint :: string
  ps_handshake_complete :: bool
  ps_protocol_version :: u16
  ps_services :: u64
  ps_remote_height :: u64
  ps_remote_tip :: bytes
  ps_last_ping_nonce :: "u64 option"
  ps_last_pong_nonce :: "u64 option"

record PeerEvent =
  pe_type :: string
  pe_peer_id :: u64
  pe_endpoint :: string
  pe_detail :: string

record PeerNetworkConfig =
  pc_listen_port :: u16
  pc_listen :: bool
  pc_chain_id :: u32
  pc_services :: u64
  pc_tip_height :: u64
  pc_tip_block_id :: bytes
  pc_genesis_block_id :: bytes
  pc_listen_host :: string
  pc_address_scope :: PeerAddressScope

definition maximum_outbound_queue_size :: nat where "maximum_outbound_queue_size = 4 * 1024 * 1024"
definition maximum_peer_count :: nat where "maximum_peer_count = 64"
definition maximum_connections_per_ip :: nat where "maximum_connections_per_ip = 16"
definition reconnect_initial_delay :: nat where "reconnect_initial_delay = 250"
definition reconnect_maximum_delay :: nat where "reconnect_maximum_delay = 5000"

text \<open>An address text and a port.\<close>

type_synonym endpoint = "string \<times> nat"

text \<open>The read a session waits for.\<close>

datatype read_operation = RO_none | RO_header | RO_payload

record Session =
  se_id :: u64
  se_direction :: PeerDirection
  se_target :: "nat option" \<comment> \<open>an address in the store of targets\<close>
  se_handshake_timer :: bool \<comment> \<open>a wait is pending\<close>
  se_idle_timer :: bool
  se_pong_timer :: "u64 option" \<comment> \<open>a wait for this nonce is pending\<close>
  se_socket_open :: bool
  se_endpoint :: string
  se_remote_address :: string
  se_read :: read_operation
  se_current_header :: "FrameHeader option"
  se_outbound :: "bytes list"
  se_queued_bytes :: nat
  se_remote_hello :: "HelloPayload option"
  se_selected_protocol_version :: u16
  se_last_ping_nonce :: "u64 option"
  se_last_pong_nonce :: "u64 option"
  se_liveness_nonce :: "u64 option"
  se_handshake_complete :: bool
  se_stopped :: bool

record Target =
  tg_endpoint :: endpoint
  tg_timer :: bool
  tg_reconnect_delay :: nat
  tg_session_id :: "u64 option"
  tg_connecting_socket :: bool
  tg_enabled :: bool
  tg_connecting :: bool

text \<open>What the network hands to its two callbacks, in order.\<close>

datatype callback = CB_event PeerEvent | CB_message u64 MessageType bytes

record PeerNet =
  pn_config :: PeerNetworkConfig
  pn_session_nonce :: bytes
  pn_listen_port :: u16
  pn_stopping :: bool
  pn_accepting :: bool \<comment> \<open>an accept is pending\<close>
  pn_accept_retry :: bool \<comment> \<open>the retry timer is pending\<close>
  pn_next_session_id :: u64
  pn_sessions :: "u64 list" \<comment> \<open>the keys of \<open>sessions_\<close>\<close>
  pn_session_objects :: "u64 \<Rightarrow> Session option"
  pn_targets :: "string \<Rightarrow> nat option" \<comment> \<open>\<open>targets_\<close>\<close>
  pn_target_objects :: "nat \<Rightarrow> Target option"
  pn_next_target :: nat
  pn_peer_status :: "(u64, PeerStatus) std_map"
  pn_next_ping_nonce :: u64
  pn_callbacks :: "callback list"

definition session :: "PeerNet \<Rightarrow> u64 \<Rightarrow> Session" where
  "session st i = the (pn_session_objects st i)"

definition modify_session :: "PeerNet \<Rightarrow> u64 \<Rightarrow> (Session \<Rightarrow> Session) \<Rightarrow> PeerNet" where
  "modify_session st i f = st\<lparr> pn_session_objects := (pn_session_objects st)(i \<mapsto> f (session st i)) \<rparr>"

definition target :: "PeerNet \<Rightarrow> nat \<Rightarrow> Target" where
  "target st t = the (pn_target_objects st t)"

definition modify_target :: "PeerNet \<Rightarrow> nat \<Rightarrow> (Target \<Rightarrow> Target) \<Rightarrow> PeerNet" where
  "modify_target st t f = st\<lparr> pn_target_objects := (pn_target_objects st)(t \<mapsto> f (target st t)) \<rparr>"

section \<open>Addresses\<close>

text \<open>\<open>std::to_string\<close> of an unsigned number.\<close>

fun to_string :: "nat \<Rightarrow> string" where
  "to_string n = (if n < 10 then [char_of (48 + n)] else to_string (n div 10) @ [char_of (48 + n mod 10)])"

declare to_string.simps [simp del]

definition endpoint_text :: "endpoint \<Rightarrow> string" where
  "endpoint_text endpoint = fst endpoint @ '':'' @ to_string (snd endpoint)"

text \<open>What \<open>make_address\<close> returns: an IPv4 address with its four bytes, or an IPv6 address.\<close>

datatype ip_address = IPv4 byte byte byte byte | IPv6 "byte list"

definition is_rfc1918 :: "byte \<Rightarrow> byte \<Rightarrow> bool" where
  "is_rfc1918 b0 b1 \<longleftrightarrow> b0 = 10 \<or> b0 = 172 \<and> 16 \<le> b1 \<and> b1 \<le> 31 \<or> b0 = 192 \<and> b1 = 168"

text \<open>
  The library's tests of an IPv4 address: unspecified is 0.0.0.0, multicast is 224.0.0.0/4 and
  loopback is 127.0.0.0/8.
\<close>

fun address_allowed :: "ip_address \<Rightarrow> PeerAddressScope \<Rightarrow> bool" where
  "address_allowed (IPv6 bytes) scope \<longleftrightarrow> False"
| "address_allowed (IPv4 b0 b1 b2 b3) scope \<longleftrightarrow>
     (if b0 = 0 \<and> b1 = 0 \<and> b2 = 0 \<and> b3 = 0 \<or> b0 AND 0xF0 = 0xE0 \<or>
         b0 = 0xFF \<and> b1 = 0xFF \<and> b2 = 0xFF \<and> b3 = 0xFF
      then False
      else if b0 = 127 then True
      else if scope = AS_private_network then is_rfc1918 b0 b1
      else scope = AS_public_network)"

fun address_scope_error :: "PeerAddressScope \<Rightarrow> string" where
  "address_scope_error AS_loopback = ''P2P endpoint must use a nonzero IPv4 loopback address and port.''"
| "address_scope_error AS_private_network =
     ''P2P endpoint must use a nonzero IPv4 loopback or RFC 1918 address and port.''"
| "address_scope_error AS_public_network = ''P2P endpoint must use a nonzero unicast IPv4 address and port.''"

text \<open>\<open>make_address\<close> is the parser of the socket library.\<close>

definition peer_address_allowed :: "(string \<Rightarrow> ip_address option) \<Rightarrow> string \<Rightarrow> PeerAddressScope \<Rightarrow> bool" where
  "peer_address_allowed make_address host scope \<longleftrightarrow>
     (case make_address host of None \<Rightarrow> False | Some address \<Rightarrow> address_allowed address scope)"

fun peer_direction_name :: "PeerDirection \<Rightarrow> string" where
  "peer_direction_name PD_inbound = ''inbound''"
| "peer_direction_name PD_outbound = ''outbound''"

fun peer_address_scope_name :: "PeerAddressScope \<Rightarrow> string" where
  "peer_address_scope_name AS_loopback = ''loopback''"
| "peer_address_scope_name AS_private_network = ''lan''"
| "peer_address_scope_name AS_public_network = ''internet''"

section \<open>Bookkeeping of the network\<close>

definition emit :: "PeerNet \<Rightarrow> PeerEvent \<Rightarrow> PeerNet" where
  "emit st event = st\<lparr> pn_callbacks := pn_callbacks st @ [CB_event event] \<rparr>"

definition emit_event :: "PeerNet \<Rightarrow> string \<Rightarrow> u64 \<Rightarrow> string \<Rightarrow> string \<Rightarrow> PeerNet" where
  "emit_event st type peer_id endpoint detail =
     emit st \<lparr> pe_type = type, pe_peer_id = peer_id, pe_endpoint = endpoint, pe_detail = detail \<rparr>"

definition handle_application_message :: "PeerNet \<Rightarrow> u64 \<Rightarrow> MessageType \<Rightarrow> bytes \<Rightarrow> PeerNet" where
  "handle_application_message st peer_id type payload =
     st\<lparr> pn_callbacks := pn_callbacks st @ [CB_message peer_id type payload] \<rparr>"

definition reserve_ping_nonce :: "PeerNet \<Rightarrow> u64 \<times> PeerNet" where
  "reserve_ping_nonce st = (pn_next_ping_nonce st, st\<lparr> pn_next_ping_nonce := pn_next_ping_nonce st + 1 \<rparr>)"

definition session_status :: "Session \<Rightarrow> PeerStatus" where
  "session_status s =
     (let result = \<lparr> ps_id = se_id s, ps_direction = se_direction s, ps_endpoint = se_endpoint s,
            ps_handshake_complete = se_handshake_complete s, ps_protocol_version = 0, ps_services = 0,
            ps_remote_height = 0, ps_remote_tip = replicate 32 0, ps_last_ping_nonce = None,
            ps_last_pong_nonce = None \<rparr>;
          result = (case se_remote_hello s of
              None \<Rightarrow> result
            | Some hello \<Rightarrow> result\<lparr> ps_protocol_version := se_selected_protocol_version s,
                  ps_services := hp_services hello, ps_remote_height := hp_tip_height hello,
                  ps_remote_tip := hp_tip_block_id hello \<rparr>)
      in result\<lparr> ps_last_ping_nonce := se_last_ping_nonce s, ps_last_pong_nonce := se_last_pong_nonce s \<rparr>)"

definition record_status :: "PeerNet \<Rightarrow> u64 \<Rightarrow> PeerNet" where
  "record_status st i = st\<lparr> pn_peer_status := std_map_set i (session_status (session st i)) (pn_peer_status st) \<rparr>"

definition record_new :: "PeerNet \<Rightarrow> u64 \<Rightarrow> PeerNet" where
  "record_new st i = emit_event (record_status st i) ''peer_connected'' i (se_endpoint (session st i)) []"

definition local_hello :: "PeerNet \<Rightarrow> HelloPayload" where
  "local_hello st =
     \<lparr> hp_minimum_protocol_version = protocol_version, hp_maximum_protocol_version = protocol_version,
       hp_chain_id = pc_chain_id (pn_config st), hp_services = pc_services (pn_config st),
       hp_session_nonce = pn_session_nonce st, hp_tip_height = pc_tip_height (pn_config st),
       hp_tip_block_id = pc_tip_block_id (pn_config st), hp_genesis_block_id = pc_genesis_block_id (pn_config st) \<rparr>"

definition update_tip :: "PeerNet \<Rightarrow> u64 \<Rightarrow> bytes \<Rightarrow> PeerNet" where
  "update_tip st height block_id =
     st\<lparr> pn_config := (pn_config st)\<lparr> pc_tip_height := height, pc_tip_block_id := block_id \<rparr> \<rparr>"

definition peers :: "PeerNet \<Rightarrow> PeerStatus list" where
  "peers st = map snd (pn_peer_status st)"

section \<open>Stopping a session\<close>

definition schedule_reconnect :: "PeerNet \<Rightarrow> nat \<Rightarrow> PeerNet" where
  "schedule_reconnect st t =
     (if pn_stopping st \<or> \<not> tg_enabled (target st t) \<or> tg_connecting (target st t) \<or>
         tg_session_id (target st t) \<noteq> None
      then st
      else modify_target st t (\<lambda>target. target\<lparr> tg_timer := True,
             tg_reconnect_delay := min (tg_reconnect_delay target * 2) reconnect_maximum_delay \<rparr>))"

definition session_stopped :: "PeerNet \<Rightarrow> u64 \<Rightarrow> string \<Rightarrow> bool \<Rightarrow> PeerNet" where
  "session_stopped st i reason reconnect =
     (let st = emit_event st ''peer_disconnected'' i (se_endpoint (session st i)) reason;
          st = st\<lparr> pn_peer_status := filter (\<lambda>entry. fst entry \<noteq> i) (pn_peer_status st) \<rparr>;
          st = st\<lparr> pn_sessions := filter (\<lambda>j. j \<noteq> i) (pn_sessions st) \<rparr>
      in case se_target (session st i) of
           None \<Rightarrow> st
         | Some t \<Rightarrow>
             if tg_session_id (target st t) = Some i
             then (let st = modify_target st t (\<lambda>target. target\<lparr> tg_session_id := None \<rparr>)
                   in if reconnect then schedule_reconnect st t else st)
             else st)"

definition session_stop :: "PeerNet \<Rightarrow> u64 \<Rightarrow> string \<Rightarrow> bool \<Rightarrow> bool \<Rightarrow> PeerNet" where
  "session_stop st i reason notify_owner reconnect =
     (if se_stopped (session st i) then st
      else
        (let st = modify_session st i (\<lambda>s. s\<lparr> se_stopped := True, se_handshake_timer := False,
               se_idle_timer := False, se_pong_timer := None, se_socket_open := False \<rparr>)
         in if notify_owner then session_stopped st i reason reconnect else st))"

section \<open>Sending\<close>

text \<open>
  \<open>write_next\<close> starts to write the front of the queue; the state does not change until the
  write completes.
\<close>

definition session_send :: "sodium \<Rightarrow> PeerNet \<Rightarrow> u64 \<Rightarrow> MessageType \<Rightarrow> bytes \<Rightarrow> PeerNet" where
  "session_send so st i type payload =
     (let frame = serialize_frame so type payload (pc_chain_id (pn_config st))
      in if frame = [] \<or> maximum_outbound_queue_size < se_queued_bytes (session st i) + length frame
         then session_stop st i ''outbound queue limit exceeded'' True True
         else modify_session st i (\<lambda>s. s\<lparr> se_queued_bytes := se_queued_bytes s + length frame,
                se_outbound := se_outbound s @ [frame] \<rparr>))"

definition session_send_ping :: "sodium \<Rightarrow> PeerNet \<Rightarrow> u64 \<Rightarrow> u64 \<Rightarrow> PeerNet" where
  "session_send_ping so st i nonce =
     (if \<not> se_handshake_complete (session st i) \<or> se_stopped (session st i) then st
      else
        (let st = modify_session st i (\<lambda>s. s\<lparr> se_last_ping_nonce := Some nonce \<rparr>);
             st = record_status st i
         in session_send so st i MT_ping (serialize_ping_nonce nonce)))"

definition session_send_message :: "sodium \<Rightarrow> PeerNet \<Rightarrow> u64 \<Rightarrow> MessageType \<Rightarrow> bytes \<Rightarrow> PeerNet" where
  "session_send_message so st i type payload =
     (if se_handshake_complete (session st i) \<and> \<not> se_stopped (session st i)
      then session_send so st i type payload else st)"

text \<open>The handler of a finished write.\<close>

definition on_write :: "PeerNet \<Rightarrow> u64 \<Rightarrow> bool \<Rightarrow> PeerNet" where
  "on_write st i error =
     (if error then session_stop st i ''socket write failed'' True True
      else modify_session st i (\<lambda>s. s\<lparr> se_queued_bytes := se_queued_bytes s - length (hd (se_outbound s)),
             se_outbound := tl (se_outbound s) \<rparr>))"

section \<open>The handshake\<close>

text \<open>
  The loop of \<open>complete_handshake\<close>: \<^const>\<open>Inl\<close> is the session in whose favour the candidate is
  refused, \<^const>\<open>Inr\<close> the session it replaces, if any.
\<close>

fun handshake_loop :: "PeerNet \<Rightarrow> u64 \<Rightarrow> bytes \<Rightarrow> u64 list \<Rightarrow> u64 + u64 option" where
  "handshake_loop st candidate remote_nonce [] = Inr None"
| "handshake_loop st candidate remote_nonce (existing # rest) =
     (if existing = candidate then handshake_loop st candidate remote_nonce rest
      else case se_remote_hello (session st existing) of
        None \<Rightarrow> handshake_loop st candidate remote_nonce rest
      | Some hello \<Rightarrow>
          if hp_session_nonce hello \<noteq> remote_nonce then handshake_loop st candidate remote_nonce rest
          else
            (let preferred = (if pn_session_nonce st < remote_nonce then PD_outbound else PD_inbound);
                 candidate_preferred = (se_direction (session st candidate) = preferred);
                 existing_preferred = (se_direction (session st existing) = preferred)
             in if candidate_preferred \<and> \<not> existing_preferred then Inr (Some existing)
                else if \<not> candidate_preferred \<or> existing_preferred then Inl existing
                else handshake_loop st candidate remote_nonce rest))"

definition complete_handshake :: "PeerNet \<Rightarrow> u64 \<Rightarrow> bool \<times> PeerNet" where
  "complete_handshake st candidate =
     (let remote_nonce = hp_session_nonce (the (se_remote_hello (session st candidate)))
      in case handshake_loop st candidate remote_nonce (pn_sessions st) of
           Inl existing \<Rightarrow>
             (let st = (case (se_target (session st existing), se_target (session st candidate)) of
                    (None, Some t) \<Rightarrow>
                      (let st = modify_session st existing (\<lambda>s. s\<lparr> se_target := Some t \<rparr>)
                       in modify_target st t (\<lambda>target. target\<lparr> tg_session_id := Some existing \<rparr>))
                  | _ \<Rightarrow> st)
              in (False, session_stop st candidate ''duplicate peer connection'' True False))
         | Inr replaced_session \<Rightarrow>
             (let st = (case replaced_session of
                    None \<Rightarrow> st
                  | Some replaced \<Rightarrow>
                      (let st = (case (se_target (session st candidate), se_target (session st replaced)) of
                             (None, Some t) \<Rightarrow>
                               (let st = modify_session st candidate (\<lambda>s. s\<lparr> se_target := Some t \<rparr>)
                                in modify_target st t (\<lambda>target. target\<lparr> tg_session_id := Some candidate \<rparr>))
                           | _ \<Rightarrow> st)
                       in session_stop st replaced ''duplicate peer connection'' True False));
                  st = (case se_target (session st candidate) of
                      None \<Rightarrow> st
                    | Some t \<Rightarrow> modify_target st t (\<lambda>target. target\<lparr> tg_reconnect_delay := reconnect_initial_delay \<rparr>))
              in (True, st)))"

definition arm_idle_timer :: "PeerNet \<Rightarrow> u64 \<Rightarrow> PeerNet" where
  "arm_idle_timer st i = modify_session st i (\<lambda>s. s\<lparr> se_idle_timer := True \<rparr>)"

definition handle_hello :: "PeerNet \<Rightarrow> u64 \<Rightarrow> bytes \<Rightarrow> bool \<times> PeerNet" where
  "handle_hello st i payload =
     (case deserialize_hello payload of
        Inl e \<Rightarrow> (False, session_stop st i (protocol_error_message e) True True)
      | Inr hello \<Rightarrow>
          if hp_chain_id hello \<noteq> pc_chain_id (pn_config st) \<or>
             hp_genesis_block_id hello \<noteq> pc_genesis_block_id (pn_config st)
          then (False, session_stop st i ''peer network identity mismatch'' True True)
          else if hp_session_nonce hello = pn_session_nonce st
          then (False, session_stop st i ''self-connection rejected'' True True)
          else if hp_services hello AND (full_node_service OR mining_service) = 0
          then (False, session_stop st i ''peer does not advertise a supported service'' True True)
          else
            (let minimum = max (hp_minimum_protocol_version hello) protocol_version;
                 maximum = min (hp_maximum_protocol_version hello) protocol_version
             in if maximum < minimum
                then (False, session_stop st i ''no common protocol version'' True True)
                else
                  (let st = modify_session st i (\<lambda>s. s\<lparr> se_remote_hello := Some hello,
                         se_selected_protocol_version := maximum \<rparr>);
                       (completed, st) = complete_handshake st i
                   in if \<not> completed then (False, st)
                      else
                        (let st = modify_session st i (\<lambda>s. s\<lparr> se_handshake_complete := True,
                               se_handshake_timer := False \<rparr>);
                             st = record_status st i;
                             st = emit_event st ''peer_handshake_complete'' i (se_endpoint (session st i)) [];
                             st = arm_idle_timer st i
                         in (True, st)))))"

definition handle_pong :: "PeerNet \<Rightarrow> u64 \<Rightarrow> u64 \<Rightarrow> PeerNet" where
  "handle_pong st i nonce =
     (let endpoint = se_endpoint (session st i);
          st = (if se_last_ping_nonce (session st i) = Some nonce
                then (let st = modify_session st i (\<lambda>s. s\<lparr> se_last_pong_nonce := Some nonce \<rparr>);
                          st = record_status st i
                      in emit_event st ''peer_pong'' i endpoint (to_string (unat nonce)))
                else emit_event st ''peer_unmatched_pong'' i endpoint (to_string (unat nonce)))
      in if se_liveness_nonce (session st i) = Some nonce
         then (let st = modify_session st i (\<lambda>s. s\<lparr> se_liveness_nonce := None, se_pong_timer := None \<rparr>)
               in arm_idle_timer st i)
         else st)"

definition handle_message :: "sodium \<Rightarrow> PeerNet \<Rightarrow> u64 \<Rightarrow> MessageType \<Rightarrow> bytes \<Rightarrow> bool \<times> PeerNet" where
  "handle_message so st i type payload =
     (if se_remote_hello (session st i) = None
      then (if type \<noteq> MT_hello then (False, session_stop st i ''HELLO must be the first message'' True True)
            else handle_hello st i payload)
      else if type = MT_hello then (False, session_stop st i ''duplicate HELLO'' True True)
      else if \<not> se_handshake_complete (session st i)
      then (False, session_stop st i ''message received before handshake completion'' True True)
      else
        (let nonce = deserialize_ping_nonce payload
         in if type = MT_ping then (True, session_send so st i MT_pong (serialize_ping_nonce nonce))
            else if type = MT_pong then (True, handle_pong st i nonce)
            else (True, handle_application_message st i type payload)))"

section \<open>Reading\<close>

definition read_header :: "PeerNet \<Rightarrow> u64 \<Rightarrow> PeerNet" where
  "read_header st i = modify_session st i (\<lambda>s. s\<lparr> se_read := RO_header \<rparr>)"

text \<open>The handlers of a finished read: whether it failed, and the bytes otherwise.\<close>

definition on_read_header :: "PeerNet \<Rightarrow> u64 \<Rightarrow> bytes option \<Rightarrow> PeerNet" where
  "on_read_header st i outcome =
     (let st = modify_session st i (\<lambda>s. s\<lparr> se_read := RO_none \<rparr>)
      in case outcome of
           None \<Rightarrow> session_stop st i ''socket read failed'' True True
         | Some header_buffer \<Rightarrow>
             (case deserialize_frame_header header_buffer (pc_chain_id (pn_config st)) of
                Inl e \<Rightarrow> session_stop st i (protocol_error_message e) True True
              | Inr header \<Rightarrow>
                  modify_session st i (\<lambda>s. s\<lparr> se_current_header := Some header, se_read := RO_payload \<rparr>)))"

definition on_read_payload :: "sodium \<Rightarrow> PeerNet \<Rightarrow> u64 \<Rightarrow> bytes option \<Rightarrow> PeerNet" where
  "on_read_payload so st i outcome =
     (let st = modify_session st i (\<lambda>s. s\<lparr> se_read := RO_none \<rparr>)
      in case outcome of
           None \<Rightarrow> session_stop st i ''socket read failed'' True True
         | Some payload_buffer \<Rightarrow>
             (let header = the (se_current_header (session st i));
                  payload_error = validate_frame_payload so header payload_buffer
              in if payload_error \<noteq> NE_none
                 then session_stop st i (protocol_error_message payload_error) True True
                 else
                   (let (continues, st) = handle_message so st i (fh_type header) payload_buffer
                    in if \<not> continues then st
                       else
                         (let st = (if se_handshake_complete (session st i) \<and>
                                       se_liveness_nonce (session st i) = None
                                    then arm_idle_timer st i else st);
                              st = modify_session st i (\<lambda>s. s\<lparr> se_current_header := None \<rparr>)
                          in read_header st i))))"

section \<open>Timers\<close>

definition on_handshake_timer :: "PeerNet \<Rightarrow> u64 \<Rightarrow> PeerNet" where
  "on_handshake_timer st i =
     (let st = modify_session st i (\<lambda>s. s\<lparr> se_handshake_timer := False \<rparr>)
      in if \<not> se_handshake_complete (session st i) then session_stop st i ''handshake timeout'' True True else st)"

definition on_idle_timer :: "sodium \<Rightarrow> PeerNet \<Rightarrow> u64 \<Rightarrow> PeerNet" where
  "on_idle_timer so st i =
     (let st = modify_session st i (\<lambda>s. s\<lparr> se_idle_timer := False \<rparr>)
      in if se_stopped (session st i) \<or> \<not> se_handshake_complete (session st i) then st
         else
           (let (nonce, st) = reserve_ping_nonce st;
                st = modify_session st i (\<lambda>s. s\<lparr> se_liveness_nonce := Some nonce \<rparr>);
                st = session_send_ping so st i nonce
            in modify_session st i (\<lambda>s. s\<lparr> se_pong_timer := Some nonce \<rparr>)))"

definition on_pong_timer :: "PeerNet \<Rightarrow> u64 \<Rightarrow> u64 \<Rightarrow> PeerNet" where
  "on_pong_timer st i nonce =
     (let st = modify_session st i (\<lambda>s. s\<lparr> se_pong_timer :=
            (if se_pong_timer s = Some nonce then None else se_pong_timer s) \<rparr>)
      in if se_liveness_nonce (session st i) = Some nonce then session_stop st i ''PONG timeout'' True True else st)"

section \<open>Connections\<close>

definition session_start :: "sodium \<Rightarrow> PeerNet \<Rightarrow> u64 \<Rightarrow> endpoint option \<Rightarrow> PeerNet" where
  "session_start so st i remote =
     (let st = modify_session st i (\<lambda>s. s\<lparr>
            se_endpoint := (case remote of None \<Rightarrow> ''unknown'' | Some e \<Rightarrow> endpoint_text e),
            se_remote_address := (case remote of None \<Rightarrow> ''unknown'' | Some e \<Rightarrow> fst e) \<rparr>);
          st = record_new st i;
          st = modify_session st i (\<lambda>s. s\<lparr> se_handshake_timer := True \<rparr>);
          st = session_send so st i MT_hello (serialize_hello (local_hello st))
      in read_header st i)"

definition new_session :: "u64 \<Rightarrow> PeerDirection \<Rightarrow> nat option \<Rightarrow> Session" where
  "new_session i direction t =
     \<lparr> se_id = i, se_direction = direction, se_target = t, se_handshake_timer = False, se_idle_timer = False,
       se_pong_timer = None, se_socket_open = True, se_endpoint = [], se_remote_address = [], se_read = RO_none,
       se_current_header = None, se_outbound = [], se_queued_bytes = 0, se_remote_hello = None,
       se_selected_protocol_version = 0, se_last_ping_nonce = None, se_last_pong_nonce = None,
       se_liveness_nonce = None, se_handshake_complete = False, se_stopped = False \<rparr>"

definition create_session ::
    "sodium \<Rightarrow> PeerNet \<Rightarrow> endpoint option \<Rightarrow> PeerDirection \<Rightarrow> nat option \<Rightarrow> u64 \<times> PeerNet" where
  "create_session so st remote direction t =
     (let i = pn_next_session_id st;
          st = st\<lparr> pn_next_session_id := i + 1 \<rparr>;
          st = st\<lparr> pn_session_objects := (pn_session_objects st)(i \<mapsto> new_session i direction t) \<rparr>;
          st = st\<lparr> pn_sessions := pn_sessions st @ [i] \<rparr>
      in (i, session_start so st i remote))"

definition accept_next :: "PeerNet \<Rightarrow> PeerNet" where
  "accept_next st =
     (if pn_stopping st \<or> maximum_peer_count \<le> length (pn_sessions st)
      then (if \<not> pn_stopping st then st\<lparr> pn_accept_retry := True \<rparr> else st)
      else st\<lparr> pn_accepting := True \<rparr>)"

text \<open>\<open>Inl\<close> is the message of a failed accept; \<open>Inr\<close> the remote endpoint, if it can be read.\<close>

definition on_accept :: "sodium \<Rightarrow> PeerNet \<Rightarrow> string + endpoint option \<Rightarrow> PeerNet" where
  "on_accept so st outcome =
     (let st = st\<lparr> pn_accepting := False \<rparr>;
          st = (case outcome of
              Inr remote \<Rightarrow>
                (let address = (case remote of None \<Rightarrow> [] | Some e \<Rightarrow> fst e);
                     address_count = length (filter (\<lambda>i. se_direction (session st i) = PD_inbound \<and>
                       se_remote_address (session st i) = address) (pn_sessions st))
                 in if maximum_connections_per_ip \<le> address_count
                    then emit_event st ''peer_rejected'' 0 (case remote of None \<Rightarrow> [] | Some e \<Rightarrow> endpoint_text e)
                           ''per-IP connection limit exceeded''
                    else snd (create_session so st remote PD_inbound None))
            | Inl message \<Rightarrow>
                if \<not> pn_stopping st then emit_event st ''peer_accept_failed'' 0 [] message else st)
      in accept_next st)"

definition on_accept_retry :: "PeerNet \<Rightarrow> PeerNet" where
  "on_accept_retry st = accept_next (st\<lparr> pn_accept_retry := False \<rparr>)"

definition begin_connect :: "PeerNet \<Rightarrow> nat \<Rightarrow> PeerNet" where
  "begin_connect st t =
     (if pn_stopping st \<or> \<not> tg_enabled (target st t) \<or> tg_connecting (target st t) \<or>
         tg_session_id (target st t) \<noteq> None \<or> maximum_peer_count \<le> length (pn_sessions st)
      then st
      else modify_target st t (\<lambda>target. target\<lparr> tg_connecting := True, tg_connecting_socket := True \<rparr>))"

definition on_connect :: "sodium \<Rightarrow> PeerNet \<Rightarrow> nat \<Rightarrow> string + endpoint option \<Rightarrow> PeerNet" where
  "on_connect so st t outcome =
     (let st = modify_target st t (\<lambda>target. target\<lparr> tg_connecting := False, tg_connecting_socket := False \<rparr>)
      in case outcome of
           Inl message \<Rightarrow>
             if \<not> pn_stopping st \<and> tg_enabled (target st t)
             then schedule_reconnect
                    (emit_event st ''peer_connect_failed'' 0 (endpoint_text (tg_endpoint (target st t))) message) t
             else st
         | Inr remote \<Rightarrow>
             if pn_stopping st \<or> \<not> tg_enabled (target st t) then st
             else
               (let (i, st) = create_session so st remote PD_outbound (Some t)
                in modify_target st t (\<lambda>target. target\<lparr> tg_session_id := Some i \<rparr>)))"

definition on_reconnect_timer :: "PeerNet \<Rightarrow> nat \<Rightarrow> PeerNet" where
  "on_reconnect_timer st t = begin_connect (modify_target st t (\<lambda>target. target\<lparr> tg_timer := False \<rparr>)) t"

definition new_target :: "endpoint \<Rightarrow> Target" where
  "new_target endpoint =
     \<lparr> tg_endpoint = endpoint, tg_timer = False, tg_reconnect_delay = reconnect_initial_delay,
       tg_session_id = None, tg_connecting_socket = False, tg_enabled = True, tg_connecting = False \<rparr>"

definition add_target :: "PeerNet \<Rightarrow> endpoint \<Rightarrow> PeerNet" where
  "add_target st endpoint =
     (let key = endpoint_text endpoint
      in case pn_targets st key of
           None \<Rightarrow>
             (let t = pn_next_target st;
                  st = st\<lparr> pn_target_objects := (pn_target_objects st)(t \<mapsto> new_target endpoint),
                          pn_next_target := t + 1, pn_targets := (pn_targets st)(key \<mapsto> t) \<rparr>
              in begin_connect st t)
         | Some t \<Rightarrow>
             if \<not> tg_connecting (target st t) \<and> tg_session_id (target st t) = None
             then begin_connect st t else st)"

text \<open>\<open>connect\<close> and \<open>disconnect\<close> check the address; the work is posted to the thread.\<close>

definition connect_request ::
    "(string \<Rightarrow> ip_address option) \<Rightarrow> PeerNet \<Rightarrow> string \<Rightarrow> nat \<Rightarrow> string + endpoint" where
  "connect_request make_address st host port =
     (case make_address host of
        None \<Rightarrow> Inl (address_scope_error (pc_address_scope (pn_config st)))
      | Some address \<Rightarrow>
          if \<not> address_allowed address (pc_address_scope (pn_config st)) \<or> port = 0
          then Inl (address_scope_error (pc_address_scope (pn_config st)))
          else Inr (host, port))"

definition on_disconnect :: "PeerNet \<Rightarrow> endpoint \<Rightarrow> PeerNet" where
  "on_disconnect st endpoint =
     (let key = endpoint_text endpoint
      in case pn_targets st key of
           None \<Rightarrow> emit_event st ''peer_disconnect_failed'' 0 key ''target not found''
         | Some t \<Rightarrow>
             (let st = modify_target st t (\<lambda>target. target\<lparr> tg_enabled := False, tg_timer := False \<rparr>);
                  st = (case tg_session_id (target st t) of
                      None \<Rightarrow> st
                    | Some i \<Rightarrow>
                        if i \<in> set (pn_sessions st)
                        then session_stop st i ''peer disconnected by control'' True False else st);
                  st = st\<lparr> pn_targets := (pn_targets st)(key := None) \<rparr>
              in emit_event st ''peer_target_removed'' 0 key []))"

text \<open>The work that \<open>stop\<close> posts; sessions are stopped without telling the owner.\<close>

definition on_stop :: "PeerNet \<Rightarrow> PeerNet" where
  "on_stop st =
     (let st = st\<lparr> pn_stopping := True, pn_accepting := False \<rparr>;
          st = fold (\<lambda>i st. session_stop st i ''node shutdown'' False True) (pn_sessions st) st;
          st = st\<lparr> pn_sessions := [] \<rparr>
      in st\<lparr> pn_target_objects := (\<lambda>t. if t \<in> ran (pn_targets st)
             then map_option (\<lambda>target. target\<lparr> tg_enabled := False, tg_timer := False \<rparr>) (pn_target_objects st t)
             else pn_target_objects st t) \<rparr>)"

section \<open>Messages to the peers\<close>

text \<open>
  \<open>ping_all\<close> and \<open>broadcast\<close> loop over \<open>sessions_\<close> with an iterator. When the call for a
  session erases that session from the container, the iterator is invalid and advancing it is
  undefined: the result is \<^const>\<open>None\<close>.
\<close>

fun ping_loop :: "sodium \<Rightarrow> u64 \<Rightarrow> u64 list \<Rightarrow> PeerNet \<Rightarrow> PeerNet option" where
  "ping_loop so nonce [] st = Some st"
| "ping_loop so nonce (i # rest) st =
     (let st = session_send_ping so st i nonce
      in if i \<notin> set (pn_sessions st) then None else ping_loop so nonce rest st)"

definition ping_all :: "sodium \<Rightarrow> PeerNet \<Rightarrow> PeerNet option" where
  "ping_all so st = (let (nonce, st) = reserve_ping_nonce st in ping_loop so nonce (pn_sessions st) st)"

fun broadcast_loop ::
    "sodium \<Rightarrow> MessageType \<Rightarrow> bytes \<Rightarrow> u64 option \<Rightarrow> u64 list \<Rightarrow> PeerNet \<Rightarrow> PeerNet option" where
  "broadcast_loop so type payload excluded_peer [] st = Some st"
| "broadcast_loop so type payload excluded_peer (i # rest) st =
     (let st = (if Some i \<noteq> excluded_peer \<and> se_handshake_complete (session st i)
                then session_send_message so st i type payload else st)
      in if i \<notin> set (pn_sessions st) then None else broadcast_loop so type payload excluded_peer rest st)"

definition broadcast ::
    "sodium \<Rightarrow> PeerNet \<Rightarrow> MessageType \<Rightarrow> bytes \<Rightarrow> u64 option \<Rightarrow> PeerNet option" where
  "broadcast so st type payload excluded_peer =
     broadcast_loop so type payload excluded_peer (pn_sessions st) st"

text \<open>\<open>send\<close>: whether the peer is known, and the posted work.\<close>

definition send_known :: "PeerNet \<Rightarrow> u64 \<Rightarrow> bool" where
  "send_known st peer_id \<longleftrightarrow> (\<exists>peer \<in> set (peers st). ps_id peer = peer_id \<and> ps_handshake_complete peer)"

definition on_send :: "sodium \<Rightarrow> PeerNet \<Rightarrow> u64 \<Rightarrow> MessageType \<Rightarrow> bytes \<Rightarrow> PeerNet" where
  "on_send so st peer_id type payload =
     (if peer_id \<in> set (pn_sessions st) then session_send_message so st peer_id type payload else st)"

section \<open>Starting and the step relation\<close>

definition PeerNet_create :: "PeerNetworkConfig \<Rightarrow> bytes \<Rightarrow> PeerNet" where
  "PeerNet_create config session_nonce =
     \<lparr> pn_config = config, pn_session_nonce = session_nonce, pn_listen_port = 0, pn_stopping = False, pn_accepting = False,
       pn_accept_retry = False, pn_next_session_id = 1, pn_sessions = [], pn_session_objects = (\<lambda>i. None),
       pn_targets = (\<lambda>k. None), pn_target_objects = (\<lambda>t. None), pn_next_target = 0, pn_peer_status = [],
       pn_next_ping_nonce = 1, pn_callbacks = [] \<rparr>"

text \<open>
  \<open>bind_listen\<close> stands for the calls that open the listening socket: the message of the
  exception, or the local port.
\<close>

definition PeerNet_start ::
    "(string \<Rightarrow> ip_address option) \<Rightarrow> (string \<Rightarrow> u16 \<Rightarrow> string + u16) \<Rightarrow> PeerNet \<Rightarrow> string option \<times> PeerNet" where
  "PeerNet_start make_address bind_listen st =
     (let config = pn_config st
      in if pc_listen config
         then (case make_address (pc_listen_host config) of
             None \<Rightarrow> (Some (address_scope_error (pc_address_scope config)), st)
           | Some address \<Rightarrow>
               if \<not> address_allowed address (pc_address_scope config)
               then (Some (address_scope_error (pc_address_scope config)), st)
               else (case bind_listen (pc_listen_host config) (pc_listen_port config) of
                   Inl message \<Rightarrow> (Some message, st)
                 | Inr port \<Rightarrow> (None, accept_next (st\<lparr> pn_listen_port := port \<rparr>))))
         else (None, st))"

text \<open>
  The handlers that may run next. A timer or a finished read or write of a session runs as
  long as the session object exists, also when the session was stopped in the meantime: what
  completed before the stop is already queued. Identifiers do not wrap around, that is, fewer
  than \<open>2 ^ 64 - 1\<close> connections are made.
\<close>

inductive peer_step :: "sodium \<Rightarrow> PeerNet \<Rightarrow> PeerNet \<Rightarrow> bool" for so where
  written: "pn_session_objects st i = Some s \<Longrightarrow> se_outbound s \<noteq> [] \<Longrightarrow> peer_step so st (on_write st i error)"
| read_header: "pn_session_objects st i = Some s \<Longrightarrow> se_read s = RO_header \<Longrightarrow>
    peer_step so st (on_read_header st i outcome)"
| read_payload: "pn_session_objects st i = Some s \<Longrightarrow> se_read s = RO_payload \<Longrightarrow>
    peer_step so st (on_read_payload so st i outcome)"
| handshake_timer: "pn_session_objects st i = Some s \<Longrightarrow> peer_step so st (on_handshake_timer st i)"
| idle_timer: "pn_session_objects st i = Some s \<Longrightarrow> peer_step so st (on_idle_timer so st i)"
| pong_timer: "pn_session_objects st i = Some s \<Longrightarrow> peer_step so st (on_pong_timer st i nonce)"
| start: "peer_step so st (snd (PeerNet_start make_address bind_listen st))"
| accept: "pn_accepting st \<Longrightarrow> pn_next_session_id st \<noteq> u64_max \<Longrightarrow> peer_step so st (on_accept so st accepted)"
| accept_retry: "pn_accept_retry st \<Longrightarrow> peer_step so st (on_accept_retry st)"
| add: "peer_step so st (add_target st endpoint)"
| connect: "pn_target_objects st t = Some g \<Longrightarrow> pn_next_session_id st \<noteq> u64_max \<Longrightarrow>
    peer_step so st (on_connect so st t accepted)"
| reconnect: "pn_target_objects st t = Some g \<Longrightarrow> peer_step so st (on_reconnect_timer st t)"
| disconnect: "peer_step so st (on_disconnect st endpoint)"
| ping: "ping_all so st = Some st' \<Longrightarrow> peer_step so st st'"
| broadcast: "broadcast so st type payload excluded = Some st' \<Longrightarrow> peer_step so st st'"
| send: "peer_step so st (on_send so st peer type payload)"
| shutdown: "peer_step so st (on_stop st)"
| tip: "length block_id = 32 \<Longrightarrow> peer_step so st (update_tip st height block_id)"

inductive peer_reachable :: "sodium \<Rightarrow> PeerNet \<Rightarrow> bool" for so where
  create: "supported_chain (pc_chain_id config) \<Longrightarrow> length nonce = 16 \<Longrightarrow>
    length (pc_tip_block_id config) = 32 \<Longrightarrow> length (pc_genesis_block_id config) = 32 \<Longrightarrow>
    peer_reachable so (PeerNet_create config nonce)"
| step: "peer_reachable so st \<Longrightarrow> peer_step so st st' \<Longrightarrow> peer_reachable so st'"

end
