(* ===== verification/BBC_Peer_Inv.thy ===== *)
theory BBC_Peer_Inv
  imports BBC_Peer
begin

text \<open>
  The invariant of the peer network and its properties: who completes a handshake, that a
  remote node has one session, that queues are bounded, and that a silent peer is dropped.
\<close>

section \<open>The invariant\<close>

text \<open>Network identifier and Genesis block, which never change.\<close>

definition pn_net :: "PeerNet \<Rightarrow> u32 \<times> bytes" where
  "pn_net st = (pc_chain_id (pn_config st), pc_genesis_block_id (pn_config st))"

text \<open>The greetings \<open>handle_hello\<close> lets pass.\<close>

definition hello_accepted :: "u32 \<times> bytes \<Rightarrow> bytes \<Rightarrow> HelloPayload \<Rightarrow> bool" where
  "hello_accepted net nonce h \<longleftrightarrow>
     hello_valid h \<and> hp_chain_id h = fst net \<and> hp_genesis_block_id h = snd net \<and> hp_session_nonce h \<noteq> nonce \<and>
     hp_services h AND (full_node_service OR mining_service) \<noteq> 0 \<and>
     hp_minimum_protocol_version h \<le> protocol_version \<and> protocol_version \<le> hp_maximum_protocol_version h"

definition object_ok :: "u32 \<times> bytes \<Rightarrow> bytes \<Rightarrow> u64 \<Rightarrow> Session \<Rightarrow> bool" where
  "object_ok net nonce i s \<longleftrightarrow>
     se_id s = i \<and> se_queued_bytes s = sum_list (map length (se_outbound s)) \<and>
     se_queued_bytes s \<le> maximum_outbound_queue_size \<and>
     (\<forall>h. se_remote_hello s = Some h \<longrightarrow>
        hello_accepted net nonce h \<and> se_selected_protocol_version s = protocol_version) \<and>
     (se_handshake_complete s \<longrightarrow> se_remote_hello s \<noteq> None) \<and>
     (se_liveness_nonce s \<noteq> None \<longrightarrow> se_handshake_complete s) \<and>
     (se_read s = RO_payload \<longrightarrow> se_current_header s \<noteq> None)"

text \<open>A session in the container: the handshake is all or nothing, and a timer watches over it.\<close>

definition live_ok :: "Session \<Rightarrow> bool" where
  "live_ok s \<longleftrightarrow>
     (se_remote_hello s \<noteq> None \<longrightarrow> se_handshake_complete s) \<and>
     (\<not> se_handshake_complete s \<longrightarrow> se_handshake_timer s) \<and>
     (se_handshake_complete s \<and> se_liveness_nonce s = None \<longrightarrow> se_idle_timer s) \<and>
     (\<forall>n. se_handshake_complete s \<and> se_liveness_nonce s = Some n \<longrightarrow> se_pong_timer s = Some n)"

definition remote_nonce :: "PeerNet \<Rightarrow> u64 \<Rightarrow> bytes option" where
  "remote_nonce st i = map_option hp_session_nonce (se_remote_hello (session st i))"

text \<open>The sessions of \<open>X\<close> are in the middle of a handshake.\<close>

definition pn_inv_except :: "u64 set \<Rightarrow> PeerNet \<Rightarrow> bool" where
  "pn_inv_except X st \<longleftrightarrow>
     distinct (pn_sessions st) \<and>
     (\<forall>i s. pn_session_objects st i = Some s \<longrightarrow>
        object_ok (pn_net st) (pn_session_nonce st) i s \<and> i < pn_next_session_id st) \<and>
     (\<forall>i \<in> set (pn_sessions st). pn_session_objects st i \<noteq> None \<and> \<not> se_stopped (session st i)) \<and>
     (\<forall>i \<in> set (pn_sessions st) - X. live_ok (session st i)) \<and>
     (\<forall>i \<in> set (pn_sessions st) - X. \<forall>j \<in> set (pn_sessions st) - X.
        i \<noteq> j \<and> remote_nonce st i \<noteq> None \<longrightarrow> remote_nonce st i \<noteq> remote_nonce st j)"

abbreviation pn_inv :: "PeerNet \<Rightarrow> bool" where
  "pn_inv \<equiv> pn_inv_except {}"

section \<open>What the bookkeeping leaves alone\<close>

text \<open>The part of the state the invariant speaks of.\<close>

definition core :: "PeerNet \<Rightarrow> (u32 \<times> bytes) \<times> bytes \<times> u64 \<times> u64 list \<times> (u64 \<Rightarrow> Session option)" where
  "core st = (pn_net st, pn_session_nonce st, pn_next_session_id st, pn_sessions st, pn_session_objects st)"

lemma core_cong:
  assumes "core st = core st'"
  shows "pn_inv_except X st = pn_inv_except X st'" "session st = session st'" "remote_nonce st = remote_nonce st'"
    "pn_sessions st = pn_sessions st'" "pn_session_objects st = pn_session_objects st'"
proof -
  have eqs: "pn_net st = pn_net st'" "pn_session_nonce st = pn_session_nonce st'"
    "pn_next_session_id st = pn_next_session_id st'" "pn_sessions st = pn_sessions st'"
    "pn_session_objects st = pn_session_objects st'"
    using assms by (simp_all add: core_def)
  then show "session st = session st'" by (simp add: session_def fun_eq_iff)
  then show "remote_nonce st = remote_nonce st'" by (simp add: remote_nonce_def fun_eq_iff)
  with eqs \<open>session st = session st'\<close> show "pn_inv_except X st = pn_inv_except X st'"
    by (simp add: pn_inv_except_def)
  show "pn_sessions st = pn_sessions st'" "pn_session_objects st = pn_session_objects st'" by (rule eqs)+
qed

lemma core_basic [simp]:
  "core (emit st e) = core st"
  "core (emit_event st a b c d) = core st"
  "core (handle_application_message st i type p) = core st"
  "core (record_status st i) = core st"
  "core (modify_target st t g) = core st"
  "core (update_tip st height block_id) = core st"
  by (simp_all add: core_def pn_net_def emit_def emit_event_def handle_application_message_def record_status_def
      modify_target_def update_tip_def)

lemma core_update [simp]:
  "core (st\<lparr> pn_accepting := b \<rparr>) = core st" "core (st\<lparr> pn_accept_retry := b \<rparr>) = core st"
  "core (st\<lparr> pn_next_ping_nonce := n \<rparr>) = core st" "core (st\<lparr> pn_targets := ts \<rparr>) = core st"
  "core (st\<lparr> pn_next_target := k \<rparr>) = core st" "core (st\<lparr> pn_listen_port := n16 \<rparr>) = core st"
  "core (st\<lparr> pn_target_objects := os \<rparr>) = core st" "core (st\<lparr> pn_stopping := b \<rparr>) = core st"
  by (simp_all add: core_def pn_net_def)

lemma core_connecting [simp]:
  "core (schedule_reconnect st t) = core st"
  "core (begin_connect st t) = core st"
  "core (accept_next st) = core st"
  by (simp_all add: schedule_reconnect_def begin_connect_def accept_next_def)

lemma core_targets [simp]:
  "core (add_target st endpoint) = core st"
  "core (snd (reserve_ping_nonce st)) = core st"
  "core (on_reconnect_timer st t) = core st"
  "core (on_accept_retry st) = core st"
  "core (snd (PeerNet_start make_address bind_listen st)) = core st"
  by (simp_all add: add_target_def reserve_ping_nonce_def on_reconnect_timer_def on_accept_retry_def
      PeerNet_start_def Let_def split: option.split sum.split)

lemma session_modify [simp]:
  "session (modify_session st i f) j = (if j = i then f (session st i) else session st j)"
  by (simp add: session_def modify_session_def)

lemma fields_modify [simp]:
  "pn_sessions (modify_session st i f) = pn_sessions st" "pn_net (modify_session st i f) = pn_net st"
  "pn_session_nonce (modify_session st i f) = pn_session_nonce st"
  "pn_next_session_id (modify_session st i f) = pn_next_session_id st"
  "pn_session_objects (modify_session st i f) = (pn_session_objects st)(i \<mapsto> f (session st i))"
  "pn_config (modify_session st i f) = pn_config st"
  by (simp_all add: modify_session_def pn_net_def)

section \<open>Changing one session\<close>

text \<open>
  A change of one session object keeps the invariant if the object stays well formed and, for
  a session in the container that is not exempt, keeps its greeting and its timers.
\<close>

lemma modify_inv:
  assumes inv: "pn_inv_except X st" and obj: "pn_session_objects st i \<noteq> None"
    and ok: "object_ok (pn_net st) (pn_session_nonce st) i (session st i) \<Longrightarrow>
      object_ok (pn_net st) (pn_session_nonce st) i (f (session st i))"
    and run: "i \<in> set (pn_sessions st) \<Longrightarrow> se_stopped (f (session st i)) = se_stopped (session st i)"
    and live: "i \<in> set (pn_sessions st) \<Longrightarrow> i \<notin> X \<Longrightarrow> live_ok (session st i) \<Longrightarrow>
      live_ok (f (session st i)) \<and> se_remote_hello (f (session st i)) = se_remote_hello (session st i)"
  shows "pn_inv_except X (modify_session st i f)"
proof -
  have o: "object_ok (pn_net st) (pn_session_nonce st) i (session st i)" "i < pn_next_session_id st"
    using inv obj by (auto simp: pn_inv_except_def session_def)
  have n: "remote_nonce (modify_session st i f) j = remote_nonce st j"
    if "j \<in> set (pn_sessions st) - X" for j
    using that live inv by (cases "j = i") (auto simp: remote_nonce_def pn_inv_except_def)
  show ?thesis
    unfolding pn_inv_except_def
  proof (intro conjI ballI allI impI)
    show "distinct (pn_sessions (modify_session st i f))" using inv by (simp add: pn_inv_except_def)
  next
    fix j s
    assume "pn_session_objects (modify_session st i f) j = Some s"
    then show "object_ok (pn_net (modify_session st i f)) (pn_session_nonce (modify_session st i f)) j s"
      and "j < pn_next_session_id (modify_session st i f)"
      using inv ok [OF o(1)] o(2) by (auto simp: pn_inv_except_def split: if_splits)
  next
    fix j
    assume "j \<in> set (pn_sessions (modify_session st i f))"
    then show "pn_session_objects (modify_session st i f) j \<noteq> None" "\<not> se_stopped (session (modify_session st i f) j)"
      using inv run by (auto simp: pn_inv_except_def)
  next
    fix j
    assume "j \<in> set (pn_sessions (modify_session st i f)) - X"
    then show "live_ok (session (modify_session st i f) j)"
      using inv live by (auto simp: pn_inv_except_def)
  next
    fix j k
    assume "j \<in> set (pn_sessions (modify_session st i f)) - X" "k \<in> set (pn_sessions (modify_session st i f)) - X"
      "j \<noteq> k \<and> remote_nonce (modify_session st i f) j \<noteq> None"
    then show "remote_nonce (modify_session st i f) j \<noteq> remote_nonce (modify_session st i f) k"
      using inv n by (simp add: pn_inv_except_def)
  qed
qed

lemma inv_objectD:
  assumes "pn_inv_except X st" and "pn_session_objects st i \<noteq> None"
  shows "object_ok (pn_net st) (pn_session_nonce st) i (session st i)"
  using assms by (auto simp: pn_inv_except_def session_def)

lemma inv_sessionD:
  assumes "pn_inv_except X st" and "i \<in> set (pn_sessions st)"
  shows "pn_session_objects st i \<noteq> None" "\<not> se_stopped (session st i)" "i \<notin> X \<Longrightarrow> live_ok (session st i)"
  using assms by (auto simp: pn_inv_except_def)

lemma inv_uniqueD:
  assumes "pn_inv_except X st" and "i \<in> set (pn_sessions st) - X" and "j \<in> set (pn_sessions st) - X" and "i \<noteq> j"
    and "remote_nonce st i = Some n"
  shows "remote_nonce st j \<noteq> Some n"
  using assms unfolding pn_inv_except_def by (metis option.distinct(1))

text \<open>An exempt session may rejoin.\<close>

lemma inv_rejoin:
  assumes "pn_inv_except {i} st"
    and "i \<in> set (pn_sessions st) \<Longrightarrow> live_ok (session st i) \<and>
      (\<forall>j \<in> set (pn_sessions st). j \<noteq> i \<and> remote_nonce st i \<noteq> None \<longrightarrow> remote_nonce st j \<noteq> remote_nonce st i)"
  shows "pn_inv st"
proof -
  have "live_ok (session st j)" if "j \<in> set (pn_sessions st)" for j
    using that assms by (cases "j = i") (auto simp: pn_inv_except_def)
  moreover have "remote_nonce st j \<noteq> remote_nonce st k"
    if "j \<in> set (pn_sessions st)" "k \<in> set (pn_sessions st)" "j \<noteq> k" "remote_nonce st j \<noteq> None" for j k
  proof (cases "j = i \<or> k = i")
    case True
    then show ?thesis using that assms(2) by metis
  next
    case False
    then show ?thesis using that assms(1) by (simp add: pn_inv_except_def)
  qed
  ultimately show ?thesis using assms(1) by (simp add: pn_inv_except_def)
qed

lemma inv_exempt: "pn_inv st \<Longrightarrow> pn_inv_except X st"
  by (simp add: pn_inv_except_def)

section \<open>Stopping\<close>

abbreviation stopped_session :: "Session \<Rightarrow> Session" where
  "stopped_session s \<equiv> s\<lparr> se_stopped := True, se_handshake_timer := False, se_idle_timer := False,
     se_pong_timer := None, se_socket_open := False \<rparr>"

lemma core_session_stopped:
  "core (session_stopped st i reason rc) =
     (pn_net st, pn_session_nonce st, pn_next_session_id st, filter (\<lambda>j. j \<noteq> i) (pn_sessions st), pn_session_objects st)"
proof -
  let ?st = "emit_event st ''peer_disconnected'' i (se_endpoint (session st i)) reason"
  let ?st1 = "?st\<lparr> pn_peer_status := filter (\<lambda>entry. fst entry \<noteq> i) (pn_peer_status ?st),
    pn_sessions := filter (\<lambda>j. j \<noteq> i) (pn_sessions ?st) \<rparr>"
  have "core (session_stopped st i reason rc) = core ?st1"
    by (simp add: session_stopped_def Let_def split: option.split)
  also have "\<dots> = (pn_net st, pn_session_nonce st, pn_next_session_id st, filter (\<lambda>j. j \<noteq> i) (pn_sessions st),
      pn_session_objects st)"
    by (simp add: core_def pn_net_def emit_event_def emit_def)
  finally show ?thesis .
qed

lemma core_session_stop:
  "core (session_stop st i reason True rc) =
     (if se_stopped (session st i) then core st
      else (pn_net st, pn_session_nonce st, pn_next_session_id st, filter (\<lambda>j. j \<noteq> i) (pn_sessions st),
            (pn_session_objects st)(i \<mapsto> stopped_session (session st i))))"
  by (simp add: session_stop_def core_session_stopped Let_def)

lemma core_fields:
  "pn_sessions st = fst (snd (snd (snd (core st))))" "pn_session_objects st = snd (snd (snd (snd (core st))))"
  "pn_net st = fst (core st)" "pn_session_nonce st = fst (snd (core st))"
  "pn_next_session_id st = fst (snd (snd (core st)))"
  by (simp_all add: core_def)

lemma session_stop_fields:
  fixes st i reason rc
  defines "st' \<equiv> session_stop st i reason True rc"
  assumes "\<not> se_stopped (session st i)"
  shows "pn_sessions st' = filter (\<lambda>j. j \<noteq> i) (pn_sessions st)"
    "pn_session_objects st' = (pn_session_objects st)(i \<mapsto> stopped_session (session st i))"
    "session st' j = (if j = i then stopped_session (session st i) else session st j)"
    "pn_net st' = pn_net st" "pn_session_nonce st' = pn_session_nonce st"
    "pn_next_session_id st' = pn_next_session_id st"
  unfolding st'_def session_def
  using assms(2)
  unfolding core_fields(1,2) [of "session_stop st i reason True rc"]
    core_fields(3-5) [of "session_stop st i reason True rc"] core_session_stop
  by (simp_all add: session_def)

lemma session_stop_inv:
  assumes inv: "pn_inv_except X st" and obj: "pn_session_objects st i \<noteq> None"
  shows "pn_inv_except X (session_stop st i reason True rc)"
    and "i \<notin> set (pn_sessions (session_stop st i reason True rc))"
proof -
  show "i \<notin> set (pn_sessions (session_stop st i reason True rc))"
  proof (cases "se_stopped (session st i)")
    case True
    then show ?thesis using inv_sessionD(2) [OF inv, of i] by (auto simp: session_stop_def)
  next
    case False
    then show ?thesis by (simp add: session_stop_fields)
  qed
  show "pn_inv_except X (session_stop st i reason True rc)"
  proof (cases "se_stopped (session st i)")
    case False
    note f = session_stop_fields [OF False, of reason rc]
    have "object_ok (pn_net st) (pn_session_nonce st) i (stopped_session (session st i))"
      using inv_objectD [OF inv obj] by (simp add: object_ok_def)
    moreover have "remote_nonce (session_stop st i reason True rc) j = remote_nonce st j" for j
      by (simp add: remote_nonce_def f)
    ultimately show ?thesis
      using inv obj unfolding pn_inv_except_def by (auto simp: f)
  qed (use inv in \<open>simp add: session_stop_def\<close>)
qed

lemma inv_core: "core st' = core st \<Longrightarrow> pn_inv_except X st \<Longrightarrow> pn_inv_except X st'"
  using core_cong(1) by blast

lemma core_modify: "core st' = core st \<Longrightarrow> core (modify_session st' i f) = core (modify_session st i f)"
  using core_cong(2) [of st' st] by (simp add: core_def)

lemma modify_modify: "modify_session (modify_session st i f) i g = modify_session st i (\<lambda>s. g (f s))"
  by (simp add: modify_session_def session_def)

text \<open>Objects stay.\<close>

definition has_object :: "PeerNet \<Rightarrow> u64 \<Rightarrow> bool" where
  "has_object st i \<longleftrightarrow> pn_session_objects st i \<noteq> None"

lemma has_object_core: "core st' = core st \<Longrightarrow> has_object st' i = has_object st i"
  by (simp add: has_object_def core_def)

lemma has_object_modify [simp]: "has_object (modify_session st i f) j \<longleftrightarrow> j = i \<or> has_object st j"
  by (simp add: has_object_def)

lemma has_object_basic [simp]:
  "has_object (emit_event st a b c d) i = has_object st i"
  "has_object (handle_application_message st j type p) i = has_object st i"
  "has_object (record_status st j) i = has_object st i"
  "has_object (modify_target st t g) i = has_object st i"
  by (rule has_object_core, simp)+

lemma session_basic [simp]:
  "session (emit_event st a b c d) = session st"
  "session (handle_application_message st j type p) = session st"
  "session (record_status st j) = session st"
  "session (modify_target st t g) = session st"
  by (rule core_cong(2), simp)+

lemma fields_basic [simp]:
  "pn_sessions (emit_event st a b c d) = pn_sessions st" "pn_sessions (record_status st j) = pn_sessions st"
  "pn_config (emit_event st a b c d) = pn_config st" "pn_config (record_status st j) = pn_config st"
  "pn_session_nonce (emit_event st a b c d) = pn_session_nonce st"
  "pn_session_nonce (record_status st j) = pn_session_nonce st"
  "pn_peer_status (emit_event st a b c d) = pn_peer_status st"
  "pn_peer_status (modify_session st j f) = pn_peer_status st"
  by (simp_all add: emit_event_def emit_def record_status_def modify_session_def)

lemma has_object_stop [simp]: "has_object st j \<Longrightarrow> has_object (session_stop st i reason True rc) j"
proof (cases "se_stopped (session st i)")
  case True
  then show "has_object st j \<Longrightarrow> ?thesis" by (simp add: session_stop_def)
next
  case False
  then show "has_object st j \<Longrightarrow> ?thesis" by (simp add: session_stop_fields has_object_def)
qed

lemma stop_inv:
  assumes "pn_inv_except X st" and "has_object st i"
  shows "pn_inv_except X (session_stop st i reason True rc)"
    and "i \<notin> set (pn_sessions (session_stop st i reason True rc))"
  using session_stop_inv [OF assms(1)] assms(2) by (simp_all add: has_object_def)

text \<open>Stopping an exempt session ends the exemption.\<close>

lemma stop_exempt:
  assumes "pn_inv_except {i} st" and "has_object st i"
  shows "pn_inv (session_stop st i reason True rc)"
  using stop_inv [OF assms] by (intro inv_rejoin) auto

section \<open>Sending\<close>

lemma session_send_cases:
  obtains (stopped) "session_send so st i type payload = session_stop st i ''outbound queue limit exceeded'' True True"
  | (queued) frame where "se_queued_bytes (session st i) + length frame \<le> maximum_outbound_queue_size"
    "session_send so st i type payload = modify_session st i (\<lambda>s. s\<lparr> se_queued_bytes := se_queued_bytes s + length frame,
       se_outbound := se_outbound s @ [frame] \<rparr>)"
proof -
  let ?frame = "serialize_frame so type payload (pc_chain_id (pn_config st))"
  show thesis
  proof (cases "?frame = [] \<or> maximum_outbound_queue_size < se_queued_bytes (session st i) + length ?frame")
    case True
    then show thesis by (intro stopped) (simp add: session_send_def)
  next
    case False
    then show thesis by (intro queued [of ?frame]) (simp_all add: session_send_def Let_def)
  qed
qed

lemma session_send_inv:
  assumes inv: "pn_inv_except X st" and obj: "has_object st i"
  shows "pn_inv_except X (session_send so st i type payload)"
proof (cases rule: session_send_cases [of so st i type payload])
  case stopped
  then show ?thesis using stop_inv(1) [OF assms] by simp
next
  case (queued frame)
  show ?thesis
    unfolding queued(2) using obj queued(1)
    by (intro modify_inv [OF inv]) (auto simp: has_object_def object_ok_def live_ok_def)
qed

lemma has_object_send [simp]: "has_object st j \<Longrightarrow> has_object (session_send so st i type payload) j"
  by (cases rule: session_send_cases [of so st i type payload]) simp_all

lemma session_send_ping_inv:
  assumes inv: "pn_inv_except X st" and obj: "has_object st i"
  shows "pn_inv_except X (session_send_ping so st i nonce)"
proof -
  have "pn_inv_except X (modify_session st i (\<lambda>s. s\<lparr> se_last_ping_nonce := Some nonce \<rparr>))"
    using obj by (intro modify_inv [OF inv]) (auto simp: has_object_def object_ok_def live_ok_def)
  then have "pn_inv_except X (record_status (modify_session st i (\<lambda>s. s\<lparr> se_last_ping_nonce := Some nonce \<rparr>)) i)"
    by (rule inv_core [rotated]) simp
  then show ?thesis using inv by (simp add: session_send_ping_def session_send_inv Let_def)
qed

lemma has_object_send_ping [simp]: "has_object st j \<Longrightarrow> has_object (session_send_ping so st i nonce) j"
  by (simp add: session_send_ping_def Let_def)

lemma session_send_message_inv:
  "pn_inv_except X st \<Longrightarrow> has_object st i \<Longrightarrow> pn_inv_except X (session_send_message so st i type payload)"
  by (simp add: session_send_message_def session_send_inv)

lemma has_object_send_message [simp]: "has_object st j \<Longrightarrow> has_object (session_send_message so st i type payload) j"
  by (simp add: session_send_message_def)

lemma on_write_inv:
  assumes inv: "pn_inv_except X st" and obj: "has_object st i" and "se_outbound (session st i) \<noteq> []"
  shows "pn_inv_except X (on_write st i error)"
proof (cases error)
  case False
  obtain frame rest where out: "se_outbound (session st i) = frame # rest" using assms(3) by (cases "se_outbound (session st i)") auto
  have "pn_inv_except X (modify_session st i (\<lambda>s. s\<lparr> se_queued_bytes := se_queued_bytes s - length (hd (se_outbound s)),
      se_outbound := tl (se_outbound s) \<rparr>))"
    using obj out by (intro modify_inv [OF inv]) (auto simp: has_object_def object_ok_def live_ok_def)
  then show ?thesis using False by (simp add: on_write_def)
qed (simp add: on_write_def stop_inv [OF inv obj])

section \<open>The handshake\<close>

lemma handshake_loop_result:
  shows "handshake_loop st i n js = Inr None \<Longrightarrow> \<forall>j \<in> set js. j \<noteq> i \<longrightarrow> remote_nonce st j \<noteq> Some n"
    and "handshake_loop st i n js = Inr (Some r) \<Longrightarrow> r \<in> set js \<and> r \<noteq> i \<and> remote_nonce st r = Some n"
    and "handshake_loop st i n js = Inl e \<Longrightarrow> e \<in> set js \<and> e \<noteq> i \<and> remote_nonce st e = Some n"
  by (induction js) (auto simp: remote_nonce_def Let_def split: if_splits option.splits)

text \<open>Handing a target over changes the field \<open>target_\<close> of a session only.\<close>

definition hand_over :: "PeerNet \<Rightarrow> u64 \<Rightarrow> u64 \<Rightarrow> PeerNet" where
  "hand_over st a b =
     (case (se_target (session st a), se_target (session st b)) of
        (None, Some t) \<Rightarrow>
          modify_target (modify_session st a (\<lambda>s. s\<lparr> se_target := Some t \<rparr>)) t
            (\<lambda>target. target\<lparr> tg_session_id := Some a \<rparr>)
      | _ \<Rightarrow> st)"

lemma complete_handshake_eq:
  "complete_handshake st i =
     (case handshake_loop st i (hp_session_nonce (the (se_remote_hello (session st i)))) (pn_sessions st) of
        Inl e \<Rightarrow> (False, session_stop (hand_over st e i) i ''duplicate peer connection'' True False)
      | Inr replaced \<Rightarrow>
          (let st = (case replaced of None \<Rightarrow> st
                | Some r \<Rightarrow> session_stop (hand_over st i r) r ''duplicate peer connection'' True False)
           in (True, case se_target (session st i) of None \<Rightarrow> st
                | Some t \<Rightarrow> modify_target st t (\<lambda>target. target\<lparr> tg_reconnect_delay := reconnect_initial_delay \<rparr>))))"
  by (simp add: complete_handshake_def hand_over_def Let_def split: sum.split option.split)

lemma hand_over_core:
  assumes "has_object st a"
  obtains t where "core (hand_over st a b) = core (modify_session st a (\<lambda>s. s\<lparr> se_target := t \<rparr>))"
proof -
  have "modify_session st a (\<lambda>s. s\<lparr> se_target := se_target (session st a) \<rparr>) = st"
    using assms by (auto simp: modify_session_def has_object_def session_def fun_upd_idem)
  then show thesis
    using that [of "se_target (session st a)"] that by (fastforce simp: hand_over_def split: option.splits)
qed

lemma hand_over_inv:
  assumes inv: "pn_inv_except X st" and obj: "has_object st a"
  shows "pn_inv_except X (hand_over st a b)"
proof -
  obtain t where t: "core (hand_over st a b) = core (modify_session st a (\<lambda>s. s\<lparr> se_target := t \<rparr>))"
    using obj by (rule hand_over_core)
  have "pn_inv_except X (modify_session st a (\<lambda>s. s\<lparr> se_target := t \<rparr>))"
    using obj by (intro modify_inv [OF inv]) (auto simp: has_object_def object_ok_def live_ok_def)
  with t show ?thesis by (rule inv_core)
qed

lemma hand_over_fields:
  assumes obj: "has_object st a"
  shows "pn_sessions (hand_over st a b) = pn_sessions st" "remote_nonce (hand_over st a b) = remote_nonce st"
    "has_object st j \<Longrightarrow> has_object (hand_over st a b) j"
    "\<exists>t. session (hand_over st a b) j = (session st j)\<lparr> se_target := t \<rparr>"
proof -
  obtain t where t: "core (hand_over st a b) = core (modify_session st a (\<lambda>s. s\<lparr> se_target := t \<rparr>))"
    using obj by (rule hand_over_core)
  show "pn_sessions (hand_over st a b) = pn_sessions st" using core_cong(4) [OF t] by simp
  show "remote_nonce (hand_over st a b) = remote_nonce st"
    unfolding core_cong(3) [OF t] by (simp add: remote_nonce_def fun_eq_iff)
  show "has_object st j \<Longrightarrow> has_object (hand_over st a b) j"
    unfolding has_object_core [OF t] by simp
  have "(session st j)\<lparr> se_target := se_target (session st j) \<rparr> = session st j" by simp
  then show "\<exists>t. session (hand_over st a b) j = (session st j)\<lparr> se_target := t \<rparr>"
    unfolding core_cong(2) [OF t] session_modify by metis
qed

text \<open>
  The outcome of \<open>complete_handshake\<close> for a candidate whose greeting was just stored: it is
  refused and stopped, or no other session has its nonce.
\<close>

lemma complete_handshake_inv:
  assumes inv: "pn_inv_except {i} st" and obj: "has_object st i" and h: "se_remote_hello (session st i) = Some h"
    and res: "complete_handshake st i = (ok, st')"
  shows "pn_inv_except {i} st'" and "has_object st' i" and "\<exists>t. session st' i = (session st i)\<lparr> se_target := t \<rparr> \<or> \<not> ok"
    and "\<not> ok \<Longrightarrow> pn_inv st'"
    and "ok \<Longrightarrow> \<forall>j \<in> set (pn_sessions st'). j \<noteq> i \<longrightarrow> remote_nonce st' j \<noteq> Some (hp_session_nonce h)"
proof -
  let ?n = "hp_session_nonce h"
  have loop: "complete_handshake st i = (case handshake_loop st i ?n (pn_sessions st) of
        Inl e \<Rightarrow> (False, session_stop (hand_over st e i) i ''duplicate peer connection'' True False)
      | Inr replaced \<Rightarrow>
          (let st = (case replaced of None \<Rightarrow> st
                | Some r \<Rightarrow> session_stop (hand_over st i r) r ''duplicate peer connection'' True False)
           in (True, case se_target (session st i) of None \<Rightarrow> st
                | Some t \<Rightarrow> modify_target st t (\<lambda>target. target\<lparr> tg_reconnect_delay := reconnect_initial_delay \<rparr>))))"
    by (simp add: complete_handshake_eq h)
  consider (refused) e where "handshake_loop st i ?n (pn_sessions st) = Inl e"
    | (alone) "handshake_loop st i ?n (pn_sessions st) = Inr None"
    | (replaced) r where "handshake_loop st i ?n (pn_sessions st) = Inr (Some r)"
    by (metis obj_sumE option.exhaust)
  then have "pn_inv_except {i} st' \<and> has_object st' i \<and>
      (if ok then (\<exists>t. session st' i = (session st i)\<lparr> se_target := t \<rparr>) \<and>
         (\<forall>j \<in> set (pn_sessions st'). j \<noteq> i \<longrightarrow> remote_nonce st' j \<noteq> Some ?n)
       else pn_inv st')"
  proof cases
    case (refused e)
    have e: "e \<in> set (pn_sessions st)" using handshake_loop_result(3) [OF refused] by simp
    have oe: "has_object st e" using inv_sessionD(1) [OF inv e] by (simp add: has_object_def)
    have st': "ok = False" "st' = session_stop (hand_over st e i) i ''duplicate peer connection'' True False"
      using res loop refused by auto
    show ?thesis
      unfolding st' using stop_exempt [OF hand_over_inv [OF inv oe] hand_over_fields(3) [OF oe obj]]
        hand_over_fields(3) [OF oe obj] by (simp add: inv_exempt)
  next
    case alone
    have core: "core st' = core st" and ok using res loop alone by (auto split: option.splits)
    have same: "(session st i)\<lparr> se_target := se_target (session st i) \<rparr> = session st i" by simp
    show ?thesis
      using inv_core [OF core inv] has_object_core [OF core, of i] obj \<open>ok\<close> handshake_loop_result(1) [OF alone] same
      unfolding core_cong(2-4) [OF core] by metis
  next
    case (replaced r)
    note r = handshake_loop_result(2) [OF replaced]
    define st1 where "st1 = session_stop (hand_over st i r) r ''duplicate peer connection'' True False"
    have core: "core st' = core st1" and ok
      using res loop replaced by (auto simp: st1_def Let_def split: option.splits)
    have rs: "\<not> se_stopped (session st r)" "has_object st r"
      using inv_sessionD(1,2) [OF inv, of r] r by (auto simp: has_object_def)
    note ho = hand_over_fields [OF obj, where b = r]
    have nr: "\<not> se_stopped (session (hand_over st i r) r)" using ho(4) [of r] rs(1) by auto
    note f = session_stop_fields [OF nr, of "''duplicate peer connection''" False, folded st1_def]
    have "pn_inv_except {i} st1" unfolding st1_def
      by (rule stop_inv(1) [OF hand_over_inv [OF inv obj] ho(3) [OF rs(2)]])
    moreover have "has_object st1 i" unfolding st1_def using ho(3) [OF obj] by simp
    moreover have "\<exists>t. session st1 i = (session st i)\<lparr> se_target := t \<rparr>" using f(3) [of i] ho(4) [of i] r by auto
    moreover have "remote_nonce st1 j \<noteq> Some ?n" if j: "j \<in> set (pn_sessions st1)" "j \<noteq> i" for j
    proof -
      have "j \<noteq> r" "j \<in> set (pn_sessions st)" using j f(1) ho(1) by auto
      then have "remote_nonce st j \<noteq> Some ?n" using inv_uniqueD [OF inv, of r j ?n] r j(2) by auto
      moreover have "remote_nonce st1 j = remote_nonce st j"
        using f(3) [of j] \<open>j \<noteq> r\<close> fun_cong [OF ho(2), of j] by (simp add: remote_nonce_def)
      ultimately show ?thesis by simp
    qed
    ultimately show ?thesis
      using inv_core [OF core] has_object_core [OF core, of i] \<open>ok\<close> unfolding core_cong(2-4) [OF core] by metis
  qed
  then show "pn_inv_except {i} st'" "has_object st' i" "\<exists>t. session st' i = (session st i)\<lparr> se_target := t \<rparr> \<or> \<not> ok"
    "\<not> ok \<Longrightarrow> pn_inv st'"
    "ok \<Longrightarrow> \<forall>j \<in> set (pn_sessions st'). j \<noteq> i \<longrightarrow> remote_nonce st' j \<noteq> Some ?n"
    by (auto split: if_splits)
qed

lemma word_max_min:
  fixes a b :: u16
  shows "\<not> min b protocol_version < max a protocol_version \<longleftrightarrow> a \<le> protocol_version \<and> protocol_version \<le> b \<and> a \<le> b"
  by (auto simp: not_less min_le_iff_disj le_max_iff_disj)

text \<open>The branch of \<open>handle_hello\<close> for an acceptable greeting.\<close>

lemma handle_hello_accepted:
  assumes h: "deserialize_hello payload = Inr h" and acc: "hello_accepted (pn_net st) (pn_session_nonce st) h"
    and ch: "complete_handshake (modify_session st i (\<lambda>s. s\<lparr> se_remote_hello := Some h,
      se_selected_protocol_version := protocol_version \<rparr>)) i = (ok, st')"
  shows "handle_hello st i payload = (ok, if ok
     then arm_idle_timer (emit_event (record_status (modify_session st' i (\<lambda>s. s\<lparr> se_handshake_complete := True,
          se_handshake_timer := False \<rparr>)) i) ''peer_handshake_complete'' i (se_endpoint (session st' i)) []) i
     else st')"
proof -
  let ?max = "min (hp_maximum_protocol_version h) protocol_version"
  have max: "?max = protocol_version" using acc by (simp add: hello_accepted_def min_absorb2)
  have range: "\<not> ?max < max (hp_minimum_protocol_version h) protocol_version"
    unfolding word_max_min using acc by (auto simp: hello_accepted_def)
  show ?thesis
    using h acc ch range by (auto simp: handle_hello_def hello_accepted_def pn_net_def max Let_def)
qed

lemma handle_hello_inv:
  assumes inv: "pn_inv st" and obj: "has_object st i" and fresh: "se_remote_hello (session st i) = None"
    and res: "handle_hello st i payload = (continues, st')"
  shows "pn_inv st' \<and> has_object st' i"
proof (cases "\<exists>h. deserialize_hello payload = Inr h \<and> hello_accepted (pn_net st) (pn_session_nonce st) h")
  case False
  have "\<exists>reason. st' = session_stop st i reason True True"
    using False res
    by (auto simp: handle_hello_def hello_accepted_def pn_net_def hello_codec.decode_iff word_max_min Let_def
        split: sum.splits if_splits prod.splits)
  then show ?thesis using stop_inv(1) [OF inv obj] obj by auto
next
  case True
  then obtain h where h: "deserialize_hello payload = Inr h" and acc: "hello_accepted (pn_net st) (pn_session_nonce st) h"
    by blast
  define st1 where "st1 = modify_session st i (\<lambda>s. s\<lparr> se_remote_hello := Some h, se_selected_protocol_version := protocol_version \<rparr>)"
  obtain ok st2 where ch: "complete_handshake st1 i = (ok, st2)" by (rule prod.exhaust)
  have st': "st' = (if \<not> ok then st2
      else arm_idle_timer (emit_event (record_status (modify_session st2 i (\<lambda>s. s\<lparr> se_handshake_complete := True,
          se_handshake_timer := False \<rparr>)) i) ''peer_handshake_complete'' i
          (se_endpoint (session st2 i)) []) i)"
    using handle_hello_accepted [OF h acc ch [unfolded st1_def]] res by auto
  have i1: "pn_inv_except {i} st1"
    unfolding st1_def using obj acc
    by (intro modify_inv [OF inv_exempt [OF inv]]) (auto simp: has_object_def object_ok_def)
  have o1: "has_object st1 i" and h1: "se_remote_hello (session st1 i) = Some h" by (simp_all add: st1_def)
  note c = complete_handshake_inv [OF i1 o1 h1 ch]
  show ?thesis
  proof (cases ok)
    case False
    then show ?thesis using c st' by simp
  next
    case True
    let ?f = "\<lambda>s. s\<lparr> se_handshake_complete := True, se_handshake_timer := False, se_idle_timer := True \<rparr>"
    obtain t where s2: "session st2 i = (session st1 i)\<lparr> se_target := t \<rparr>" using c(3) True by blast
    have core: "core st' = core (modify_session st2 i ?f)"
    proof -
      have "core st' = core (modify_session (modify_session st2 i (\<lambda>s. s\<lparr> se_handshake_complete := True,
          se_handshake_timer := False \<rparr>)) i (\<lambda>s. s\<lparr> se_idle_timer := True \<rparr>))"
        unfolding st' arm_idle_timer_def if_not_P [OF not_not [THEN iffD2, OF True]] by (rule core_modify) simp
      then show ?thesis by (simp add: modify_modify)
    qed
    have h2: "se_remote_hello (session st2 i) = Some h" using s2 h1 by simp
    have "pn_inv_except {i} (modify_session st2 i ?f)"
      using c(2) h2 by (intro modify_inv [OF c(1)]) (auto simp: has_object_def object_ok_def)
    moreover have "live_ok (session (modify_session st2 i ?f) i)" if "i \<in> set (pn_sessions st2)"
    proof -
      have "se_liveness_nonce (session st i) = None"
        using inv_objectD [OF inv, of i] obj fresh by (auto simp: has_object_def object_ok_def)
      then show ?thesis using s2 by (simp add: live_ok_def st1_def)
    qed
    moreover have "remote_nonce (modify_session st2 i ?f) i = Some (hp_session_nonce h)"
      using h2 by (simp add: remote_nonce_def)
    moreover have "remote_nonce (modify_session st2 i ?f) j = remote_nonce st2 j" if "j \<noteq> i" for j
      using that by (simp add: remote_nonce_def)
    ultimately have "pn_inv (modify_session st2 i ?f)"
      using c(5) True by (intro inv_rejoin) auto
    then show ?thesis using core inv_core [OF core] has_object_core [OF core, of i] by simp
  qed
qed

section \<open>Messages\<close>

lemma handle_pong_inv:
  assumes inv: "pn_inv st" and obj: "has_object st i"
  shows "pn_inv (handle_pong st i nonce) \<and> has_object (handle_pong st i nonce) i"
proof -
  define st1 where "st1 = (if se_last_ping_nonce (session st i) = Some nonce
    then emit_event (record_status (modify_session st i (\<lambda>s. s\<lparr> se_last_pong_nonce := Some nonce \<rparr>)) i)
      ''peer_pong'' i (se_endpoint (session st i)) (to_string (unat nonce))
    else emit_event st ''peer_unmatched_pong'' i (se_endpoint (session st i)) (to_string (unat nonce)))"
  have eq: "handle_pong st i nonce = (if se_liveness_nonce (session st1 i) = Some nonce
      then modify_session st1 i (\<lambda>s. s\<lparr> se_liveness_nonce := None, se_pong_timer := None, se_idle_timer := True \<rparr>)
      else st1)"
    by (simp add: handle_pong_def st1_def arm_idle_timer_def modify_modify Let_def)
  have "pn_inv (modify_session st i (\<lambda>s. s\<lparr> se_last_pong_nonce := Some nonce \<rparr>))"
    using obj by (intro modify_inv [OF inv]) (auto simp: has_object_def object_ok_def live_ok_def)
  then have 1: "pn_inv st1" unfolding st1_def using inv by (auto intro: inv_core [rotated])
  have o: "has_object st1 i" using obj by (simp add: st1_def)
  have "pn_inv (modify_session st1 i (\<lambda>s. s\<lparr> se_liveness_nonce := None, se_pong_timer := None, se_idle_timer := True \<rparr>))"
    using o by (intro modify_inv [OF 1]) (auto simp: has_object_def object_ok_def live_ok_def)
  with 1 o show ?thesis by (simp add: eq)
qed

lemma handle_message_inv:
  assumes inv: "pn_inv st" and obj: "has_object st i" and res: "handle_message so st i type payload = (continues, st')"
  shows "pn_inv st' \<and> has_object st' i"
proof -
  have "pn_inv (handle_application_message st i type payload)" using inv by (rule inv_core [rotated]) simp
  then show ?thesis
    using res obj stop_inv(1) [OF inv obj] handle_hello_inv [OF inv obj] handle_pong_inv [OF inv obj]
      session_send_inv [OF inv obj]
    by (auto simp: handle_message_def Let_def split: if_splits)
qed

lemma read_done_inv:
  "pn_inv st \<Longrightarrow> has_object st i \<Longrightarrow> pn_inv (modify_session st i (\<lambda>s. s\<lparr> se_read := RO_none \<rparr>))"
  by (rule modify_inv) (auto simp: has_object_def object_ok_def live_ok_def)

lemma on_read_header_inv:
  assumes inv: "pn_inv st" and obj: "has_object st i"
  shows "pn_inv (on_read_header st i outcome)"
proof -
  let ?st = "modify_session st i (\<lambda>s. s\<lparr> se_read := RO_none \<rparr>)"
  have 1: "pn_inv ?st" "has_object ?st i" using read_done_inv [OF assms] by simp_all
  have "pn_inv (modify_session ?st i (\<lambda>s. s\<lparr> se_current_header := Some h, se_read := RO_payload \<rparr>))" for h
    by (intro modify_inv [OF 1(1)]) (auto simp: object_ok_def live_ok_def)
  then show ?thesis
    using stop_inv(1) [OF 1] by (simp add: on_read_header_def Let_def split: option.split sum.split)
qed

lemma arm_idle_timer_inv: "pn_inv st \<Longrightarrow> has_object st i \<Longrightarrow> pn_inv (arm_idle_timer st i)"
  unfolding arm_idle_timer_def by (rule modify_inv) (auto simp: has_object_def object_ok_def live_ok_def)

lemma on_read_payload_inv:
  assumes inv: "pn_inv st" and obj: "has_object st i"
  shows "pn_inv (on_read_payload so st i outcome)"
proof -
  let ?st = "modify_session st i (\<lambda>s. s\<lparr> se_read := RO_none \<rparr>)"
  have 1: "pn_inv ?st" "has_object ?st i" using read_done_inv [OF assms] by simp_all
  have next_read: "pn_inv (modify_session (modify_session s i (\<lambda>s. s\<lparr> se_current_header := None \<rparr>)) i (\<lambda>s. s\<lparr> se_read := RO_header \<rparr>))"
    if "pn_inv s" "has_object s i" for s
    unfolding modify_modify using that(2)
    by (intro modify_inv [OF that(1)]) (auto simp: has_object_def object_ok_def live_ok_def)
  show ?thesis
  proof (cases outcome)
    case None
    then show ?thesis using stop_inv(1) [OF 1] by (simp add: on_read_payload_def)
  next
    case (Some payload)
    let ?header = "the (se_current_header (session ?st i))"
    obtain continues st2 where m: "handle_message so ?st i (fh_type ?header) payload = (continues, st2)" by (rule prod.exhaust)
    note 2 = handle_message_inv [OF 1 m]
    have "pn_inv (if se_handshake_complete (session st2 i) \<and> se_liveness_nonce (session st2 i) = None
        then arm_idle_timer st2 i else st2)"
      and "has_object (if se_handshake_complete (session st2 i) \<and> se_liveness_nonce (session st2 i) = None
        then arm_idle_timer st2 i else st2) i"
      using 2 arm_idle_timer_inv by (auto simp: arm_idle_timer_def)
    note n = next_read [OF this]
    show ?thesis
      using Some m 2 n stop_inv(1) [OF 1] unfolding on_read_payload_def Let_def read_header_def by simp
  qed
qed

section \<open>Timers\<close>

lemma on_handshake_timer_inv:
  assumes inv: "pn_inv st" and obj: "has_object st i"
  shows "pn_inv (on_handshake_timer st i)"
proof (cases "se_handshake_complete (session st i)")
  case True
  have "pn_inv (modify_session st i (\<lambda>s. s\<lparr> se_handshake_timer := False \<rparr>))"
    using obj True by (intro modify_inv [OF inv]) (auto simp: has_object_def object_ok_def live_ok_def)
  then show ?thesis using True by (simp add: on_handshake_timer_def)
next
  case False
  have "pn_inv_except {i} (modify_session st i (\<lambda>s. s\<lparr> se_handshake_timer := False \<rparr>))"
    using obj by (intro modify_inv [OF inv_exempt [OF inv]]) (auto simp: has_object_def object_ok_def)
  from stop_exempt [OF this] show ?thesis using False by (simp add: on_handshake_timer_def)
qed

lemma on_pong_timer_inv:
  assumes inv: "pn_inv st" and obj: "has_object st i"
  shows "pn_inv (on_pong_timer st i nonce)"
proof -
  let ?f = "\<lambda>s. s\<lparr> se_pong_timer := (if se_pong_timer s = Some nonce then None else se_pong_timer s) \<rparr>"
  show ?thesis
  proof (cases "se_liveness_nonce (session st i) = Some nonce")
    case True
    have "pn_inv_except {i} (modify_session st i ?f)"
      using obj by (intro modify_inv [OF inv_exempt [OF inv]]) (auto simp: has_object_def object_ok_def)
    from stop_exempt [OF this] show ?thesis using True by (simp add: on_pong_timer_def)
  next
    case False
    have "pn_inv (modify_session st i ?f)"
      using obj False by (intro modify_inv [OF inv]) (auto simp: has_object_def object_ok_def live_ok_def)
    then show ?thesis using False by (simp add: on_pong_timer_def)
  qed
qed

text \<open>The frame of a ping.\<close>

definition ping_frame :: "sodium \<Rightarrow> PeerNet \<Rightarrow> u64 \<Rightarrow> bytes" where
  "ping_frame so st nonce = serialize_frame so MT_ping (serialize_ping_nonce nonce) (pc_chain_id (pn_config st))"

definition ping_room :: "sodium \<Rightarrow> PeerNet \<Rightarrow> u64 \<Rightarrow> u64 \<Rightarrow> bool" where
  "ping_room so st i nonce \<longleftrightarrow> ping_frame so st nonce \<noteq> [] \<and>
     se_queued_bytes (session st i) + length (ping_frame so st nonce) \<le> maximum_outbound_queue_size"

text \<open>
  The ping of a session appends the frame to the queue and sets the last nonce when there is
  room, and otherwise stops the session.
\<close>

lemma session_send_ping_effect:
  assumes inv: "pn_inv_except X st" and obj: "has_object st i"
    and run: "se_handshake_complete (session st i)" "\<not> se_stopped (session st i)"
  shows "\<not> ping_room so st i nonce \<Longrightarrow> i \<notin> set (pn_sessions (session_send_ping so st i nonce))"
    and "ping_room so st i nonce \<Longrightarrow>
      session (session_send_ping so st i nonce) i = (session st i)\<lparr> se_last_ping_nonce := Some nonce,
        se_queued_bytes := se_queued_bytes (session st i) + length (ping_frame so st nonce),
        se_outbound := se_outbound (session st i) @ [ping_frame so st nonce] \<rparr> \<and>
      pn_sessions (session_send_ping so st i nonce) = pn_sessions st \<and>
      (\<forall>j. j \<noteq> i \<longrightarrow> session (session_send_ping so st i nonce) j = session st j)"
proof -
  let ?st = "record_status (modify_session st i (\<lambda>s. s\<lparr> se_last_ping_nonce := Some nonce \<rparr>)) i"
  have eq: "session_send_ping so st i nonce = session_send so ?st i MT_ping (serialize_ping_nonce nonce)"
    using run by (simp add: session_send_ping_def)
  have core: "core ?st = core (modify_session st i (\<lambda>s. s\<lparr> se_last_ping_nonce := Some nonce \<rparr>))" by simp
  have "pn_inv_except X (modify_session st i (\<lambda>s. s\<lparr> se_last_ping_nonce := Some nonce \<rparr>))"
    using obj by (intro modify_inv [OF inv]) (auto simp: has_object_def object_ok_def live_ok_def)
  then have 1: "pn_inv_except X ?st" "has_object ?st i" by (auto intro: inv_core [OF core])
  have frame: "serialize_frame so MT_ping (serialize_ping_nonce nonce) (pc_chain_id (pn_config ?st)) = ping_frame so st nonce"
    using core by (simp add: ping_frame_def core_def pn_net_def)
  have same: "session ?st i = (session st i)\<lparr> se_last_ping_nonce := Some nonce \<rparr>"
    by (simp add: core_cong(2) [OF core])
  show "i \<notin> set (pn_sessions (session_send_ping so st i nonce))" if "\<not> ping_room so st i nonce"
    using that stop_inv(2) [OF 1] unfolding eq session_send_def frame
    by (simp add: ping_room_def same not_le Let_def)
  show "session (session_send_ping so st i nonce) i = (session st i)\<lparr> se_last_ping_nonce := Some nonce,
        se_queued_bytes := se_queued_bytes (session st i) + length (ping_frame so st nonce),
        se_outbound := se_outbound (session st i) @ [ping_frame so st nonce] \<rparr> \<and>
      pn_sessions (session_send_ping so st i nonce) = pn_sessions st \<and>
      (\<forall>j. j \<noteq> i \<longrightarrow> session (session_send_ping so st i nonce) j = session st j)" if "ping_room so st i nonce"
    using that core_cong(4) [OF core] unfolding eq session_send_def frame
    by (simp add: ping_room_def same not_less Let_def core_cong(2) [OF core])
qed

lemma on_idle_timer_inv:
  assumes inv: "pn_inv st" and obj: "has_object st i"
  shows "pn_inv (on_idle_timer so st i)"
proof (cases "se_stopped (session st i) \<or> \<not> se_handshake_complete (session st i)")
  case True
  have "pn_inv (modify_session st i (\<lambda>s. s\<lparr> se_idle_timer := False \<rparr>))"
    using obj True inv_sessionD(2) [OF inv, of i]
    by (intro modify_inv [OF inv]) (auto simp: has_object_def object_ok_def live_ok_def)
  then show ?thesis using True by (simp add: on_idle_timer_def)
next
  case False
  let ?st1 = "modify_session st i (\<lambda>s. s\<lparr> se_idle_timer := False \<rparr>)"
  let ?n = "pn_next_ping_nonce ?st1"
  define st2 where "st2 = modify_session (snd (reserve_ping_nonce ?st1)) i (\<lambda>s. s\<lparr> se_liveness_nonce := Some ?n \<rparr>)"
  define st3 where "st3 = session_send_ping so st2 i ?n"
  have eq: "on_idle_timer so st i = modify_session st3 i (\<lambda>s. s\<lparr> se_pong_timer := Some ?n \<rparr>)"
    using False by (simp add: on_idle_timer_def st2_def st3_def reserve_ping_nonce_def Let_def)
  have core2: "core st2 = core (modify_session st i (\<lambda>s. s\<lparr> se_idle_timer := False, se_liveness_nonce := Some ?n \<rparr>))"
  proof -
    have "core st2 = core (modify_session ?st1 i (\<lambda>s. s\<lparr> se_liveness_nonce := Some ?n \<rparr>))"
      unfolding st2_def by (rule core_modify) simp
    then show ?thesis by (simp add: modify_modify)
  qed
  have "pn_inv_except {i} (modify_session st i (\<lambda>s. s\<lparr> se_idle_timer := False, se_liveness_nonce := Some ?n \<rparr>))"
    using obj False by (intro modify_inv [OF inv_exempt [OF inv]]) (auto simp: has_object_def object_ok_def)
  with core2 have 2: "pn_inv_except {i} st2" by (rule inv_core)
  have o2: "has_object st2 i" unfolding has_object_core [OF core2] by simp
  have 3: "pn_inv_except {i} st3" "has_object st3 i"
    unfolding st3_def using session_send_ping_inv [OF 2 o2] o2 by simp_all
  have 4: "pn_inv_except {i} (modify_session st3 i (\<lambda>s. s\<lparr> se_pong_timer := Some ?n \<rparr>))"
    using 3(2) by (intro modify_inv [OF 3(1)]) (auto simp: has_object_def object_ok_def)
  have s2: "session st2 i = (session st i)\<lparr> se_idle_timer := False, se_liveness_nonce := Some ?n \<rparr>"
    "\<And>j. j \<noteq> i \<Longrightarrow> session st2 j = session st j"
    unfolding core_cong(2) [OF core2] by simp_all
  have effect: "i \<notin> set (pn_sessions st3) \<or> (\<exists>q out. session st3 i = (session st2 i)\<lparr> se_last_ping_nonce := Some ?n,
       se_queued_bytes := q, se_outbound := out \<rparr> \<and> pn_sessions st3 = pn_sessions st2 \<and>
     (\<forall>j. j \<noteq> i \<longrightarrow> session st3 j = session st2 j))"
    using session_send_ping_effect [OF 2 o2, of so ?n] False s2 unfolding st3_def by auto
  show ?thesis
    unfolding eq
  proof (rule inv_rejoin [OF 4])
    assume "i \<in> set (pn_sessions (modify_session st3 i (\<lambda>s. s\<lparr> se_pong_timer := Some ?n \<rparr>)))"
    then have i: "i \<in> set (pn_sessions st3)" by simp
    then obtain q out where q: "session st3 i = (session st2 i)\<lparr> se_last_ping_nonce := Some ?n,
       se_queued_bytes := q, se_outbound := out \<rparr>" "pn_sessions st3 = pn_sessions st2"
      "\<And>j. j \<noteq> i \<Longrightarrow> session st3 j = session st2 j"
      using effect by blast
    have ss: "pn_sessions st3 = pn_sessions st" using q(2) core_cong(4) [OF core2] by simp
    have "remote_nonce (modify_session st3 i (\<lambda>s. s\<lparr> se_pong_timer := Some ?n \<rparr>)) j = remote_nonce st j" for j
      using q(1) q(3) [of j] s2 by (cases "j = i") (simp_all add: remote_nonce_def)
    moreover have "remote_nonce st j \<noteq> remote_nonce st i"
      if "j \<in> set (pn_sessions st)" "j \<noteq> i \<and> remote_nonce st i \<noteq> None" for j
      using inv_uniqueD [OF inv, of i j] that i ss by auto
    moreover have "live_ok (session (modify_session st3 i (\<lambda>s. s\<lparr> se_pong_timer := Some ?n \<rparr>)) i)"
      using False by (simp add: q(1) s2 live_ok_def)
    ultimately show "live_ok (session (modify_session st3 i (\<lambda>s. s\<lparr> se_pong_timer := Some ?n \<rparr>)) i) \<and>
      (\<forall>j\<in>set (pn_sessions (modify_session st3 i (\<lambda>s. s\<lparr> se_pong_timer := Some ?n \<rparr>))).
         j \<noteq> i \<and> remote_nonce (modify_session st3 i (\<lambda>s. s\<lparr> se_pong_timer := Some ?n \<rparr>)) i \<noteq> None \<longrightarrow>
         remote_nonce (modify_session st3 i (\<lambda>s. s\<lparr> se_pong_timer := Some ?n \<rparr>)) j \<noteq>
         remote_nonce (modify_session st3 i (\<lambda>s. s\<lparr> se_pong_timer := Some ?n \<rparr>)) i)"
      using ss by simp
  qed
qed

text \<open>What the idle timer does to a session that completed its handshake.\<close>

lemma on_idle_timer_effect:
  fixes so
  assumes inv: "pn_inv st" and obj: "has_object st i" and s: "i \<in> set (pn_sessions st)"
    and run: "se_handshake_complete (session st i)" "\<not> se_stopped (session st i)"
  defines "n \<equiv> pn_next_ping_nonce st" and "st' \<equiv> on_idle_timer so st i"
  shows "if ping_room so st i n
    then i \<in> set (pn_sessions st') \<and> se_outbound (session st' i) = se_outbound (session st i) @ [ping_frame so st n] \<and>
      se_liveness_nonce (session st' i) = Some n \<and> se_last_ping_nonce (session st' i) = Some n \<and>
      se_pong_timer (session st' i) = Some n
    else i \<notin> set (pn_sessions st')"
proof -
  have nonce: "pn_next_ping_nonce (modify_session st i f) = n" for f
    by (simp add: n_def modify_session_def)
  define st2 where "st2 = modify_session (snd (reserve_ping_nonce (modify_session st i (\<lambda>s. s\<lparr> se_idle_timer := False \<rparr>)))) i
    (\<lambda>s. s\<lparr> se_liveness_nonce := Some n \<rparr>)"
  define st3 where "st3 = session_send_ping so st2 i n"
  have eq: "on_idle_timer so st i = modify_session st3 i (\<lambda>s. s\<lparr> se_pong_timer := Some n \<rparr>)"
    using run nonce by (simp add: on_idle_timer_def st2_def st3_def reserve_ping_nonce_def Let_def)
  have core2: "core st2 = core (modify_session st i (\<lambda>s. s\<lparr> se_idle_timer := False, se_liveness_nonce := Some n \<rparr>))"
  proof -
    have "core st2 = core (modify_session (modify_session st i (\<lambda>s. s\<lparr> se_idle_timer := False \<rparr>)) i
        (\<lambda>s. s\<lparr> se_liveness_nonce := Some n \<rparr>))"
      unfolding st2_def by (rule core_modify) simp
    then show ?thesis by (simp add: modify_modify)
  qed
  have s2: "session st2 i = (session st i)\<lparr> se_idle_timer := False, se_liveness_nonce := Some n \<rparr>"
    unfolding core_cong(2) [OF core2] by simp
  have "pn_inv_except {i} (modify_session st i (\<lambda>s. s\<lparr> se_idle_timer := False, se_liveness_nonce := Some n \<rparr>))"
    using obj run by (intro modify_inv [OF inv_exempt [OF inv]]) (auto simp: has_object_def object_ok_def)
  then have "pn_inv_except {i} st2" by (rule inv_core [OF core2])
  moreover have "has_object st2 i" unfolding has_object_core [OF core2] by simp
  ultimately have sent: "if ping_room so st2 i n
      then session st3 i = (session st2 i)\<lparr> se_last_ping_nonce := Some n,
          se_queued_bytes := se_queued_bytes (session st2 i) + length (ping_frame so st2 n),
          se_outbound := se_outbound (session st2 i) @ [ping_frame so st2 n] \<rparr> \<and> pn_sessions st3 = pn_sessions st2
      else i \<notin> set (pn_sessions st3)"
    unfolding st3_def using session_send_ping_effect [of "{i}" st2 i so n] run s2 by simp
  have "pn_net st2 = pn_net st" using core2 by (simp add: core_def pn_net_def)
  then have "ping_frame so st2 n = ping_frame so st n" by (simp add: ping_frame_def pn_net_def)
  moreover from this have "ping_room so st2 i n = ping_room so st i n" by (simp add: ping_room_def s2)
  moreover have "pn_sessions st2 = pn_sessions st" using core_cong(4) [OF core2] by simp
  ultimately show ?thesis using sent s unfolding st'_def eq by (simp add: s2)
qed

section \<open>Connections\<close>

lemma create_session_inv:
  assumes inv: "pn_inv st" and room: "pn_next_session_id st \<noteq> u64_max"
  shows "pn_inv (snd (create_session so st remote direction t))"
proof -
  let ?i = "pn_next_session_id st"
  define st1 where "st1 = st\<lparr> pn_next_session_id := ?i + 1,
    pn_session_objects := (pn_session_objects st)(?i \<mapsto> new_session ?i direction t), pn_sessions := pn_sessions st @ [?i] \<rparr>"
  have less: "?i < ?i + 1" using unat_Suc_not_max [OF room] by (simp add: word_less_nat_alt)
  have fresh: "\<not> has_object st ?i"
    using inv unfolding pn_inv_except_def has_object_def by (meson not_None_eq order_less_irrefl)
  have fields1: "pn_net st1 = pn_net st" "pn_session_nonce st1 = pn_session_nonce st"
    "pn_next_session_id st1 = ?i + 1" "pn_sessions st1 = pn_sessions st @ [?i]"
    "pn_session_objects st1 = (pn_session_objects st)(?i \<mapsto> new_session ?i direction t)"
    "\<And>j. session st1 j = (if j = ?i then new_session ?i direction t else session st j)"
    by (simp_all add: st1_def pn_net_def session_def)
  have notin: "?i \<notin> set (pn_sessions st)" using fresh inv_sessionD(1) [OF inv, of ?i] by (auto simp: has_object_def)
  have "object_ok (pn_net st) (pn_session_nonce st) ?i (new_session ?i direction t)"
    by (simp add: object_ok_def new_session_def)
  moreover have "remote_nonce st1 j = remote_nonce st j" if "j \<noteq> ?i" for j
    using that by (simp add: remote_nonce_def fields1)
  moreover have "j < ?i + 1" if "pn_session_objects st j = Some s" for j s
    using inv that less by (meson order.strict_trans pn_inv_except_def)
  ultimately have 1: "pn_inv_except {?i} st1"
    using inv notin less unfolding pn_inv_except_def fields1 by (auto simp: new_session_def) metis
  have o1: "has_object st1 ?i" by (simp add: has_object_def fields1)
  define st2 where "st2 = modify_session st1 ?i (\<lambda>s. s\<lparr>
        se_endpoint := (case remote of None \<Rightarrow> ''unknown'' | Some e \<Rightarrow> endpoint_text e),
        se_remote_address := (case remote of None \<Rightarrow> ''unknown'' | Some e \<Rightarrow> fst e), se_handshake_timer := True \<rparr>)"
  define st3 where "st3 = modify_session (record_new (modify_session st1 ?i (\<lambda>s. s\<lparr>
        se_endpoint := (case remote of None \<Rightarrow> ''unknown'' | Some e \<Rightarrow> endpoint_text e),
        se_remote_address := (case remote of None \<Rightarrow> ''unknown'' | Some e \<Rightarrow> fst e) \<rparr>)) ?i) ?i
      (\<lambda>s. s\<lparr> se_handshake_timer := True \<rparr>)"
  have core3: "core st3 = core st2"
  proof -
    have "core st3 = core (modify_session (modify_session st1 ?i (\<lambda>s. s\<lparr>
        se_endpoint := (case remote of None \<Rightarrow> ''unknown'' | Some e \<Rightarrow> endpoint_text e),
        se_remote_address := (case remote of None \<Rightarrow> ''unknown'' | Some e \<Rightarrow> fst e) \<rparr>)) ?i
      (\<lambda>s. s\<lparr> se_handshake_timer := True \<rparr>))"
      unfolding st3_def by (rule core_modify) (simp add: record_new_def)
    then show ?thesis by (simp add: modify_modify st2_def)
  qed
  have "pn_inv_except {?i} st2"
    unfolding st2_def using o1 by (intro modify_inv [OF 1]) (auto simp: has_object_def object_ok_def)
  moreover have "live_ok (session st2 ?i)" "remote_nonce st2 ?i = None"
    by (simp_all add: st2_def fields1 live_ok_def new_session_def remote_nonce_def)
  ultimately have 2: "pn_inv st2" by (intro inv_rejoin) auto
  have 3: "pn_inv st3" "has_object st3 ?i"
    using inv_core [OF core3 2] has_object_core [OF core3, of ?i] by (simp_all add: st2_def)
  define st4 where "st4 = session_send so st3 ?i MT_hello (serialize_hello (local_hello st3))"
  have 4: "pn_inv st4" "has_object st4 ?i" unfolding st4_def using session_send_inv [OF 3] 3(2) by simp_all
  have "snd (create_session so st remote direction t) = read_header st4 ?i"
    by (simp add: create_session_def session_start_def st1_def st3_def st4_def Let_def)
  moreover have "pn_inv (read_header st4 ?i)"
    unfolding read_header_def using 4(2)
    by (intro modify_inv [OF 4(1)]) (auto simp: has_object_def object_ok_def live_ok_def)
  ultimately show ?thesis by simp
qed

lemma on_accept_inv:
  assumes inv: "pn_inv st" and room: "pn_next_session_id st \<noteq> u64_max"
  shows "pn_inv (on_accept so st accepted)"
proof -
  let ?st = "st\<lparr> pn_accepting := False \<rparr>"
  have 1: "pn_inv ?st" using inv by (rule inv_core [rotated]) simp
  have e: "pn_inv (emit_event ?st a b c d)" for a b c d using 1 by (rule inv_core [rotated]) simp
  have "pn_inv (snd (create_session so ?st remote PD_inbound None))" for remote
    using 1 room by (intro create_session_inv) simp_all
  with 1 e have "pn_inv (case accepted of
        Inr remote \<Rightarrow>
          (let address = (case remote of None \<Rightarrow> [] | Some e \<Rightarrow> fst e);
               address_count = length (filter (\<lambda>i. se_direction (session ?st i) = PD_inbound \<and>
                 se_remote_address (session ?st i) = address) (pn_sessions ?st))
           in if maximum_connections_per_ip \<le> address_count
              then emit_event ?st ''peer_rejected'' 0 (case remote of None \<Rightarrow> [] | Some e \<Rightarrow> endpoint_text e)
                     ''per-IP connection limit exceeded''
              else snd (create_session so ?st remote PD_inbound None))
      | Inl message \<Rightarrow> if \<not> pn_stopping ?st then emit_event ?st ''peer_accept_failed'' 0 [] message else ?st)"
    by (simp add: Let_def split: sum.split)
  then show ?thesis unfolding on_accept_def Let_def by (rule inv_core [rotated]) simp
qed

lemma on_connect_inv:
  assumes inv: "pn_inv st" and room: "pn_next_session_id st \<noteq> u64_max"
  shows "pn_inv (on_connect so st t accepted)"
proof -
  let ?st = "modify_target st t (\<lambda>target. target\<lparr> tg_connecting := False, tg_connecting_socket := False \<rparr>)"
  have 1: "pn_inv ?st" using inv by (rule inv_core [rotated]) simp
  have e: "pn_inv (schedule_reconnect (emit_event ?st a b c d) t)" for a b c d using 1 by (rule inv_core [rotated]) simp
  have "pn_inv (modify_target (snd (create_session so ?st remote PD_outbound (Some t))) t g)" for remote g
  proof -
    have "pn_inv (snd (create_session so ?st remote PD_outbound (Some t)))"
      using 1 room by (intro create_session_inv) (simp_all add: modify_target_def)
    then show ?thesis by (rule inv_core [rotated]) simp
  qed
  with 1 e show ?thesis by (simp add: on_connect_def Let_def case_prod_beta split: sum.split)
qed

lemma on_disconnect_inv:
  assumes inv: "pn_inv st"
  shows "pn_inv (on_disconnect st endpoint)"
proof (cases "pn_targets st (endpoint_text endpoint)")
  case None
  then show ?thesis using inv by (auto simp: on_disconnect_def intro: inv_core [rotated])
next
  case (Some t)
  let ?st = "modify_target st t (\<lambda>target. target\<lparr> tg_enabled := False, tg_timer := False \<rparr>)"
  have 1: "pn_inv ?st" using inv by (rule inv_core [rotated]) simp
  have "pn_inv (session_stop ?st i reason True False)" if "i \<in> set (pn_sessions ?st)" for i reason
    using inv_sessionD(1) [OF 1 that] by (intro stop_inv [OF 1]) (simp add: has_object_def)
  with 1 have "pn_inv (case tg_session_id (target ?st t) of None \<Rightarrow> ?st
      | Some i \<Rightarrow> if i \<in> set (pn_sessions ?st) then session_stop ?st i ''peer disconnected by control'' True False else ?st)"
    by (simp split: option.split)
  then show ?thesis using Some unfolding on_disconnect_def Let_def option.case(2) by (auto intro: inv_core [rotated])
qed

lemma on_stop_inv:
  assumes inv: "pn_inv st"
  shows "pn_inv (on_stop st)"
proof -
  have fold: "pn_net (fold (\<lambda>i st. session_stop st i ''node shutdown'' False True) js s) = pn_net s \<and>
      pn_session_nonce (fold (\<lambda>i st. session_stop st i ''node shutdown'' False True) js s) = pn_session_nonce s \<and>
      pn_next_session_id (fold (\<lambda>i st. session_stop st i ''node shutdown'' False True) js s) = pn_next_session_id s \<and>
      (\<forall>i x. pn_session_objects (fold (\<lambda>i st. session_stop st i ''node shutdown'' False True) js s) i = Some x \<longrightarrow>
        object_ok (pn_net s) (pn_session_nonce s) i x \<and> i < pn_next_session_id s)"
    if "\<forall>i x. pn_session_objects s i = Some x \<longrightarrow> object_ok (pn_net s) (pn_session_nonce s) i x \<and> i < pn_next_session_id s"
      and "\<forall>i \<in> set js. has_object s i" for js s
    using that
  proof (induction js arbitrary: s)
    case (Cons i js)
    let ?s = "session_stop s i ''node shutdown'' False True"
    have o: "object_ok (pn_net s) (pn_session_nonce s) i (session s i)" "i < pn_next_session_id s"
      using Cons.prems by (auto simp: has_object_def session_def)
    have "object_ok (pn_net s) (pn_session_nonce s) i (stopped_session (session s i))"
      using o(1) by (simp add: object_ok_def)
    with o have "pn_net ?s = pn_net s" "pn_session_nonce ?s = pn_session_nonce s" "pn_next_session_id ?s = pn_next_session_id s"
      "\<forall>j \<in> set js. has_object ?s j"
      "\<forall>i x. pn_session_objects ?s i = Some x \<longrightarrow> object_ok (pn_net s) (pn_session_nonce s) i x \<and> i < pn_next_session_id s"
      using Cons.prems by (auto simp: session_stop_def split: if_splits)
    then show ?case using Cons.IH [of ?s] by simp
  qed simp
  let ?st = "st\<lparr> pn_stopping := True, pn_accepting := False \<rparr>"
  let ?st1 = "fold (\<lambda>i st. session_stop st i ''node shutdown'' False True) (pn_sessions ?st) ?st"
  have "core ?st = core st" by simp
  then have "pn_inv ?st" using inv by (rule inv_core)
  then have "\<forall>i x. pn_session_objects ?st i = Some x \<longrightarrow> object_ok (pn_net ?st) (pn_session_nonce ?st) i x \<and> i < pn_next_session_id ?st"
    "\<forall>i \<in> set (pn_sessions ?st). has_object ?st i"
    unfolding pn_inv_except_def has_object_def by blast+
  from fold [OF this] have f: "pn_net ?st1 = pn_net ?st" "pn_session_nonce ?st1 = pn_session_nonce ?st"
    "pn_next_session_id ?st1 = pn_next_session_id ?st"
    "\<forall>i x. pn_session_objects ?st1 i = Some x \<longrightarrow> object_ok (pn_net ?st) (pn_session_nonce ?st) i x \<and> i < pn_next_session_id ?st"
    by blast+
  have net: "pn_net (?st1\<lparr> pn_sessions := [] \<rparr>) = pn_net ?st1" by (simp add: pn_net_def)
  have "pn_inv (?st1\<lparr> pn_sessions := [] \<rparr>)"
    using f unfolding pn_inv_except_def net by simp
  then show ?thesis unfolding on_stop_def Let_def by (rule inv_core [rotated]) simp
qed

section \<open>Reachable states\<close>

lemma ping_loop_inv:
  assumes "pn_inv st" and "\<forall>i \<in> set js. has_object st i" and "ping_loop so nonce js st = Some st'"
  shows "pn_inv st'"
  using assms
proof (induction js arbitrary: st)
  case (Cons i js)
  let ?st = "session_send_ping so st i nonce"
  have "pn_inv ?st" "\<forall>j \<in> set js. has_object ?st j" using Cons.prems by (simp_all add: session_send_ping_inv)
  then show ?case using Cons.IH [of ?st] Cons.prems(3) by (simp add: Let_def split: if_splits)
qed simp

lemma broadcast_loop_inv:
  assumes "pn_inv st" and "\<forall>i \<in> set js. has_object st i"
    and "broadcast_loop so type payload excluded js st = Some st'"
  shows "pn_inv st'"
  using assms
proof (induction js arbitrary: st)
  case (Cons i js)
  let ?st = "if Some i \<noteq> excluded \<and> se_handshake_complete (session st i)
    then session_send_message so st i type payload else st"
  have "pn_inv ?st" "\<forall>j \<in> set js. has_object ?st j" using Cons.prems by (simp_all add: session_send_message_inv)
  moreover have "broadcast_loop so type payload excluded js ?st = Some st'"
    using Cons.prems(3) unfolding broadcast_loop.simps Let_def by (meson option.distinct(1))
  ultimately show ?case using Cons.IH by blast
qed simp

lemma sessions_have_objects: "pn_inv st \<Longrightarrow> \<forall>i \<in> set (pn_sessions st). has_object st i"
  using inv_sessionD(1) by (auto simp: has_object_def)

lemma peer_step_inv:
  assumes "peer_step so st st'" and inv: "pn_inv st"
  shows "pn_inv st'"
  using assms(1)
proof cases
  case (written i s error)
  then show ?thesis using on_write_inv [OF inv, of i error] by (simp add: has_object_def session_def)
next
  case (ping)
  have core: "core (snd (reserve_ping_nonce st)) = core st" by simp
  have "pn_inv (snd (reserve_ping_nonce st))" using core inv by (rule inv_core)
  then show ?thesis
    using ping ping_loop_inv [OF _ sessions_have_objects] by (auto simp: ping_all_def reserve_ping_nonce_def Let_def)
next
  case (broadcast type payload excluded)
  then show ?thesis
    unfolding broadcast_def using broadcast_loop_inv [OF inv sessions_have_objects [OF inv]] by blast
next
  case (send peer type payload)
  then show ?thesis
    using inv sessions_have_objects [OF inv] by (simp add: on_send_def session_send_message_inv)
next
  case (start make_address bind_listen)
  then show ?thesis using inv by (auto intro: inv_core [rotated])
next
  case (add endpoint)
  then show ?thesis using inv by (auto intro: inv_core [rotated])
next
  case (reconnect t g)
  then show ?thesis using inv by (auto intro: inv_core [rotated])
next
  case (accept_retry)
  then show ?thesis using inv by (auto intro: inv_core [rotated])
next
  case (tip height block_id)
  then show ?thesis using inv by (auto intro: inv_core [rotated])
qed (use inv in \<open>auto simp: has_object_def intro: on_read_header_inv on_read_payload_inv on_handshake_timer_inv
      on_idle_timer_inv on_pong_timer_inv on_accept_inv on_connect_inv on_disconnect_inv on_stop_inv\<close>)

lemma PeerNet_create_inv: "pn_inv (PeerNet_create config nonce)"
  by (simp add: pn_inv_except_def PeerNet_create_def)

lemma peer_reachable_inv: "peer_reachable so st \<Longrightarrow> pn_inv st"
  by (induction rule: peer_reachable.induct) (auto intro: PeerNet_create_inv peer_step_inv)

section \<open>Loops over the sessions\<close>

definition has_room :: "sodium \<Rightarrow> PeerNet \<Rightarrow> u64 \<Rightarrow> MessageType \<Rightarrow> bytes \<Rightarrow> bool" where
  "has_room so st i type payload \<longleftrightarrow>
     (let frame = serialize_frame so type payload (pc_chain_id (pn_config st))
      in frame \<noteq> [] \<and> se_queued_bytes (session st i) + length frame \<le> maximum_outbound_queue_size)"

lemma session_send_room:
  "has_room so st i type payload \<Longrightarrow> session_send so st i type payload =
     modify_session st i (\<lambda>s. s\<lparr> se_queued_bytes := se_queued_bytes s +
         length (serialize_frame so type payload (pc_chain_id (pn_config st))),
       se_outbound := se_outbound s @ [serialize_frame so type payload (pc_chain_id (pn_config st))] \<rparr>)"
  "\<not> has_room so st i type payload \<Longrightarrow> session_send so st i type payload =
     session_stop st i ''outbound queue limit exceeded'' True True"
  by (auto simp: has_room_def session_send_def Let_def)

lemma has_room_other:
  "j \<noteq> i \<Longrightarrow> has_room so (modify_session st i f) j type payload = has_room so st j type payload"
  by (simp add: has_room_def)

lemma broadcast_loop_defined:
  assumes "distinct js" and "set js \<subseteq> set (pn_sessions st)" and "\<forall>i \<in> set js. \<not> se_stopped (session st i)"
  shows "broadcast_loop so type payload excluded js st \<noteq> None \<longleftrightarrow>
    (\<forall>i \<in> set js. Some i \<noteq> excluded \<and> se_handshake_complete (session st i) \<longrightarrow> has_room so st i type payload)"
  using assms
proof (induction js arbitrary: st)
  case (Cons i js)
  let ?addressed = "Some i \<noteq> excluded \<and> se_handshake_complete (session st i)"
  have run: "\<not> se_stopped (session st i)" "i \<in> set (pn_sessions st)" "i \<notin> set js" using Cons.prems by auto
  consider (skip) "\<not> ?addressed" | (room) "?addressed" "has_room so st i type payload"
    | (full) "?addressed" "\<not> has_room so st i type payload" by blast
  then show ?case
  proof cases
    case skip
    then have "broadcast_loop so type payload excluded (i # js) st = broadcast_loop so type payload excluded js st"
      using run by (auto simp: Let_def)
    then show ?thesis using Cons.IH [of st] Cons.prems skip by auto
  next
    case room
    define st1 where "st1 = session_send so st i type payload"
    note st1 = session_send_room(1) [OF room(2), folded st1_def]
    have "broadcast_loop so type payload excluded (i # js) st = broadcast_loop so type payload excluded js st1"
      using room run by (simp add: session_send_message_def st1_def [symmetric]) (simp add: st1)
    moreover have "broadcast_loop so type payload excluded js st1 \<noteq> None \<longleftrightarrow>
        (\<forall>j \<in> set js. Some j \<noteq> excluded \<and> se_handshake_complete (session st1 j) \<longrightarrow> has_room so st1 j type payload)"
      using Cons.prems by (intro Cons.IH) (auto simp: st1)
    moreover have "session st1 j = session st j \<and> has_room so st1 j type payload = has_room so st j type payload"
      if "j \<in> set js" for j
      using that run(3) by (auto simp: st1 has_room_other)
    ultimately show ?thesis using room by auto
  next
    case full
    then have "i \<notin> set (pn_sessions (session_send_message so st i type payload))"
      using run by (simp add: session_send_message_def session_send_room(2) session_stop_fields)
    then show ?thesis using full by (auto simp: Let_def)
  qed
qed simp

section \<open>Properties\<close>

text \<open>
  C36. The sessions of a running node. In every state the handlers can reach, whatever bytes
  the peers send, however reads, writes, timers and control calls interleave: the container
  holds distinct, running sessions; a session whose handshake is complete has received the
  greeting of a node of the same network and Genesis block, other than this node, with a
  supported service and a common protocol version; no remote node has two such sessions; and
  the bytes queued for a peer are counted exactly and never exceed the limit.\<close>

theorem peer_sessions_sound:
  assumes "peer_reachable so st"
  shows "distinct (pn_sessions st) \<and>
    (\<forall>i \<in> set (pn_sessions st). \<not> se_stopped (session st i) \<and>
      se_queued_bytes (session st i) = sum_list (map length (se_outbound (session st i))) \<and>
      se_queued_bytes (session st i) \<le> maximum_outbound_queue_size \<and>
      (se_handshake_complete (session st i) \<longrightarrow>
        (\<exists>h. se_remote_hello (session st i) = Some h \<and> hp_chain_id h = pc_chain_id (pn_config st) \<and>
          hp_genesis_block_id h = pc_genesis_block_id (pn_config st) \<and> hp_session_nonce h \<noteq> pn_session_nonce st \<and>
          hp_services h AND (full_node_service OR mining_service) \<noteq> 0 \<and>
          hp_minimum_protocol_version h \<le> se_selected_protocol_version (session st i) \<and>
          se_selected_protocol_version (session st i) \<le> hp_maximum_protocol_version h \<and>
          se_selected_protocol_version (session st i) = protocol_version \<and>
          (\<forall>j \<in> set (pn_sessions st). \<forall>h'. j \<noteq> i \<and> se_remote_hello (session st j) = Some h' \<longrightarrow>
            hp_session_nonce h' \<noteq> hp_session_nonce h))))"
proof (intro conjI ballI)
  have inv: "pn_inv st" using assms by (rule peer_reachable_inv)
  show "distinct (pn_sessions st)" using inv by (simp add: pn_inv_except_def)
  fix i
  assume i: "i \<in> set (pn_sessions st)"
  note s = inv_sessionD [OF inv i]
  have ok: "object_ok (pn_net st) (pn_session_nonce st) i (session st i)" using inv_objectD [OF inv s(1)] .
  show "\<not> se_stopped (session st i)" by (rule s)
  show "se_queued_bytes (session st i) = sum_list (map length (se_outbound (session st i)))"
    "se_queued_bytes (session st i) \<le> maximum_outbound_queue_size" using ok by (simp_all add: object_ok_def)
  show "se_handshake_complete (session st i) \<longrightarrow>
        (\<exists>h. se_remote_hello (session st i) = Some h \<and> hp_chain_id h = pc_chain_id (pn_config st) \<and>
          hp_genesis_block_id h = pc_genesis_block_id (pn_config st) \<and> hp_session_nonce h \<noteq> pn_session_nonce st \<and>
          hp_services h AND (full_node_service OR mining_service) \<noteq> 0 \<and>
          hp_minimum_protocol_version h \<le> se_selected_protocol_version (session st i) \<and>
          se_selected_protocol_version (session st i) \<le> hp_maximum_protocol_version h \<and>
          se_selected_protocol_version (session st i) = protocol_version \<and>
          (\<forall>j \<in> set (pn_sessions st). \<forall>h'. j \<noteq> i \<and> se_remote_hello (session st j) = Some h' \<longrightarrow>
            hp_session_nonce h' \<noteq> hp_session_nonce h))"
  proof
    assume "se_handshake_complete (session st i)"
    then obtain h where h: "se_remote_hello (session st i) = Some h" using ok by (auto simp: object_ok_def)
    have "hp_session_nonce h' \<noteq> hp_session_nonce h"
      if "j \<in> set (pn_sessions st)" "j \<noteq> i" "se_remote_hello (session st j) = Some h'" for j h'
      using inv_uniqueD [OF inv, of i j "hp_session_nonce h"] i that h by (simp add: remote_nonce_def)
    then show "\<exists>h. se_remote_hello (session st i) = Some h \<and> hp_chain_id h = pc_chain_id (pn_config st) \<and>
          hp_genesis_block_id h = pc_genesis_block_id (pn_config st) \<and> hp_session_nonce h \<noteq> pn_session_nonce st \<and>
          hp_services h AND (full_node_service OR mining_service) \<noteq> 0 \<and>
          hp_minimum_protocol_version h \<le> se_selected_protocol_version (session st i) \<and>
          se_selected_protocol_version (session st i) \<le> hp_maximum_protocol_version h \<and>
          se_selected_protocol_version (session st i) = protocol_version \<and>
          (\<forall>j \<in> set (pn_sessions st). \<forall>h'. j \<noteq> i \<and> se_remote_hello (session st j) = Some h' \<longrightarrow>
            hp_session_nonce h' \<noteq> hp_session_nonce h)"
      using h ok by (auto simp: object_ok_def hello_accepted_def pn_net_def)
  qed
qed

text \<open>
  C37. A silent peer is dropped. In every reachable state every session of the container is
  watched by a pending timer: before the handshake by the handshake timer, whose expiry
  removes it; after it by the idle timer, whose expiry appends the frame of a ping with the
  next unused nonce to the session's outbound queue, notes the nonce and arms the pong timer
  for it, unless the queue has no room for the frame, when the session is removed; and while
  an answer is due by that pong timer, whose expiry removes it.\<close>

theorem silent_peer_dropped:
  assumes "peer_reachable so st" and i: "i \<in> set (pn_sessions st)"
  shows "(\<not> se_handshake_complete (session st i) \<longrightarrow>
      se_handshake_timer (session st i) \<and> i \<notin> set (pn_sessions (on_handshake_timer st i))) \<and>
    (se_handshake_complete (session st i) \<and> se_liveness_nonce (session st i) = None \<longrightarrow>
      se_idle_timer (session st i) \<and>
      (let n = pn_next_ping_nonce st;
           frame = serialize_frame so MT_ping (serialize_ping_nonce n) (pc_chain_id (pn_config st));
           st' = on_idle_timer so st i
       in if frame \<noteq> [] \<and> se_queued_bytes (session st i) + length frame \<le> maximum_outbound_queue_size
          then i \<in> set (pn_sessions st') \<and> se_outbound (session st' i) = se_outbound (session st i) @ [frame] \<and>
            se_liveness_nonce (session st' i) = Some n \<and> se_last_ping_nonce (session st' i) = Some n \<and>
            se_pong_timer (session st' i) = Some n
          else i \<notin> set (pn_sessions st'))) \<and>
    (\<forall>n. se_handshake_complete (session st i) \<and> se_liveness_nonce (session st i) = Some n \<longrightarrow>
      se_pong_timer (session st i) = Some n \<and> i \<notin> set (pn_sessions (on_pong_timer st i n)))"
proof (intro conjI allI impI; (elim conjE)?)
  have inv: "pn_inv st" using assms(1) by (rule peer_reachable_inv)
  have s: "live_ok (session st i)" "\<not> se_stopped (session st i)" "has_object st i"
    using inv_sessionD [OF inv i] by (simp_all add: has_object_def)
  show "se_handshake_timer (session st i)" if "\<not> se_handshake_complete (session st i)"
    using s(1) that by (simp add: live_ok_def)
  show "i \<notin> set (pn_sessions (on_handshake_timer st i))" if "\<not> se_handshake_complete (session st i)"
    using that s(2) by (simp add: on_handshake_timer_def session_stop_fields)
  show "se_idle_timer (session st i)" if "se_handshake_complete (session st i)" "se_liveness_nonce (session st i) = None"
    using s(1) that by (simp add: live_ok_def)
  show "let n = pn_next_ping_nonce st;
           frame = serialize_frame so MT_ping (serialize_ping_nonce n) (pc_chain_id (pn_config st));
           st' = on_idle_timer so st i
       in if frame \<noteq> [] \<and> se_queued_bytes (session st i) + length frame \<le> maximum_outbound_queue_size
          then i \<in> set (pn_sessions st') \<and> se_outbound (session st' i) = se_outbound (session st i) @ [frame] \<and>
            se_liveness_nonce (session st' i) = Some n \<and> se_last_ping_nonce (session st' i) = Some n \<and>
            se_pong_timer (session st' i) = Some n
          else i \<notin> set (pn_sessions st')" if "se_handshake_complete (session st i)"
    using on_idle_timer_effect [OF inv s(3) i that s(2), of so] unfolding Let_def ping_room_def ping_frame_def .
  show "se_pong_timer (session st i) = Some n"
    if "se_handshake_complete (session st i)" "se_liveness_nonce (session st i) = Some n" for n
    using s(1) that by (simp add: live_ok_def)
  show "i \<notin> set (pn_sessions (on_pong_timer st i n))" if "se_liveness_nonce (session st i) = Some n" for n
    using that s(2) by (simp add: on_pong_timer_def session_stop_fields)
qed

text \<open>
  C38. When \<open>broadcast\<close> is defined. The loop over the sessions is free of undefined behaviour
  exactly when every peer it addresses has room for the frame. A peer without room is erased
  from the container in the middle of the loop, which invalidates the loop's iterator.\<close>

theorem broadcast_defined_iff_room:
  assumes "peer_reachable so st"
  shows "broadcast so st type payload excluded \<noteq> None \<longleftrightarrow>
    (\<forall>i \<in> set (pn_sessions st). Some i \<noteq> excluded \<and> se_handshake_complete (session st i) \<longrightarrow>
      serialize_frame so type payload (pc_chain_id (pn_config st)) \<noteq> [] \<and>
      se_queued_bytes (session st i) + length (serialize_frame so type payload (pc_chain_id (pn_config st))) \<le>
        maximum_outbound_queue_size)"
proof -
  have inv: "pn_inv st" using assms by (rule peer_reachable_inv)
  then have "distinct (pn_sessions st)" "\<forall>i \<in> set (pn_sessions st). \<not> se_stopped (session st i)"
    by (simp_all add: pn_inv_except_def)
  then show ?thesis
    unfolding broadcast_def by (subst broadcast_loop_defined) (simp_all add: has_room_def Let_def)
qed


section \<open>The first greeting\<close>

text \<open>
  A greeting from a node that has no session yet. The session may have been stopped after its
  payload was read.
\<close>

definition greets :: "sodium \<Rightarrow> PeerNet \<Rightarrow> u64 \<Rightarrow> bytes \<Rightarrow> HelloPayload \<Rightarrow> bool" where
  "greets so st i payload h \<longleftrightarrow>
     se_id (session st i) = i \<and> se_remote_hello (session st i) = None \<and>
     (\<exists>header. se_current_header (session st i) = Some header \<and> fh_type header = MT_hello \<and>
        validate_frame_payload so header payload = NE_none) \<and>
     deserialize_hello payload = Inr h \<and> hello_accepted (pn_net st) (pn_session_nonce st) h \<and>
     (\<forall>j \<in> set (pn_sessions st). j \<noteq> i \<longrightarrow> remote_nonce st j \<noteq> Some (hp_session_nonce h))"

lemma handshake_loop_none:
  "\<forall>j \<in> set js. j \<noteq> i \<longrightarrow> remote_nonce st j \<noteq> Some nonce \<Longrightarrow> handshake_loop st i nonce js = Inr None"
  by (induction js) (auto simp: remote_nonce_def split: option.split)

lemma greets_effect:
  assumes g: "greets so st i payload h"
  defines "st' \<equiv> on_read_payload so st i (Some payload)"
  shows "pn_sessions st' = pn_sessions st" "send_known st' i" "pn_config st' = pn_config st"
    "pn_session_nonce st' = pn_session_nonce st"
    "se_handshake_complete (session st' i)" "se_liveness_nonce (session st' i) = se_liveness_nonce (session st i)"
    "se_queued_bytes (session st' i) = se_queued_bytes (session st i)"
proof -
  from g obtain header where g': "se_id (session st i) = i" "se_remote_hello (session st i) = None"
    "se_current_header (session st i) = Some header" "fh_type header = MT_hello"
    "validate_frame_payload so header payload = NE_none"
    "deserialize_hello payload = Inr h" "hello_accepted (pn_net st) (pn_session_nonce st) h"
    "\<forall>j \<in> set (pn_sessions st). j \<noteq> i \<longrightarrow> remote_nonce st j \<noteq> Some (hp_session_nonce h)"
    by (auto simp: greets_def)
  define st0 where "st0 = modify_session st i (\<lambda>s. s\<lparr> se_read := RO_none \<rparr>)"
  define st1 where "st1 = modify_session st0 i
    (\<lambda>s. s\<lparr> se_remote_hello := Some h, se_selected_protocol_version := protocol_version \<rparr>)"
  define st2 where "st2 = (case se_target (session st1 i) of None \<Rightarrow> st1
    | Some t \<Rightarrow> modify_target st1 t (\<lambda>target. target\<lparr> tg_reconnect_delay := reconnect_initial_delay \<rparr>))"
  define st3 where "st3 = arm_idle_timer (emit_event (record_status (modify_session st2 i
    (\<lambda>s. s\<lparr> se_handshake_complete := True, se_handshake_timer := False \<rparr>)) i)
    ''peer_handshake_complete'' i (se_endpoint (session st2 i)) []) i"
  have "handshake_loop st1 i (hp_session_nonce h) (pn_sessions st1) = Inr None"
    using g'(8) by (intro handshake_loop_none) (auto simp: st1_def st0_def remote_nonce_def)
  then have "complete_handshake st1 i = (True, st2)"
    by (simp add: complete_handshake_def Let_def st2_def st1_def split: option.split)
  then have "handle_hello st0 i payload = (True, st3)"
    using g'(6,7) handle_hello_accepted [of payload h st0 i True st2] by (simp add: st0_def st1_def st3_def)
  then have step: "st' = read_header (modify_session (if se_handshake_complete (session st3 i) \<and>
      se_liveness_nonce (session st3 i) = None
    then arm_idle_timer st3 i else st3) i (\<lambda>s. s\<lparr> se_current_header := None \<rparr>)) i"
    unfolding st'_def using g' by (simp add: on_read_payload_def handle_message_def st0_def Let_def)
  have s2: "session st2 = session st1" "pn_sessions st2 = pn_sessions st" "pn_config st2 = pn_config st"
    "pn_session_nonce st2 = pn_session_nonce st"
    by (simp add: st2_def split: option.split)
      (simp_all add: st2_def st1_def st0_def modify_target_def split: option.split)
  show "pn_sessions st' = pn_sessions st" "pn_config st' = pn_config st"
    "pn_session_nonce st' = pn_session_nonce st" "se_handshake_complete (session st' i)"
    "se_liveness_nonce (session st' i) = se_liveness_nonce (session st i)"
    "se_queued_bytes (session st' i) = se_queued_bytes (session st i)"
    unfolding step by (simp_all add: s2 st3_def st1_def st0_def arm_idle_timer_def read_header_def)
  define s where "s = (session st1 i)\<lparr> se_handshake_complete := True, se_handshake_timer := False \<rparr>"
  have "(i, session_status s) \<in> set (pn_peer_status st3)"
    by (simp add: st3_def s_def arm_idle_timer_def) (simp add: record_status_def std_map_set_in s2)
  then have "session_status s \<in> set (peers st')"
    unfolding step by (force simp: peers_def arm_idle_timer_def read_header_def)
  moreover have "ps_id (session_status s) = i" "ps_handshake_complete (session_status s)"
    using g'(1) by (simp_all add: session_status_def Let_def s_def st1_def st0_def split: option.split)
  ultimately show "send_known st' i" unfolding send_known_def by blast
qed

section \<open>An example\<close>

text \<open>
  A node of the development network with one inbound connection: the header of the peer's
  greeting arrives, then its payload.
\<close>

definition demo_config :: PeerNetworkConfig where
  "demo_config = \<lparr> pc_listen_port = 9000, pc_listen = True, pc_chain_id = 1, pc_services = 1, pc_tip_height = 0, pc_tip_block_id = replicate 32 7,
     pc_genesis_block_id = replicate 32 7, pc_listen_host = ''127.0.0.1'', pc_address_scope = AS_loopback \<rparr>"

definition demo_hello :: HelloPayload where
  "demo_hello = \<lparr> hp_minimum_protocol_version = 1, hp_maximum_protocol_version = 1, hp_chain_id = 1,
     hp_services = 1, hp_session_nonce = replicate 16 2, hp_tip_height = 0, hp_tip_block_id = replicate 32 7,
     hp_genesis_block_id = replicate 32 7 \<rparr>"

definition demo_started :: PeerNet where
  "demo_started = snd (PeerNet_start (\<lambda>host. Some (IPv4 127 0 0 1)) (\<lambda>host port. Inr port)
     (PeerNet_create demo_config (replicate 16 1)))"

definition demo_accepted :: PeerNet where
  "demo_accepted = on_accept demo_sodium demo_started (Inr None)"

lemma demo_started_eq:
  "demo_started = (PeerNet_create demo_config (replicate 16 1))\<lparr> pn_listen_port := 9000, pn_accepting := True \<rparr>"
  by (simp add: demo_started_def PeerNet_start_def PeerNet_create_def demo_config_def accept_next_def
      maximum_peer_count_def)

definition demo_header :: PeerNet where
  "demo_header = on_read_header demo_accepted 1 (Some (frame_header demo_sodium MT_hello (serialize_hello demo_hello) 1))"

definition demo_complete :: PeerNet where
  "demo_complete = on_read_payload demo_sodium demo_header 1 (Some (serialize_hello demo_hello))"

lemma demo_hello_length: "length (serialize_hello demo_hello) = 104"
  by (simp add: serialize_hello_eq demo_hello_def)

lemma demo_hello_frame: "frame_ok MT_hello (serialize_hello demo_hello) 1"
  by (simp add: frame_ok_def demo_hello_length hello_payload_size_def supported_chain)

lemma demo_hello_valid: "deserialize_hello (serialize_hello demo_hello) = Inr demo_hello"
  by (rule hello_codec.decode_encode) (simp add: hello_valid_def demo_hello_def)

lemma started_fields:
  fixes st so i remote
  defines "frame \<equiv> serialize_frame so MT_hello (serialize_hello (local_hello st)) (pc_chain_id (pn_config st))"
  assumes "frame \<noteq> []" and "se_queued_bytes (session st i) + length frame \<le> maximum_outbound_queue_size"
  shows "pn_session_objects (session_start so st i remote) = (pn_session_objects st)(i \<mapsto>
      (session st i)\<lparr> se_endpoint := (case remote of None \<Rightarrow> ''unknown'' | Some e \<Rightarrow> endpoint_text e),
        se_remote_address := (case remote of None \<Rightarrow> ''unknown'' | Some e \<Rightarrow> fst e), se_handshake_timer := True,
        se_queued_bytes := se_queued_bytes (session st i) + length frame,
        se_outbound := se_outbound (session st i) @ [frame], se_read := RO_header \<rparr>)"
    "pn_sessions (session_start so st i remote) = pn_sessions st"
    "pn_config (session_start so st i remote) = pn_config st"
    "pn_session_nonce (session_start so st i remote) = pn_session_nonce st"
  using assms
  by (simp_all add: session_start_def session_send_def Let_def read_header_def modify_session_def session_def
      record_new_def record_status_def emit_event_def emit_def local_hello_def cong: if_cong)

lemma demo_local_frame:
  fixes st
  assumes "pn_config st = demo_config" "pn_session_nonce st = replicate 16 1"
  shows "serialize_frame demo_sodium MT_hello (serialize_hello (local_hello st)) 1 \<noteq> []"
    "length (serialize_frame demo_sodium MT_hello (serialize_hello (local_hello st)) 1) = 148"
proof -
  have "length (serialize_hello (local_hello st)) = 104"
    using assms by (simp add: serialize_hello_eq local_hello_def demo_config_def)
  then show "length (serialize_frame demo_sodium MT_hello (serialize_hello (local_hello st)) 1) = 148"
    by (simp add: serialize_frame_eq frame_ok_def hello_payload_size_def supported_chain length_frame_header)
  then show "serialize_frame demo_sodium MT_hello (serialize_hello (local_hello st)) 1 \<noteq> []" by auto
qed

lemma demo_accepted_facts:
  "pn_config demo_accepted = demo_config" "pn_session_nonce demo_accepted = replicate 16 1"
  "pn_sessions demo_accepted = [1]" "pn_session_objects demo_accepted 1 = Some (session demo_accepted 1)"
  "se_remote_hello (session demo_accepted 1) = None" "se_read (session demo_accepted 1) = RO_header"
  "\<not> se_handshake_complete (session demo_accepted 1)" "\<not> se_stopped (session demo_accepted 1)"
  "se_target (session demo_accepted 1) = None" "se_queued_bytes (session demo_accepted 1) = 148"
  "se_liveness_nonce (session demo_accepted 1) = None" "se_id (session demo_accepted 1) = 1"
proof -
  define st where "st = (PeerNet_create demo_config (replicate 16 1))
    \<lparr> pn_listen_port := 9000, pn_next_session_id := 2, pn_session_objects := [1 \<mapsto> new_session 1 PD_inbound None], pn_sessions := [1] \<rparr>"
  have st: "pn_config st = demo_config" "pn_session_nonce st = replicate 16 1" "pc_chain_id demo_config = 1"
    "pn_sessions st = [1]" "session st 1 = new_session 1 PD_inbound None"
    by (simp_all add: st_def PeerNet_create_def demo_config_def session_def)
  note frame = demo_local_frame [OF st(1,2)]
  have acc: "demo_accepted = accept_next (session_start demo_sodium st 1 None)"
    by (simp add: demo_accepted_def demo_started_eq on_accept_def accept_next_def PeerNet_create_def create_session_def st_def Let_def
        maximum_peer_count_def maximum_connections_per_ip_def)
  have same: "pn_config (accept_next s) = pn_config s" "pn_session_nonce (accept_next s) = pn_session_nonce s"
    "pn_sessions (accept_next s) = pn_sessions s" "pn_session_objects (accept_next s) = pn_session_objects s" for s
    by (simp_all add: accept_next_def)
  note started = started_fields [of demo_sodium st 1 None]
  have fields: "pn_config demo_accepted = demo_config" "pn_session_nonce demo_accepted = replicate 16 1"
    "pn_sessions demo_accepted = [1]"
    and object: "pn_session_objects demo_accepted = (pn_session_objects st)(1 \<mapsto>
      (new_session 1 PD_inbound None)\<lparr> se_endpoint := ''unknown'',
        se_remote_address := ''unknown'', se_handshake_timer := True, se_queued_bytes := 148,
        se_outbound := [serialize_frame demo_sodium MT_hello (serialize_hello (local_hello st)) 1],
        se_read := RO_header \<rparr>)"
    unfolding acc same using started frame st
    by (simp_all add: new_session_def maximum_outbound_queue_size_def)
  show "pn_config demo_accepted = demo_config" "pn_session_nonce demo_accepted = replicate 16 1"
    "pn_sessions demo_accepted = [1]" by (rule fields)+
  show "pn_session_objects demo_accepted 1 = Some (session demo_accepted 1)"
    "se_remote_hello (session demo_accepted 1) = None" "se_read (session demo_accepted 1) = RO_header"
    "\<not> se_handshake_complete (session demo_accepted 1)" "\<not> se_stopped (session demo_accepted 1)"
    "se_target (session demo_accepted 1) = None" "se_queued_bytes (session demo_accepted 1) = 148"
    "se_liveness_nonce (session demo_accepted 1) = None" "se_id (session demo_accepted 1) = 1"
    by (simp_all add: session_def object new_session_def)
qed

definition demo_frame_header :: FrameHeader where
  "demo_frame_header = \<lparr> fh_type = MT_hello, fh_payload_length = 104,
     fh_payload_checksum = sha256 demo_sodium (serialize_hello demo_hello) \<rparr>"

lemma demo_header_eq:
  "demo_header = modify_session (modify_session demo_accepted 1 (\<lambda>s. s\<lparr> se_read := RO_none \<rparr>)) 1
     (\<lambda>s. s\<lparr> se_current_header := Some demo_frame_header, se_read := RO_payload \<rparr>)"
  using deserialize_frame_header_encode [OF demo_hello_frame]
  by (simp add: demo_header_def on_read_header_def demo_accepted_facts demo_config_def demo_hello_length
      demo_frame_header_def)

lemma demo_payload_valid: "validate_frame_payload demo_sodium demo_frame_header (serialize_hello demo_hello) = NE_none"
  by (simp add: validate_frame_payload_def demo_frame_header_def demo_hello_length)

lemma demo_greets:
  assumes "pn_config st = demo_config" "pn_session_nonce st = replicate 16 1" "set (pn_sessions st) \<subseteq> {1}"
    "se_remote_hello (session st 1) = None" "se_id (session st 1) = 1"
    "se_current_header (session st 1) = Some demo_frame_header"
  shows "greets demo_sodium st 1 (serialize_hello demo_hello) demo_hello"
proof -
  have "hello_accepted (pn_net st) (pn_session_nonce st) demo_hello"
    using assms(1,2) by (simp add: hello_accepted_def pn_net_def hello_valid_def demo_hello_def demo_config_def
        full_node_service_def mining_service_def protocol_version_def)
  moreover have "fh_type demo_frame_header = MT_hello" by (simp add: demo_frame_header_def)
  ultimately show ?thesis
    using assms(3-) demo_payload_valid demo_hello_valid by (auto simp: greets_def)
qed

lemma demo_header_facts:
  "pn_sessions demo_header = [1]" "se_read (session demo_header 1) = RO_payload"
  "\<not> se_stopped (session demo_header 1)" "\<not> se_handshake_complete (session demo_header 1)"
  "has_object demo_header 1" "greets demo_sodium demo_header 1 (serialize_hello demo_hello) demo_hello"
  by (auto simp: demo_header_eq demo_accepted_facts intro!: demo_greets)

lemma demo_complete_facts:
  "pn_sessions demo_complete = [1]" "se_handshake_complete (session demo_complete 1)"
  "se_liveness_nonce (session demo_complete 1) = None" "se_queued_bytes (session demo_complete 1) = 148"
  "pn_config demo_complete = demo_config" "pn_session_nonce demo_complete = replicate 16 1"
  using greets_effect [OF demo_header_facts(6), folded demo_complete_def] demo_header_facts
  by (simp_all add: demo_header_eq demo_accepted_facts)

lemma demo_reachable:
  "peer_reachable demo_sodium demo_accepted" "peer_reachable demo_sodium demo_header"
  "peer_reachable demo_sodium demo_complete"
proof -
  let ?new = "PeerNet_create demo_config (replicate 16 1)"
  have "peer_reachable demo_sodium ?new"
    by (rule peer_reachable.create) (simp_all add: demo_config_def supported_chain)
  then have "peer_reachable demo_sodium demo_started"
    unfolding demo_started_def by (rule peer_reachable.step) (rule peer_step.start)
  moreover have "peer_step demo_sodium demo_started demo_accepted"
    unfolding demo_accepted_def by (rule peer_step.accept) (simp_all add: demo_started_eq PeerNet_create_def)
  ultimately show a: "peer_reachable demo_sodium demo_accepted" by (rule peer_reachable.step)
  have "peer_step demo_sodium demo_accepted demo_header"
    unfolding demo_header_def by (rule peer_step.read_header) (rule demo_accepted_facts)+
  with a show h: "peer_reachable demo_sodium demo_header" by (rule peer_reachable.step)
  have "peer_step demo_sodium demo_header demo_complete"
    unfolding demo_complete_def
    by (rule peer_step.read_payload [where s = "session demo_header 1"])
      (use demo_header_facts in \<open>auto simp: has_object_def session_def\<close>)
  with h show "peer_reachable demo_sodium demo_complete" by (rule peer_reachable.step)
qed

theorem peer_sessions_sound_witness:
  "\<exists>h. se_remote_hello (session demo_complete 1) = Some h \<and> hp_chain_id h = 1 \<and>
     hp_session_nonce h \<noteq> replicate 16 1"
proof -
  have "pc_chain_id demo_config = 1" by (simp add: demo_config_def)
  then show ?thesis
    using peer_sessions_sound [OF demo_reachable(3)] demo_complete_facts by auto
qed

theorem silent_peer_dropped_witness:
  "1 \<notin> set (pn_sessions (on_handshake_timer demo_accepted 1)) \<and> se_idle_timer (session demo_complete 1) \<and>
   se_outbound (session (on_idle_timer demo_sodium demo_complete 1) 1) = se_outbound (session demo_complete 1) @
     [serialize_frame demo_sodium MT_ping (serialize_ping_nonce (pn_next_ping_nonce demo_complete)) 1]"
proof -
  have "length (serialize_frame demo_sodium MT_ping (serialize_ping_nonce n) 1) = 52" for n
    by (simp add: serialize_frame_eq frame_ok_def supported_chain length_frame_header protocol_sizes serialize_ping_nonce_def append_u64_le_def)
  moreover from this have "serialize_frame demo_sodium MT_ping (serialize_ping_nonce n) 1 \<noteq> []" for n
    by (metis list.size(3) zero_neq_numeral)
  moreover have "pc_chain_id demo_config = 1" by (simp add: demo_config_def)
  ultimately show ?thesis
    using silent_peer_dropped [OF demo_reachable(1), of 1] silent_peer_dropped [OF demo_reachable(3), of 1]
      demo_accepted_facts demo_complete_facts by (simp add: Let_def maximum_outbound_queue_size_def)
qed

theorem broadcast_defined_iff_room_witness:
  "broadcast demo_sodium demo_complete MT_ping (replicate 8 0) None \<noteq> None"
proof -
  have "length (serialize_frame demo_sodium MT_ping (replicate 8 0) 1) = 52"
    by (simp add: serialize_frame_eq frame_ok_def supported_chain length_frame_header protocol_sizes)
  then show ?thesis
    using broadcast_defined_iff_room [OF demo_reachable(3), of MT_ping "replicate 8 0" None] demo_complete_facts
    by (auto simp: demo_config_def maximum_outbound_queue_size_def)
qed

text \<open>
  C40. A peer that is gone is still reported. When the handshake timer fires while the payload
  of an acceptable greeting has already been read, the session is stopped and leaves the
  container; the handler of the read, which does not ask whether the session was stopped, then
  runs and enters the session into the status list as a peer with a complete handshake. In the
  reachable state that results, \<open>send\<close> accepts messages for a session that does not exist.\<close>

theorem late_greeting_reported:
  assumes reach: "peer_reachable so st" and i: "i \<in> set (pn_sessions st)" and rd: "se_read (session st i) = RO_payload"
    and g: "greets so st i payload h"
  shows "peer_reachable so (on_read_payload so (on_handshake_timer st i) i (Some payload)) \<and>
    i \<notin> set (pn_sessions (on_read_payload so (on_handshake_timer st i) i (Some payload))) \<and>
    send_known (on_read_payload so (on_handshake_timer st i) i (Some payload)) i"
proof -
  have inv: "pn_inv st" using reach by (rule peer_reachable_inv)
  note s = inv_sessionD [OF inv i]
  define st1 where "st1 = on_handshake_timer st i"
  have incomplete: "\<not> se_handshake_complete (session st i)"
    using g inv_objectD [OF inv s(1)] by (auto simp: greets_def object_ok_def)
  have st1: "session st1 j = (if j = i then stopped_session (session st i) else session st j)"
    "pn_session_objects st1 i = Some (stopped_session (session st i))"
    "pn_sessions st1 = filter (\<lambda>j. j \<noteq> i) (pn_sessions st)" "pn_net st1 = pn_net st"
    "pn_session_nonce st1 = pn_session_nonce st" for j
    unfolding st1_def using incomplete s(2)
    by (simp_all add: on_handshake_timer_def session_stop_fields)
  have g1: "greets so st1 i payload h"
    using g by (auto simp: greets_def st1 remote_nonce_def)
  have "peer_step so st st1" unfolding st1_def using s(1) by (auto intro: peer_step.handshake_timer)
  moreover have "peer_step so st1 (on_read_payload so st1 i (Some payload))"
    using st1(2) by (rule peer_step.read_payload) (simp add: rd)
  ultimately have "peer_reachable so (on_read_payload so st1 i (Some payload))"
    using reach by (blast intro: peer_reachable.step)
  then show ?thesis
    using greets_effect(1,2) [OF g1] unfolding st1_def [symmetric] by (simp add: st1(3))
qed

theorem late_greeting_reported_witness:
  "send_known (on_read_payload demo_sodium (on_handshake_timer demo_header 1) 1 (Some (serialize_hello demo_hello))) 1"
  using late_greeting_reported [OF demo_reachable(2), of 1 "serialize_hello demo_hello" demo_hello] demo_header_facts
  by simp

end
