(* ===== verification/BBC_WalletFile.thy ===== *)
theory BBC_WalletFile
  imports BBC_Wallet
begin

text \<open>
  Encrypted wallet files: \<open>src/wallet/wallet_file.cpp\<close>. A file is a header of 96 bytes
  (format, key derivation limits, salt, nonce, public key) and the private key, encrypted
  under a key derived from the password and authenticated together with the header. Key
  derivation and encryption are libsodium's, so they are calls of the parameter.
\<close>

section \<open>Constants and data\<close>

datatype WalletFileError =
    WE_none
  | WE_empty_password
  | WE_file_already_exists
  | WE_io_error
  | WE_invalid_format
  | WE_unsupported_version
  | WE_key_derivation_failed
  | WE_authentication_failed

type_synonym WalletLoadResult = "WalletFileError + Wallet"

definition wallet_magic :: bytes where "wallet_magic = [0x42, 0x42, 0x43, 0x57]"
definition wallet_format_version :: byte where "wallet_format_version = 1"
definition argon2id_algorithm :: byte where "argon2id_algorithm = 1"
definition xchacha20_poly1305_algorithm :: byte where "xchacha20_poly1305_algorithm = 1"
definition reserved_byte :: byte where "reserved_byte = 0"
definition argon2id_operations_limit :: u64 where "argon2id_operations_limit = 2"
definition argon2id_memory_limit :: u64 where "argon2id_memory_limit = 64 * 1024 * 1024"

text \<open>The sizes that libsodium defines as macros: salt 16, nonce 24, key 32 and tag 16.\<close>

definition salt_size :: nat where "salt_size = 16"
definition nonce_size :: nat where "nonce_size = 24"
definition encryption_key_size :: nat where "encryption_key_size = 32"
definition authentication_tag_size :: nat where "authentication_tag_size = 16"
definition metadata_size :: nat where "metadata_size = 4"
definition integer_fields_size :: nat where "integer_fields_size = 2 * 8"

definition authenticated_header_size :: nat where
  "authenticated_header_size =
     length wallet_magic + metadata_size + integer_fields_size + salt_size + nonce_size + public_key_size"

definition encrypted_private_key_size :: nat where
  "encrypted_private_key_size = private_key_size + authentication_tag_size"

definition wallet_file_size :: nat where
  "wallet_file_size = authenticated_header_size + encrypted_private_key_size"

lemma length_wallet_magic [simp]: "length wallet_magic = 4"
  by (simp add: wallet_magic_def)

lemma wallet_sizes:
  "salt_size = 16" "nonce_size = 24" "encryption_key_size = 32" "authenticated_header_size = 96"
  "encrypted_private_key_size = 80" "wallet_file_size = 176"
  by (simp_all add: salt_size_def nonce_size_def encryption_key_size_def authentication_tag_size_def
      metadata_size_def integer_fields_size_def authenticated_header_size_def
      encrypted_private_key_size_def wallet_file_size_def crypto_sizes)

section \<open>Operations\<close>

text \<open>On the supported platforms \<open>std::size_t\<close> has 64 bits, so the first test is compiled out.\<close>

definition derive_encryption_key :: "sodium \<Rightarrow> string \<Rightarrow> bytes \<Rightarrow> u64 \<Rightarrow> u64 \<Rightarrow> bytes option" where
  "derive_encryption_key so password salt operations_limit memory_limit =
     map_option (\<lambda>key. map key [0..<encryption_key_size])
       (crypto_pwhash so password salt operations_limit memory_limit)"

text \<open>\<open>salt\<close> and \<open>nonce\<close> are what \<open>randombytes_buf\<close> writes into the two arrays.\<close>

definition Wallet_save ::
    "sodium \<Rightarrow> io \<Rightarrow> files \<Rightarrow> Wallet \<Rightarrow> bytes \<Rightarrow> bytes \<Rightarrow> path \<Rightarrow> string \<Rightarrow> WalletFileError \<times> files" where
  "Wallet_save so io fs w salt nonce p password =
     (if password = [] then (WE_empty_password, fs)
      else
        (let (found, file_error) = fs_exists io fs p
         in if found then (if file_error then WE_io_error else WE_file_already_exists, fs)
            else if file_error then (WE_io_error, fs)
            else
              (let authenticated_header = [] @ wallet_magic;
                   authenticated_header = authenticated_header @ [wallet_format_version];
                   authenticated_header = authenticated_header @ [argon2id_algorithm];
                   authenticated_header = authenticated_header @ [xchacha20_poly1305_algorithm];
                   authenticated_header = authenticated_header @ [reserved_byte];
                   authenticated_header = append_u64_le authenticated_header argon2id_operations_limit;
                   authenticated_header = append_u64_le authenticated_header argon2id_memory_limit;
                   authenticated_header = authenticated_header @ salt;
                   authenticated_header = authenticated_header @ nonce;
                   authenticated_header = authenticated_header @ Wallet_public_key w
               in case derive_encryption_key so password salt argon2id_operations_limit argon2id_memory_limit of
                    None \<Rightarrow> (WE_key_derivation_failed, fs)
                  | Some encryption_key \<Rightarrow>
                      (case crypto_aead_encrypt so (kp_private_key (wallet_key_pair w)) authenticated_header
                          nonce encryption_key of
                         None \<Rightarrow> (WE_io_error, fs)
                       | Some ciphertext \<Rightarrow>
                           if length ciphertext \<noteq> encrypted_private_key_size then (WE_io_error, fs)
                           else case fs_open_trunc io fs p of
                             None \<Rightarrow> (WE_io_error, fs)
                           | Some fs \<Rightarrow>
                               (let (write_succeeded, fs) = fs_write io fs p (authenticated_header @ ciphertext)
                                in if \<not> write_succeeded then (WE_io_error, fs_remove io fs p)
                                   else (WE_none, fs))))))"

definition load_wallet :: "sodium \<Rightarrow> io \<Rightarrow> files \<Rightarrow> path \<Rightarrow> string \<Rightarrow> WalletLoadResult" where
  "load_wallet so io fs p password =
     (if password = [] then Inl WE_empty_password
      else case fs_file_size io fs p of
        None \<Rightarrow> Inl WE_io_error
      | Some n \<Rightarrow>
          if n \<noteq> wallet_file_size then Inl WE_invalid_format
          else case fs_read io fs p wallet_file_size of
            None \<Rightarrow> Inl WE_io_error
          | Some encoded \<Rightarrow>
              if wallet_magic \<noteq> take (length wallet_magic) encoded then Inl WE_invalid_format
              else if encoded ! 4 \<noteq> wallet_format_version then Inl WE_unsupported_version
              else if encoded ! 5 \<noteq> argon2id_algorithm \<or> encoded ! 6 \<noteq> xchacha20_poly1305_algorithm \<or>
                encoded ! 7 \<noteq> reserved_byte
              then Inl WE_invalid_format
              else
                (let operations_limit = read_u64_le encoded 8;
                     memory_limit = read_u64_le encoded 16
                 in if operations_limit \<noteq> argon2id_operations_limit \<or> memory_limit \<noteq> argon2id_memory_limit
                    then Inl WE_invalid_format
                    else
                      (let offset = 24;
                           salt = take salt_size (drop offset encoded);
                           offset = offset + salt_size;
                           nonce = take nonce_size (drop offset encoded);
                           offset = offset + nonce_size;
                           stored_public_key = take public_key_size (drop offset encoded);
                           offset = offset + public_key_size
                       in if offset \<noteq> authenticated_header_size then Inl WE_invalid_format
                          else case derive_encryption_key so password salt operations_limit memory_limit of
                            None \<Rightarrow> Inl WE_key_derivation_failed
                          | Some encryption_key \<Rightarrow>
                              (case crypto_aead_decrypt so
                                   (take encrypted_private_key_size (drop authenticated_header_size encoded))
                                   (take authenticated_header_size encoded) nonce encryption_key of
                                 None \<Rightarrow> Inl WE_authentication_failed
                               | Some private_key \<Rightarrow>
                                   if length private_key \<noteq> private_key_size then Inl WE_invalid_format
                                   else case Wallet_restore_from_private_key so private_key of
                                     None \<Rightarrow> Inl WE_authentication_failed
                                   | Some wallet \<Rightarrow>
                                       if Wallet_public_key wallet \<noteq> stored_public_key
                                       then Inl WE_authentication_failed else Inr wallet))))"

fun wallet_file_error_message :: "WalletFileError \<Rightarrow> string" where
  "wallet_file_error_message WE_none = ''no error''"
| "wallet_file_error_message WE_empty_password = ''wallet password must not be empty''"
| "wallet_file_error_message WE_file_already_exists = ''wallet file already exists''"
| "wallet_file_error_message WE_io_error = ''wallet file I/O failed''"
| "wallet_file_error_message WE_invalid_format = ''wallet file format is invalid''"
| "wallet_file_error_message WE_unsupported_version = ''wallet file version is not supported''"
| "wallet_file_error_message WE_key_derivation_failed = ''wallet key derivation failed''"
| "wallet_file_error_message WE_authentication_failed = ''wallet password is incorrect or the file is corrupted''"

section \<open>The file format\<close>

definition wallet_header :: "bytes \<Rightarrow> bytes \<Rightarrow> bytes \<Rightarrow> bytes" where
  "wallet_header salt nonce public_key =
     wallet_magic @ [wallet_format_version] @ [argon2id_algorithm] @ [xchacha20_poly1305_algorithm] @
     [reserved_byte] @ le_bytes 8 argon2id_operations_limit @ le_bytes 8 argon2id_memory_limit @
     salt @ nonce @ public_key"

text \<open>What the code relies on from the authenticated encryption: decryption inverts encryption.\<close>

definition decryption_inverts :: "sodium \<Rightarrow> bool" where
  "decryption_inverts so \<longleftrightarrow>
     (\<forall>m ad n k c. crypto_aead_encrypt so m ad n k = Some c \<longrightarrow> crypto_aead_decrypt so c ad n k = Some m)"

lemma Wallet_save_none:
  assumes "Wallet_save so io fs w salt nonce p password = (WE_none, fs')"
  obtains key ciphertext where "password \<noteq> []" "fs p = None"
    "derive_encryption_key so password salt argon2id_operations_limit argon2id_memory_limit = Some key"
    "crypto_aead_encrypt so (kp_private_key (wallet_key_pair w)) (wallet_header salt nonce (Wallet_public_key w))
       nonce key = Some ciphertext"
    "length ciphertext = 80" "fs' = fs(p \<mapsto> wallet_header salt nonce (Wallet_public_key w) @ ciphertext)"
  using assms
  by (auto simp: Wallet_save_def wallet_header_def Let_def append_u64_le_def fs_exists_def fs_open_trunc_def
      fs_write_def wallet_sizes split: if_splits option.splits)

lemma length_wallet_header:
  "length salt = 16 \<Longrightarrow> length nonce = 24 \<Longrightarrow> length pk = 32 \<Longrightarrow> length (wallet_header salt nonce pk) = 96"
  by (simp add: wallet_header_def)

lemma wallet_header_fields:
  fixes rest :: bytes
  assumes "length salt = 16" and "length nonce = 24" and "length pk = 32"
  defines "bs \<equiv> wallet_header salt nonce pk @ rest"
  shows "take 4 bs = wallet_magic" "bs ! 4 = wallet_format_version" "bs ! 5 = argon2id_algorithm"
    "bs ! 6 = xchacha20_poly1305_algorithm" "bs ! 7 = reserved_byte"
    "read_u64_le bs 8 = argon2id_operations_limit" "read_u64_le bs 16 = argon2id_memory_limit"
    "take 16 (drop 24 bs) = salt" "take 24 (drop 40 bs) = nonce" "take 32 (drop 64 bs) = pk"
    "take 96 bs = wallet_header salt nonce pk" "drop 96 bs = rest"
  using assms(1-3) by (simp_all add: bs_def wallet_header_def field_read)

lemma wallet_header_join:
  assumes "length bs = 176" and "take 4 bs = wallet_magic" and "bs ! 4 = wallet_format_version"
    and "bs ! 5 = argon2id_algorithm" and "bs ! 6 = xchacha20_poly1305_algorithm" and "bs ! 7 = reserved_byte"
    and "read_u64_le bs 8 = argon2id_operations_limit" and "read_u64_le bs 16 = argon2id_memory_limit"
  shows "bs = wallet_header (take 16 (drop 24 bs)) (take 24 (drop 40 bs)) (take 32 (drop 64 bs)) @ take 80 (drop 96 bs)"
proof -
  have "wallet_header (take 16 (drop 24 bs)) (take 24 (drop 40 bs)) (take 32 (drop 64 bs)) @ take 80 (drop 96 bs) =
      take 4 bs @ take 1 (drop 4 bs) @ take 1 (drop 5 bs) @ take 1 (drop 6 bs) @ take 1 (drop 7 bs) @
      take 8 (drop 8 bs) @ take 8 (drop 16 bs) @ take 16 (drop 24 bs) @ take 24 (drop 40 bs) @
      take 32 (drop 64 bs) @ take 80 (drop 96 bs)"
    using assms nth_slice [of 4 bs] nth_slice [of 5 bs] nth_slice [of 6 bs] nth_slice [of 7 bs]
      u64.enc_dec [of 8 bs] u64.enc_dec [of 16 bs]
    by (simp add: wallet_header_def)
  also have "\<dots> = bs" using assms(1) by (simp add: field_join)
  finally show ?thesis ..
qed

section \<open>Properties\<close>

text \<open>
  C34. A saved wallet opens again. When \<open>Wallet::save\<close> reports success, the file did not
  exist before and loading it with the same password gives the same wallet, private key
  included; on any other outcome no file is left behind if a partial one can be removed.
  The hypothesis on libsodium is that decryption inverts encryption; the random salt and
  nonce are arbitrary.\<close>

theorem wallet_file_roundtrip:
  assumes "Wallet_ok so w" and "decryption_inverts so" and "length salt = 16" and "length nonce = 24"
    and "Wallet_save so io fs w salt nonce p password = (e, fs')"
  shows "(e = WE_none \<longrightarrow> fs p = None \<and> load_wallet so io_ok fs' p password = Inr w) \<and>
    (e \<noteq> WE_none \<and> io_remove_ok io \<longrightarrow> fs' = fs)"
proof (intro conjI impI)
  show "fs' = fs" if "e \<noteq> WE_none \<and> io_remove_ok io"
    using that assms(5)
    by (auto simp: Wallet_save_def Let_def fs_exists_def fs_open_trunc_def fs_write_def fs_remove_def fun_upd_idem
        split: if_splits option.splits)
next
  assume "e = WE_none"
  with assms(5) obtain key ciphertext where s: "password \<noteq> []" "fs p = None"
    "derive_encryption_key so password salt argon2id_operations_limit argon2id_memory_limit = Some key"
    "crypto_aead_encrypt so (kp_private_key (wallet_key_pair w)) (wallet_header salt nonce (Wallet_public_key w))
       nonce key = Some ciphertext"
    "length ciphertext = 80" "fs' = fs(p \<mapsto> wallet_header salt nonce (Wallet_public_key w) @ ciphertext)"
    using Wallet_save_none by blast
  note f = wallet_header_fields [OF assms(3,4) Wallet_ok_public_key [OF assms(1)], of ciphertext]
  have dec: "crypto_aead_decrypt so ciphertext (wallet_header salt nonce (Wallet_public_key w)) nonce key =
      Some (kp_private_key (wallet_key_pair w))"
    using assms(2) s(4) unfolding decryption_inverts_def by blast
  have restore: "Wallet_restore_from_private_key so (kp_private_key (wallet_key_pair w)) = Some w"
    "length (kp_private_key (wallet_key_pair w)) = 64"
    using assms(1) KeyPair_ok_lengths [of so "wallet_key_pair w"]
    by (simp_all add: Wallet_ok_def Wallet_restore_from_private_key_def KeyPair_ok_def)
  show "fs p = None" by (rule s)
  show "load_wallet so io_ok fs' p password = Inr w"
    using s restore f dec Wallet_ok_public_key [OF assms(1)] length_wallet_header [OF assms(3,4) Wallet_ok_public_key [OF assms(1)]]
    by (simp add: load_wallet_def fs_file_size_def fs_read_def io_ok_def wallet_sizes crypto_sizes Let_def)
qed

text \<open>
  C35. What loads is authentic. When \<open>load_wallet\<close> returns a wallet, the file is a
  well-formed header with this wallet's public key followed by a ciphertext that decrypts,
  under the key derived from the password and with the whole header as authenticated data, to
  the wallet's private key; and the key pair is consistent. No hypothesis on libsodium is
  needed.\<close>

theorem load_wallet_sound:
  assumes "load_wallet so io fs p password = Inr w"
  shows "Wallet_ok so w \<and>
    (\<exists>salt nonce key ciphertext. fs p = Some (wallet_header salt nonce (Wallet_public_key w) @ ciphertext) \<and>
      length salt = 16 \<and> length nonce = 24 \<and> length ciphertext = 80 \<and>
      derive_encryption_key so password salt argon2id_operations_limit argon2id_memory_limit = Some key \<and>
      crypto_aead_decrypt so ciphertext (wallet_header salt nonce (Wallet_public_key w)) nonce key =
        Some (kp_private_key (wallet_key_pair w)))"
proof -
  from assms obtain bs key sk where bs: "fs p = Some bs" "length bs = 176"
    and h: "take 4 bs = wallet_magic" "bs ! 4 = wallet_format_version" "bs ! 5 = argon2id_algorithm"
      "bs ! 6 = xchacha20_poly1305_algorithm" "bs ! 7 = reserved_byte"
      "read_u64_le bs 8 = argon2id_operations_limit" "read_u64_le bs 16 = argon2id_memory_limit"
    and key: "derive_encryption_key so password (take 16 (drop 24 bs)) argon2id_operations_limit
        argon2id_memory_limit = Some key"
    and dec: "crypto_aead_decrypt so (take 80 (drop 96 bs)) (take 96 bs) (take 24 (drop 40 bs)) key = Some sk"
    and restore: "Wallet_restore_from_private_key so sk = Some w" and pk: "Wallet_public_key w = take 32 (drop 64 bs)"
    by (auto simp: load_wallet_def fs_file_size_def fs_read_def wallet_sizes crypto_sizes Let_def
        split: if_splits option.splits)
  have w: "Wallet_ok so w" "kp_private_key (wallet_key_pair w) = sk" using Wallet_restore_ok [OF restore] by simp_all
  let ?h = "wallet_header (take 16 (drop 24 bs)) (take 24 (drop 40 bs)) (Wallet_public_key w)"
  have eq: "bs = ?h @ take 80 (drop 96 bs)" using wallet_header_join [OF bs(2) h] unfolding pk .
  have "length ?h = 96"
    using bs(2) length_wallet_header [of "take 16 (drop 24 bs)" "take 24 (drop 40 bs)" "Wallet_public_key w"]
    by (simp add: pk)
  then have "take 96 bs = ?h" using eq by (metis append_eq_conv_conj)
  then show ?thesis
    using bs w eq key dec
    by (intro conjI exI [of _ "take 16 (drop 24 bs)"] exI [of _ "take 24 (drop 40 bs)"] exI [of _ key]
        exI [of _ "take 80 (drop 96 bs)"]) simp_all
qed

section \<open>An example\<close>

lemma decryption_inverts_demo: "decryption_inverts demo_sodium"
  by (simp add: decryption_inverts_def demo_sodium_def)

definition demo_saved :: "WalletFileError \<times> files" where
  "demo_saved = Wallet_save demo_sodium io_ok Map.empty (demo_wallet 1) (replicate 16 0) (replicate 24 0) ''w'' ''pw''"

lemma demo_saved_none: "demo_saved = (WE_none, snd demo_saved)"
  by (simp add: demo_saved_def Wallet_save_def fs_exists_def fs_open_trunc_def fs_write_def io_ok_def Let_def
      derive_encryption_key_def demo_sodium_def wallet_sizes demo_wallet_def demo_key_pair_def)

theorem wallet_file_roundtrip_witness:
  "load_wallet demo_sodium io_ok (snd demo_saved) ''w'' ''pw'' = Inr (demo_wallet 1)"
  using wallet_file_roundtrip [OF Wallet_ok_demo decryption_inverts_demo, of "replicate 16 0" "replicate 24 0"
      io_ok Map.empty 1 "''w''" "''pw''"] demo_saved_none
  by (simp add: demo_saved_def)

lemma demo_loaded: "load_wallet demo_sodium io_ok (snd demo_saved) ''w'' ''pw'' = Inr (demo_wallet 1)"
  by code_simp

theorem load_wallet_sound_witness:
  "Wallet_ok demo_sodium (demo_wallet 1) \<and> snd demo_saved ''w'' \<noteq> None"
  using load_wallet_sound [OF demo_loaded] by auto

end
