(* ===== verification/BBC_Json.thy ===== *)
theory BBC_Json
  imports BBC_Prelude
begin

text \<open>
  JSON values as the sources see them through the interface of their JSON library: the kinds
  of value that its tests \<open>is_object\<close>, \<open>is_string\<close>, \<open>is_number_unsigned\<close> and so on tell
  apart, and the members of an object. Parsing and printing belong to the library. An object
  is a list of members; the order of the members carries no meaning.
\<close>

datatype json =
    J_null
  | J_bool bool
  | J_unsigned u64
  | J_integer int \<comment> \<open>a signed integer; the parser uses it for negative numbers\<close>
  | J_float string \<comment> \<open>the text of the number\<close>
  | J_string string
  | J_array "json list"
  | J_object "(string \<times> json) list"

type_synonym json_members = "(string \<times> json) list"

text \<open>The members of an object; other values have none.\<close>

fun json_members_of :: "json \<Rightarrow> json_members" where
  "json_members_of (J_object ms) = ms"
| "json_members_of _ = []"

fun is_object :: "json \<Rightarrow> bool" where
  "is_object (J_object ms) \<longleftrightarrow> True"
| "is_object _ \<longleftrightarrow> False"

text \<open>\<open>contains(key)\<close> and \<open>value[key]\<close>; \<open>contains\<close> is false for values that are not objects.\<close>

definition member :: "json \<Rightarrow> string \<Rightarrow> json option" where
  "member value key = map_of (json_members_of value) key"

definition json_contains :: "json \<Rightarrow> string \<Rightarrow> bool" where
  "json_contains value key \<longleftrightarrow> member value key \<noteq> None"

text \<open>\<open>value[key]\<close> after a test of the kind: the value if it has the kind.\<close>

definition string_member :: "json \<Rightarrow> string \<Rightarrow> string option" where
  "string_member value key = (case member value key of Some (J_string s) \<Rightarrow> Some s | _ \<Rightarrow> None)"

definition unsigned_member :: "json \<Rightarrow> string \<Rightarrow> u64 option" where
  "unsigned_member value key = (case member value key of Some (J_unsigned n) \<Rightarrow> Some n | _ \<Rightarrow> None)"

definition bool_member :: "json \<Rightarrow> string \<Rightarrow> bool option" where
  "bool_member value key = (case member value key of Some (J_bool b) \<Rightarrow> Some b | _ \<Rightarrow> None)"

definition object_member :: "json \<Rightarrow> string \<Rightarrow> json option" where
  "object_member value key = (case member value key of Some (J_object ms) \<Rightarrow> Some (J_object ms) | _ \<Rightarrow> None)"

definition array_member :: "json \<Rightarrow> string \<Rightarrow> json list option" where
  "array_member value key = (case member value key of Some (J_array xs) \<Rightarrow> Some xs | _ \<Rightarrow> None)"

lemmas json_member_defs = string_member_def unsigned_member_def bool_member_def object_member_def array_member_def

abbreviation J_number :: "nat \<Rightarrow> json" where
  "J_number n \<equiv> J_unsigned (of_nat n)"

definition json_option :: "('a \<Rightarrow> json) \<Rightarrow> 'a option \<Rightarrow> json" where
  "json_option f x = (case x of None \<Rightarrow> J_null | Some a \<Rightarrow> f a)"

end
