(* ===== verification/BBC_Config.thy ===== *)
theory BBC_Config
  imports BBC_Json BBC_Wallet BBC_Core
begin

text \<open>
  The configuration of a node: \<open>include/bbc/config/application_config.hpp\<close>,
  \<open>src/config/application_config.cpp\<close>, \<open>include/bbc/node/scenario_actor_config.hpp\<close> and
  \<open>src/node/scenario_actor_config.cpp\<close>.
\<close>

section \<open>Data\<close>

datatype ApplicationRole = PR_wallet | PR_full_node | PR_miner

datatype P2pScope = SC_loopback | SC_lan | SC_internet

record NetworkEndpoint =
  ep_host :: string
  ep_port :: u16

record FullNodeSettings =
  fn_listen :: NetworkEndpoint
  fn_peers :: "NetworkEndpoint list"
  fn_scope :: P2pScope

record MinerSettings =
  mi_reward_address :: Address
  mi_source :: "NetworkEndpoint option"
  mi_auto_start :: bool

record RpcSettings =
  rp_listen :: NetworkEndpoint
  rp_token_file :: path

record ApplicationConfig =
  ac_source_file :: path
  ac_name :: string
  ac_network_profile :: NetworkProfile
  ac_roles :: "ApplicationRole list"
  ac_wallet_file :: path
  ac_data_directory :: path
  ac_full_node :: "FullNodeSettings option"
  ac_miner :: "MinerSettings option"
  ac_rpc :: "RpcSettings option"

datatype ActorRole = AR_wallet | AR_full_node | AR_miner

record ScenarioActorConfig =
  sa_name :: string
  sa_roles :: "ActorRole list"
  sa_data_directory :: path
  sa_network_profile :: NetworkProfile
  sa_p2p_port :: u16
  sa_control_port :: u16
  sa_control_token :: string

definition ac_has_role :: "ApplicationConfig \<Rightarrow> ApplicationRole \<Rightarrow> bool" where
  "ac_has_role config role \<longleftrightarrow> role \<in> set (ac_roles config)"

fun actor_role_name :: "ActorRole \<Rightarrow> string" where
  "actor_role_name AR_wallet = ''wallet''"
| "actor_role_name AR_full_node = ''full_node''"
| "actor_role_name AR_miner = ''miner''"

end
