(* ===== verification/BBC_Node.thy ===== *)
theory BBC_Node
  imports BBC_ChainStore BBC_MempoolStore BBC_Peer BBC_Config
begin

text \<open>
  The runtime of a node, \<open>class NodeRuntime\<close> of \<open>src/node/control_server.cpp\<close>: it owns the
  chain store, the mempool store and the peer network, answers the messages of the peers,
  synchronizes the chain and mines. Every member function is a function on the state. What a
  call hands to others (events, messages given to the network thread) is appended to a list
  of outputs. The calls of the file system and of SQLite have an outcome per call. The threads of
  the node interleave: the last section gives the undisturbed runs of the handlers and the
  sections of a handler between which another thread may run.
\<close>

section \<open>Data\<close>

definition sync_status_ok :: byte where "sync_status_ok = 0"
definition sync_status_locator_not_found :: byte where "sync_status_locator_not_found = 1"
definition sync_status_invalid_request :: byte where "sync_status_invalid_request = 2"

lemmas sync_status_defs = sync_status_ok_def sync_status_locator_not_found_def sync_status_invalid_request_def

record RuntimeConfig =
  rc_name :: string
  rc_roles :: "ActorRole list"
  rc_data_directory :: path
  rc_network_profile :: NetworkProfile
  rc_p2p_host :: string
  rc_p2p_port :: u16
  rc_p2p_scope :: PeerAddressScope
  rc_control_host :: string
  rc_control_port :: u16
  rc_control_token :: string
  rc_initial_peers :: "NetworkEndpoint list"
  rc_reward_address :: "Address option"
  rc_ephemeral_wallet :: bool
  rc_scenario :: bool
  rc_auto_start_mining :: bool

definition rc_has_role :: "RuntimeConfig \<Rightarrow> ActorRole \<Rightarrow> bool" where
  "rc_has_role config role \<longleftrightarrow> role \<in> set (rc_roles config)"

fun runtime_p2p_scope :: "P2pScope \<Rightarrow> PeerAddressScope" where
  "runtime_p2p_scope SC_loopback = AS_loopback"
| "runtime_p2p_scope SC_lan = AS_private_network"
| "runtime_p2p_scope SC_internet = AS_public_network"

fun runtime_role :: "ApplicationRole \<Rightarrow> ActorRole" where
  "runtime_role PR_wallet = AR_wallet"
| "runtime_role PR_full_node = AR_full_node"
| "runtime_role PR_miner = AR_miner"

definition runtime_roles :: "ApplicationRole list \<Rightarrow> ActorRole list" where
  "runtime_roles roles = map runtime_role roles"

definition runtime_config_scenario :: "ScenarioActorConfig \<Rightarrow> RuntimeConfig" where
  "runtime_config_scenario config =
     \<lparr> rc_name = sa_name config, rc_roles = sa_roles config, rc_data_directory = sa_data_directory config,
       rc_network_profile = sa_network_profile config, rc_p2p_host = ''127.0.0.1'',
       rc_p2p_port = sa_p2p_port config, rc_p2p_scope = AS_loopback, rc_control_host = ''127.0.0.1'',
       rc_control_port = sa_control_port config, rc_control_token = sa_control_token config,
       rc_initial_peers = [], rc_reward_address = None, rc_ephemeral_wallet = True, rc_scenario = True,
       rc_auto_start_mining = False \<rparr>"

definition runtime_config_application :: "ApplicationConfig \<Rightarrow> string \<Rightarrow> RuntimeConfig" where
  "runtime_config_application application token =
     (let full_node = ac_has_role application PR_full_node;
          (p2p_host, p2p_port, p2p_scope, peers) =
            (case ac_full_node application of
               Some f \<Rightarrow> (ep_host (fn_listen f), ep_port (fn_listen f), runtime_p2p_scope (fn_scope f), fn_peers f)
             | None \<Rightarrow>
                 (''127.0.0.1'', 0, AS_public_network,
                  case Option.bind (ac_miner application) mi_source of None \<Rightarrow> [] | Some source \<Rightarrow> [source]))
      in \<lparr> rc_name = ac_name application, rc_roles = runtime_roles (ac_roles application),
           rc_data_directory = ac_data_directory application,
           rc_network_profile = ac_network_profile application,
           rc_p2p_host = p2p_host, rc_p2p_port = (if \<not> full_node then 0 else p2p_port), rc_p2p_scope = p2p_scope,
           rc_control_host = ep_host (rp_listen (the (ac_rpc application))),
           rc_control_port = ep_port (rp_listen (the (ac_rpc application))), rc_control_token = token,
           rc_initial_peers = peers, rc_reward_address = map_option mi_reward_address (ac_miner application),
           rc_ephemeral_wallet = False, rc_scenario = False,
           rc_auto_start_mining = (case ac_miner application of None \<Rightarrow> False | Some m \<Rightarrow> mi_auto_start m) \<rparr>)"

text \<open>What a call of the node gives to the output stream and to the network thread.\<close>

datatype node_output =
    NO_event string json_members
  | NO_send u64 MessageType bytes
  | NO_broadcast MessageType bytes "u64 option"
  | NO_connect endpoint
  | NO_disconnect endpoint
  | NO_ping u64

text \<open>
  The mining thread: what it captured and where it is. Times are milliseconds. The candidate
  carries the nonce to try next.
\<close>

datatype worker_phase = WP_new "int option" | WP_asleep int | WP_mining

record MiningWorker =
  mw_peer_id :: u64
  mw_candidate :: Block
  mw_phase :: worker_phase

record NodeRuntime =
  nr_config :: RuntimeConfig
  nr_wallet :: "Wallet option"
  nr_chain_store :: "ChainStore option"
  nr_mempool_store :: "MempoolStore option"
  nr_network :: "PeerNet option"
  nr_events :: bool
  nr_mining_thread :: "MiningWorker option"
  nr_mining_cancelled :: bool
  nr_mining_active :: bool
  nr_continuous_mining_enabled :: bool
  nr_runtime_stopping :: bool
  nr_mining_attempts :: u64
  nr_mining_state :: string
  nr_next_template_request :: u64
  nr_mining_source_peer :: "u64 option"
  nr_pending_template_request :: "u64 option"
  nr_mining_parent :: "bytes option"
  nr_mining_height :: "u64 option"
  nr_found_block_id :: "bytes option"
  nr_mining_known_height :: u64
  nr_mining_known_tip :: bytes
  nr_defer_mining_start :: bool
  nr_prepared_mining_candidate :: "Block option"
  nr_prepared_mining_peer :: "u64 option"
  nr_pending_transaction_id :: "bytes option"
  nr_pending_transaction_peer :: "u64 option"
  nr_transaction_state :: string
  nr_sync_state :: string
  nr_next_sync_request :: u64
  nr_sync_peer :: "u64 option"
  nr_pending_sync_request :: "u64 option"
  nr_sync_target_height :: "u64 option"
  nr_sync_target_tip :: "bytes option"
  nr_sync_locator_tip :: "bytes option"
  nr_sync_received_blocks :: u64
  nr_disk :: disk \<comment> \<open>the files and the database of the chain store\<close>
  nr_pool_table :: pool_table \<comment> \<open>the database of the mempool store\<close>
  nr_outputs :: "node_output list"

text \<open>The outcomes of the system calls during one call of the node.\<close>

record node_env =
  ne_io :: io
  ne_sqlite :: sqlite
  ne_pool_sqlite :: pool_sqlite

definition node_env_ok :: node_env where
  "node_env_ok = \<lparr> ne_io = io_ok, ne_sqlite = sqlite_ok, ne_pool_sqlite = pool_sqlite_ok \<rparr>"

section \<open>Bookkeeping\<close>

definition NodeRuntime_create :: "RuntimeConfig \<Rightarrow> disk \<Rightarrow> pool_table \<Rightarrow> NodeRuntime" where
  "NodeRuntime_create config dk table =
     \<lparr> nr_config = config, nr_wallet = None, nr_chain_store = None, nr_mempool_store = None, nr_network = None,
       nr_events = False, nr_mining_thread = None, nr_mining_cancelled = False, nr_mining_active = False,
       nr_continuous_mining_enabled = False, nr_runtime_stopping = False, nr_mining_attempts = 0,
       nr_mining_state = ''idle'', nr_next_template_request = 1, nr_mining_source_peer = None,
       nr_pending_template_request = None, nr_mining_parent = None, nr_mining_height = None,
       nr_found_block_id = None, nr_mining_known_height = 0, nr_mining_known_tip = replicate 32 0,
       nr_defer_mining_start = False, nr_prepared_mining_candidate = None, nr_prepared_mining_peer = None,
       nr_pending_transaction_id = None, nr_pending_transaction_peer = None, nr_transaction_state = ''idle'',
       nr_sync_state = ''idle'', nr_next_sync_request = 1, nr_sync_peer = None, nr_pending_sync_request = None,
       nr_sync_target_height = None, nr_sync_target_tip = None, nr_sync_locator_tip = None,
       nr_sync_received_blocks = 0, nr_disk = dk, nr_pool_table = table, nr_outputs = [] \<rparr>"

definition node_emit :: "string \<Rightarrow> json_members \<Rightarrow> NodeRuntime \<Rightarrow> NodeRuntime" where
  "node_emit type details nr =
     (if nr_events nr then nr\<lparr> nr_outputs := nr_outputs nr @ [NO_event type details] \<rparr> else nr)"

abbreviation J_hex :: "bytes \<Rightarrow> json" where
  "J_hex bs \<equiv> J_string (to_upper_hex bs)"

text \<open>
  The calls \<open>network_->peers()\<close>, \<open>send\<close>, \<open>broadcast\<close> and \<open>update_tip\<close>: the first reads the
  status of the sessions, \<open>send\<close> refuses peers that are not known and otherwise leaves the
  message to the network thread, as \<open>broadcast\<close> does.
\<close>

definition network_peers :: "NodeRuntime \<Rightarrow> PeerStatus list" where
  "network_peers nr = (case nr_network nr of None \<Rightarrow> [] | Some net \<Rightarrow> peers net)"

definition network_send :: "u64 \<Rightarrow> MessageType \<Rightarrow> bytes \<Rightarrow> NodeRuntime \<Rightarrow> bool \<times> NodeRuntime" where
  "network_send peer_id type payload nr =
     (if send_known (the (nr_network nr)) peer_id
      then (True, nr\<lparr> nr_outputs := nr_outputs nr @ [NO_send peer_id type payload] \<rparr>)
      else (False, nr))"

definition network_broadcast :: "MessageType \<Rightarrow> bytes \<Rightarrow> u64 option \<Rightarrow> NodeRuntime \<Rightarrow> NodeRuntime" where
  "network_broadcast type payload excluded_peer nr =
     nr\<lparr> nr_outputs := nr_outputs nr @ [NO_broadcast type payload excluded_peer] \<rparr>"

definition network_update_tip :: "u64 \<Rightarrow> bytes \<Rightarrow> NodeRuntime \<Rightarrow> NodeRuntime" where
  "network_update_tip height block_id nr =
     nr\<lparr> nr_network := map_option (\<lambda>net. update_tip net height block_id) (nr_network nr) \<rparr>"

definition set_mining_state :: "string \<Rightarrow> NodeRuntime \<Rightarrow> NodeRuntime" where
  "set_mining_state state nr = nr\<lparr> nr_mining_state := state \<rparr>"

definition node_blockchain :: "NodeRuntime \<Rightarrow> Blockchain" where
  "node_blockchain nr = cs_blockchain (the (nr_chain_store nr))"

abbreviation node_tip :: "NodeRuntime \<Rightarrow> Block" where
  "node_tip nr \<equiv> bc_tip (node_blockchain nr)"

definition node_chain_id :: "NodeRuntime \<Rightarrow> u32" where
  "node_chain_id nr = np_chain_id (network_parameters (rc_network_profile (nr_config nr)))"

text \<open>The first peer with a complete handshake that is a full node.\<close>

definition find_full_node :: "NodeRuntime \<Rightarrow> PeerStatus option" where
  "find_full_node nr =
     find (\<lambda>peer. ps_handshake_complete peer \<and> ps_services peer AND full_node_service \<noteq> 0) (network_peers nr)"

section \<open>Mining work\<close>

text \<open>The candidate on top of the active chain, with the transactions the pool selects.\<close>

definition block_template :: "sodium \<Rightarrow> NodeRuntime \<Rightarrow> Address \<Rightarrow> BlockResult" where
  "block_template so nr reward =
     (let tip = node_tip nr
      in create_block so
           \<lparr> bf_height = blk_height tip + 1, bf_previous_block_hash = blk_id so tip, bf_reward_recipient = reward,
             bf_timestamp = blk_timestamp tip + 1,
             bf_difficulty_target = fixed_difficulty_target (blk_chain_id tip), bf_mining_nonce = 0,
             bf_transactions = (case nr_mempool_store nr of
                 None \<Rightarrow> []
               | Some ms \<Rightarrow> mp_select so (ms_mempool ms) maximum_transactions_per_block),
             bf_chain_id = blk_chain_id tip \<rparr>)"

text \<open>The end of the mining thread after it saw the flag \<open>mining_cancelled_\<close>.\<close>

definition mining_cancel_end :: "MiningWorker \<Rightarrow> NodeRuntime \<Rightarrow> NodeRuntime" where
  "mining_cancel_end w nr =
     node_emit ''mining_cancelled''
       [(''height'', J_unsigned (blk_height (mw_candidate w))), (''reason'', J_string ''stale_parent'')]
       (set_mining_state ''cancelled'' (nr\<lparr> nr_mining_active := False, nr_mining_thread := None \<rparr>))"

text \<open>
  \<open>mining_cancelled_.store(true)\<close> and \<open>mining_thread_.join()\<close>, from the last look of the worker
  at the flag. A worker in the middle of a batch finishes it first, and hands over a block it
  finds, before it looks again: that is a step of the mining thread before the join, with
  \<open>late\<close> set (see \<open>mining_batch\<close>). A candidate the caller built before the join may be out of
  date by then: see \<open>launched\<close> in the sections of the handlers.
\<close>

definition cancel_and_join :: "NodeRuntime \<Rightarrow> NodeRuntime" where
  "cancel_and_join nr =
     (case nr_mining_thread nr of
        None \<Rightarrow> nr
      | Some w \<Rightarrow> mining_cancel_end w (nr\<lparr> nr_mining_cancelled := True \<rparr>))"

text \<open>\<open>start_at\<close> and \<open>now\<close> are milliseconds since the epoch.\<close>

definition launch_mining :: "int \<Rightarrow> u64 \<Rightarrow> Block \<Rightarrow> int option \<Rightarrow> NodeRuntime \<Rightarrow> NodeRuntime" where
  "launch_mining now peer_id candidate start_at nr =
     (let nr = cancel_and_join nr;
          nr = nr\<lparr> nr_mining_cancelled := False, nr_mining_active := True, nr_mining_attempts := 0,
                  nr_found_block_id := None \<rparr>;
          nr = (case start_at of
              Some t \<Rightarrow>
                if now < t
                then node_emit ''mining_scheduled''
                       [(''height'', J_unsigned (blk_height candidate)), (''start_at_unix_ms'', J_integer t)]
                       (set_mining_state ''scheduled'' nr)
                else node_emit ''mining_started''
                       [(''height'', J_unsigned (blk_height candidate)), (''batch_size'', J_unsigned 10000)]
                       (set_mining_state ''running'' nr)
            | None \<Rightarrow>
                node_emit ''mining_started''
                  [(''height'', J_unsigned (blk_height candidate)), (''batch_size'', J_unsigned 10000)]
                  (set_mining_state ''running'' nr))
      in nr\<lparr> nr_mining_thread := Some \<lparr> mw_peer_id = peer_id, mw_candidate = candidate, mw_phase = WP_new start_at \<rparr> \<rparr>)"

definition mining_cycle_pending :: "NodeRuntime \<Rightarrow> bool" where
  "mining_cycle_pending nr \<longleftrightarrow>
     nr_mining_active nr \<or> nr_pending_template_request nr \<noteq> None \<or> nr_prepared_mining_candidate nr \<noteq> None \<or>
     nr_mining_state nr = ''submitted''"

text \<open>\<open>start_mining\<close>: the error text, or \<^const>\<open>None\<close> for success.\<close>

definition start_mining :: "sodium \<Rightarrow> int \<Rightarrow> bool \<Rightarrow> bool \<Rightarrow> NodeRuntime \<Rightarrow> string option \<times> NodeRuntime" where
  "start_mining so now defer_work continuous_cycle nr =
     (if \<not> rc_has_role (nr_config nr) AR_miner \<or> rc_reward_address (nr_config nr) = None \<or> nr_network nr = None
      then (Some ''Node is not configured as a miner.'', nr)
      else if continuous_cycle \<and> \<not> nr_continuous_mining_enabled nr
      then (Some ''Continuous mining is not enabled.'', nr)
      else if \<not> continuous_cycle \<and> nr_continuous_mining_enabled nr
      then (Some ''Continuous mining is already enabled.'', nr)
      else if nr_mining_active nr then (Some ''Mining is already active.'', nr)
      else if nr_pending_template_request nr \<noteq> None \<or> nr_prepared_mining_candidate nr \<noteq> None \<or>
              nr_mining_state nr = ''submitted''
      then (Some ''Mining work is already pending.'', nr)
      else if nr_chain_store nr \<noteq> None
      then (case block_template so nr (the (rc_reward_address (nr_config nr))) of
          Inl e \<Rightarrow> (Some ''Could not create a local block template.'', nr)
        | Inr block \<Rightarrow>
            (let nr = nr\<lparr> nr_mining_parent := Some (blk_previous_block_hash block),
                         nr_mining_height := Some (blk_height block) \<rparr>
             in if defer_work
                then (None, node_emit ''mining_ready'' [(''height'', J_unsigned (blk_height block))]
                  (nr\<lparr> nr_prepared_mining_candidate := Some block, nr_prepared_mining_peer := Some 0,
                      nr_mining_state := ''ready'' \<rparr>))
                else (None, launch_mining now 0 block None nr)))
      else
        (case find_full_node nr of
           None \<Rightarrow> (Some ''Miner has no connected full node.'', nr)
         | Some source \<Rightarrow>
             (let request_id = nr_next_template_request nr;
                  payload = append_u64_le [] request_id @ addr_hash (the (rc_reward_address (nr_config nr)));
                  nr = nr\<lparr> nr_next_template_request := request_id + 1, nr_mining_source_peer := Some (ps_id source),
                          nr_pending_template_request := Some request_id, nr_defer_mining_start := defer_work,
                          nr_mining_state := ''preparing'' \<rparr>;
                  (sent, nr) = network_send (ps_id source) MT_template_request payload nr
              in if \<not> sent
                 then (Some ''Could not send the block template request.'',
                       nr\<lparr> nr_mining_source_peer := None, nr_pending_template_request := None,
                           nr_defer_mining_start := False, nr_mining_state := ''idle'' \<rparr>)
                 else (None, node_emit ''mining_template_requested'' [(''peer_id'', J_unsigned (ps_id source))] nr))))"

definition start_continuous_mining :: "NodeRuntime \<Rightarrow> string option \<times> NodeRuntime" where
  "start_continuous_mining nr =
     (if rc_scenario (nr_config nr) \<or> \<not> rc_has_role (nr_config nr) AR_miner \<or>
         rc_reward_address (nr_config nr) = None \<or> nr_network nr = None
      then (Some ''Node is not configured for persistent mining.'', nr)
      else if nr_continuous_mining_enabled nr then (Some ''Continuous mining is already enabled.'', nr)
      else (None, node_emit ''continuous_mining_started''
             [(''auto_start'', J_bool (rc_auto_start_mining (nr_config nr)))]
             (nr\<lparr> nr_continuous_mining_enabled := True \<rparr>)))"

definition stop_mining :: "NodeRuntime \<Rightarrow> string option \<times> NodeRuntime" where
  "stop_mining nr =
     (if \<not> rc_has_role (nr_config nr) AR_miner then (Some ''Node is not configured as a miner.'', nr)
      else
        (let nr = nr\<lparr> nr_continuous_mining_enabled := False, nr_mining_cancelled := True,
                     nr_pending_template_request := None, nr_mining_source_peer := None, nr_mining_parent := None,
                     nr_mining_height := None, nr_found_block_id := None, nr_prepared_mining_candidate := None,
                     nr_prepared_mining_peer := None, nr_defer_mining_start := False \<rparr>;
             nr = cancel_and_join nr
         in (None, node_emit ''mining_stopped'' []
               (set_mining_state ''stopped'' (nr\<lparr> nr_mining_active := False \<rparr>)))))"

definition begin_mining :: "int \<Rightarrow> u64 \<Rightarrow> NodeRuntime \<Rightarrow> string option \<times> NodeRuntime" where
  "begin_mining now start_at_unix_ms nr =
     (case (nr_prepared_mining_candidate nr, nr_prepared_mining_peer nr) of
        (Some candidate, Some source_peer) \<Rightarrow>
          (None, launch_mining now source_peer candidate (Some (sint start_at_unix_ms))
             (nr\<lparr> nr_prepared_mining_candidate := None, nr_prepared_mining_peer := None \<rparr>))
      | _ \<Rightarrow> (Some ''Miner has no prepared block template.'', nr))"

text \<open>One round of the loop of the mining coordinator, when it is woken.\<close>

definition coordinator_round :: "sodium \<Rightarrow> int \<Rightarrow> string \<Rightarrow> NodeRuntime \<Rightarrow> string \<times> NodeRuntime" where
  "coordinator_round so now last_wait_reason nr =
     (if nr_runtime_stopping nr \<or> \<not> nr_continuous_mining_enabled nr then (last_wait_reason, nr)
      else if mining_cycle_pending nr then (last_wait_reason, nr)
      else
        (case start_mining so now False True nr of
           (None, nr) \<Rightarrow> ([], nr)
         | (Some error, nr) \<Rightarrow>
             if error \<noteq> [] \<and> error \<noteq> last_wait_reason
             then (error, node_emit ''continuous_mining_waiting'' [(''reason'', J_string error)]
                    (set_mining_state ''waiting'' nr))
             else (last_wait_reason, nr)))"

section \<open>Blocks\<close>

text \<open>A block or transaction identifier, the verdict and a reason code, low byte first.\<close>

definition result_payload :: "bytes \<Rightarrow> bool \<Rightarrow> u16 \<Rightarrow> bytes" where
  "result_payload object_id accepted reason =
     object_id @ [if accepted then 1 else 0] @ [ucast (reason AND 0xFF), ucast (drop_bit 8 reason)]"

definition send_block_result :: "u64 \<Rightarrow> bytes \<Rightarrow> bool \<Rightarrow> u16 \<Rightarrow> NodeRuntime \<Rightarrow> NodeRuntime" where
  "send_block_result peer_id block_id accepted reason nr =
     snd (network_send peer_id MT_block_result (result_payload block_id accepted reason) nr)"

fun relay_restored :: "sodium \<Rightarrow> SignedTransaction list \<Rightarrow> NodeRuntime \<Rightarrow> NodeRuntime" where
  "relay_restored so [] nr = nr"
| "relay_restored so (transaction # rest) nr =
     relay_restored so rest
       (node_emit ''transaction_relayed_after_reorg'' [(''transaction_id'', J_hex (tx_id so transaction))]
         (network_broadcast MT_transaction (tx_serialize transaction) None nr))"

definition update_mempool_after_chain_change ::
    "sodium \<Rightarrow> node_env \<Rightarrow> AppendResult \<Rightarrow> NodeRuntime \<Rightarrow> NodeRuntime" where
  "update_mempool_after_chain_change so env appended nr =
     (case nr_mempool_store nr of
        None \<Rightarrow> nr
      | Some ms \<Rightarrow>
          (let (reconciled, table, ms) = ms_reconcile_reorganization so (ne_pool_sqlite env) (nr_pool_table nr) ms
                 (bc_state (node_blockchain nr)) (ar_detached_blocks appended);
               nr = nr\<lparr> nr_pool_table := table, nr_mempool_store := Some ms \<rparr>
           in if msr_error reconciled \<noteq> MS_none then node_emit ''mempool_revalidation_failed'' [] nr
              else
                (let nr = (if msr_detached reconciled \<noteq> 0
                           then node_emit ''mempool_reorg_completed''
                                  [(''detached_transactions'', J_number (msr_detached reconciled)),
                                   (''restored_transactions'', J_number (msr_restored reconciled))] nr
                           else nr)
                 in if nr_network nr \<noteq> None
                    then relay_restored so (msr_transactions_to_relay reconciled) nr else nr)))"

text \<open>\<open>handle_block\<close> of a miner without a chain: it only follows the tip.\<close>

definition handle_block_light :: "sodium \<Rightarrow> Block \<Rightarrow> NodeRuntime \<Rightarrow> NodeRuntime" where
  "handle_block_light so block nr =
     (let id = blk_id so block;
          extends_known_tip = (nr_mining_known_height nr < blk_height block \<and>
            blk_height block - 1 = nr_mining_known_height nr \<and>
            blk_previous_block_hash block = nr_mining_known_tip nr);
          extends_candidate = (nr_mining_parent nr \<noteq> None \<and> nr_mining_height nr \<noteq> None \<and>
            blk_previous_block_hash block = the (nr_mining_parent nr) \<and>
            blk_height block = the (nr_mining_height nr) \<and> nr_mining_known_height nr < blk_height block)
      in if \<not> extends_known_tip \<and> \<not> extends_candidate \<or> blk_chain_id block \<noteq> node_chain_id nr \<or>
            validate_proof_of_work so block \<noteq> PE_none
         then nr
         else
           (let nr = (if nr_mining_active nr then nr\<lparr> nr_mining_cancelled := True \<rparr> else nr);
                nr = nr\<lparr> nr_mining_known_height := blk_height block, nr_mining_known_tip := id \<rparr>
            in if nr_found_block_id nr = Some id
               then node_emit ''mining_accepted''
                      [(''block_id'', J_hex id), (''height'', J_unsigned (blk_height block))]
                      (set_mining_state ''accepted'' nr)
               else nr))"

definition append_failure :: "ChainStoreAppendResult \<Rightarrow> string" where
  "append_failure appended =
     (if car_storage_error appended = KE_none then chain_error_message (ar_error (car_chain_result appended))
      else chain_store_error_message (car_storage_error appended))"

text \<open>
  The part of \<open>handle_block\<close> and of the loop in \<open>handle_blocks\<close> under \<open>state_mutex_\<close>: append,
  and when the active chain changed adapt the pool and note height and identifier of the new
  tip (\<open>active_tip_height\<close>, \<open>active_tip_id\<close>) for the rest of the handler.
\<close>

definition append_and_update ::
    "sodium \<Rightarrow> node_env \<Rightarrow> Block \<Rightarrow> NodeRuntime \<Rightarrow>
       (ChainStoreAppendResult \<times> (u64 \<times> bytes) \<times> NodeRuntime) option" where
  "append_and_update so env block nr =
     (case cs_append so (ne_io env) (ne_sqlite env) (nr_disk nr) (the (nr_chain_store nr)) block of
        None \<Rightarrow> None
      | Some (appended, dk, cs) \<Rightarrow>
          (let nr = nr\<lparr> nr_disk := dk, nr_chain_store := Some cs \<rparr>
           in if ChainStoreAppendResult_has_value appended \<and> ar_active_chain_changed (car_chain_result appended)
              then (let nr = update_mempool_after_chain_change so env (car_chain_result appended) nr
                    in Some (appended, (blk_height (node_tip nr), blk_id so (node_tip nr)), nr))
              else Some (appended, (0, replicate 32 0), nr)))"

text \<open>
  \<open>handle_block\<close> after \<open>state_mutex_\<close> is released, with the tip noted under it. The chain may
  have moved on in the meantime.
\<close>

definition finish_block ::
    "sodium \<Rightarrow> u64 \<Rightarrow> Block \<Rightarrow> bool \<Rightarrow> ChainStoreAppendResult \<Rightarrow> u64 \<times> bytes \<Rightarrow> NodeRuntime \<Rightarrow> NodeRuntime" where
  "finish_block so peer_id block submission appended active_tip nr =
     (let id = blk_id so block; result = car_chain_result appended
      in if \<not> ChainStoreAppendResult_has_value appended
         then (let reason = (if car_storage_error appended = KE_none \<and>
                     (ar_error result = CE_unexpected_parent \<or> ar_error result = CE_unexpected_height) then 1 else 3);
                   nr = (if submission then send_block_result peer_id id False reason nr else nr)
               in node_emit ''block_rejected''
                    [(''block_id'', J_hex id), (''reason'', J_string (append_failure appended))] nr)
         else if \<not> ar_active_chain_changed result
         then (let nr = (if submission then send_block_result peer_id id False 1 nr else nr);
                   nr = network_broadcast MT_block (blk_serialize block) (Some peer_id) nr;
                   nr = node_emit ''block_stored''
                          [(''block_id'', J_hex id), (''height'', J_unsigned (blk_height block)),
                           (''peer_id'', J_unsigned peer_id), (''status'', J_string ''side_branch'')] nr
               in node_emit ''block_relayed'' [(''block_id'', J_hex id)] nr)
         else
           (let (active_tip_height, active_tip_id) = active_tip;
                nr = (if rc_has_role (nr_config nr) AR_miner
                      then (let nr = (if nr_mining_active nr then nr\<lparr> nr_mining_cancelled := True \<rparr> else nr)
                            in nr\<lparr> nr_mining_known_height := active_tip_height, nr_mining_known_tip := active_tip_id \<rparr>)
                      else nr);
                nr = network_update_tip active_tip_height active_tip_id nr;
                nr = (if submission then send_block_result peer_id id True 0 nr else nr);
                nr = network_broadcast MT_block (blk_serialize block) (Some peer_id) nr;
                nr = node_emit (if ar_reorganized result then ''chain_reorganized'' else ''block_accepted'')
                       [(''block_id'', J_hex id), (''height'', J_unsigned (blk_height block)),
                        (''peer_id'', J_unsigned peer_id),
                        (''detached_blocks'', J_number (length (ar_detached_blocks result))),
                        (''attached_blocks'', J_number (length (ar_attached_blocks result)))] nr
            in node_emit ''block_relayed'' [(''block_id'', J_hex id)] nr))"

definition handle_block ::
    "sodium \<Rightarrow> node_env \<Rightarrow> u64 \<Rightarrow> bytes \<Rightarrow> bool \<Rightarrow> NodeRuntime \<Rightarrow> NodeRuntime option" where
  "handle_block so env peer_id payload submission nr =
     (case deserialize_block so payload of
        Inl e \<Rightarrow> Some (if submission then send_block_result peer_id (replicate 32 0) False 2 nr else nr)
      | Inr block \<Rightarrow>
          if nr_chain_store nr = None then Some (handle_block_light so block nr)
          else case append_and_update so env block nr of
            None \<Rightarrow> None
          | Some (appended, active_tip, nr) \<Rightarrow>
              Some (finish_block so peer_id block submission appended active_tip nr))"

section \<open>Mining messages\<close>

definition handle_template_request :: "sodium \<Rightarrow> u64 \<Rightarrow> bytes \<Rightarrow> NodeRuntime \<Rightarrow> NodeRuntime" where
  "handle_template_request so peer_id payload nr =
     (if nr_chain_store nr = None \<or> length payload \<noteq> 40 then nr
      else case block_template so nr (Address (drop 8 payload)) of
        Inl e \<Rightarrow> nr
      | Inr candidate \<Rightarrow>
          (let response = append_u64_le [] (read_u64_le payload 0) @ blk_serialize candidate;
               nr = snd (network_send peer_id MT_block_template response nr)
           in node_emit ''block_template_sent''
                [(''peer_id'', J_unsigned peer_id), (''height'', J_unsigned (blk_height candidate))] nr))"

text \<open>The tip a template has to extend.\<close>

definition expected_work :: "sodium \<Rightarrow> NodeRuntime \<Rightarrow> u64 \<times> bytes" where
  "expected_work so nr =
     (if nr_chain_store nr \<noteq> None then (blk_height (node_tip nr) + 1, blk_id so (node_tip nr))
      else (nr_mining_known_height nr + 1, nr_mining_known_tip nr))"

definition handle_block_template :: "sodium \<Rightarrow> int \<Rightarrow> u64 \<Rightarrow> bytes \<Rightarrow> NodeRuntime \<Rightarrow> NodeRuntime" where
  "handle_block_template so now peer_id payload nr =
     (let request_id = read_u64_le payload 0;
          wrong_source_or_request = (nr_mining_source_peer nr \<noteq> Some peer_id \<or>
            nr_pending_template_request nr \<noteq> Some request_id)
      in if \<not> rc_has_role (nr_config nr) AR_miner \<or> length payload \<le> 8 \<or> wrong_source_or_request then nr
         else case deserialize_block so (drop 8 payload) of
           Inl e \<Rightarrow> node_emit ''mining_template_rejected'' [(''reason'', J_string ''invalid_block'')] nr
         | Inr candidate \<Rightarrow>
             (let parameters = network_parameters (rc_network_profile (nr_config nr));
                  (expected_height, expected_tip) = expected_work so nr
              in if \<not> list_ex (\<lambda>peer. ps_id peer = peer_id \<and> ps_handshake_complete peer) (network_peers nr) \<or>
                    blk_chain_id candidate \<noteq> np_chain_id parameters \<or>
                    blk_height candidate \<noteq> expected_height \<or>
                    blk_previous_block_hash candidate \<noteq> expected_tip \<or>
                    blk_difficulty_target candidate \<noteq> np_difficulty_target parameters \<or>
                    blk_reward_recipient candidate \<noteq> Some (the (rc_reward_address (nr_config nr)))
                 then node_emit ''mining_template_rejected'' [(''reason'', J_string ''unexpected_template'')] nr
                 else
                   (let defer_work = nr_defer_mining_start nr;
                        nr = nr\<lparr> nr_pending_template_request := None,
                                nr_mining_parent := Some (blk_previous_block_hash candidate),
                                nr_mining_height := Some (blk_height candidate), nr_defer_mining_start := False \<rparr>
                    in if defer_work
                       then node_emit ''mining_ready'' [(''height'', J_unsigned (blk_height candidate))]
                              (nr\<lparr> nr_prepared_mining_candidate := Some candidate,
                                  nr_prepared_mining_peer := Some peer_id, nr_mining_state := ''ready'' \<rparr>)
                       else launch_mining now peer_id candidate None nr)))"

definition handle_block_result :: "bytes \<Rightarrow> NodeRuntime \<Rightarrow> NodeRuntime" where
  "handle_block_result payload nr =
     (if length payload \<noteq> 35 \<or> 1 < payload ! 32 then nr
      else
        (let result_block_id = take 32 payload; accepted = (payload ! 32 = 1); reason = read_u16_le payload 33
         in if nr_found_block_id nr \<noteq> Some result_block_id \<or> accepted \<and> reason \<noteq> 0 \<or> \<not> accepted \<and> reason = 0
            then nr
            else
              (let nr = (case nr_mining_height nr of
                     Some height \<Rightarrow>
                       if accepted
                       then nr\<lparr> nr_mining_known_height := height, nr_mining_known_tip := result_block_id \<rparr> else nr
                   | None \<Rightarrow> nr);
                   result_height = nr_mining_height nr;
                   nr = nr\<lparr> nr_mining_state := (if accepted then ''accepted''
                          else if reason = 1 then ''cancelled'' else ''rejected'') \<rparr>;
                   details = [(''block_id'', J_hex result_block_id), (''reason_code'', J_unsigned (ucast reason))] @
                     (case result_height of None \<Rightarrow> [] | Some height \<Rightarrow> [(''height'', J_unsigned height)]) @
                     (if accepted then []
                      else [(''reason'', J_string (if reason = 1 then ''stale_parent'' else ''invalid_block''))])
               in node_emit (if accepted then ''mining_accepted''
                    else if reason = 1 then ''mining_cancelled'' else ''mining_rejected'') details nr)))"

text \<open>
  The mining thread after it found a block: the report, the hand-over to the node itself or to
  a peer, and what it looks at when the node has taken the block.
\<close>

definition report_found :: "sodium \<Rightarrow> Block \<Rightarrow> NodeRuntime \<Rightarrow> NodeRuntime" where
  "report_found so mined nr =
     (let nr = nr\<lparr> nr_found_block_id := Some (blk_id so mined), nr_mining_active := False \<rparr>;
          nr = set_mining_state ''submitted'' nr
      in node_emit ''block_found''
           [(''block_id'', J_hex (blk_id so mined)), (''attempts'', J_unsigned (nr_mining_attempts nr)),
            (''height'', J_unsigned (blk_height mined))] nr)"

definition conclude_found :: "sodium \<Rightarrow> Block \<Rightarrow> NodeRuntime \<Rightarrow> NodeRuntime" where
  "conclude_found so mined nr =
     (let accepted = (nr_chain_store nr \<noteq> None \<and> blk_id so (node_tip nr) = blk_id so mined);
          nr = set_mining_state (if accepted then ''accepted'' else ''rejected'') nr
      in node_emit (if accepted then ''mining_accepted'' else ''mining_rejected'')
           [(''block_id'', J_hex (blk_id so mined)), (''height'', J_unsigned (blk_height mined)),
            (''source'', J_string ''local_full_node'')] (nr\<lparr> nr_mining_thread := None \<rparr>))"

definition block_found :: "sodium \<Rightarrow> node_env \<Rightarrow> MiningWorker \<Rightarrow> Block \<Rightarrow> NodeRuntime \<Rightarrow> NodeRuntime option" where
  "block_found so env w mined nr =
     (let nr = report_found so mined nr
      in if mw_peer_id w = 0
         then map_option (conclude_found so mined) (handle_block so env 0 (blk_serialize mined) False nr)
         else
           (let nr = snd (network_send (mw_peer_id w) MT_block_submit (blk_serialize mined) nr)
            in Some (node_emit ''block_submitted''
                 [(''height'', J_unsigned (blk_height mined)), (''peer_id'', J_unsigned (mw_peer_id w))]
                 (nr\<lparr> nr_mining_thread := None \<rparr>))))"

text \<open>
  One step of the mining thread: falling asleep, waking, or one round of its loop.
  \<open>progress\<close>: five seconds have passed since the last report. \<open>late\<close>: the round looked at
  \<open>mining_cancelled_\<close> before another thread set it, and runs to its end all the same.
\<close>

definition mining_batch ::
    "sodium \<Rightarrow> node_env \<Rightarrow> bool \<Rightarrow> bool \<Rightarrow> MiningWorker \<Rightarrow> NodeRuntime \<Rightarrow> NodeRuntime option" where
  "mining_batch so env late progress w nr =
     (if nr_mining_cancelled nr \<and> \<not> late then Some (mining_cancel_end w nr)
      else
        (let result = mine_block so (mw_candidate w) 10000;
             nr = nr\<lparr> nr_mining_attempts := nr_mining_attempts nr + mr_attempts result \<rparr>
         in case mr_value result of
              Inr mined \<Rightarrow> block_found so env w mined nr
            | Inl e \<Rightarrow>
                (case mr_next_nonce result of
                   None \<Rightarrow> Some (set_mining_state ''failed'' (nr\<lparr> nr_mining_active := False, nr_mining_thread := None \<rparr>))
                 | Some nonce \<Rightarrow>
                     (let candidate = with_mining_nonce (mw_candidate w) nonce;
                          nr = nr\<lparr> nr_mining_thread := Some (w\<lparr> mw_candidate := candidate \<rparr>) \<rparr>
                      in Some (if progress
                           then node_emit ''mining_progress''
                                  [(''attempts'', J_unsigned (nr_mining_attempts nr)),
                                   (''height'', J_unsigned (blk_height candidate))] nr
                           else nr)))))"

definition mining_thread_step ::
    "sodium \<Rightarrow> node_env \<Rightarrow> int \<Rightarrow> bool \<Rightarrow> bool \<Rightarrow> NodeRuntime \<Rightarrow> NodeRuntime option" where
  "mining_thread_step so env now late progress nr =
     (case nr_mining_thread nr of
        None \<Rightarrow> Some nr
      | Some w \<Rightarrow>
          (case mw_phase w of
             WP_new start_at \<Rightarrow>
               Some (nr\<lparr> nr_mining_thread := Some (w\<lparr> mw_phase :=
                 (case start_at of Some t \<Rightarrow> if now < t then WP_asleep t else WP_mining | None \<Rightarrow> WP_mining) \<rparr>) \<rparr>)
           | WP_asleep t \<Rightarrow>
               if now < t then Some nr
               else if nr_mining_cancelled nr \<and> \<not> late then Some (mining_cancel_end w nr)
               else Some (node_emit ''mining_started''
                      [(''height'', J_unsigned (blk_height (mw_candidate w))), (''batch_size'', J_unsigned 10000)]
                      (set_mining_state ''running''
                        (nr\<lparr> nr_mining_thread := Some (w\<lparr> mw_phase := WP_mining \<rparr>) \<rparr>)))
           | WP_mining \<Rightarrow> mining_batch so env late progress w nr))"

section \<open>Synchronization\<close>

definition fail_sync :: "string \<Rightarrow> NodeRuntime \<Rightarrow> NodeRuntime" where
  "fail_sync reason nr =
     node_emit ''sync_failed'' [(''reason'', J_string reason)]
       (nr\<lparr> nr_pending_sync_request := None, nr_sync_state := ''failed'' \<rparr>)"

fun encode_locator :: "(u64 \<times> bytes) list \<Rightarrow> bytes \<Rightarrow> bytes" where
  "encode_locator [] payload = payload"
| "encode_locator ((height, block_id) # rest) payload = encode_locator rest (append_u64_le payload height @ block_id)"

definition get_blocks_payload :: "u64 \<Rightarrow> (u64 \<times> bytes) list \<Rightarrow> bytes" where
  "get_blocks_payload request_id locator =
     append_u16_le (encode_locator locator (append_u16_le (append_u64_le [] request_id) (of_nat (length locator))))
       (of_nat maximum_blocks_per_sync_batch)"

definition send_sync_request :: "sodium \<Rightarrow> u64 \<Rightarrow> NodeRuntime \<Rightarrow> NodeRuntime" where
  "send_sync_request so peer_id nr =
     (if nr_chain_store nr = None \<or> nr_network nr = None then nr
      else if nr_sync_peer nr \<noteq> Some peer_id \<or> nr_pending_sync_request nr \<noteq> None \<or>
              nr_sync_state nr \<noteq> ''syncing'' \<or> nr_sync_locator_tip nr = None
      then nr
      else
        (let locator_tip = the (nr_sync_locator_tip nr);
             request_id = nr_next_sync_request nr;
             nr = nr\<lparr> nr_next_sync_request := request_id + 1, nr_pending_sync_request := Some request_id \<rparr>;
             locator = bc_block_locator so (node_blockchain nr) locator_tip maximum_block_locator_entries
         in if locator = [] then fail_sync ''locator_tip_not_stored'' nr
            else
              (let (sent, nr) = network_send peer_id MT_get_blocks (get_blocks_payload request_id locator) nr
               in if \<not> sent then fail_sync ''request_send_failed'' nr
                  else node_emit ''sync_request_sent''
                         [(''locator_count'', J_number (length locator)),
                          (''locator_height'', J_unsigned (fst (hd locator))),
                          (''peer_id'', J_unsigned peer_id), (''request_id'', J_unsigned request_id)] nr)))"

definition maybe_start_sync :: "sodium \<Rightarrow> u64 \<Rightarrow> NodeRuntime \<Rightarrow> NodeRuntime" where
  "maybe_start_sync so peer_id nr =
     (if nr_chain_store nr = None \<or> nr_network nr = None then nr
      else case find (\<lambda>value. ps_id value = peer_id \<and> ps_handshake_complete value \<and>
          ps_services value AND full_node_service \<noteq> 0) (network_peers nr) of
        None \<Rightarrow> nr
      | Some peer \<Rightarrow>
          (let local_height = blk_height (node_tip nr); local_tip = blk_id so (node_tip nr)
           in if ps_remote_height peer < local_height then nr
              else if ps_remote_height peer = local_height
              then (let same_tip = (ps_remote_tip peer = local_tip)
                    in if nr_pending_sync_request nr \<noteq> None \<or> same_tip \<and> nr_sync_state nr = ''complete'' then nr
                       else node_emit (if same_tip then ''sync_up_to_date'' else ''sync_diverged'')
                              [(''height'', J_unsigned local_height), (''peer_id'', J_unsigned peer_id),
                               (''tip'', J_hex local_tip)]
                              (nr\<lparr> nr_sync_peer := Some peer_id,
                                  nr_sync_target_height := Some (ps_remote_height peer),
                                  nr_sync_target_tip := Some (ps_remote_tip peer),
                                  nr_sync_locator_tip := Some local_tip, nr_sync_received_blocks := 0,
                                  nr_sync_state := (if same_tip then ''up_to_date'' else ''diverged'') \<rparr>))
              else if nr_pending_sync_request nr \<noteq> None \<or> nr_sync_state nr = ''syncing'' then nr
              else
                send_sync_request so peer_id
                  (node_emit ''sync_started''
                    [(''local_height'', J_unsigned local_height), (''peer_id'', J_unsigned peer_id),
                     (''target_height'', J_unsigned (ps_remote_height peer)),
                     (''target_tip'', J_hex (ps_remote_tip peer))]
                    (nr\<lparr> nr_sync_peer := Some peer_id, nr_sync_target_height := Some (ps_remote_height peer),
                        nr_sync_target_tip := Some (ps_remote_tip peer), nr_sync_locator_tip := Some local_tip,
                        nr_sync_received_blocks := 0, nr_sync_state := ''syncing'' \<rparr>))))"

text \<open>The loop over the locator of a request: the first entry on the active chain.\<close>

fun match_locator :: "sodium \<Rightarrow> Block list \<Rightarrow> bytes \<Rightarrow> nat \<Rightarrow> nat \<Rightarrow> u64 option" where
  "match_locator so blocks payload 0 offset = None"
| "match_locator so blocks payload (Suc remaining) offset =
     (let height = read_u64_le payload offset; block_id = read_array 32 payload (offset + 8)
      in if unat height < length blocks \<and> blk_id so (blocks ! unat height) = block_id then Some height
         else match_locator so blocks payload remaining (offset + block_locator_entry_size))"

definition blocks_payload :: "u64 \<Rightarrow> byte \<Rightarrow> bytes list \<Rightarrow> bytes" where
  "blocks_payload request_id response_status encoded_blocks =
     fold (\<lambda>encoded response. append_u32_le response (of_nat (length encoded)) @ encoded) encoded_blocks
       (append_u16_le (append_u64_le [] request_id @ [response_status]) (of_nat (length encoded_blocks)))"

text \<open>The answer to a request: status, blocks and the height of the match.\<close>

definition answer_get_blocks ::
    "sodium \<Rightarrow> Block list \<Rightarrow> bytes \<Rightarrow> byte \<times> bytes list \<times> u64 option" where
  "answer_get_blocks so blocks payload =
     (let locator_count = unat (read_u16_le payload 8);
          requested_count_offset = 10 + locator_count * block_locator_entry_size
      in if locator_count = 0 \<or> maximum_block_locator_entries < locator_count \<or>
            requested_count_offset + 2 \<noteq> length payload
         then (sync_status_invalid_request, [], None)
         else
           (let requested_count = unat (read_u16_le payload requested_count_offset)
            in if requested_count = 0 \<or> maximum_blocks_per_sync_batch < requested_count
               then (sync_status_invalid_request, [], None)
               else case match_locator so blocks payload locator_count 10 of
                 None \<Rightarrow> (sync_status_locator_not_found, [], None)
               | Some matched_height \<Rightarrow>
                   (let first = unat matched_height + 1; last = min (length blocks) (first + requested_count)
                    in (sync_status_ok, map (\<lambda>index. blk_serialize (blocks ! index)) [first..<last],
                        Some matched_height))))"

definition handle_get_blocks :: "sodium \<Rightarrow> u64 \<Rightarrow> bytes \<Rightarrow> NodeRuntime \<Rightarrow> NodeRuntime" where
  "handle_get_blocks so peer_id payload nr =
     (if nr_chain_store nr = None \<or> nr_network nr = None \<or> length payload < get_blocks_payload_minimum_size then nr
      else
        (let request_id = read_u64_le payload 0;
             (response_status, encoded_blocks, matched_height) =
               answer_get_blocks so (bc_blocks (node_blockchain nr)) payload;
             response = blocks_payload request_id response_status encoded_blocks;
             nr = snd (network_send peer_id MT_blocks response nr)
         in node_emit ''sync_batch_sent''
              [(''block_count'', J_number (length encoded_blocks)), (''peer_id'', J_unsigned peer_id),
               (''request_id'', J_unsigned request_id), (''status'', J_unsigned (ucast response_status)),
               (''matched_height'', json_option J_unsigned matched_height)] nr))"

text \<open>The loop that decodes the blocks of an answer: the reason of a failure, or the blocks and the end.\<close>

fun decode_blocks :: "sodium \<Rightarrow> bytes \<Rightarrow> nat \<Rightarrow> nat \<Rightarrow> string + Block list \<times> nat" where
  "decode_blocks so payload 0 offset = Inr ([], offset)"
| "decode_blocks so payload (Suc remaining) offset =
     (if length payload - offset < 4 then Inl ''truncated_block_size''
      else
        (let encoded_size = unat (read_u32_le payload offset); offset = offset + 4
         in if encoded_size < block_header_size \<or> maximum_block_size < encoded_size \<or>
               length payload - offset < encoded_size
            then Inl ''invalid_block_size''
            else case deserialize_block so (take encoded_size (drop offset payload)) of
              Inl e \<Rightarrow> Inl ''invalid_block''
            | Inr block \<Rightarrow>
                (case decode_blocks so payload remaining (offset + encoded_size) of
                   Inl e \<Rightarrow> Inl e
                 | Inr (blocks, end_offset) \<Rightarrow> Inr (block # blocks, end_offset))))"

text \<open>
  The loop over the received blocks. \<^const>\<open>Inl\<close>: the handler returned after \<open>fail_sync\<close>;
  the outer option is the one of \<open>append\<close>. Call number \<open>k\<close> of the handler's appends has the
  outcomes \<open>env k\<close>. \<open>sync_block_event\<close> is a round of the loop after \<open>state_mutex_\<close> is released,
  with the tip noted under it.
\<close>

definition sync_block_event ::
    "sodium \<Rightarrow> u64 \<Rightarrow> Block \<Rightarrow> bool \<Rightarrow> AppendResult \<Rightarrow> u64 \<times> bytes \<Rightarrow> NodeRuntime \<Rightarrow> NodeRuntime" where
  "sync_block_event so peer_id block already_stored result active_tip nr =
     (let nr = (if \<not> already_stored \<and> ar_active_chain_changed result
                then network_update_tip (fst active_tip) (snd active_tip) nr else nr);
          nr = (if \<not> already_stored \<and> ar_reorganized result
                then node_emit ''chain_reorganized''
                       [(''block_id'', J_hex (blk_id so block)), (''height'', J_unsigned (blk_height block)),
                        (''peer_id'', J_unsigned peer_id),
                        (''detached_blocks'', J_number (length (ar_detached_blocks result))),
                        (''attached_blocks'', J_number (length (ar_attached_blocks result))),
                        (''source'', J_string ''synchronization'')] nr
                else nr);
          nr = nr\<lparr> nr_sync_received_blocks := nr_sync_received_blocks nr + 1 \<rparr>
      in node_emit (if already_stored then ''sync_block_known''
             else if ar_active_chain_changed result then ''sync_block_applied'' else ''sync_block_stored'')
           [(''block_id'', J_hex (blk_id so block)), (''height'', J_unsigned (blk_height block)),
            (''peer_id'', J_unsigned peer_id),
            (''reorganized'', J_bool (\<not> already_stored \<and> ar_reorganized result))] nr)"

fun apply_blocks ::
    "sodium \<Rightarrow> (nat \<Rightarrow> node_env) \<Rightarrow> u64 \<Rightarrow> nat \<Rightarrow> Block list \<Rightarrow> NodeRuntime \<Rightarrow> (NodeRuntime + NodeRuntime) option" where
  "apply_blocks so env peer_id k [] nr = Some (Inr nr)"
| "apply_blocks so env peer_id k (block # rest) nr =
     (if bc_contains (node_blockchain nr) (blk_id so block)
      then apply_blocks so env peer_id (Suc k) rest 
             (sync_block_event so peer_id block True AppendResult_default (0, replicate 32 0) nr)
      else case append_and_update so (env k) block nr of
        None \<Rightarrow> None
      | Some (appended, active_tip, nr) \<Rightarrow>
          if \<not> ChainStoreAppendResult_has_value appended then Some (Inl (fail_sync (append_failure appended) nr))
          else apply_blocks so env peer_id (Suc k) rest
                 (sync_block_event so peer_id block False (car_chain_result appended) active_tip nr))"

text \<open>The end of \<open>handle_blocks\<close>: complete, fail, or ask for the next batch.\<close>

definition conclude_batch :: "sodium \<Rightarrow> u64 \<Rightarrow> bool \<Rightarrow> NodeRuntime \<Rightarrow> NodeRuntime" where
  "conclude_batch so peer_id empty_batch nr =
     (let local_height = blk_height (node_tip nr); local_tip = blk_id so (node_tip nr);
          (complete, invalid_tip) =
            (case (nr_sync_target_height nr, nr_sync_target_tip nr) of
               (Some target_height, Some target_tip) \<Rightarrow>
                 if local_height = target_height then (local_tip = target_tip, local_tip \<noteq> target_tip)
                 else (False, target_height < local_height)
             | _ \<Rightarrow> (False, True))
      in if complete
         then node_emit ''sync_complete''
                [(''height'', J_unsigned local_height), (''peer_id'', J_unsigned peer_id), (''tip'', J_hex local_tip)]
                (nr\<lparr> nr_sync_state := ''complete'' \<rparr>)
         else if invalid_tip then fail_sync ''unexpected_target_tip'' nr
         else if empty_batch then fail_sync ''empty_batch_before_target'' nr
         else send_sync_request so peer_id nr)"

definition handle_blocks ::
    "sodium \<Rightarrow> (nat \<Rightarrow> node_env) \<Rightarrow> u64 \<Rightarrow> bytes \<Rightarrow> NodeRuntime \<Rightarrow> NodeRuntime option" where
  "handle_blocks so env peer_id payload nr =
     (if nr_chain_store nr = None \<or> nr_network nr = None \<or> length payload < blocks_payload_minimum_size
      then Some nr
      else if nr_sync_peer nr \<noteq> Some peer_id \<or> nr_pending_sync_request nr \<noteq> Some (read_u64_le payload 0) \<or>
              nr_sync_state nr \<noteq> ''syncing''
      then Some nr
      else
        (let nr = nr\<lparr> nr_pending_sync_request := None \<rparr>;
             response_status = payload ! 8; block_count = unat (read_u16_le payload 9)
         in if response_status \<noteq> sync_status_ok
            then Some (fail_sync (if response_status = sync_status_locator_not_found then ''locator_not_found''
                   else ''invalid_request'') nr)
            else if maximum_blocks_per_sync_batch < block_count then Some (fail_sync ''invalid_block_count'' nr)
            else case decode_blocks so payload block_count blocks_payload_minimum_size of
              Inl reason \<Rightarrow> Some (fail_sync reason nr)
            | Inr (blocks, offset) \<Rightarrow>
                if offset \<noteq> length payload then Some (fail_sync ''trailing_payload_data'' nr)
                else case apply_blocks so env peer_id 0 blocks nr of
                  None \<Rightarrow> None
                | Some (Inl nr) \<Rightarrow> Some nr
                | Some (Inr nr) \<Rightarrow>
                    (let nr = (if blocks \<noteq> [] then nr\<lparr> nr_sync_locator_tip := Some (blk_id so (last blocks)) \<rparr> else nr)
                     in Some (conclude_batch so peer_id (block_count = 0) nr))))"

section \<open>Transactions\<close>

definition send_transaction_result :: "u64 \<Rightarrow> bytes \<Rightarrow> bool \<Rightarrow> u16 \<Rightarrow> NodeRuntime \<Rightarrow> NodeRuntime" where
  "send_transaction_result peer_id transaction_id accepted reason nr =
     snd (network_send peer_id MT_transaction_result (result_payload transaction_id accepted reason) nr)"

definition add_failure :: "MempoolStoreAddResult \<Rightarrow> string" where
  "add_failure added =
     (if msa_storage_error added = MS_none then mempool_error_message (msa_mempool_error added)
      else mempool_store_error_message (msa_storage_error added))"

text \<open>\<open>mempool_store_->add\<close> on the store of the node.\<close>

definition add_to_pool ::
    "sodium \<Rightarrow> node_env \<Rightarrow> SignedTransaction \<Rightarrow> NodeRuntime \<Rightarrow> MempoolStoreAddResult \<times> NodeRuntime" where
  "add_to_pool so env tx nr =
     (let (added, table, ms) = ms_add so (ne_pool_sqlite env) (nr_pool_table nr) (the (nr_mempool_store nr)) tx
      in (added, nr\<lparr> nr_pool_table := table, nr_mempool_store := Some ms \<rparr>))"

definition handle_transaction ::
    "sodium \<Rightarrow> node_env \<Rightarrow> u64 \<Rightarrow> bytes \<Rightarrow> bool \<Rightarrow> NodeRuntime \<Rightarrow> NodeRuntime" where
  "handle_transaction so env peer_id payload submission nr =
     (if nr_chain_store nr = None \<or> nr_mempool_store nr = None then nr
      else case deserialize_transaction so payload of
        Inl e \<Rightarrow>
          (let nr = (if submission then send_transaction_result peer_id (replicate 32 0) False 1 nr else nr)
           in node_emit ''transaction_rejected'' [(''reason'', J_string ''malformed_transaction'')] nr)
      | Inr value \<Rightarrow>
          (let id = tx_id so value
           in if tx_chain_id value \<noteq> node_chain_id nr
              then (let nr = (if submission then send_transaction_result peer_id id False 2 nr else nr)
                    in node_emit ''transaction_rejected''
                         [(''transaction_id'', J_hex id), (''reason'', J_string ''wrong_chain'')] nr)
              else
                (let (added, nr) = add_to_pool so env value nr
                 in if \<not> MempoolStoreAddResult_has_value added
                    then (let duplicate = (msa_storage_error added = MS_none \<and>
                                msa_mempool_error added = ME_duplicate_transaction);
                              nr = (if submission
                                    then send_transaction_result peer_id id False (if duplicate then 3 else 4) nr else nr)
                          in node_emit ''transaction_rejected''
                               [(''transaction_id'', J_hex id), (''reason'', J_string (add_failure added))] nr)
                    else
                      (let nr = (if submission then send_transaction_result peer_id id True 0 nr else nr);
                           nr = network_broadcast MT_transaction payload (Some peer_id) nr;
                           nr = node_emit ''transaction_accepted''
                                  [(''transaction_id'', J_hex id), (''peer_id'', J_unsigned peer_id)] nr
                       in node_emit ''transaction_relayed'' [(''transaction_id'', J_hex id)] nr))))"

definition handle_transaction_result :: "u64 \<Rightarrow> bytes \<Rightarrow> NodeRuntime \<Rightarrow> NodeRuntime" where
  "handle_transaction_result peer_id payload nr =
     (if length payload \<noteq> 35 \<or> 1 < payload ! 32 then nr
      else
        (let id = take 32 payload; accepted = (payload ! 32 = 1); reason = read_u16_le payload 33
         in if nr_pending_transaction_id nr \<noteq> Some id \<or> nr_pending_transaction_peer nr \<noteq> Some peer_id \<or>
               accepted \<and> reason \<noteq> 0 \<or> \<not> accepted \<and> reason = 0
            then nr
            else node_emit (if accepted then ''transaction_accepted'' else ''transaction_rejected'')
                   [(''transaction_id'', J_hex id), (''reason_code'', J_unsigned (ucast reason))]
                   (nr\<lparr> nr_transaction_state := (if accepted then ''accepted'' else ''rejected''),
                       nr_pending_transaction_peer := None \<rparr>)))"

text \<open>\<open>submit_signed_transaction\<close>: the error text, or the identifier.\<close>

definition submit_signed_transaction ::
    "sodium \<Rightarrow> node_env \<Rightarrow> SignedTransaction \<Rightarrow> NodeRuntime \<Rightarrow> (string + bytes) \<times> NodeRuntime" where
  "submit_signed_transaction so env tx nr =
     (if nr_network nr = None then (Inl ''Node has no P2P service.'', nr)
      else if tx_chain_id tx \<noteq> node_chain_id nr then (Inl ''Transaction belongs to a different network.'', nr)
      else
        (let transaction_id = tx_id so tx
         in if nr_chain_store nr \<noteq> None \<and> nr_mempool_store nr \<noteq> None
            then (let (added, nr) = add_to_pool so env tx nr
                  in if \<not> MempoolStoreAddResult_has_value added then (Inl (add_failure added), nr)
                     else
                       (let nr = nr\<lparr> nr_pending_transaction_id := Some transaction_id,
                                    nr_transaction_state := ''accepted'' \<rparr>;
                            nr = network_broadcast MT_transaction (tx_serialize tx) None nr;
                            nr = node_emit ''transaction_accepted''
                                   [(''transaction_id'', J_hex transaction_id), (''source'', J_string ''local_rpc'')] nr
                        in (Inr transaction_id,
                            node_emit ''transaction_relayed'' [(''transaction_id'', J_hex transaction_id)] nr)))
            else case find_full_node nr of
              None \<Rightarrow> (Inl ''Wallet has no connected full node.'', nr)
            | Some full_node \<Rightarrow>
                if nr_transaction_state nr = ''submitted''
                then (Inl ''Wallet already has a pending transaction submission.'', nr)
                else
                  (let nr = nr\<lparr> nr_pending_transaction_id := Some transaction_id,
                               nr_pending_transaction_peer := Some (ps_id full_node),
                               nr_transaction_state := ''submitted'' \<rparr>;
                       (sent, nr) = network_send (ps_id full_node) MT_transaction_submit (tx_serialize tx) nr
                   in if \<not> sent
                      then (Inl ''Could not send the transaction.'',
                            nr\<lparr> nr_pending_transaction_id := None, nr_pending_transaction_peer := None,
                                nr_transaction_state := ''idle'' \<rparr>)
                      else (Inr transaction_id,
                            node_emit ''transaction_submitted''
                              [(''transaction_id'', J_hex transaction_id), (''peer_id'', J_unsigned (ps_id full_node))]
                              nr))))"

definition submit_transaction ::
    "sodium \<Rightarrow> node_env \<Rightarrow> Address \<Rightarrow> u64 \<Rightarrow> u64 \<Rightarrow> u64 \<Rightarrow> NodeRuntime \<Rightarrow> (string + bytes) \<times> NodeRuntime" where
  "submit_transaction so env recipient amount fee account_nonce nr =
     (if nr_wallet nr = None \<or> nr_network nr = None then (Inl ''Actor is not a networked wallet.'', nr)
      else if find_full_node nr = None then (Inl ''Wallet has no connected full node.'', nr)
      else if nr_transaction_state nr = ''submitted''
      then (Inl ''Wallet already has a pending transaction submission.'', nr)
      else case sign_transaction so (the (nr_wallet nr))
          \<lparr> tf_recipient = recipient, tf_amount = amount, tf_fee = fee, tf_account_nonce = account_nonce,
            tf_chain_id = node_chain_id nr \<rparr> of
        Inl e \<Rightarrow> (Inl (transaction_error_message e), nr)
      | Inr tx \<Rightarrow> submit_signed_transaction so env tx nr)"

section \<open>Dispatch\<close>

definition handle_peer_message ::
    "sodium \<Rightarrow> (nat \<Rightarrow> node_env) \<Rightarrow> int \<Rightarrow> u64 \<Rightarrow> MessageType \<Rightarrow> bytes \<Rightarrow> NodeRuntime \<Rightarrow> NodeRuntime option" where
  "handle_peer_message so env now peer_id type payload nr =
     (case type of
        MT_template_request \<Rightarrow> Some (handle_template_request so peer_id payload nr)
      | MT_block_template \<Rightarrow> Some (handle_block_template so now peer_id payload nr)
      | MT_block_submit \<Rightarrow> handle_block so (env 0) peer_id payload True nr
      | MT_block \<Rightarrow> handle_block so (env 0) peer_id payload False nr
      | MT_block_result \<Rightarrow> Some (handle_block_result payload nr)
      | MT_transaction_submit \<Rightarrow> Some (handle_transaction so (env 0) peer_id payload True nr)
      | MT_transaction \<Rightarrow> Some (handle_transaction so (env 0) peer_id payload False nr)
      | MT_transaction_result \<Rightarrow> Some (handle_transaction_result peer_id payload nr)
      | MT_get_blocks \<Rightarrow> Some (handle_get_blocks so peer_id payload nr)
      | MT_blocks \<Rightarrow> handle_blocks so env peer_id payload nr
      | _ \<Rightarrow> Some nr)"

text \<open>The two callbacks that \<open>start_network\<close> gives to the network.\<close>

definition on_peer_event :: "sodium \<Rightarrow> PeerEvent \<Rightarrow> NodeRuntime \<Rightarrow> NodeRuntime" where
  "on_peer_event so event nr =
     (let nr = node_emit (pe_type event)
            [(''peer_id'', J_unsigned (pe_peer_id event)), (''endpoint'', J_string (pe_endpoint event)),
             (''detail'', J_string (pe_detail event))] nr
      in if pe_type event = ''peer_handshake_complete'' then maybe_start_sync so (pe_peer_id event) nr else nr)"

fun run_callbacks ::
    "sodium \<Rightarrow> (nat \<Rightarrow> node_env) \<Rightarrow> int \<Rightarrow> callback list \<Rightarrow> NodeRuntime \<Rightarrow> NodeRuntime option" where
  "run_callbacks so env now [] nr = Some nr"
| "run_callbacks so env now (CB_event event # rest) nr = run_callbacks so env now rest (on_peer_event so event nr)"
| "run_callbacks so env now (CB_message peer_id type payload # rest) nr =
     Option.bind (handle_peer_message so env now peer_id type payload nr) (run_callbacks so env now rest)"

section \<open>Starting and stopping\<close>

text \<open>
  \<open>initialize\<close>: the error text, or \<^const>\<open>None\<close>. \<open>seed\<close> is the randomness of a new wallet;
  \<open>env'\<close> are the outcomes of the calls that follow the first ones of the same kind.
\<close>

definition create_wallet :: "sodium \<Rightarrow> bytes \<Rightarrow> NodeRuntime \<Rightarrow> NodeRuntime" where
  "create_wallet so seed nr =
     (let config = nr_config nr
      in if rc_ephemeral_wallet config \<and> rc_has_role config AR_wallet
         then (let nr = nr\<lparr> nr_wallet := Wallet_create so seed \<rparr>
               in if rc_has_role config AR_miner
                  then nr\<lparr> nr_config := config\<lparr> rc_reward_address := map_option (Wallet_address so) (nr_wallet nr) \<rparr> \<rparr>
                  else nr)
         else nr)"

text \<open>
  The test for the block file uses \<open>is_regular_file\<close> and ignores the error for a missing file,
  which together is \<^const>\<open>fs_exists\<close>.
\<close>

definition open_stores ::
    "sodium \<Rightarrow> node_env \<Rightarrow> node_env \<Rightarrow> bool \<Rightarrow> NodeRuntime \<Rightarrow> (string option \<times> NodeRuntime) option" where
  "open_stores so env env' directory_ok nr =
     (let directory = rc_data_directory (nr_config nr);
          (chain_exists, path_error) = fs_exists (ne_io env) (dk_files (nr_disk nr)) (blocks_path directory)
      in if path_error then Some (Some ''Could not inspect actor data directory.'', nr)
         else case (if chain_exists
             then cs_open so (ne_io env) (ne_sqlite env) (nr_disk nr) directory (node_chain_id nr)
             else cs_initialize so (ne_io env) (ne_io env') (ne_sqlite env) (nr_disk nr) directory (node_chain_id nr)) of
           None \<Rightarrow> None
         | Some (Inl e, dk) \<Rightarrow>
             Some (Some (''Could not initialize actor chain store: '' @ chain_store_error_message e),
                   nr\<lparr> nr_disk := dk \<rparr>)
         | Some (Inr cs, dk) \<Rightarrow>
             (let nr = nr\<lparr> nr_disk := dk, nr_chain_store := Some cs \<rparr>;
                  (opened, table) = ms_open so directory_ok (ne_pool_sqlite env) (ne_pool_sqlite env')
                    (nr_pool_table nr) directory (bc_state (cs_blockchain cs));
                  nr = nr\<lparr> nr_pool_table := table \<rparr>
              in case opened of
                   Inl e \<Rightarrow> Some (Some (''Could not initialize actor mempool: '' @ mempool_store_error_message e), nr)
                 | Inr ms \<Rightarrow> Some (None, nr\<lparr> nr_mempool_store := Some ms \<rparr>)))"

definition node_initialize ::
    "sodium \<Rightarrow> bytes \<Rightarrow> node_env \<Rightarrow> node_env \<Rightarrow> bool \<Rightarrow> NodeRuntime \<Rightarrow> (string option \<times> NodeRuntime) option" where
  "node_initialize so seed env env' directory_ok nr =
     (let nr = create_wallet so seed nr
      in if rc_has_role (nr_config nr) AR_miner \<and> rc_reward_address (nr_config nr) = None
         then Some (Some ''Miner has no reward address.'', nr)
         else if \<not> rc_has_role (nr_config nr) AR_full_node then Some (None, nr)
         else open_stores so env env' directory_ok nr)"

text \<open>\<open>stop_network\<close>; the network thread is joined and its object destroyed.\<close>

definition stop_network :: "NodeRuntime \<Rightarrow> NodeRuntime" where
  "stop_network nr =
     (cancel_and_join (nr\<lparr> nr_runtime_stopping := True, nr_continuous_mining_enabled := False,
        nr_mining_cancelled := True \<rparr>))\<lparr> nr_network := None \<rparr>"

fun connect_initial_peers ::
    "(string \<Rightarrow> ip_address option) \<Rightarrow> NetworkEndpoint list \<Rightarrow> NodeRuntime \<Rightarrow> string option \<times> NodeRuntime" where
  "connect_initial_peers make_address [] nr = (None, nr)"
| "connect_initial_peers make_address (peer # rest) nr =
     (case connect_request make_address (the (nr_network nr)) (ep_host peer) (unat (ep_port peer)) of
        Inl error \<Rightarrow>
          (Some (''Could not add initial peer '' @ ep_host peer @ '':'' @ to_string (unat (ep_port peer)) @ '': '' @ error),
           stop_network nr)
      | Inr endpoint \<Rightarrow>
          connect_initial_peers make_address rest (nr\<lparr> nr_outputs := nr_outputs nr @ [NO_connect endpoint] \<rparr>))"

definition peer_network_config :: "sodium \<Rightarrow> NodeRuntime \<Rightarrow> PeerNetworkConfig" where
  "peer_network_config so nr =
     (let config = nr_config nr;
          genesis = genesis_block so (node_chain_id nr);
          tip = (if nr_chain_store nr \<noteq> None then node_tip nr else genesis)
      in \<lparr> pc_listen_port = rc_p2p_port config, pc_listen = rc_has_role config AR_full_node,
           pc_chain_id = node_chain_id nr,
           pc_services = (if rc_has_role config AR_full_node then full_node_service else 0) OR
             (if rc_has_role config AR_miner then mining_service else 0),
           pc_tip_height = blk_height tip, pc_tip_block_id = blk_id so tip, pc_genesis_block_id = blk_id so genesis,
           pc_listen_host = rc_p2p_host config, pc_address_scope = rc_p2p_scope config \<rparr>)"

definition start_network ::
    "sodium \<Rightarrow> (string \<Rightarrow> ip_address option) \<Rightarrow> (string \<Rightarrow> u16 \<Rightarrow> string + u16) \<Rightarrow> bytes \<Rightarrow> NodeRuntime \<Rightarrow>
       string option \<times> NodeRuntime" where
  "start_network so make_address bind_listen session_nonce nr =
     (if \<not> rc_has_role (nr_config nr) AR_full_node \<and> \<not> rc_has_role (nr_config nr) AR_miner then (None, nr)
      else
        (let config = peer_network_config so nr;
             nr = (if rc_has_role (nr_config nr) AR_miner
                   then nr\<lparr> nr_mining_known_height := pc_tip_height config, nr_mining_known_tip := pc_tip_block_id config \<rparr>
                   else nr);
             (error, net) = PeerNet_start make_address bind_listen (PeerNet_create config session_nonce);
             nr = nr\<lparr> nr_events := True, nr_network := Some net \<rparr>
         in case error of
              Some e \<Rightarrow> (Some (''Could not start P2P listener: '' @ e), nr\<lparr> nr_network := None \<rparr>)
            | None \<Rightarrow> connect_initial_peers make_address (rc_initial_peers (nr_config nr)) nr))"

definition start_configured_mining :: "NodeRuntime \<Rightarrow> string option \<times> NodeRuntime" where
  "start_configured_mining nr =
     (if \<not> rc_auto_start_mining (nr_config nr) then (None, nr)
      else case start_continuous_mining nr of
        (None, nr) \<Rightarrow> (None, nr)
      | (Some error, nr) \<Rightarrow> (Some (''Could not start configured mining: '' @ error), nr))"

section \<open>Control calls for the network\<close>

definition connect_peer ::
    "(string \<Rightarrow> ip_address option) \<Rightarrow> string \<Rightarrow> u16 \<Rightarrow> NodeRuntime \<Rightarrow> string option \<times> NodeRuntime" where
  "connect_peer make_address host port nr =
     (case nr_network nr of
        None \<Rightarrow> (Some ''Actor does not provide a P2P service.'', nr)
      | Some net \<Rightarrow>
          (case connect_request make_address net host (unat port) of
             Inl error \<Rightarrow> (Some error, nr)
           | Inr endpoint \<Rightarrow> (None, nr\<lparr> nr_outputs := nr_outputs nr @ [NO_connect endpoint] \<rparr>)))"

definition disconnect_peer ::
    "(string \<Rightarrow> ip_address option) \<Rightarrow> string \<Rightarrow> u16 \<Rightarrow> NodeRuntime \<Rightarrow> string option \<times> NodeRuntime" where
  "disconnect_peer make_address host port nr =
     (case nr_network nr of
        None \<Rightarrow> (Some ''Actor does not provide a P2P service.'', nr)
      | Some net \<Rightarrow>
          (case connect_request make_address net host (unat port) of
             Inl error \<Rightarrow> (Some error, nr)
           | Inr endpoint \<Rightarrow> (None, nr\<lparr> nr_outputs := nr_outputs nr @ [NO_disconnect endpoint] \<rparr>)))"

definition ping_peers :: "NodeRuntime \<Rightarrow> u64 option \<times> NodeRuntime" where
  "ping_peers nr =
     (case nr_network nr of
        None \<Rightarrow> (None, nr)
      | Some net \<Rightarrow>
          (let (nonce, net) = reserve_ping_nonce net
           in (Some nonce, nr\<lparr> nr_network := Some net, nr_outputs := nr_outputs nr @ [NO_ping nonce] \<rparr>)))"

section \<open>The running node\<close>

text \<open>
  What can happen next, when handlers run undisturbed: a handler of the network thread runs and
  its callbacks reach the node (none of the handlers changes the configuration, which only the
  node itself updates), the mining thread or the coordinator makes a step, or a control call
  arrives. \<open>good\<close> restricts the outcomes of system calls.
\<close>

inductive node_step :: "sodium \<Rightarrow> (node_env \<Rightarrow> bool) \<Rightarrow> NodeRuntime \<Rightarrow> NodeRuntime \<Rightarrow> bool" for so good where
  network: "nr_network nr = Some net \<Longrightarrow> peer_step so net net' \<Longrightarrow> pn_config net' = pn_config net \<Longrightarrow>
    pn_callbacks net' = pn_callbacks net @ callbacks \<Longrightarrow> (\<And>k. good (env k)) \<Longrightarrow>
    run_callbacks so env now callbacks (nr\<lparr> nr_network := Some net' \<rparr>) = Some nr' \<Longrightarrow> node_step so good nr nr'"
| mining: "nr_network nr \<noteq> None \<Longrightarrow> good env \<Longrightarrow> mining_thread_step so env now late progress nr = Some nr' \<Longrightarrow>
    node_step so good nr nr'"
| coordinator: "nr_network nr \<noteq> None \<Longrightarrow> node_step so good nr (snd (coordinator_round so now reason nr))"
| start: "node_step so good nr (snd (start_mining so now defer_work False nr))"
| begin_work: "node_step so good nr (snd (begin_mining now start_at nr))"
| continuous: "node_step so good nr (snd (start_continuous_mining nr))"
| stop: "node_step so good nr (snd (stop_mining nr))"
| submit: "Address_ok recipient \<Longrightarrow> good env \<Longrightarrow>
    node_step so good nr (snd (submit_transaction so env recipient amount fee account_nonce nr))"
| submit_signed: "tx_valid so tx \<Longrightarrow> good env \<Longrightarrow> node_step so good nr (snd (submit_signed_transaction so env tx nr))"
| connect: "node_step so good nr (snd (connect_peer make_address host port nr))"
| disconnect: "node_step so good nr (snd (disconnect_peer make_address host port nr))"
| ping: "node_step so good nr (snd (ping_peers nr))"
| shutdown: "node_step so good nr (stop_network nr)"

text \<open>
  The handlers of blocks release \<open>state_mutex_\<close> before they announce the tip, and the network
  thread and the mining thread both run them. So their sections are steps as well: the append
  under the mutex, and later, with whatever has happened in between, the rest of the handler
  with a tip that was noted then and is a stored block now (a handler that noted none does not
  use it); the rounds of a synchronization and its end; the beginning and the end of the mining
  thread's hand-over; and the launch of the mining thread with a candidate that was built
  earlier. A handler of the network may be separated from its callbacks in the same way.
\<close>

definition noted_tip :: "sodium \<Rightarrow> NodeRuntime \<Rightarrow> u64 \<times> bytes \<Rightarrow> bool" where
  "noted_tip so nr active_tip \<longleftrightarrow>
     (\<exists>b \<in> set (bc_stored_blocks (node_blockchain nr)). active_tip = (blk_height b, blk_id so b))"

inductive handler_section :: "sodium \<Rightarrow> (node_env \<Rightarrow> bool) \<Rightarrow> NodeRuntime \<Rightarrow> NodeRuntime \<Rightarrow> bool" for so good where
  appended: "nr_chain_store nr \<noteq> None \<Longrightarrow> blk_valid so block \<Longrightarrow> good env \<Longrightarrow>
    append_and_update so env block nr = Some (appended, active_tip, nr') \<Longrightarrow> handler_section so good nr nr'"
| block_finished: "nr_chain_store nr \<noteq> None \<Longrightarrow> noted_tip so nr active_tip \<Longrightarrow>
    handler_section so good nr (finish_block so peer_id block submission appended active_tip nr)"
| mining_tip: "nr_chain_store nr \<noteq> None \<Longrightarrow> noted_tip so nr (height, block_id) \<Longrightarrow>
    handler_section so good nr (nr\<lparr> nr_mining_known_height := height, nr_mining_known_tip := block_id \<rparr>)"
| announced: "nr_chain_store nr \<noteq> None \<Longrightarrow> noted_tip so nr (height, block_id) \<Longrightarrow>
    handler_section so good nr (network_update_tip height block_id nr)"
| sync_round: "nr_chain_store nr \<noteq> None \<Longrightarrow> noted_tip so nr active_tip \<Longrightarrow>
    handler_section so good nr (sync_block_event so peer_id block already_stored result active_tip nr)"
| sync_request: "handler_section so good nr (nr\<lparr> nr_pending_sync_request := None \<rparr>)"
| sync_failed: "handler_section so good nr (fail_sync reason nr)"
| sync_locator: "handler_section so good nr (nr\<lparr> nr_sync_locator_tip := Some block_id \<rparr>)"
| sync_concluded: "nr_chain_store nr \<noteq> None \<Longrightarrow> handler_section so good nr (conclude_batch so peer_id empty_batch nr)"
| found: "handler_section so good nr (report_found so mined nr)"
| handed_over: "handler_section so good nr (conclude_found so mined nr)"
| network_handler: "nr_network nr = Some net \<Longrightarrow> peer_step so net net' \<Longrightarrow> pn_config net' = pn_config net \<Longrightarrow>
    handler_section so good nr (nr\<lparr> nr_network := Some net' \<rparr>)"
| callbacks: "(\<And>k. good (env k)) \<Longrightarrow> run_callbacks so env now callbacks nr = Some nr' \<Longrightarrow> handler_section so good nr nr'"
| launched: "handler_section so good nr (launch_mining now peer_id candidate start_at nr)"

inductive node_reachable :: "sodium \<Rightarrow> (node_env \<Rightarrow> bool) \<Rightarrow> NodeRuntime \<Rightarrow> bool" for so good where
  started: "good env \<Longrightarrow> good env' \<Longrightarrow> length seed = 32 \<Longrightarrow>
    node_initialize so seed env env' directory_ok (NodeRuntime_create config dk table) = Some (None, nr) \<Longrightarrow>
    length session_nonce = 16 \<Longrightarrow>
    start_network so make_address bind_listen session_nonce nr = (None, nr') \<Longrightarrow> node_reachable so good nr'"
| step: "node_reachable so good nr \<Longrightarrow> node_step so good nr nr' \<Longrightarrow> node_reachable so good nr'"
| interleaved: "node_reachable so good nr \<Longrightarrow> handler_section so good nr nr' \<Longrightarrow> node_reachable so good nr'"

end
