(* ===== verification/BBC_Node_Inv.thy ===== *)
theory BBC_Node_Inv
  imports BBC_Node
begin

text \<open>
  The invariant of the running node: whatever the peers send and however the threads
  interleave, the chain is one that only valid blocks can build, the databases agree with the
  memory, and the network announces a stored block, which is the tip of the active chain as
  long as the handlers of blocks do not overlap.
\<close>

section \<open>The part of the state the invariant speaks of\<close>

definition node_core where
  "node_core nr = (nr_config nr, nr_wallet nr, nr_chain_store nr, nr_mempool_store nr, nr_disk nr,
     nr_pool_table nr, map_option pn_config (nr_network nr))"

lemma node_core_update [simp]:
  "node_core (nr_events_update f1 nr) = node_core nr"
  "node_core (nr_mining_thread_update f2 nr) = node_core nr"
  "node_core (nr_mining_cancelled_update f1 nr) = node_core nr"
  "node_core (nr_mining_active_update f1 nr) = node_core nr"
  "node_core (nr_continuous_mining_enabled_update f1 nr) = node_core nr"
  "node_core (nr_runtime_stopping_update f1 nr) = node_core nr"
  "node_core (nr_mining_attempts_update f3 nr) = node_core nr"
  "node_core (nr_mining_state_update f4 nr) = node_core nr"
  "node_core (nr_next_template_request_update f3 nr) = node_core nr"
  "node_core (nr_mining_source_peer_update f5 nr) = node_core nr"
  "node_core (nr_pending_template_request_update f5 nr) = node_core nr"
  "node_core (nr_mining_parent_update f6 nr) = node_core nr"
  "node_core (nr_mining_height_update f5 nr) = node_core nr"
  "node_core (nr_found_block_id_update f6 nr) = node_core nr"
  "node_core (nr_mining_known_height_update f3 nr) = node_core nr"
  "node_core (nr_mining_known_tip_update f7 nr) = node_core nr"
  "node_core (nr_defer_mining_start_update f1 nr) = node_core nr"
  "node_core (nr_prepared_mining_candidate_update f8 nr) = node_core nr"
  "node_core (nr_prepared_mining_peer_update f5 nr) = node_core nr"
  "node_core (nr_pending_transaction_id_update f6 nr) = node_core nr"
  "node_core (nr_pending_transaction_peer_update f5 nr) = node_core nr"
  "node_core (nr_transaction_state_update f4 nr) = node_core nr"
  "node_core (nr_sync_state_update f4 nr) = node_core nr"
  "node_core (nr_next_sync_request_update f3 nr) = node_core nr"
  "node_core (nr_sync_peer_update f5 nr) = node_core nr"
  "node_core (nr_pending_sync_request_update f5 nr) = node_core nr"
  "node_core (nr_sync_target_height_update f5 nr) = node_core nr"
  "node_core (nr_sync_target_tip_update f6 nr) = node_core nr"
  "node_core (nr_sync_locator_tip_update f6 nr) = node_core nr"
  "node_core (nr_sync_received_blocks_update f3 nr) = node_core nr"
  "node_core (nr_outputs_update f9 nr) = node_core nr"
  by (simp_all add: node_core_def)

lemma node_core_basic [simp]:
  "node_core (node_emit type details nr) = node_core nr"
  "node_core (snd (network_send peer type' payload nr)) = node_core nr"
  "node_core (network_broadcast type' payload excluded nr) = node_core nr"
  "node_core (set_mining_state state nr) = node_core nr"
  by (simp_all add: node_emit_def network_send_def network_broadcast_def set_mining_state_def)

lemma node_core_mining [simp]:
  "node_core (mining_cancel_end w nr) = node_core nr"
  "node_core (cancel_and_join nr) = node_core nr"
  "node_core (launch_mining now peer block start_at nr) = node_core nr"
  by (simp_all add: mining_cancel_end_def cancel_and_join_def launch_mining_def Let_def split: option.split)

lemma node_core_found [simp]:
  "node_core (report_found so mined nr) = node_core nr"
  "node_core (conclude_found so mined nr) = node_core nr"
  by (simp_all add: report_found_def conclude_found_def Let_def)

lemma node_core_results [simp]:
  "node_core (send_block_result peer i accepted reason nr) = node_core nr"
  "node_core (send_transaction_result peer i accepted reason nr) = node_core nr"
  "node_core (handle_block_light so block nr) = node_core nr"
  "node_core (handle_block_result payload nr) = node_core nr"
  "node_core (handle_transaction_result peer payload nr) = node_core nr"
  by (simp_all add: send_block_result_def send_transaction_result_def handle_block_light_def
      handle_block_result_def handle_transaction_result_def Let_def split: option.split)

lemma node_core_relay [simp]: "node_core (relay_restored so txs nr) = node_core nr"
  by (induction so txs nr rule: relay_restored.induct) simp_all

lemma node_core_start_mining [simp]: "node_core (snd (start_mining so now defer cont nr)) = node_core nr"
  by (auto simp: start_mining_def network_send_def Let_def split: sum.split option.split)

lemma node_core_control [simp]:
  "node_core (snd (start_continuous_mining nr)) = node_core nr"
  "node_core (snd (stop_mining nr)) = node_core nr"
  "node_core (snd (begin_mining now start_at nr)) = node_core nr"
  "node_core (snd (connect_peer make_address host port nr)) = node_core nr"
  "node_core (snd (disconnect_peer make_address host port nr)) = node_core nr"
  by (auto simp: start_continuous_mining_def stop_mining_def begin_mining_def connect_peer_def
      disconnect_peer_def Let_def split: option.split prod.split sum.split)

lemma node_core_coordinator [simp]: "node_core (snd (coordinator_round so now reason nr)) = node_core nr"
proof -
  obtain e nr' where "start_mining so now False True nr = (e, nr')" by (rule prod.exhaust)
  then show ?thesis
    using node_core_start_mining [of so now False True nr] by (simp add: coordinator_round_def split: option.split)
qed

lemma node_core_ping [simp]: "node_core (snd (ping_peers nr)) = node_core nr"
  by (simp add: ping_peers_def reserve_ping_nonce_def node_core_def split: option.split)

lemma node_core_template [simp]:
  "node_core (handle_template_request so peer payload nr) = node_core nr"
  "node_core (handle_block_template so now peer payload nr) = node_core nr"
  by (simp_all add: handle_template_request_def handle_block_template_def Let_def split: sum.split prod.split)

lemma node_core_sync [simp]:
  "node_core (fail_sync reason nr) = node_core nr"
  "node_core (send_sync_request so peer nr) = node_core nr"
  "node_core (handle_get_blocks so peer payload nr) = node_core nr"
  by (simp_all add: fail_sync_def send_sync_request_def network_send_def handle_get_blocks_def Let_def
      split: prod.split)

lemma node_core_conclude [simp]:
  "node_core (maybe_start_sync so peer nr) = node_core nr"
  "node_core (conclude_batch so peer e nr) = node_core nr"
  "node_core (on_peer_event so event nr) = node_core nr"
  by (simp_all add: maybe_start_sync_def conclude_batch_def on_peer_event_def Let_def split: option.split)

section \<open>The invariant\<close>

definition files_undone :: "(node_env \<Rightarrow> bool) \<Rightarrow> bool" where
  "files_undone good \<longleftrightarrow> (\<forall>e. good e \<longrightarrow> io_remove_ok (ne_io e))"

definition pool_written :: "(node_env \<Rightarrow> bool) \<Rightarrow> bool" where
  "pool_written good \<longleftrightarrow> (\<forall>e. good e \<longrightarrow> ne_pool_sqlite e = pool_sqlite_ok)"

definition node_base :: "sodium \<Rightarrow> (node_env \<Rightarrow> bool) \<Rightarrow> NodeRuntime \<Rightarrow> bool" where
  "node_base so good nr \<longleftrightarrow>
     (\<forall>cs. nr_chain_store nr = Some cs \<longrightarrow>
        bc_reachable so (node_chain_id nr) (cs_blockchain cs) \<and>
        (files_undone good \<longrightarrow> store_ok so (node_chain_id nr) (nr_disk nr) cs) \<and>
        (\<forall>ms. nr_mempool_store nr = Some ms \<and> pool_written good \<longrightarrow>
           mp_chain_state (ms_mempool ms) = bc_state (cs_blockchain cs))) \<and>
     (\<forall>ms. nr_mempool_store nr = Some ms \<longrightarrow>
        nr_chain_store nr \<noteq> None \<and> ms_ok so (nr_pool_table nr) ms) \<and>
     (\<forall>w. nr_wallet nr = Some w \<longrightarrow> Wallet_ok so w)"

text \<open>
  The announced tip: a stored block, or with \<open>exact\<close> the tip of the active chain. The second is
  what handlers that run undisturbed keep, the first what holds under every interleaving.
\<close>

definition tip_of :: "bool \<Rightarrow> Blockchain \<Rightarrow> Block set" where
  "tip_of exact bc = (if exact then {bc_tip bc} else set (bc_stored_blocks bc))"

definition tip_ok :: "sodium \<Rightarrow> bool \<Rightarrow> NodeRuntime \<Rightarrow> bool" where
  "tip_ok so exact nr \<longleftrightarrow>
     (\<forall>cs net. nr_chain_store nr = Some cs \<and> nr_network nr = Some net \<longrightarrow>
        (\<exists>b \<in> tip_of exact (cs_blockchain cs).
           pc_tip_height (pn_config net) = blk_height b \<and> pc_tip_block_id (pn_config net) = blk_id so b))"

definition node_inv :: "sodium \<Rightarrow> (node_env \<Rightarrow> bool) \<Rightarrow> bool \<Rightarrow> NodeRuntime \<Rightarrow> bool" where
  "node_inv so good exact nr \<longleftrightarrow> node_base so good nr \<and> tip_ok so exact nr"

abbreviation node_ok :: "sodium \<Rightarrow> (node_env \<Rightarrow> bool) \<Rightarrow> NodeRuntime \<Rightarrow> bool" where
  "node_ok so good \<equiv> node_inv so good False"

lemma node_core_eqs:
  assumes "node_core nr = node_core nr'"
  shows "nr_config nr = nr_config nr'" "nr_wallet nr = nr_wallet nr'" "nr_chain_store nr = nr_chain_store nr'"
    "nr_mempool_store nr = nr_mempool_store nr'" "nr_disk nr = nr_disk nr'"
    "nr_pool_table nr = nr_pool_table nr'" "map_option pn_config (nr_network nr) = map_option pn_config (nr_network nr')"
  using assms by (simp_all add: node_core_def)

lemma node_ok_core:
  assumes "node_core nr = node_core nr'"
  shows "node_base so good nr = node_base so good nr'" "tip_ok so x nr = tip_ok so x nr'"
    "node_inv so good x nr = node_inv so good x nr'" "node_chain_id nr = node_chain_id nr'"
    "node_blockchain nr = node_blockchain nr'"
proof -
  note eqs = node_core_eqs [OF assms]
  show c: "node_chain_id nr = node_chain_id nr'" using eqs by (simp add: node_chain_id_def)
  show "node_blockchain nr = node_blockchain nr'" using eqs by (simp add: node_blockchain_def)
  show b: "node_base so good nr = node_base so good nr'" using eqs c by (simp add: node_base_def)
  show t: "tip_ok so x nr = tip_ok so x nr'"
    using eqs(3,7) by (cases "nr_network nr"; cases "nr_network nr'") (auto simp: tip_ok_def)
  show "node_inv so good x nr = node_inv so good x nr'" using b t by (simp add: node_inv_def)
qed

text \<open>The chain of a node only grows: no stored block is lost and the active tip never gets lower.\<close>

definition chain_extends :: "Blockchain \<Rightarrow> Blockchain \<Rightarrow> bool" where
  "chain_extends bc bc' \<longleftrightarrow>
     prefix (bc_stored_blocks bc) (bc_stored_blocks bc') \<and> blk_height (bc_tip bc) \<le> blk_height (bc_tip bc')"

definition chain_grows :: "NodeRuntime \<Rightarrow> NodeRuntime \<Rightarrow> bool" where
  "chain_grows nr nr' \<longleftrightarrow>
     (\<forall>cs. nr_chain_store nr = Some cs \<longrightarrow>
        (\<exists>cs'. nr_chain_store nr' = Some cs' \<and> chain_extends (cs_blockchain cs) (cs_blockchain cs')))"

lemma chain_grows_same: "nr_chain_store nr' = nr_chain_store nr \<Longrightarrow> chain_grows nr nr'"
  by (simp add: chain_grows_def chain_extends_def)

lemma chain_grows_core: "node_core nr' = node_core nr \<Longrightarrow> chain_grows nr nr'"
  by (rule chain_grows_same) (simp add: node_core_def)

lemma chain_extends_trans: "chain_extends bc bc' \<Longrightarrow> chain_extends bc' bc'' \<Longrightarrow> chain_extends bc bc''"
  by (auto simp: chain_extends_def)

lemma chain_grows_trans: "chain_grows nr nr' \<Longrightarrow> chain_grows nr' nr'' \<Longrightarrow> chain_grows nr nr''"
  unfolding chain_grows_def using chain_extends_trans by blast

lemma bc_append_extends:
  assumes "bc_inv so c bc" and "blk_valid so b" and "bc_append so bc b = Some (r, bc')"
  shows "chain_extends bc bc'"
proof (cases "\<exists>p st. append_checks so bc b p st")
  case True
  then obtain p st where "append_checks so bc b p st" by blast
  then have "accepted_as bc b p r bc'" using bc_append_outcome [OF assms(1,2)] assms(3) by (metis option.inject prod.inject)
  then show ?thesis by (auto simp: accepted_as_def chain_extends_def bc_tip_def split: if_splits)
next
  case False
  then have "bc' = bc" using bc_append_rejected [of so bc b] assms by (metis option.inject prod.inject)
  then show ?thesis by (simp add: chain_extends_def)
qed

section \<open>Appending a block\<close>

lemma cs_append_outcome:
  assumes "bc_append so (cs_blockchain cs) b = Some (a, bc')"
  obtains (kept) r dk' where "cs_append so io sq dk cs b = Some (r, dk', cs)" "\<not> ChainStoreAppendResult_has_value r"
  | (stored) dk' cs' where
      "cs_append so io sq dk cs b = Some (\<lparr> car_storage_error = KE_none, car_chain_result = a \<rparr>, dk', cs')"
      "ar_error a = CE_none" "cs_blockchain cs' = bc'"
proof (cases "ar_error a = CE_none")
  case False
  then show thesis
    using assms kept [of "\<lparr> car_storage_error = KE_none, car_chain_result = a \<rparr>" dk]
    by (simp add: cs_append_def ChainStoreAppendResult_has_value_def Let_def)
next
  case True
  have "case cs_append so io sq dk cs b of None \<Rightarrow> False | Some (r, dk', cs') \<Rightarrow>
      car_storage_error r \<noteq> KE_none \<and> cs' = cs \<or>
      r = \<lparr> car_storage_error = KE_none, car_chain_result = a \<rparr> \<and> cs_blockchain cs' = bc'"
    using assms True by (auto simp: cs_append_def Let_def split: option.split prod.split)
  then obtain r dk' cs' where eq: "cs_append so io sq dk cs b = Some (r, dk', cs')"
    and alt: "car_storage_error r \<noteq> KE_none \<and> cs' = cs \<or>
      r = \<lparr> car_storage_error = KE_none, car_chain_result = a \<rparr> \<and> cs_blockchain cs' = bc'"
    by (auto split: option.splits prod.splits)
  from alt show thesis
    using eq True kept stored by (elim disjE) (auto simp: ChainStoreAppendResult_has_value_def)
qed

lemma bc_reachable_state_ok: "bc_reachable so c bc \<Longrightarrow> std_map_ok (bc_state bc)"
  using valid_chain_supply [OF bc_blocks_valid] bc_state_replay bc_reachable_inv by metis

lemma bc_blocks_blk_valid:
  assumes "bc_reachable so c bc" and "b \<in> set (bc_blocks bc)"
  shows "blk_valid so b"
proof -
  have inv: "bc_inv so c bc" using assms(1) by (rule bc_reachable_inv)
  from assms(2) obtain i where "i \<in> set (bc_active_indices bc)" "b = bc_stored_blocks bc ! i"
    by (auto simp: bc_invD(6) [OF inv])
  then show ?thesis using blk_valid_stored [OF bc_invD(1) [OF inv] active_indices_bound [OF inv]] by simp
qed

lemma update_mempool_base:
  fixes so env a nr
  assumes ms: "\<And>ms. nr_mempool_store nr = Some ms \<Longrightarrow> ms_ok so (nr_pool_table nr) ms"
    and st: "std_map_ok (bc_state (node_blockchain nr))"
    and bs: "list_all (tx_valid so) (concat (map blk_transactions (ar_detached_blocks a)))"
  defines "nr' \<equiv> update_mempool_after_chain_change so env a nr"
  shows "nr_config nr' = nr_config nr" "nr_wallet nr' = nr_wallet nr" "nr_chain_store nr' = nr_chain_store nr"
    "nr_disk nr' = nr_disk nr" "map_option pn_config (nr_network nr') = map_option pn_config (nr_network nr)"
    "nr_mempool_store nr' = None \<longleftrightarrow> nr_mempool_store nr = None"
    "nr_mempool_store nr' = Some ms' \<Longrightarrow> ms_ok so (nr_pool_table nr') ms' \<and>
      (ne_pool_sqlite env = pool_sqlite_ok \<longrightarrow> mp_chain_state (ms_mempool ms') = bc_state (node_blockchain nr))"
proof -
  have "nr_config nr' = nr_config nr \<and> nr_wallet nr' = nr_wallet nr \<and> nr_chain_store nr' = nr_chain_store nr \<and>
    nr_disk nr' = nr_disk nr \<and> map_option pn_config (nr_network nr') = map_option pn_config (nr_network nr) \<and>
    (nr_mempool_store nr' = None \<longleftrightarrow> nr_mempool_store nr = None) \<and>
    (\<forall>ms'. nr_mempool_store nr' = Some ms' \<longrightarrow> ms_ok so (nr_pool_table nr') ms' \<and>
      (ne_pool_sqlite env = pool_sqlite_ok \<longrightarrow> mp_chain_state (ms_mempool ms') = bc_state (node_blockchain nr)))"
  proof (cases "nr_mempool_store nr")
    case None
    then show ?thesis by (simp add: nr'_def update_mempool_after_chain_change_def)
  next
    case (Some pool)
    obtain r table pool' where rec: "ms_reconcile_reorganization so (ne_pool_sqlite env) (nr_pool_table nr) pool
        (bc_state (node_blockchain nr)) (ar_detached_blocks a) = (r, table, pool')" by (metis prod_cases3)
    have ok: "ms_ok so table pool'" using ms_reconcile_ok [OF ms [OF Some] st bs rec] .
    have core: "node_core nr' = node_core (nr\<lparr> nr_pool_table := table, nr_mempool_store := Some pool' \<rparr>)"
      by (simp add: nr'_def update_mempool_after_chain_change_def Some rec Let_def)
    have txs: "list_all (tx_valid so) (concat (map blk_transactions (ar_detached_blocks a)) @
        mp_transactions (ms_mempool pool))"
      using bs ms [OF Some] mp_invD(3) by (simp add: ms_ok_def)
    have "mp_chain_state (ms_mempool pool') = bc_state (node_blockchain nr)" if "ne_pool_sqlite env = pool_sqlite_ok"
    proof -
      have "msr_error r = MS_none"
        using ms_reconcile_no_error [OF ms [OF Some] st bs] rec that by simp
      then show ?thesis
        using ms_reconcile_result [OF rec] offer_inv(2) [OF st txs] by auto
    qed
    then show ?thesis using node_core_eqs [OF core] ok Some by auto
  qed
  then show "nr_config nr' = nr_config nr" "nr_wallet nr' = nr_wallet nr" "nr_chain_store nr' = nr_chain_store nr"
    "nr_disk nr' = nr_disk nr" "map_option pn_config (nr_network nr') = map_option pn_config (nr_network nr)"
    "nr_mempool_store nr' = None \<longleftrightarrow> nr_mempool_store nr = None"
    "nr_mempool_store nr' = Some ms' \<Longrightarrow> ms_ok so (nr_pool_table nr') ms' \<and>
      (ne_pool_sqlite env = pool_sqlite_ok \<longrightarrow> mp_chain_state (ms_mempool ms') = bc_state (node_blockchain nr))"
    by blast+
qed

lemma bc_append_unchanged:
  assumes "bc_append so bc b = Some (r, bc')" and "\<not> ar_active_chain_changed r"
  shows "bc_blocks bc' = bc_blocks bc" "bc_state bc' = bc_state bc"
  using assms by (auto simp: bc_append_def activate_def Let_def split: if_splits option.splits prod.splits)

text \<open>
  Appending a block returns, keeps everything but the advertised tip, and leaves the tip alone
  unless it reports a change.
\<close>

lemma append_and_update_base:
  assumes base: "node_base so good nr" and cs: "nr_chain_store nr = Some cs" and v: "blk_valid so b" and env: "good env"
  obtains r tip nr' where "append_and_update so env b nr = Some (r, tip, nr')" "node_base so good nr'"
    "nr_config nr' = nr_config nr" "nr_chain_store nr' \<noteq> None"
    "map_option pn_config (nr_network nr') = map_option pn_config (nr_network nr)"
    "if ChainStoreAppendResult_has_value r \<and> ar_active_chain_changed (car_chain_result r)
     then tip = (blk_height (node_tip nr'), blk_id so (node_tip nr'))
     else bc_tip (node_blockchain nr') = bc_tip (cs_blockchain cs)"
    "chain_grows nr nr'"
proof -
  let ?c = "node_chain_id nr"
  have reach: "bc_reachable so ?c (cs_blockchain cs)" using base cs by (simp add: node_base_def)
  then have inv: "bc_inv so ?c (cs_blockchain cs)" by (rule bc_reachable_inv)
  obtain a bc' where app: "bc_append so (cs_blockchain cs) b = Some (a, bc')"
    and diff: "chain_diff (bc_blocks (cs_blockchain cs)) a (bc_blocks bc')"
    using bc_append_total [OF inv v] by metis
  have reach': "bc_reachable so ?c bc'" using bc_reachable.append [OF reach v app] .
  note ext = bc_append_extends [OF inv v app]
  have files: "store_ok so ?c dk' cs'"
    if "files_undone good" "cs_append so (ne_io env) (ne_sqlite env) (nr_disk nr) cs b = Some (r, dk', cs')" for r dk' cs'
    using that base cs env cs_append_store_ok [OF _ v, of ?c "nr_disk nr" cs "ne_io env"]
    by (auto simp: node_base_def files_undone_def)
  show thesis
    using app
  proof (cases rule: cs_append_outcome [where io = "ne_io env" and sq = "ne_sqlite env" and dk = "nr_disk nr"])
    case (kept r dk')
    have "node_base so good (nr\<lparr> nr_disk := dk' \<rparr>)"
      using base cs files [OF _ kept(1)] by (simp add: node_base_def node_chain_id_def)
    moreover have "append_and_update so env b nr = Some (r, (0, replicate 32 0), nr\<lparr> nr_disk := dk', nr_chain_store := Some cs \<rparr>)"
      using kept cs by (simp add: append_and_update_def)
    moreover have "nr\<lparr> nr_disk := dk', nr_chain_store := Some cs \<rparr> = nr\<lparr> nr_disk := dk' \<rparr>" using cs by simp
    ultimately show thesis
      using cs by (intro that [of r "(0, replicate 32 0)" "nr\<lparr> nr_disk := dk' \<rparr>"])
        (simp_all add: kept(2) node_blockchain_def chain_grows_same)
  next
    case (stored dk' cs')
    define nr1 where "nr1 = nr\<lparr> nr_disk := dk', nr_chain_store := Some cs' \<rparr>"
    let ?r = "\<lparr> car_storage_error = KE_none, car_chain_result = a \<rparr>"
    have hv: "ChainStoreAppendResult_has_value ?r" using stored by (simp add: ChainStoreAppendResult_has_value_def)
    have eq: "append_and_update so env b nr = (if ar_active_chain_changed a
        then (let nr2 = update_mempool_after_chain_change so env a nr1
              in Some (?r, (blk_height (node_tip nr2), blk_id so (node_tip nr2)), nr2))
        else Some (?r, (0, replicate 32 0), nr1))"
      using stored(1) cs hv by (simp add: append_and_update_def nr1_def)
    have chain: "node_blockchain nr1 = bc'" "node_chain_id nr1 = ?c"
      using stored(3) by (simp_all add: nr1_def node_blockchain_def node_chain_id_def)
    have grows: "chain_grows nr nr1" using ext cs stored(3) by (simp add: chain_grows_def nr1_def)
    show thesis
    proof (cases "ar_active_chain_changed a")
      case False
      note same = bc_append_unchanged [OF app False]
      then have "node_base so good nr1"
        using base cs stored(3) reach' files [OF _ stored(1)] by (simp add: node_base_def node_chain_id_def nr1_def)
      then show thesis
        using False eq same chain grows by (intro that [of ?r "(0, replicate 32 0)" nr1]) (simp_all add: nr1_def bc_tip_def)
    next
      case True
      have "set (ar_detached_blocks a) \<subseteq> set (bc_blocks (cs_blockchain cs))"
        using diff by (auto simp: chain_diff_def)
      then have bs: "list_all (tx_valid so) (concat (map blk_transactions (ar_detached_blocks a)))"
        using bc_blocks_blk_valid [OF reach] blk_valid_transactions by (fastforce simp: list_all_iff)
      define nr2 where "nr2 = update_mempool_after_chain_change so env a nr1"
      have ms: "ms_ok so (nr_pool_table nr1) ms" if "nr_mempool_store nr1 = Some ms" for ms
        using that base by (simp add: node_base_def nr1_def)
      have st: "std_map_ok (bc_state (node_blockchain nr1))" using bc_reachable_state_ok [OF reach'] by (simp add: chain)
      note u = update_mempool_base [of nr1 so a env, OF ms st bs, folded nr2_def]
      have "node_base so good nr2"
        unfolding node_base_def
      proof (intro conjI allI impI)
        fix cs2
        assume "nr_chain_store nr2 = Some cs2"
        then have c2: "cs2 = cs'" using u(3) by (simp add: nr1_def)
        have id2: "node_chain_id nr2 = ?c" using u(1) by (simp add: nr1_def node_chain_id_def)
        show "bc_reachable so (node_chain_id nr2) (cs_blockchain cs2)" using reach' stored(3) by (simp add: c2 id2)
        show "store_ok so (node_chain_id nr2) (nr_disk nr2) cs2" if "files_undone good"
          using files [OF that stored(1)] u(4) by (simp add: c2 id2 nr1_def)
        show "mp_chain_state (ms_mempool ms) = bc_state (cs_blockchain cs2)"
          if "nr_mempool_store nr2 = Some ms \<and> pool_written good" for ms
          using u(7) that env by (simp add: c2 pool_written_def chain stored(3))
      next
        fix ms
        assume "nr_mempool_store nr2 = Some ms"
        then show "ms_ok so (nr_pool_table nr2) ms" using u(7) by blast
        show "nr_chain_store nr2 \<noteq> None" using u(3) by (simp add: nr1_def)
      next
        fix w
        assume "nr_wallet nr2 = Some w"
        then show "Wallet_ok so w" using base u(2) by (simp add: node_base_def nr1_def)
      qed
      moreover have "append_and_update so env b nr = Some (?r, (blk_height (node_tip nr2), blk_id so (node_tip nr2)), nr2)"
        using eq True by (simp add: nr2_def Let_def)
      moreover have "chain_grows nr nr2" using grows u(3) by (simp add: chain_grows_def)
      ultimately show thesis using True u hv by (intro that [of ?r "(blk_height (node_tip nr2), blk_id so (node_tip nr2))" nr2]) (simp_all add: nr1_def)
    qed
  qed
qed

section \<open>The handlers keep the invariant\<close>

lemma node_base_update_tip [simp]: "node_base so good (network_update_tip h i nr) = node_base so good nr"
  by (simp add: node_base_def network_update_tip_def node_chain_id_def)

text \<open>A tip noted under the mutex may be announced.\<close>

definition may_announce :: "sodium \<Rightarrow> bool \<Rightarrow> NodeRuntime \<Rightarrow> u64 \<times> bytes \<Rightarrow> bool" where
  "may_announce so exact nr tip \<longleftrightarrow> (\<exists>b \<in> tip_of exact (node_blockchain nr). tip = (blk_height b, blk_id so b))"

lemma may_announce_noted: "may_announce so False nr tip = noted_tip so nr tip"
  by (simp add: may_announce_def noted_tip_def tip_of_def)

lemma tip_ok_update_tip:
  assumes "may_announce so x nr tip"
  shows "tip_ok so x (network_update_tip (fst tip) (snd tip) nr)"
  using assms by (auto simp: tip_ok_def may_announce_def network_update_tip_def node_blockchain_def update_tip_def)

lemma bc_tip_stored:
  assumes "bc_reachable so c bc"
  shows "bc_tip bc \<in> set (bc_stored_blocks bc)"
  using bc_reachable_inv [OF assms] bc_invD(3) bc_tip_eq by fastforce

lemma network_update_tip_core:
  "node_core nr = node_core nr' \<Longrightarrow> node_core (network_update_tip h i nr) = node_core (network_update_tip h i nr')"
  by (cases "nr_network nr"; cases "nr_network nr'") (auto simp: node_core_def network_update_tip_def update_tip_def)

lemma finish_block_ok:
  assumes base: "node_base so good nr"
    and tip: "if ChainStoreAppendResult_has_value r \<and> ar_active_chain_changed (car_chain_result r)
      then may_announce so x nr tip else tip_ok so x nr"
  shows "node_inv so good x (finish_block so peer b submission r tip nr)"
proof (cases "ChainStoreAppendResult_has_value r \<and> ar_active_chain_changed (car_chain_result r)")
  case False
  then have "node_core (finish_block so peer b submission r tip nr) = node_core nr"
    by (auto simp: finish_block_def Let_def)
  then show ?thesis using node_ok_core(3) base tip False by (metis node_inv_def)
next
  case True
  define nr1 where "nr1 = (if rc_has_role (nr_config nr) AR_miner
    then (if nr_mining_active nr then nr\<lparr> nr_mining_cancelled := True \<rparr> else nr)
      \<lparr> nr_mining_known_height := fst tip, nr_mining_known_tip := snd tip \<rparr> else nr)"
  have core: "node_core nr1 = node_core nr" by (simp add: nr1_def)
  have "node_core (finish_block so peer b submission r tip nr) = node_core (network_update_tip (fst tip) (snd tip) nr1)"
    using True by (simp add: finish_block_def nr1_def Let_def split_beta)
  also have "\<dots> = node_core (network_update_tip (fst tip) (snd tip) nr)"
    using core by (rule network_update_tip_core)
  finally show ?thesis
    using node_ok_core(3) tip_ok_update_tip [of so x nr tip] base tip True by (metis node_base_update_tip node_inv_def)
qed

lemma finish_block_store [simp]: "nr_chain_store (finish_block so peer b submission r tip nr) = nr_chain_store nr"
  by (cases tip) (simp add: finish_block_def node_emit_def send_block_result_def network_send_def network_broadcast_def
      network_update_tip_def Let_def)

lemma tip_ok_grows:
  assumes "tip_ok so x nr" and "chain_grows nr nr'" and "nr_chain_store nr = Some cs"
    and "map_option pn_config (nr_network nr') = map_option pn_config (nr_network nr)"
    and "x \<Longrightarrow> bc_tip (node_blockchain nr') = bc_tip (cs_blockchain cs)"
  shows "tip_ok so x nr'"
proof -
  obtain cs' where cs': "nr_chain_store nr' = Some cs'" "chain_extends (cs_blockchain cs) (cs_blockchain cs')"
    using assms(2,3) by (auto simp: chain_grows_def)
  have "tip_of x (cs_blockchain cs) \<subseteq> tip_of x (cs_blockchain cs')"
    using cs' assms(5) by (auto simp: tip_of_def chain_extends_def node_blockchain_def dest: set_mono_prefix)
  moreover have "\<exists>b \<in> tip_of x (cs_blockchain cs). pc_tip_height (pn_config net') = blk_height b \<and>
      pc_tip_block_id (pn_config net') = blk_id so b" if "nr_network nr' = Some net'" for net'
    using that assms(1,3,4) by (cases "nr_network nr") (auto simp: tip_ok_def)
  ultimately show ?thesis using cs'(1) by (fastforce simp: tip_ok_def)
qed

text \<open>What the rest of a handler finds when it runs right after the append.\<close>

lemma append_then:
  assumes ok: "node_inv so good x nr" and cs: "nr_chain_store nr = Some cs" and v: "blk_valid so b" and env: "good env"
  obtains r tip nr' where "append_and_update so env b nr = Some (r, tip, nr')" "node_base so good nr'"
    "nr_chain_store nr' \<noteq> None" "chain_grows nr nr'"
    "if ChainStoreAppendResult_has_value r \<and> ar_active_chain_changed (car_chain_result r)
     then may_announce so x nr' tip else tip_ok so x nr'"
proof -
  have base: "node_base so good nr" and tip: "tip_ok so x nr" using ok by (simp_all add: node_inv_def)
  obtain r t nr' where step: "append_and_update so env b nr = Some (r, t, nr')" "node_base so good nr'"
    "nr_chain_store nr' \<noteq> None" "map_option pn_config (nr_network nr') = map_option pn_config (nr_network nr)"
    "if ChainStoreAppendResult_has_value r \<and> ar_active_chain_changed (car_chain_result r)
     then t = (blk_height (node_tip nr'), blk_id so (node_tip nr'))
     else bc_tip (node_blockchain nr') = bc_tip (cs_blockchain cs)" "chain_grows nr nr'"
    by (rule append_and_update_base [OF base cs v env])
  have "node_tip nr' \<in> tip_of x (node_blockchain nr')"
    using step(2,3) bc_tip_stored by (auto simp: tip_of_def node_base_def node_blockchain_def)
  then have "if ChainStoreAppendResult_has_value r \<and> ar_active_chain_changed (car_chain_result r)
     then may_announce so x nr' t else tip_ok so x nr'"
    using step(5) tip_ok_grows [OF tip step(6) cs step(4)] by (auto simp: may_announce_def split: if_splits)
  then show thesis using that step by blast
qed

lemma handle_block_ok:
  assumes ok: "node_inv so good x nr" and env: "good env"
  obtains nr' where "handle_block so env peer payload submission nr = Some nr'" "node_inv so good x nr'" "chain_grows nr nr'"
proof (cases "deserialize_block so payload")
  case (Inl e)
  let ?nr = "if submission then send_block_result peer (replicate 32 0) False 2 nr else nr"
  have "node_core ?nr = node_core nr" by simp
  then have "node_inv so good x ?nr" "chain_grows nr ?nr" using node_ok_core(3) ok chain_grows_core by metis+
  then show thesis using that Inl by (simp add: handle_block_def)
next
  case (Inr b)
  show thesis
  proof (cases "nr_chain_store nr")
    case None
    have "node_core (handle_block_light so b nr) = node_core nr" by simp
    then have "node_inv so good x (handle_block_light so b nr)" "chain_grows nr (handle_block_light so b nr)"
      using node_ok_core(3) ok chain_grows_core by metis+
    then show thesis using that None Inr by (simp add: handle_block_def)
  next
    case (Some cs)
    have v: "blk_valid so b" using deserialize_block_Inr [OF Inr] by simp
    obtain r tip nr' where step: "append_and_update so env b nr = Some (r, tip, nr')" "node_base so good nr'"
      "chain_grows nr nr'" "if ChainStoreAppendResult_has_value r \<and> ar_active_chain_changed (car_chain_result r)
        then may_announce so x nr' tip else tip_ok so x nr'"
      using append_then [OF ok Some v env] by metis
    have "node_inv so good x (finish_block so peer b submission r tip nr')" using step(2,4) by (rule finish_block_ok)
    moreover have "chain_grows nr (finish_block so peer b submission r tip nr')" using step(3) by (simp add: chain_grows_def)
    ultimately show thesis using that Inr Some step(1) by (simp add: handle_block_def)
  qed
qed

lemma sync_block_event_ok:
  assumes base: "node_base so good nr"
    and tip: "if \<not> stored \<and> ar_active_chain_changed a then may_announce so x nr tip else tip_ok so x nr"
  shows "node_inv so good x (sync_block_event so peer b stored a tip nr)"
    and "nr_chain_store (sync_block_event so peer b stored a tip nr) = nr_chain_store nr"
proof -
  define nr1 where "nr1 = (if \<not> stored \<and> ar_active_chain_changed a
    then network_update_tip (fst tip) (snd tip) nr else nr)"
  have core: "node_core (sync_block_event so peer b stored a tip nr) = node_core nr1"
    by (simp add: sync_block_event_def nr1_def Let_def)
  have "node_inv so good x nr1" using base tip tip_ok_update_tip [of so x nr tip] by (auto simp: nr1_def node_inv_def)
  with core show "node_inv so good x (sync_block_event so peer b stored a tip nr)" using node_ok_core(3) by metis
  show "nr_chain_store (sync_block_event so peer b stored a tip nr) = nr_chain_store nr"
    using node_core_eqs(3) [OF core] by (simp add: nr1_def network_update_tip_def)
qed

lemma apply_blocks_ok:
  assumes "node_inv so good x nr" and "nr_chain_store nr \<noteq> None" and "list_all (blk_valid so) bs" and "\<And>k. good (env k)"
  shows "\<exists>res. apply_blocks so env peer k bs nr = Some res \<and> (case res of
    Inl nr' \<Rightarrow> node_inv so good x nr' \<and> chain_grows nr nr'
  | Inr nr' \<Rightarrow> node_inv so good x nr' \<and> nr_chain_store nr' \<noteq> None \<and> chain_grows nr nr')"
  using assms
proof (induction bs arbitrary: nr k)
  case (Cons b bs)
  obtain cs where cs: "nr_chain_store nr = Some cs" using Cons.prems(2) by blast
  have v: "blk_valid so b" "list_all (blk_valid so) bs" using Cons.prems(3) by simp_all
  have onward: "\<exists>res. apply_blocks so env peer (Suc k) bs nr' = Some res \<and> (case res of
      Inl nr' \<Rightarrow> node_inv so good x nr' \<and> chain_grows nr nr'
    | Inr nr' \<Rightarrow> node_inv so good x nr' \<and> nr_chain_store nr' \<noteq> None \<and> chain_grows nr nr')"
    if "node_inv so good x nr'" "nr_chain_store nr' \<noteq> None" "chain_grows nr nr'" for nr'
    using Cons.IH [OF that(1,2) v(2) Cons.prems(4)] chain_grows_trans [OF that(3)] by (fastforce split: sum.splits)
  show ?case
  proof (cases "bc_contains (node_blockchain nr) (blk_id so b)")
    case True
    have e: "node_inv so good x (sync_block_event so peer b True AppendResult_default (0, replicate 32 0) nr)"
      "nr_chain_store (sync_block_event so peer b True AppendResult_default (0, replicate 32 0) nr) = nr_chain_store nr"
      using Cons.prems(1) by (intro sync_block_event_ok [where good = good and x = x]; simp add: node_inv_def)+
    show ?thesis using True onward [OF e(1) _ chain_grows_same [OF e(2)]] e(2) cs by simp
  next
    case False
    obtain r tip nr' where step: "append_and_update so (env k) b nr = Some (r, tip, nr')" "node_base so good nr'"
      "nr_chain_store nr' \<noteq> None" "chain_grows nr nr'"
      "if ChainStoreAppendResult_has_value r \<and> ar_active_chain_changed (car_chain_result r)
       then may_announce so x nr' tip else tip_ok so x nr'"
      by (rule append_then [OF Cons.prems(1) cs v(1) Cons.prems(4)])
    show ?thesis
    proof (cases "ChainStoreAppendResult_has_value r")
      case hv: False
      then have "node_inv so good x nr'" using step(2,5) by (simp add: node_inv_def)
      moreover have "node_core (fail_sync (append_failure r) nr') = node_core nr'" by simp
      ultimately have "node_inv so good x (fail_sync (append_failure r) nr')" "chain_grows nr (fail_sync (append_failure r) nr')"
        using node_ok_core(3) chain_grows_trans [OF step(4)] chain_grows_core by metis+
      then show ?thesis using False hv step(1) by simp
    next
      case hv: True
      have e: "node_inv so good x (sync_block_event so peer b False (car_chain_result r) tip nr')"
        "nr_chain_store (sync_block_event so peer b False (car_chain_result r) tip nr') = nr_chain_store nr'"
        using step(5) hv by (intro sync_block_event_ok [OF step(2), where x = x]; simp)+
      show ?thesis
        using False hv step(1,3) onward [OF e(1) _ chain_grows_trans [OF step(4) chain_grows_same [OF e(2)]]] e(2) by simp
    qed
  qed
qed (simp add: chain_grows_same)

lemma decode_blocks_valid:
  "decode_blocks so payload n offset = Inr (bs, end_offset) \<Longrightarrow> list_all (blk_valid so) bs \<and> length bs = n"
  by (induction so payload n offset arbitrary: bs rule: decode_blocks.induct)
    (auto simp: Let_def dest: deserialize_block_Inr split: if_splits sum.splits)

lemma handle_blocks_ok:
  assumes ok: "node_inv so good x nr" and env: "\<And>k. good (env k)"
  obtains nr' where "handle_blocks so env peer payload nr = Some nr'" "node_inv so good x nr'" "chain_grows nr nr'"
proof -
  let ?ok = "\<lambda>nr'. node_inv so good x nr' \<and> chain_grows nr nr'"
  have keep: "?ok nr'" if "node_core nr' = node_core nr" for nr'
    using that node_ok_core(3) ok chain_grows_core by metis
  have onward: "?ok nr''" if "?ok nr'" "node_core nr'' = node_core nr'" for nr' nr''
    using that node_ok_core(3) chain_grows_trans chain_grows_core by metis
  define nr1 where "nr1 = nr\<lparr> nr_pending_sync_request := None \<rparr>"
  have ok1: "?ok nr1" by (rule keep) (simp add: nr1_def)
  have "\<exists>nr'. handle_blocks so env peer payload nr = Some nr' \<and> ?ok nr'"
  proof (cases "nr_chain_store nr = None \<or> (\<forall>bs. decode_blocks so payload (unat (read_u16_le payload 9))
      blocks_payload_minimum_size \<noteq> Inr (bs, length payload))")
    case True
    then have "\<exists>nr'. handle_blocks so env peer payload nr = Some nr' \<and> node_core nr' = node_core nr"
      by (auto simp: handle_blocks_def Let_def split: sum.split)
    then show ?thesis using keep by blast
  next
    case False
    then obtain bs where bs: "decode_blocks so payload (unat (read_u16_le payload 9)) blocks_payload_minimum_size =
        Inr (bs, length payload)" and cs: "nr_chain_store nr1 \<noteq> None" by (auto simp: nr1_def)
    have v: "list_all (blk_valid so) bs" using decode_blocks_valid [OF bs] by simp
    obtain res where res: "apply_blocks so env peer 0 bs nr1 = Some res"
      "case res of Inl nr' \<Rightarrow> ?ok nr' | Inr nr' \<Rightarrow> ?ok nr'"
      using apply_blocks_ok [OF conjunct1 [OF ok1] cs v, of env peer 0] env chain_grows_trans [OF conjunct2 [OF ok1]]
      by (fastforce split: sum.splits)
    have fin: "?ok (conclude_batch so peer e nr')" "?ok (conclude_batch so peer e (nr'\<lparr> nr_sync_locator_tip := t \<rparr>))"
      if "?ok nr'" for nr' e t
      by (rule onward [OF that], simp)+
    have failed: "?ok (fail_sync reason nr1)" for reason by (rule keep) (simp add: nr1_def)
    show ?thesis
      using bs res fin failed keep [OF refl]
      by (cases res) (simp_all add: handle_blocks_def Let_def nr1_def [symmetric])
  qed
  then show thesis using that by blast
qed

lemma ms_add_chain_state:
  "ms_add so sq table ms tx = (r, table', ms') \<Longrightarrow> mp_chain_state (ms_mempool ms') = mp_chain_state (ms_mempool ms)"
  using mp_add_result [of so "ms_mempool ms" tx]
  by (auto simp: ms_add_def Let_def split: prod.splits if_splits)

lemma add_to_pool_ok:
  assumes ok: "node_inv so good x nr" and v: "tx_valid so tx" and pool: "nr_mempool_store nr \<noteq> None"
  shows "node_inv so good x (snd (add_to_pool so env tx nr))"
proof -
  from pool obtain ms where ms: "nr_mempool_store nr = Some ms" by blast
  obtain r table ms' where add: "ms_add so (ne_pool_sqlite env) (nr_pool_table nr) ms tx = (r, table, ms')"
    by (metis prod_cases3)
  have "ms_ok so (nr_pool_table nr) ms" using ok ms by (simp add: node_inv_def node_base_def)
  from ms_add_ok [OF this v add] ms_add_chain_state [OF add] show ?thesis
    using ok ms by (auto simp: add_to_pool_def add node_inv_def node_base_def tip_ok_def node_chain_id_def)
qed

lemma node_ok_keep: "node_inv so good x nr \<Longrightarrow> node_core nr' = node_core nr \<Longrightarrow> node_inv so good x nr'"
  using node_ok_core(3) by metis

lemma handle_transaction_ok:
  assumes ok: "node_inv so good x nr"
  shows "node_inv so good x (handle_transaction so env peer payload submission nr)"
proof (cases "nr_chain_store nr = None \<or> nr_mempool_store nr = None \<or>
    (\<forall>tx. deserialize_transaction so payload = Inr tx \<longrightarrow> tx_chain_id tx \<noteq> node_chain_id nr)")
  case True
  then have "node_core (handle_transaction so env peer payload submission nr) = node_core nr"
    by (auto simp: handle_transaction_def Let_def split: sum.split)
  then show ?thesis by (rule node_ok_keep [OF ok])
next
  case False
  then obtain tx where tx: "deserialize_transaction so payload = Inr tx" "tx_chain_id tx = node_chain_id nr"
    and pool: "nr_mempool_store nr \<noteq> None" and cs: "nr_chain_store nr \<noteq> None" by blast
  have v: "tx_valid so tx" by (rule deserialize_transaction_valid [OF tx(1)])
  obtain r nr' where add: "add_to_pool so env tx nr = (r, nr')" by (rule prod.exhaust)
  have "node_core (handle_transaction so env peer payload submission nr) = node_core nr'"
    using tx pool cs add by (auto simp: handle_transaction_def Let_def)
  then show ?thesis by (rule node_ok_keep [rotated]) (use add_to_pool_ok [OF ok v pool, of env] add in simp)
qed

lemma handle_transaction_store [simp]:
  "nr_chain_store (handle_transaction so env peer payload submission nr) = nr_chain_store nr"
proof -
  have [simp]: "nr_chain_store (node_emit type details nr) = nr_chain_store nr"
    "nr_chain_store (send_transaction_result p i a reason nr) = nr_chain_store nr"
    "nr_chain_store (network_broadcast mt pl ex nr) = nr_chain_store nr" for type details p i a reason mt pl ex nr
    by (simp_all add: node_emit_def send_transaction_result_def network_send_def network_broadcast_def)
  show ?thesis by (auto simp: handle_transaction_def add_to_pool_def Let_def split: sum.split prod.split)
qed

lemma submit_signed_ok:
  assumes ok: "node_inv so good x nr" and v: "tx_valid so tx"
  shows "node_inv so good x (snd (submit_signed_transaction so env tx nr))"
proof (cases "nr_network nr = None \<or> tx_chain_id tx \<noteq> node_chain_id nr \<or> nr_chain_store nr = None \<or> nr_mempool_store nr = None")
  case True
  then have "node_core (snd (submit_signed_transaction so env tx nr)) = node_core nr"
    by (auto simp: submit_signed_transaction_def network_send_def Let_def split: option.split)
  then show ?thesis by (rule node_ok_keep [OF ok])
next
  case False
  obtain r nr' where add: "add_to_pool so env tx nr = (r, nr')" by (rule prod.exhaust)
  have "node_core (snd (submit_signed_transaction so env tx nr)) = node_core nr'"
    using False add by (auto simp: submit_signed_transaction_def Let_def)
  then show ?thesis by (rule node_ok_keep [rotated]) (use add_to_pool_ok [OF ok v, of env] False add in simp)
qed

text \<open>
  What the node relies on from libsodium: fresh key pairs are consistent, signatures verify,
  and the Genesis blocks of the networks have different hashes.
\<close>

definition sodium_ok :: "sodium \<Rightarrow> bool" where
  "sodium_ok so \<longleftrightarrow> signatures_verify so \<and>
     (\<forall>seed w. length seed = 32 \<and> Wallet_create so seed = Some w \<longrightarrow> Wallet_ok so w) \<and>
     (\<forall>c c'. supported_chain c \<and> supported_chain c' \<and>
        blk_id so (genesis_block so c') = blk_id so (genesis_block so c) \<longrightarrow> c' = c)"

lemma submit_ok:
  assumes ok: "node_inv so good x nr" and so: "sodium_ok so" and a: "Address_ok recipient"
  shows "node_inv so good x (snd (submit_transaction so env recipient amount fee n nr))"
proof -
  have "tx_valid so tx" if "sign_transaction so w f = Inr tx" "nr_wallet nr = Some w" "tf_recipient f = recipient" for tx w f
    using that ok so a by (intro sign_transaction_valid [OF that(1)]) (auto simp: node_inv_def node_base_def sodium_ok_def)
  then show ?thesis
    using ok submit_signed_ok [OF ok, of _ env]
    by (auto simp: submit_transaction_def split: sum.split)
qed

lemma block_found_ok:
  assumes ok: "node_inv so good x nr" and env: "good env"
  obtains nr' where "block_found so env w mined nr = Some nr'" "node_inv so good x nr'"
proof -
  define nr1 where "nr1 = report_found so mined nr"
  have ok1: "node_inv so good x nr1" by (rule node_ok_keep [OF ok]) (simp add: nr1_def)
  obtain nr2 where h: "handle_block so env 0 (blk_serialize mined) False nr1 = Some nr2" "node_inv so good x nr2"
    using handle_block_ok [OF ok1 env] by metis
  have "\<exists>nr'. block_found so env w mined nr = Some nr' \<and> (node_core nr' = node_core nr1 \<or> node_core nr' = node_core nr2)"
    using h(1) by (simp add: block_found_def nr1_def Let_def)
  then show thesis using that node_ok_keep [OF ok1] node_ok_keep [OF h(2)] by blast
qed

lemma mining_thread_step_ok:
  assumes ok: "node_inv so good x nr" and env: "good env" and step: "mining_thread_step so env now late progress nr = Some nr'"
  shows "node_inv so good x nr'"
proof -
  have batch: "node_inv so good x nr'" if "mining_batch so env late progress w nr = Some nr'" for w
  proof -
    define nr1 where "nr1 = nr\<lparr> nr_mining_attempts := nr_mining_attempts nr + mr_attempts (mine_block so (mw_candidate w) 10000) \<rparr>"
    have ok1: "node_inv so good x nr1" by (rule node_ok_keep [OF ok]) (simp add: nr1_def)
    show ?thesis
    proof (cases "mr_value (mine_block so (mw_candidate w) 10000)")
      case (Inr mined)
      obtain nr2 where "block_found so env w mined nr1 = Some nr2" "node_inv so good x nr2"
        using block_found_ok [OF ok1 env] by metis
      then show ?thesis
        using that Inr node_ok_keep [OF ok, of "mining_cancel_end w nr"]
        by (auto simp: mining_batch_def nr1_def [symmetric] Let_def split: if_splits)
    next
      case (Inl e)
      then have "node_core nr' = node_core nr"
        using that by (auto simp: mining_batch_def Let_def split: if_splits option.splits)
      then show ?thesis by (rule node_ok_keep [OF ok])
    qed
  qed
  have "node_core nr' = node_core nr \<or> (\<exists>w. mining_batch so env late progress w nr = Some nr')"
    using step by (auto simp: mining_thread_step_def split: option.splits worker_phase.splits if_splits)
  then show ?thesis using batch node_ok_keep [OF ok] by blast
qed

lemma handle_peer_message_ok:
  assumes ok: "node_inv so good x nr" and env: "\<And>k. good (env k)"
  obtains nr' where "handle_peer_message so env now peer type payload nr = Some nr'" "node_inv so good x nr'"
    "chain_grows nr nr'"
proof -
  obtain nr1 where 1: "handle_block so (env 0) peer payload (type = MT_block_submit) nr = Some nr1" "node_inv so good x nr1"
    "chain_grows nr nr1"
    by (rule handle_block_ok [OF ok env [of 0]])
  obtain nr2 where 2: "handle_blocks so env peer payload nr = Some nr2" "node_inv so good x nr2" "chain_grows nr nr2"
    by (rule handle_blocks_ok [OF ok env])
  have 3: "node_inv so good x (handle_transaction so (env 0) peer payload (type = MT_transaction_submit) nr)"
    "chain_grows nr (handle_transaction so (env 0) peer payload (type = MT_transaction_submit) nr)"
    by (rule handle_transaction_ok [OF ok]) (rule chain_grows_same, simp)
  have "\<exists>nr'. handle_peer_message so env now peer type payload nr = Some nr' \<and>
      (node_core nr' = node_core nr \<or> nr' = nr1 \<or> nr' = nr2 \<or>
       nr' = handle_transaction so (env 0) peer payload (type = MT_transaction_submit) nr)"
    using 1(1) 2(1) by (cases type) (simp_all add: handle_peer_message_def)
  then show thesis using that node_ok_keep [OF ok] chain_grows_core 1 2 3 by blast
qed

lemma run_callbacks_ok:
  assumes "node_inv so good x nr" and "\<And>k. good (env k)"
  shows "\<exists>nr'. run_callbacks so env now cbs nr = Some nr' \<and> node_inv so good x nr' \<and> chain_grows nr nr'"
  using assms
proof (induction cbs arbitrary: nr)
  case (Cons cb cbs)
  show ?case
  proof (cases cb)
    case (CB_event e)
    have "node_inv so good x (on_peer_event so e nr)" by (rule node_ok_keep [OF Cons.prems(1)]) simp
    moreover have "chain_grows nr (on_peer_event so e nr)" by (rule chain_grows_core) simp
    ultimately show ?thesis using Cons.IH Cons.prems(2) CB_event chain_grows_trans by fastforce
  next
    case (CB_message peer type payload)
    obtain nr' where "handle_peer_message so env now peer type payload nr = Some nr'" "node_inv so good x nr'" "chain_grows nr nr'"
      by (rule handle_peer_message_ok [OF Cons.prems])
    then show ?thesis using Cons.IH Cons.prems(2) CB_message chain_grows_trans by fastforce
  qed
qed (simp add: chain_grows_same)

lemma node_step_ok:
  assumes "node_step so good nr nr'" and ok: "node_inv so good x nr" and so: "sodium_ok so"
  shows "node_inv so good x nr'"
  using assms(1)
proof cases
  case (network net net' callbacks env now)
  have "node_inv so good x (nr\<lparr> nr_network := Some net' \<rparr>)"
    using network(1,3) by (intro node_ok_keep [OF ok]) (simp add: node_core_def)
  from run_callbacks_ok [OF this, of env now callbacks] network show ?thesis by auto
next
  case (mining env now late progress)
  then show ?thesis using mining_thread_step_ok [OF ok] by blast
next
  case shutdown
  have "node_inv so good x (nr\<lparr> nr_network := None \<rparr>)" if "node_inv so good x nr" for nr
    using that by (simp add: node_inv_def node_base_def tip_ok_def node_chain_id_def)
  moreover have "node_inv so good x (cancel_and_join (nr\<lparr> nr_runtime_stopping := True,
      nr_continuous_mining_enabled := False, nr_mining_cancelled := True \<rparr>))"
    by (rule node_ok_keep [OF ok]) simp
  ultimately show ?thesis using shutdown by (simp add: stop_network_def)
qed (use ok so in \<open>auto intro: submit_ok submit_signed_ok node_ok_keep [OF ok]\<close>)

lemma handler_section_ok:
  assumes "handler_section so good nr nr'" and ok: "node_ok so good nr"
  shows "node_ok so good nr'"
  using assms(1)
proof cases
  case (appended block env r active_tip)
  then obtain cs where cs: "nr_chain_store nr = Some cs" by blast
  have base: "node_base so good nr" and tip: "tip_ok so False nr" using ok by (simp_all add: node_inv_def)
  obtain r' tip' nr1 where step: "append_and_update so env block nr = Some (r', tip', nr1)" "node_base so good nr1"
    "map_option pn_config (nr_network nr1) = map_option pn_config (nr_network nr)" "chain_grows nr nr1"
    by (rule append_and_update_base [OF base cs appended(2,3)])
  then have "nr1 = nr'" using appended(4) by simp
  then show ?thesis using step(2) tip_ok_grows [OF tip step(4) cs step(3)] by (simp add: node_inv_def)
next
  case (block_finished active_tip peer_id block submission r)
  have "node_ok so good (finish_block so peer_id block submission r active_tip nr)"
    by (rule finish_block_ok) (use ok block_finished in \<open>simp_all add: may_announce_noted node_inv_def\<close>)
  then show ?thesis using block_finished by simp
next
  case (announced height block_id)
  then have "tip_ok so False nr'" using tip_ok_update_tip [of so False nr "(height, block_id)"] by (simp add: may_announce_noted)
  then show ?thesis using ok announced by (simp add: node_inv_def)
next
  case (sync_round active_tip peer_id block already_stored result)
  have "node_ok so good (sync_block_event so peer_id block already_stored result active_tip nr)"
    by (rule sync_block_event_ok) (use ok sync_round in \<open>simp_all add: may_announce_noted node_inv_def\<close>)
  then show ?thesis using sync_round by simp
next
  case (network_handler net net')
  then show ?thesis by (intro node_ok_keep [OF ok]) (simp add: node_core_def)
next
  case (callbacks env now cbs)
  then show ?thesis using run_callbacks_ok [OF ok, of env now cbs] by auto
qed (use ok in \<open>auto intro: node_ok_keep [OF ok]\<close>)

section \<open>The start of a node\<close>

lemma supported_node_chain: "supported_chain (node_chain_id nr)"
  using supported_chain_profile by (auto simp: node_chain_id_def)

lemma cs_start_ok:
  assumes "sodium_ok so" and "supported_chain c"
    and "(if exists then cs_open so io sq dk dir c else cs_initialize so io io' sq dk dir c) = Some (Inr cs, dk')"
  shows "bc_reachable so c (cs_blockchain cs)" "store_ok so c dk' cs"
proof -
  have "bc_reachable so c (cs_blockchain cs) \<and> store_ok so c dk' cs"
  proof (cases exists)
    case True
    then show ?thesis using cs_open_sound [OF assms(2), of so io sq dk dir] assms(1,2,3) by (auto simp: sodium_ok_def)
  next
    case False
    then show ?thesis using cs_initialize_Inr [of so io io' sq dk dir c cs dk'] assms(2,3) by (auto simp: store_ok_def)
  qed
  then show "bc_reachable so c (cs_blockchain cs)" "store_ok so c dk' cs" by simp_all
qed

lemma open_stores_ok:
  assumes so: "sodium_ok so" and opened: "open_stores so env env' d nr = Some (None, nr')"
    and new: "nr_network nr = None" "\<And>w. nr_wallet nr = Some w \<Longrightarrow> Wallet_ok so w"
  shows "node_ok so good nr' \<and> nr_network nr' = None"
proof -
  let ?c = "node_chain_id nr" and ?dir = "rc_data_directory (nr_config nr)"
  obtain exists err where fs: "fs_exists (ne_io env) (dk_files (nr_disk nr)) (blocks_path ?dir) = (exists, err)"
    by (rule prod.exhaust)
  define r where "r = (if exists then cs_open so (ne_io env) (ne_sqlite env) (nr_disk nr) ?dir ?c
      else cs_initialize so (ne_io env) (ne_io env') (ne_sqlite env) (nr_disk nr) ?dir ?c)"
  obtain cs dk' where r: "r = Some (Inr cs, dk')"
    using opened fs by (auto simp: open_stores_def r_def [symmetric] Let_def split: option.splits sum.splits if_splits)
  obtain ms table' where ms: "ms_open so d (ne_pool_sqlite env) (ne_pool_sqlite env') (nr_pool_table nr) ?dir
        (bc_state (cs_blockchain cs)) = (Inr ms, table')"
      and nr': "nr' = nr\<lparr> nr_disk := dk', nr_chain_store := Some cs, nr_pool_table := table', nr_mempool_store := Some ms \<rparr>"
    using opened fs r
    by (auto simp: open_stores_def r_def [symmetric] Let_def split: sum.splits prod.splits if_splits)
  note cs = r [unfolded r_def]
  note reach = cs_start_ok [OF so supported_node_chain cs]
  note st = bc_reachable_state_ok [OF reach(1)]
  show ?thesis
    using reach new ms_open_ok [OF ms st] ms_open_chain_state [OF ms st]
    by (simp add: nr' node_inv_def node_base_def tip_ok_def node_chain_id_def)
qed

lemma node_initialize_ok:
  assumes so: "sodium_ok so" and seed: "length seed = 32"
    and init: "node_initialize so seed env env' d (NodeRuntime_create config dk table) = Some (None, nr)"
  shows "node_ok so good nr \<and> nr_network nr = None"
proof -
  define nr0 where "nr0 = create_wallet so seed (NodeRuntime_create config dk table)"
  have 0: "nr_chain_store nr0 = None" "nr_mempool_store nr0 = None" "nr_network nr0 = None"
    "nr_wallet nr0 = Some w \<Longrightarrow> Wallet_ok so w" for w
    using so seed
    by (auto simp: nr0_def create_wallet_def NodeRuntime_create_def Let_def sodium_ok_def split: if_splits)
  have "nr = nr0 \<or> open_stores so env env' d nr0 = Some (None, nr)"
    using init by (simp add: node_initialize_def nr0_def Let_def split: if_splits)
  then show ?thesis
    using 0 open_stores_ok [OF so, of env env' d nr0 nr good] by (auto simp: node_inv_def node_base_def tip_ok_def)
qed

lemma connect_initial_peers_core:
  "connect_initial_peers make_address ps nr = (None, nr') \<Longrightarrow> node_core nr' = node_core nr"
  by (induction make_address ps nr rule: connect_initial_peers.induct) (auto split: sum.splits)

lemma start_network_ok:
  assumes ok: "node_ok so good nr" and none: "nr_network nr = None"
    and start: "start_network so make_address bind_listen nonce nr = (None, nr')"
  shows "node_ok so good nr'"
proof (cases "rc_has_role (nr_config nr) AR_full_node \<or> rc_has_role (nr_config nr) AR_miner")
  case False
  then show ?thesis using start ok by (simp add: start_network_def)
next
  case True
  define config where "config = peer_network_config so nr"
  obtain e net where net: "PeerNet_start make_address bind_listen (PeerNet_create config nonce) = (e, net)"
    by (rule prod.exhaust)
  have cfg: "pn_config net = config" if "e = None"
    using net that by (auto simp: PeerNet_start_def PeerNet_create_def accept_next_def Let_def
        split: if_splits option.splits sum.splits)
  define nr1 where "nr1 = (if rc_has_role (nr_config nr) AR_miner
      then nr\<lparr> nr_mining_known_height := pc_tip_height config, nr_mining_known_tip := pc_tip_block_id config \<rparr> else nr)"
  have ok1: "node_ok so good nr1" by (rule node_ok_keep [OF ok]) (simp add: nr1_def)
  have e: "e = None" and run: "connect_initial_peers make_address (rc_initial_peers (nr_config nr1))
      (nr1\<lparr> nr_events := True, nr_network := Some net \<rparr>) = (None, nr')"
    using start True net
    by (auto simp: start_network_def config_def [symmetric] nr1_def Let_def split: option.splits)
  have same: "nr_chain_store nr1 = nr_chain_store nr" by (simp add: nr1_def)
  have stored: "bc_tip (cs_blockchain cs) \<in> set (bc_stored_blocks (cs_blockchain cs))" if "nr_chain_store nr = Some cs" for cs
    by (rule bc_tip_stored [of so "node_chain_id nr"]) (use ok that in \<open>simp add: node_inv_def node_base_def\<close>)
  have "tip_ok so False (nr1\<lparr> nr_events := True, nr_network := Some net \<rparr>)"
    by (auto simp: tip_ok_def cfg [OF e] config_def peer_network_config_def same node_blockchain_def tip_of_def Let_def intro!: stored)
  then have "node_ok so good (nr1\<lparr> nr_events := True, nr_network := Some net \<rparr>)"
    using ok1 by (simp add: node_inv_def node_base_def node_chain_id_def)
  then show ?thesis using node_ok_keep connect_initial_peers_core [OF run] by blast
qed

lemma node_reachable_ok:
  assumes "node_reachable so good nr" and so: "sodium_ok so"
  shows "node_ok so good nr"
  using assms(1)
proof induction
  case (started env env' seed directory_ok config dk table nr session_nonce make_address bind_listen nr')
  have "node_ok so good nr \<and> nr_network nr = None" by (rule node_initialize_ok [OF so started(3,4)])
  then show ?case using start_network_ok started(6) by blast
next
  case (step nr nr')
  show ?case by (rule node_step_ok [OF step(2,3) so])
next
  case (interleaved nr nr')
  show ?case by (rule handler_section_ok [OF interleaved(2,3)])
qed

section \<open>An example\<close>

text \<open>A full node of the development network that starts on an existing chain, alone and without faults.\<close>

definition demo_runtime_config :: RuntimeConfig where
  "demo_runtime_config = runtime_config_scenario
     \<lparr> sa_name = ''n'', sa_roles = [AR_full_node], sa_data_directory = ''d'', sa_network_profile = NP_development,
       sa_p2p_port = 9000, sa_control_port = 9001, sa_control_token = ''t'' \<rparr>"

definition demo_new :: NodeRuntime where
  "demo_new = NodeRuntime_create demo_runtime_config demo_disk []"

definition demo_opened :: NodeRuntime where
  "demo_opened = demo_new\<lparr> nr_disk := demo_disk\<lparr> dk_database := Some (index_of demo_sodium demo_chain (cs_records demo_store)) \<rparr>,
     nr_chain_store := Some demo_store,
     nr_mempool_store := Some \<lparr> ms_data_directory = ''d'', ms_mempool = Mempool_create (bc_state demo_chain) \<rparr> \<rparr>"

definition demo_node :: NodeRuntime where
  "demo_node = snd (start_network demo_sodium (\<lambda>host. Some (IPv4 127 0 0 1)) (\<lambda>host port. Inr port) (replicate 16 1) demo_opened)"

lemma demo_new_simps:
  "nr_config demo_new = demo_runtime_config" "nr_disk demo_new = demo_disk" "nr_pool_table demo_new = []"
  "rc_roles demo_runtime_config = [AR_full_node]" "rc_data_directory demo_runtime_config = ''d''"
  "rc_network_profile demo_runtime_config = NP_development" "rc_initial_peers demo_runtime_config = []"
  "rc_p2p_host demo_runtime_config = ''127.0.0.1''" "rc_p2p_port demo_runtime_config = 9000"
  "rc_p2p_scope demo_runtime_config = AS_loopback"
  by (simp_all add: demo_new_def NodeRuntime_create_def demo_runtime_config_def runtime_config_scenario_def)

lemma demo_initialized:
  "node_initialize demo_sodium (demo_seed 0) node_env_ok node_env_ok True demo_new = Some (None, demo_opened)"
proof -
  have "cs_open demo_sodium io_ok sqlite_ok demo_disk ''d'' 1 =
      Some (Inr demo_store, demo_disk\<lparr> dk_database := Some (index_of demo_sodium demo_chain (cs_records demo_store)) \<rparr>)"
    using cs_open_stored [OF demo_store_ok] demo_records_length(1) by (simp add: demo_store_def)
  moreover have "fs_exists io_ok (dk_files demo_disk) (blocks_path ''d'') = (True, False)"
    by (simp add: fs_exists_def io_ok_def demo_disk_def)
  moreover have "node_chain_id demo_new = 1"
    by (simp add: node_chain_id_def demo_new_simps network_parameters_def development_def)
  ultimately show ?thesis
    by (simp add: node_initialize_def create_wallet_def open_stores_def demo_new_simps rc_has_role_def node_env_ok_def
        ms_open_def pool_sqlite_ok_def rewrite_def demo_opened_def demo_store_def Mempool_create_def Let_def)
qed

lemma demo_node_started:
  "start_network demo_sodium (\<lambda>host. Some (IPv4 127 0 0 1)) (\<lambda>host port. Inr port) (replicate 16 1) demo_opened =
     (None, demo_node)"
  by (simp add: demo_node_def start_network_def demo_opened_def demo_new_simps rc_has_role_def peer_network_config_def
      PeerNet_start_def PeerNet_create_def Let_def)

lemma demo_node_reachable: "node_reachable demo_sodium (\<lambda>e. e = node_env_ok) demo_node"
  by (rule node_reachable.started [OF _ _ _ demo_initialized [unfolded demo_new_def] _ demo_node_started]) simp_all

lemma demo_genesis_ids:
  assumes "blk_id demo_sodium (genesis_block demo_sodium c') = blk_id demo_sodium (genesis_block demo_sodium c)"
  shows "ucast c' = (ucast c :: byte)"
proof -
  have "blk_id demo_sodium (genesis_block demo_sodium c) ! 30 = le_bytes 4 c ! 0" for c
    by (simp add: blk_id_def demo_hash_nth)
      (simp add: demo_sodium_def serialize_header_eq genesis_block_def block_magic_def nth_append)
  then have "le_bytes 4 c' ! 0 = le_bytes 4 c ! 0" using assms by metis
  moreover have "le_bytes 4 c ! 0 = ucast c" for c :: u32
  proof -
    have m: "(0xFF :: u32) = mask 8" by (simp add: mask_eq_exp_minus_1)
    show ?thesis by (simp add: le_bytes_def) (simp add: m bit_eq_iff bit_simps)
  qed
  ultimately show ?thesis by simp
qed

lemma sodium_ok_demo: "sodium_ok demo_sodium"
proof -
  have "Wallet_ok demo_sodium w" if "length seed = 32" "Wallet_create demo_sodium seed = Some w" for seed w
    using that KeyPair_demo [OF that(1)] by (auto simp: Wallet_create_def Wallet_ok_def)
  moreover have "c' = c" if "supported_chain c" "supported_chain c'"
    "blk_id demo_sodium (genesis_block demo_sodium c') = blk_id demo_sodium (genesis_block demo_sodium c)" for c c'
    using demo_genesis_ids [OF that(3)] that(1,2) by (auto simp: supported_chain)
  ultimately show ?thesis using signatures_verify_demo by (auto simp: sodium_ok_def)
qed

section \<open>Properties\<close>

lemma stored_not_higher:
  assumes "bc_reachable so c bc" and "b \<in> set (bc_stored_blocks bc)"
  shows "blk_height b \<le> blk_height (bc_tip bc)"
proof -
  have inv: "bc_inv so c bc" using assms(1) by (rule bc_reachable_inv)
  obtain i where i: "i < length (bc_stored_blocks bc)" "b = bc_stored_blocks bc ! i"
    using assms(2) by (auto simp: in_set_conv_nth)
  note t = bc_invD(1) [OF inv]
  show ?thesis
    using bc_invD(5) [OF inv i(1)] work_is_height [OF t i(1)] work_is_height [OF t bc_invD(3) [OF inv]] i(2)
    by (simp add: bc_tip_eq [OF inv])
qed

definition announces_tip :: "sodium \<Rightarrow> NodeRuntime \<Rightarrow> bool" where
  "announces_tip so nr \<longleftrightarrow>
     (\<forall>cs net. nr_chain_store nr = Some cs \<and> nr_network nr = Some net \<longrightarrow>
        pc_tip_height (pn_config net) = blk_height (bc_tip (cs_blockchain cs)) \<and>
        pc_tip_block_id (pn_config net) = blk_id so (bc_tip (cs_blockchain cs)))"

lemma announces_tip_exact: "announces_tip so nr = tip_ok so True nr"
  by (simp add: announces_tip_def tip_ok_def tip_of_def)


text \<open>
  C7. No message stops a node. For every reachable state and every sequence of events and
  messages of peers, with arbitrary payloads, and every outcome of the calls to the file
  system and SQLite, the handlers return; afterwards the node still has every block it had
  stored, in the same order, and its active tip is not lower.\<close>

theorem node_survives_messages:
  assumes "node_reachable so good nr" and "sodium_ok so" and "\<And>k. good (env k)"
  shows "\<exists>nr'. run_callbacks so env now callbacks nr = Some nr' \<and> chain_grows nr nr'"
  using run_callbacks_ok [OF node_reachable_ok [OF assms(1,2)], of env now callbacks] assms(3) by blast

lemma demo_node_chain: "nr_chain_store demo_node = Some demo_store"
  using node_core_eqs(3) [of demo_node demo_opened]
  by (simp add: demo_node_def start_network_def demo_opened_def demo_new_simps rc_has_role_def peer_network_config_def
      PeerNet_start_def PeerNet_create_def Let_def)


theorem node_survives_messages_witness:
  "\<exists>nr'. run_callbacks demo_sodium (\<lambda>k. node_env_ok) 0 [CB_message 7 MT_block [1, 2, 3], CB_message 7 MT_blocks []] demo_node =
     Some nr' \<and> chain_grows demo_node nr'"
  by (rule node_survives_messages [OF demo_node_reachable sodium_ok_demo]) simp

end
