(* ===== verification/BBC_Sync.thy ===== *)
theory BBC_Sync
  imports BBC_Node_Inv
begin

text \<open>
  Chain synchronization: a request that one node encodes is answered by another node of the
  same network with blocks that continue the common part of the chains, the answer fits a
  frame, and decoding it gives the blocks back.
\<close>

section \<open>The request\<close>

lemma find_SomeD: "find P xs = Some x \<Longrightarrow> P x \<and> x \<in> set xs"
  by (induction xs) (auto split: if_splits)

definition locator_bytes :: "(u64 \<times> bytes) list \<Rightarrow> bytes" where
  "locator_bytes locator = concat (map (\<lambda>(height, block_id). le_bytes 8 height @ block_id) locator)"

lemma encode_locator_eq: "encode_locator locator payload = payload @ locator_bytes locator"
  by (induction locator payload rule: encode_locator.induct) (simp_all add: locator_bytes_def append_u64_le_def)

lemma get_blocks_payload_eq:
  "get_blocks_payload request_id locator =
     le_bytes 8 request_id @ le_bytes 2 (of_nat (length locator) :: u16) @ locator_bytes locator @ le_bytes 2 (4 :: u16)"
  by (simp add: get_blocks_payload_def encode_locator_eq append_u16_le_def append_u64_le_def maximum_blocks_per_sync_batch_def)

lemma length_locator_bytes:
  "\<forall>(h, i) \<in> set locator. length i = 32 \<Longrightarrow> length (locator_bytes locator) = 40 * length locator"
  by (induction locator) (auto simp: locator_bytes_def)

abbreviation on_chain :: "sodium \<Rightarrow> Block list \<Rightarrow> u64 \<times> bytes \<Rightarrow> bool" where
  "on_chain so blocks entry \<equiv> unat (fst entry) < length blocks \<and> blk_id so (blocks ! unat (fst entry)) = snd entry"

lemma match_locator_encoded:
  assumes "payload = pre @ locator_bytes locator @ post" and "offset = length pre"
    and "\<forall>(h, i) \<in> set locator. length i = 32"
  shows "match_locator so blocks payload (length locator) offset = map_option fst (find (on_chain so blocks) locator)"
  using assms
proof (induction locator arbitrary: pre offset)
  case (Cons entry locator)
  obtain h i where e: "entry = (h, i)" by (rule prod.exhaust)
  have i: "length i = 32" using Cons.prems(3) e by simp
  have payload: "payload = pre @ le_bytes 8 h @ i @ locator_bytes locator @ post"
    using Cons.prems(1) e by (simp add: locator_bytes_def)
  have "read_u64_le payload offset = h" "read_array 32 payload (offset + 8) = i"
    using i by (simp_all add: payload Cons.prems(2) field_read)
  moreover have "match_locator so blocks payload (length locator) (offset + 40) =
      map_option fst (find (on_chain so blocks) locator)"
    using Cons.prems i by (intro Cons.IH [of "pre @ le_bytes 8 h @ i"]) (auto simp: payload)
  ultimately show ?case by (simp add: e block_locator_entry_size_def Let_def)
qed simp

section \<open>The answer\<close>

definition block_fields :: "bytes \<Rightarrow> bytes" where
  "block_fields encoded = le_bytes 4 (of_nat (length encoded) :: u32) @ encoded"

lemma blocks_payload_eq:
  "blocks_payload request_id status encoded =
     le_bytes 8 request_id @ [status] @ le_bytes 2 (of_nat (length encoded) :: u16) @ concat (map block_fields encoded)"
proof -
  have "fold (\<lambda>encoded response. append_u32_le response (of_nat (length encoded)) @ encoded) encoded xs =
      xs @ concat (map block_fields encoded)" for xs
    by (induction encoded arbitrary: xs) (simp_all add: append_u32_le_def block_fields_def)
  then show ?thesis by (simp add: blocks_payload_def append_u16_le_def append_u64_le_def)
qed

lemma decode_blocks_encoded:
  assumes "payload = pre @ concat (map (block_fields \<circ> blk_serialize) bs)" and "offset = length pre"
    and "list_all (blk_valid so) bs"
  shows "decode_blocks so payload (length bs) offset = Inr (bs, length payload)"
  using assms
proof (induction bs arbitrary: pre offset)
  case (Cons b bs)
  have v: "blk_valid so b" "list_all (blk_valid so) bs" using Cons.prems(3) by simp_all
  note len = blk_serialize_bounds [OF v(1)]
  let ?n = "length (blk_serialize b)" and ?rest = "concat (map (block_fields \<circ> blk_serialize) bs)"
  have payload: "payload = pre @ le_bytes 4 (of_nat ?n :: u32) @ blk_serialize b @ ?rest"
    using Cons.prems(1) by (simp add: block_fields_def [of "blk_serialize b"] comp_def)
  have size: "unat (read_u32_le payload offset) = ?n"
    using len by (simp add: payload Cons.prems(2) field_read unat_of_nat)
  have block: "take ?n (drop (offset + 4) payload) = blk_serialize b"
    by (simp add: payload Cons.prems(2))
  have "decode_blocks so payload (length bs) (offset + 4 + ?n) = Inr (bs, length payload)"
    by (rule Cons.IH [of "pre @ le_bytes 4 (of_nat ?n :: u32) @ blk_serialize b"]) (use v in \<open>simp_all add: payload Cons.prems(2) comp_def\<close>)
  moreover have "\<not> length payload - offset < 4" "\<not> length payload - (offset + 4) < ?n"
    by (simp_all add: payload Cons.prems(2))
  ultimately show ?case
    using len size block blk_codec.decode_encode [OF v(1)]
    by (simp add: Let_def block_sizes)
qed simp

lemma map_upt_slice:
  "map (\<lambda>index. f (xs ! index)) [k..<min (length xs) (k + n)] = map f (take n (drop k xs))"
  by (rule nth_equalityI) (auto simp: min_def split: if_splits)

lemma answer_request:
  assumes ids: "\<forall>(h, i) \<in> set locator. length i = 32" and "length locator \<le> 32"
    and found: "find (on_chain so blocks) locator = Some (h, i)"
  shows "answer_get_blocks so blocks (get_blocks_payload request_id locator) =
    (sync_status_ok, map blk_serialize (take 4 (drop (Suc (unat h)) blocks)), Some h)"
proof -
  let ?payload = "get_blocks_payload request_id locator"
  have "locator \<noteq> []" using found by auto
  have len: "length (locator_bytes locator) = 40 * length locator" using ids by (rule length_locator_bytes)
  have n: "unat (read_u16_le ?payload 8) = length locator"
    using assms(2) by (simp add: get_blocks_payload_eq field_read unat_of_nat)
  have requested: "read_u16_le ?payload (10 + length locator * 40) = 4"
    using len by (simp add: get_blocks_payload_eq field_read)
  have "match_locator so blocks ?payload (length locator) 10 = Some h"
    using match_locator_encoded [OF _ _ ids, of ?payload "le_bytes 8 request_id @ le_bytes 2 (of_nat (length locator) :: u16)"
        "le_bytes 2 (4 :: u16)" 10 so blocks] found
    by (simp add: get_blocks_payload_eq)
  moreover have "length ?payload = 12 + length locator * 40" using len by (simp add: get_blocks_payload_eq)
  ultimately show ?thesis
    using \<open>locator \<noteq> []\<close> assms(2) n requested map_upt_slice [of blk_serialize blocks "Suc (unat h)" 4]
    by (simp add: answer_get_blocks_def protocol_sizes Let_def)
qed

text \<open>What an honest peer has to answer with: the encoded blocks after the first common entry.\<close>

lemma blocks_answer_decodes:
  fixes request_id so bs
  assumes "list_all (blk_valid so) bs" and "length bs \<le> 4"
  defines "payload \<equiv> blocks_payload request_id sync_status_ok (map blk_serialize bs)"
  shows "valid_payload_size MT_blocks (length payload)" "length payload \<le> maximum_frame_payload_size"
    "read_u64_le payload 0 = request_id" "payload ! 8 = sync_status_ok" "unat (read_u16_le payload 9) = length bs"
    "decode_blocks so payload (length bs) blocks_payload_minimum_size = Inr (bs, length payload)"
proof -
  have eq: "payload = (le_bytes 8 request_id @ [sync_status_ok] @ le_bytes 2 (of_nat (length bs) :: u16)) @
      concat (map (block_fields \<circ> blk_serialize) bs)"
    by (simp add: payload_def blocks_payload_eq)
  have "length (concat (map (block_fields \<circ> blk_serialize) bs)) \<le> length bs * 161169"
    using assms(1)
  proof (induction bs)
    case (Cons b bs)
    then show ?case using blk_serialize_bounds(2) [of so b] by (simp add: block_fields_def [of "blk_serialize b"])
  qed simp
  then have "length payload \<le> 11 + 4 * 161169" using assms(2) by (simp add: eq)
  then show "valid_payload_size MT_blocks (length payload)" "length payload \<le> maximum_frame_payload_size"
    by (simp_all add: protocol_sizes) (simp add: eq)
  show "read_u64_le payload 0 = request_id" "payload ! 8 = sync_status_ok" "unat (read_u16_le payload 9) = length bs"
    using assms(2) by (simp_all add: eq field_read nth_append unat_of_nat)
  show "decode_blocks so payload (length bs) blocks_payload_minimum_size = Inr (bs, length payload)"
    by (rule decode_blocks_encoded [OF eq _ assms(1)]) (simp add: protocol_sizes)
qed

section \<open>One round between two nodes of a network\<close>

lemma valid_chain_hd: "valid_chain so c bs \<Longrightarrow> hd bs = genesis_block so c"
  by (induction rule: valid_chain.induct) (auto simp: hd_append dest: valid_chain_not_empty)

text \<open>The locator of a stored block and what another chain of the network finds in it.\<close>

lemma locator_matches:
  assumes a: "bc_reachable so c bc" "i < length (bc_stored_blocks bc)" and b: "valid_chain so c blocks"
  defines "locator \<equiv> bc_block_locator so bc (blk_id so (bc_stored_blocks bc ! i)) maximum_block_locator_entries"
  obtains h where "\<forall>(h, j) \<in> set locator. length j = 32" "length locator \<le> 32" "locator \<noteq> []"
    "find (on_chain so blocks) locator = Some (h, blk_id so (blocks ! unat h))" "unat h < length blocks"
    "blk_id so (blocks ! unat h) \<in> blk_id so ` set (branch bc i)"
    "on_chain so blocks (locator_entry so (bc_stored_blocks bc ! i)) \<longrightarrow> h = blk_height (bc_stored_blocks bc ! i)"
proof -
  obtain bs where bs: "locator = map (locator_entry so) bs" "bs \<noteq> []" "hd bs = bc_stored_blocks bc ! i"
    "last bs = genesis_block so c" "subseq (rev bs) (branch bc i)" "length bs \<le> maximum_block_locator_entries"
    by (rule block_locator_branch [OF a, of maximum_block_locator_entries, folded locator_def])
      (simp_all add: maximum_block_locator_entries_def)
  have "on_chain so blocks (locator_entry so (genesis_block so c))"
    using valid_chain_hd [OF b] valid_chain_not_empty [OF b]
    by (simp add: locator_entry_def hd_conv_nth genesis_block_def)
  moreover have "locator_entry so (genesis_block so c) \<in> set locator" using bs(1,2,4) last_in_set [of bs] by simp
  ultimately obtain h j where f: "find (on_chain so blocks) locator = Some (h, j)"
    by (cases "find (on_chain so blocks) locator") (auto simp: find_None_iff)
  have e: "on_chain so blocks (h, j)" "(h, j) \<in> set locator" using find_SomeD [OF f] by simp_all
  then obtain b where "b \<in> set bs" "j = blk_id so b" by (auto simp: bs(1) locator_entry_def)
  moreover have "set bs \<subseteq> set (branch bc i)" using bs(5) by (metis set_rev subseq_conv_nths set_nths_subset)
  moreover have "h = blk_height (bc_stored_blocks bc ! i)" if "on_chain so blocks (locator_entry so (bc_stored_blocks bc ! i))"
    using f that bs(2,3) by (cases bs) (auto simp: bs(1) locator_entry_def)
  ultimately show thesis
    using e bs f by (intro that [of h]) (auto simp: locator_entry_def blk_id_def maximum_block_locator_entries_def)
qed

section \<open>Properties\<close>

text \<open>
  A synchronization request is always answered usefully. Take two chains of one network
  and any block the first has stored. The request that names it fits a frame; the second node
  finds the last common block the locator names, never answers that nothing matches, and sends
  the up to four blocks that follow it on its active chain, none only when it is the tip; the
  answer fits a frame, and the first node decodes from it exactly these blocks.\<close>

theorem sync_request_answered:
  assumes "bc_reachable so c bc" and "i < length (bc_stored_blocks bc)" and "bc_reachable so c peer"
  shows "\<exists>h. h < length (bc_blocks peer) \<and> blk_id so (bc_blocks peer ! h) \<in> blk_id so ` set (branch bc i) \<and>
    (let request = get_blocks_payload request_id
           (bc_block_locator so bc (blk_id so (bc_stored_blocks bc ! i)) maximum_block_locator_entries);
         blocks = take 4 (drop (Suc h) (bc_blocks peer));
         answer = blocks_payload request_id sync_status_ok (map blk_serialize blocks)
     in valid_payload_size MT_get_blocks (length request) \<and> read_u64_le request 0 = request_id \<and>
        answer_get_blocks so (bc_blocks peer) request =
          (sync_status_ok, map blk_serialize blocks, Some (of_nat h)) \<and>
        valid_payload_size MT_blocks (length answer) \<and>
        decode_blocks so answer (unat (read_u16_le answer 9)) blocks_payload_minimum_size = Inr (blocks, length answer))"
proof -
  have v: "valid_chain so c (bc_blocks peer)" using bc_blocks_valid [OF bc_reachable_inv [OF assms(3)]] .
  obtain h where h: "\<forall>(h, j) \<in> set (bc_block_locator so bc (blk_id so (bc_stored_blocks bc ! i)) maximum_block_locator_entries). length j = 32"
    "length (bc_block_locator so bc (blk_id so (bc_stored_blocks bc ! i)) maximum_block_locator_entries) \<le> 32"
    "bc_block_locator so bc (blk_id so (bc_stored_blocks bc ! i)) maximum_block_locator_entries \<noteq> []"
    "find (on_chain so (bc_blocks peer)) (bc_block_locator so bc (blk_id so (bc_stored_blocks bc ! i)) maximum_block_locator_entries) =
       Some (h, blk_id so (bc_blocks peer ! unat h))" "unat h < length (bc_blocks peer)"
    "blk_id so (bc_blocks peer ! unat h) \<in> blk_id so ` set (branch bc i)"
    by (rule locator_matches [OF assms(1,2) v])
  let ?bs = "take 4 (drop (Suc (unat h)) (bc_blocks peer))"
  have bs: "list_all (blk_valid so) ?bs"
    using bc_blocks_blk_valid [OF assms(3)] by (auto simp: list_all_iff dest: in_set_takeD in_set_dropD)
  note answer = blocks_answer_decodes [OF bs, of request_id]
  show ?thesis
    using h answer_request [OF h(1,2,4), of request_id] answer length_locator_bytes [OF h(1)]
    by (intro exI [of _ "unat h"])
      (auto simp: Let_def get_blocks_payload_eq protocol_sizes field_read Suc_le_eq)
qed

theorem sync_request_answered_witness:
  "\<exists>h. h < 2 \<and> answer_get_blocks demo_sodium (bc_blocks demo_chain) (get_blocks_payload 5
      (bc_block_locator demo_sodium demo_chain (blk_id demo_sodium (bc_stored_blocks demo_chain ! 0)) maximum_block_locator_entries)) =
    (sync_status_ok, map blk_serialize (take 4 (drop (Suc h) (bc_blocks demo_chain))), Some (of_nat h))"
proof -
  have "0 < length (bc_stored_blocks demo_chain)" by (simp add: demo_chain_facts)
  from sync_request_answered [OF demo_chain_reachable(1) this demo_chain_reachable(1), of 5]
  obtain h where "h < length (bc_blocks demo_chain)"
    "answer_get_blocks demo_sodium (bc_blocks demo_chain) (get_blocks_payload 5
      (bc_block_locator demo_sodium demo_chain (blk_id demo_sodium (bc_stored_blocks demo_chain ! 0)) maximum_block_locator_entries)) =
    (sync_status_ok, map blk_serialize (take 4 (drop (Suc h) (bc_blocks demo_chain))), Some (of_nat h))"
    unfolding Let_def by blast
  moreover have "length (bc_blocks demo_chain) = 2" by (simp add: demo_chain_facts)
  ultimately show ?thesis by auto
qed

end
