(* ===== verification/BBC_Sync_Live.thy ===== *)
theory BBC_Sync_Live
  imports BBC_Sync
begin

text \<open>
  Synchronization comes to an end: a node that follows an honest peer with a higher chain
  reaches the tip of the peer after finitely many rounds of request and answer.
\<close>

section \<open>Two chains of a network\<close>

lemma valid_chain_unique:
  assumes "valid_chain so c bs" and "valid_chain so c bs'" and "last bs = last bs'"
    and "inj_on (blk_id so) (set bs \<union> set bs')"
  shows "bs = bs'"
  using assms
proof (induction arbitrary: bs' rule: valid_chain.induct)
  case genesis
  have "blk_height (last bs') = 0" unfolding genesis(3) [symmetric] by (simp add: genesis_block_def)
  then have "length bs' = 1" using valid_chain_length [OF genesis(2)] by simp
  then show ?case using valid_chain_hd [OF genesis(2)] by (cases bs') auto
next
  case (extend bs b)
  note inj = extend.prems(3) and IH = extend.IH
  from extend.prems(1) show ?case
  proof cases
    case genesis
    then show ?thesis
      using extend.prems(2) valid_chain_length [OF valid_chain.extend [OF extend(1,2)]] valid_chain_not_empty [OF extend(1)]
      by (simp add: genesis_block_def)
  next
    case (extend cs b')
    then have b: "b' = b" using \<open>last (bs @ [b]) = last bs'\<close> by simp
    have "last bs \<in> set bs" "last cs \<in> set cs"
      using valid_chain_not_empty [OF \<open>valid_chain so c bs\<close>] valid_chain_not_empty [OF extend(2)] by simp_all
    moreover have "blk_id so (last bs) = blk_id so (last cs)"
      using \<open>follows so bs b\<close> extend(3) b by (simp add: follows_def)
    ultimately have "last bs = last cs" using inj extend(1) by (auto dest: inj_onD)
    moreover have "inj_on (blk_id so) (set bs \<union> set cs)"
      using extend(1) by (intro inj_on_subset [OF inj]) auto
    ultimately have "bs = cs" using IH extend(2) by blast
    then show ?thesis using extend(1) b by simp
  qed
qed

lemma valid_chain_append:
  "valid_chain so c (bs @ cs) \<Longrightarrow> bs \<noteq> [] \<Longrightarrow>
     valid_chain so c bs \<and> (cs \<noteq> [] \<longrightarrow> follows so bs (hd cs))"
proof (induction cs rule: rev_induct)
  case (snoc b cs)
  from snoc.prems have "valid_chain so c ((bs @ cs) @ [b])" by simp
  then have "valid_chain so c (bs @ cs) \<and> follows so (bs @ cs) b"
    using snoc.prems(2) by (cases rule: valid_chain.cases) auto
  then show ?case using snoc.IH snoc.prems(2) by (cases cs) auto
qed simp

lemma valid_chain_nth:
  assumes "valid_chain so c blocks" and "0 < j" and "j < length blocks"
  shows "valid_chain so c (take j blocks)" "follows so (take j blocks) (blocks ! j)"
proof -
  have ne: "take j blocks \<noteq> []" using assms(2,3) by auto
  have "valid_chain so c (take j blocks @ drop j blocks)" using assms(1) by simp
  from valid_chain_append [OF this ne] show "valid_chain so c (take j blocks)" "follows so (take j blocks) (blocks ! j)"
    using assms(3) by (simp_all add: hd_drop_conv_nth)
qed

lemma valid_chain_height:
  assumes "valid_chain so c blocks" and "j < length blocks"
  shows "unat (blk_height (blocks ! j)) = j"
proof (cases "Suc j = length blocks")
  case True
  then have "last blocks = blocks ! j" by (cases blocks rule: rev_cases) auto
  then show ?thesis using valid_chain_length [OF assms(1)] True by simp
next
  case False
  then have "valid_chain so c (take (Suc j) blocks)" using assms by (intro valid_chain_nth) auto
  from valid_chain_length [OF this] show ?thesis using assms(2) by (simp add: take_Suc_conv_app_nth)
qed

lemma branch_of_common:
  assumes "bc_reachable so c bc" and "valid_chain so c blocks" and "i < length (bc_stored_blocks bc)"
    and "j < length blocks" and "bc_stored_blocks bc ! i = blocks ! j"
    and "inj_on (blk_id so) (set (bc_stored_blocks bc) \<union> set blocks)"
  shows "branch bc i = take (Suc j) blocks"
proof (rule valid_chain_unique)
  have t: "tree_ok so c bc" using bc_invD(1) [OF bc_reachable_inv [OF assms(1)]] .
  show "valid_chain so c (branch bc i)" by (rule branch_valid [OF t assms(3)])
  show "valid_chain so c (take (Suc j) blocks)"
    using assms(2,4) valid_chain_nth(1) [OF assms(2), of "Suc j"] by (cases "Suc j < length blocks") auto
  show "last (branch bc i) = last (take (Suc j) blocks)"
    using assms(4,5) last_branch [OF t assms(3)] by (simp add: take_Suc_conv_app_nth)
  have "set (branch bc i) \<subseteq> set (bc_stored_blocks bc)"
    using path_total [OF t assms(3)] assms(3) by (fastforce simp: branch_def)
  then show "inj_on (blk_id so) (set (branch bc i) \<union> set (take (Suc j) blocks))"
    by (intro inj_on_subset [OF assms(6)]) (auto dest: in_set_takeD)
qed

section \<open>Appending the next block of the peer\<close>

lemma append_next:
  assumes r: "bc_reachable so c bc" and v: "valid_chain so c blocks" and j: "0 < j" "j < length blocks"
    and parent: "blocks ! (j - 1) \<in> set (bc_stored_blocks bc)"
    and new: "blk_id so (blocks ! j) \<notin> blk_id so ` set (bc_stored_blocks bc)"
    and inj: "inj_on (blk_id so) (set (bc_stored_blocks bc) \<union> set blocks)"
  obtains a bc' where "bc_append so bc (blocks ! j) = Some (a, bc')" "ar_error a = CE_none"
    "bc_stored_blocks bc' = bc_stored_blocks bc @ [blocks ! j]"
    "bc_blocks bc' = bc_blocks bc \<or> bc_blocks bc' = take (Suc j) blocks"
proof -
  have inv: "bc_inv so c bc" using r by (rule bc_reachable_inv)
  note f = valid_chain_nth(2) [OF v j]
  have b: "blk_valid so (blocks ! j)" using f by (simp add: follows_def)
  from parent obtain p where p: "p < length (bc_stored_blocks bc)" "bc_stored_blocks bc ! p = blocks ! (j - 1)"
    by (auto simp: in_set_conv_nth)
  have br: "branch bc p = take j blocks"
    using branch_of_common [OF r v p(1) _ p(2) inj] j by simp
  then have "append_checks so bc (blocks ! j) p (snd (apply_block_state so (replay so (branch bc p)) (blocks ! j)))"
    using append_checks_iff [OF inv b] p(1) f new by simp
  from bc_append_outcome [OF inv b this] obtain a bc'
    where "bc_append so bc (blocks ! j) = Some (a, bc')" "accepted_as bc (blocks ! j) p a bc'" by metis
  then show thesis
    using j(2) by (intro that [of a bc']) (auto simp: accepted_as_def br take_Suc_conv_app_nth split: if_splits)
qed

lemma stored_distinct:
  assumes "bc_reachable so c bc"
  shows "distinct (bc_stored_blocks bc)"
  using stored_inject [OF bc_invD(1) [OF bc_reachable_inv [OF assms]]] by (auto simp: distinct_conv_nth)

lemma encode_records_sum:
  assumes "bc_reachable so c bc" and "set (bc_stored_blocks bc) \<subseteq> bs" and "finite bs"
  shows "length (encode_records so (bc_stored_blocks bc)) \<le> (\<Sum>b \<in> bs. length (encode_record so b))"
proof -
  have "length (encode_records so xs) = (\<Sum>b \<leftarrow> xs. length (encode_record so b))" for xs
    by (induction xs) simp_all
  then have "length (encode_records so (bc_stored_blocks bc)) =
      (\<Sum>b \<in> set (bc_stored_blocks bc). length (encode_record so b))"
    using sum_list_distinct_conv_sum_set [OF stored_distinct [OF assms(1)]] by simp
  then show ?thesis using sum_mono2 [OF assms(3,2), of "\<lambda>b. length (encode_record so b)"] by simp
qed

lemma cs_append_ok:
  assumes ok: "store_ok so c dk cs" and v: "blk_valid so b"
    and app: "bc_append so (cs_blockchain cs) b = Some (a, bc')" and none: "ar_error a = CE_none"
    and small: "length (encode_records so (bc_stored_blocks (cs_blockchain cs))) + length (encode_record so b) < 2 ^ 63"
  obtains dk' cs' where
    "cs_append so io_ok sqlite_ok dk cs b = Some (\<lparr> car_storage_error = KE_none, car_chain_result = a \<rparr>, dk', cs')"
    "cs_blockchain cs' = bc'"
proof -
  let ?p = "blocks_path (cs_data_directory cs)" and ?old = "encode_records so (bc_stored_blocks (cs_blockchain cs))"
  have content: "dk_files dk ?p = Some ?old"
    and rs: "cs_records cs = record_table so 0 (bc_stored_blocks (cs_blockchain cs))"
    using ok by (simp_all add: store_ok_def)
  note nxt = cs_append_cases [OF ok v app none]
  let ?cs = "cs\<lparr> cs_blockchain := bc', cs_records := cs_records cs @ [(of_nat (length ?old), of_nat (length (encode_record so b)))] \<rparr>"
  have recs: "cs_records ?cs = record_table so 0 (bc_stored_blocks bc')" by (simp add: rs nxt(2) record_table_snoc)
  have "locations_ok (cs_records ?cs)"
    unfolding recs using small by (intro record_table_locations) (simp add: nxt(2))
  then have "rebuild_database so sqlite_ok ?cs (dk_database dk) = (KE_none, Some (index_of so bc' (cs_records ?cs)))"
    using rebuild_database_ok [where cs = ?cs and c = c] nxt recs by simp
  moreover have "length ?old < 2 ^ 64" using small by simp
  ultimately show thesis
    using app none content that
    by (simp add: cs_append_def fs_file_size_def fs_open_app_def fs_write_def io_ok_def Let_def)
qed

section \<open>What a batch of blocks leaves alone\<close>

definition sync_view where
  "sync_view nr = (nr_network nr, nr_sync_peer nr, nr_sync_state nr, nr_sync_target_height nr, nr_sync_target_tip nr,
     nr_pending_sync_request nr, nr_chain_store nr, nr_config nr)"

lemma sync_view_simps [simp]:
  "sync_view (node_emit type details nr) = sync_view nr"
  "sync_view (network_broadcast mt payload excluded nr) = sync_view nr"
  "sync_view (nr_pool_table_update f1 nr) = sync_view nr"
  "sync_view (nr_mempool_store_update f2 nr) = sync_view nr"
  "sync_view (nr_disk_update f3 nr) = sync_view nr"
  "sync_view (nr_sync_received_blocks_update f4 nr) = sync_view nr"
  by (simp_all add: sync_view_def node_emit_def network_broadcast_def)

lemma sync_view_relay [simp]: "sync_view (relay_restored so txs nr) = sync_view nr"
  by (induction so txs nr rule: relay_restored.induct) simp_all

lemma sync_view_update [simp]: "sync_view (update_mempool_after_chain_change so env a nr) = sync_view nr"
  by (auto simp: update_mempool_after_chain_change_def Let_def split: option.split prod.split)

lemma send_known_update_tip [simp]: "send_known (update_tip net h i) peer = send_known net peer"
  by (simp add: send_known_def update_tip_def peers_def)

section \<open>A batch\<close>

text \<open>
  The node is synchronizing with the peer whose active chain is \<open>blocks\<close>: the first \<open>j\<close> of
  them are stored, and the active chain is that of the peer or still below it.
\<close>

definition chain_follows :: "sodium \<Rightarrow> Block list \<Rightarrow> nat \<Rightarrow> Blockchain \<Rightarrow> bool" where
  "chain_follows so blocks j bc \<longleftrightarrow>
     set (take j blocks) \<subseteq> set (bc_stored_blocks bc) \<and>
     inj_on (blk_id so) (set (bc_stored_blocks bc) \<union> set blocks) \<and>
     (\<Sum>b \<in> set (bc_stored_blocks bc) \<union> set blocks. length (encode_record so b)) < 2 ^ 63 \<and>
     (bc_blocks bc = blocks \<or> blk_height (bc_tip bc) < blk_height (last blocks))"

definition node_follows :: "sodium \<Rightarrow> Block list \<Rightarrow> u64 \<Rightarrow> nat \<Rightarrow> NodeRuntime \<Rightarrow> bool" where
  "node_follows so blocks peer j nr \<longleftrightarrow>
     node_ok so (\<lambda>e. e = node_env_ok) nr \<and> valid_chain so (node_chain_id nr) blocks \<and>
     (\<exists>net. nr_network nr = Some net \<and> send_known net peer) \<and>
     nr_sync_peer nr = Some peer \<and> nr_sync_state nr = ''syncing'' \<and>
     nr_sync_target_height nr = Some (blk_height (last blocks)) \<and>
     nr_sync_target_tip nr = Some (blk_id so (last blocks)) \<and>
     (\<exists>cs. nr_chain_store nr = Some cs \<and> chain_follows so blocks j (cs_blockchain cs))"

lemma chain_follows_next:
  assumes r: "bc_reachable so c bc" and v: "valid_chain so c blocks" and j: "0 < j" "j < length blocks"
    and f: "chain_follows so blocks j bc" and new: "blk_id so (blocks ! j) \<notin> blk_id so ` set (bc_stored_blocks bc)"
  obtains a bc' where "bc_append so bc (blocks ! j) = Some (a, bc')" "ar_error a = CE_none"
    "chain_follows so blocks (Suc j) bc'"
    "length (encode_records so (bc_stored_blocks bc)) + length (encode_record so (blocks ! j)) < 2 ^ 63"
proof -
  have parent: "blocks ! (j - 1) \<in> set (bc_stored_blocks bc)"
    using f j nth_mem [of "j - 1" "take j blocks"] by (auto simp: chain_follows_def)
  obtain a bc' where app: "bc_append so bc (blocks ! j) = Some (a, bc')" "ar_error a = CE_none"
    and st: "bc_stored_blocks bc' = bc_stored_blocks bc @ [blocks ! j]"
    and active: "bc_blocks bc' = bc_blocks bc \<or> bc_blocks bc' = take (Suc j) blocks"
    by (rule append_next [OF r v j parent new]) (use f in \<open>auto simp: chain_follows_def\<close>)
  have union: "set (bc_stored_blocks bc') \<union> set blocks = set (bc_stored_blocks bc) \<union> set blocks"
    using st j(2) by auto
  have "bc_reachable so c bc'"
    using valid_chain_nth(2) [OF v j] by (intro bc_reachable.append [OF r _ app(1)]) (simp add: follows_def)
  then have "length (encode_records so (bc_stored_blocks bc')) \<le>
      (\<Sum>b \<in> set (bc_stored_blocks bc) \<union> set blocks. length (encode_record so b))"
    unfolding union [symmetric] by (intro encode_records_sum) auto
  then have small: "length (encode_records so (bc_stored_blocks bc)) + length (encode_record so (blocks ! j)) < 2 ^ 63"
    using f st by (simp add: chain_follows_def)
  have "bc_blocks bc' = blocks \<or> blk_height (bc_tip bc') < blk_height (last blocks)"
    using active
  proof
    assume "bc_blocks bc' = bc_blocks bc"
    then show ?thesis using f by (simp add: chain_follows_def bc_tip_def)
  next
    assume a: "bc_blocks bc' = take (Suc j) blocks"
    show ?thesis
    proof (cases "Suc j = length blocks")
      case False
      then have "unat (blk_height (blocks ! j)) < unat (blk_height (last blocks))"
        using valid_chain_height [OF v j(2)] valid_chain_length [OF v] j(2) by simp
      then show ?thesis using a j(2) by (simp add: bc_tip_def take_Suc_conv_app_nth word_less_nat_alt)
    qed (use a in simp)
  qed
  then have "chain_follows so blocks (Suc j) bc'"
    using f [unfolded chain_follows_def] st j(2) unfolding chain_follows_def union by (auto simp: take_Suc_conv_app_nth)
  then show thesis using app small by (intro that)
qed

lemma apply_blocks_Cons:
  "apply_blocks so env peer k [b] nr = Some (Inr nr') \<Longrightarrow>
     apply_blocks so env peer k (b # bs) nr = apply_blocks so env peer (Suc k) bs nr'"
  by (auto split: if_splits option.splits prod.splits)

text \<open>The changes that a new active chain makes to the view: only the advertised tip.\<close>

lemma sync_view_event:
  "sync_view (sync_block_event so peer b stored a tip nr) = sync_view (if \<not> stored \<and> ar_active_chain_changed a
     then network_update_tip (fst tip) (snd tip) nr else nr)"
  by (simp add: sync_block_event_def Let_def)

lemma node_follows_view:
  assumes "node_follows so blocks peer j nr" and ok: "node_ok so (\<lambda>e. e = node_env_ok) nr'"
    and view: "sync_view nr' = sync_view (if ch then network_update_tip h i nr1 else nr1)"
      "sync_view nr1 = sync_view (nr\<lparr> nr_chain_store := Some cs \<rparr>)"
    and f: "chain_follows so blocks j' (cs_blockchain cs)"
  shows "node_follows so blocks peer j' nr' \<and> nr_pending_sync_request nr' = nr_pending_sync_request nr"
  using assms
  by (cases "nr_network nr")
    (auto simp: node_follows_def sync_view_def network_update_tip_def node_chain_id_def split: if_splits)

lemma node_env_ok_simps [simp]:
  "ne_io node_env_ok = io_ok" "ne_sqlite node_env_ok = sqlite_ok" "ne_pool_sqlite node_env_ok = pool_sqlite_ok"
  by (simp_all add: node_env_ok_def)

lemma apply_next_block:
  assumes f: "node_follows so blocks peer j nr" and j: "0 < j" "j < length blocks"
  obtains nr' where "apply_blocks so (\<lambda>k. node_env_ok) peer k [blocks ! j] nr = Some (Inr nr')"
    "node_follows so blocks peer (Suc j) nr'" "nr_pending_sync_request nr' = nr_pending_sync_request nr"
proof -
  let ?c = "node_chain_id nr" and ?b = "blocks ! j" and ?good = "\<lambda>e. e = node_env_ok"
  from f obtain cs where cs: "nr_chain_store nr = Some cs" and fol: "chain_follows so blocks j (cs_blockchain cs)"
    and ok: "node_ok so ?good nr" and v: "valid_chain so ?c blocks" by (auto simp: node_follows_def)
  have r: "bc_reachable so ?c (cs_blockchain cs)" and store: "store_ok so ?c (nr_disk nr) cs"
    using ok cs by (auto simp: node_inv_def node_base_def files_undone_def node_env_ok_def io_ok_def)
  have b: "blk_valid so ?b" using valid_chain_nth(2) [OF v j] by (simp add: follows_def)
  have keep: "node_ok so ?good nr'" if "apply_blocks so (\<lambda>k. node_env_ok) peer k [?b] nr = Some (Inr nr')" for nr'
    using apply_blocks_ok [OF ok, of "[?b]" "\<lambda>k. node_env_ok" peer k] cs b that by simp
  show thesis
  proof (cases "bc_contains (node_blockchain nr) (blk_id so ?b)")
    case True
    then have "blk_id so ?b \<in> blk_id so ` set (bc_stored_blocks (cs_blockchain cs))"
      using cs lookup_stored [OF bc_invD(1) [OF bc_reachable_inv [OF r]]]
      by (auto simp: node_blockchain_def bc_contains_def)
    then have "?b \<in> set (bc_stored_blocks (cs_blockchain cs))"
      using fol j(2) by (auto simp: chain_follows_def dest: inj_onD)
    then have fol': "chain_follows so blocks (Suc j) (cs_blockchain cs)"
      using fol j(2) by (auto simp: chain_follows_def take_Suc_conv_app_nth)
    define nr' where "nr' = sync_block_event so peer ?b True AppendResult_default (0, replicate 32 0) nr"
    have run: "apply_blocks so (\<lambda>k. node_env_ok) peer k [?b] nr = Some (Inr nr')" using True by (simp add: nr'_def)
    have "sync_view nr = sync_view (nr\<lparr> nr_chain_store := Some cs \<rparr>)" using cs by (simp add: sync_view_def)
    from node_follows_view [OF f keep [OF run], of False 0 "[]" nr cs, OF _ this fol'] run show thesis
      using that by (simp add: nr'_def sync_view_event)
  next
    case False
    then have new: "blk_id so ?b \<notin> blk_id so ` set (bc_stored_blocks (cs_blockchain cs))"
      using cs lookup_stored [OF bc_invD(1) [OF bc_reachable_inv [OF r]]]
      by (auto simp: node_blockchain_def bc_contains_def)
    obtain a bc' where app: "bc_append so (cs_blockchain cs) ?b = Some (a, bc')" "ar_error a = CE_none"
      and fol': "chain_follows so blocks (Suc j) bc'"
      and small: "length (encode_records so (bc_stored_blocks (cs_blockchain cs))) + length (encode_record so ?b) < 2 ^ 63"
      by (rule chain_follows_next [OF r v j fol new])
    obtain dk' cs' where st: "cs_append so io_ok sqlite_ok (nr_disk nr) cs ?b =
        Some (\<lparr> car_storage_error = KE_none, car_chain_result = a \<rparr>, dk', cs')" "cs_blockchain cs' = bc'"
      by (rule cs_append_ok [OF store b app small])
    define nr1 where "nr1 = (let nr1 = nr\<lparr> nr_disk := dk', nr_chain_store := Some cs' \<rparr> in
      if ar_active_chain_changed a then update_mempool_after_chain_change so node_env_ok a nr1 else nr1)"
    define tip where "tip = (if ar_active_chain_changed a then (blk_height (node_tip nr1), blk_id so (node_tip nr1))
      else (0, replicate 32 0))"
    define nr' where "nr' = sync_block_event so peer ?b False a tip nr1"
    have "append_and_update so node_env_ok ?b nr = Some (\<lparr> car_storage_error = KE_none, car_chain_result = a \<rparr>, tip, nr1)"
      using st(1) cs app(2)
      by (simp add: append_and_update_def ChainStoreAppendResult_has_value_def nr1_def tip_def Let_def)
    then have run: "apply_blocks so (\<lambda>k. node_env_ok) peer k [?b] nr = Some (Inr nr')"
      using False app(2) by (simp add: nr'_def ChainStoreAppendResult_has_value_def)
    have "sync_view nr1 = sync_view (nr\<lparr> nr_chain_store := Some cs' \<rparr>)"
      by (simp add: nr1_def Let_def) (simp add: sync_view_def)
    from node_follows_view [OF f keep [OF run], of "ar_active_chain_changed a" "fst tip" "snd tip" nr1 cs', OF _ this] run show thesis
      using that fol' st(2) by (simp add: nr'_def sync_view_event)
  qed
qed

lemma apply_batch:
  assumes "node_follows so blocks peer j nr" and "0 < j" and "j + n \<le> length blocks"
  shows "\<exists>nr'. apply_blocks so (\<lambda>k. node_env_ok) peer k (take n (drop j blocks)) nr = Some (Inr nr') \<and>
    node_follows so blocks peer (j + n) nr' \<and> nr_pending_sync_request nr' = nr_pending_sync_request nr"
  using assms
proof (induction n arbitrary: j k nr)
  case (Suc n)
  have j: "j < length blocks" using Suc.prems(3) by simp
  obtain nr1 where 1: "apply_blocks so (\<lambda>k. node_env_ok) peer k [blocks ! j] nr = Some (Inr nr1)"
    "node_follows so blocks peer (Suc j) nr1" "nr_pending_sync_request nr1 = nr_pending_sync_request nr"
    by (rule apply_next_block [OF Suc.prems(1,2) j])
  have "take (Suc n) (drop j blocks) = blocks ! j # take n (drop (Suc j) blocks)"
    using j by (simp add: Cons_nth_drop_Suc [symmetric])
  then show ?case using Suc.IH [OF 1(2), of "Suc k"] Suc.prems 1 apply_blocks_Cons [OF 1(1)] by simp
qed simp

section \<open>Rounds\<close>

text \<open>The payloads of one type that were handed to the network for a peer.\<close>

definition sent :: "MessageType \<Rightarrow> u64 \<Rightarrow> node_output list \<Rightarrow> bytes list" where
  "sent type peer outputs = concat (map (\<lambda>x. case x of
     NO_send p t payload \<Rightarrow> if p = peer \<and> t = type then [payload] else [] | _ \<Rightarrow> []) outputs)"

lemma sent_simps [simp]:
  "sent type peer [] = []"
  "sent type peer (xs @ ys) = sent type peer xs @ sent type peer ys"
  "sent type peer (NO_event name d # xs) = sent type peer xs"
  "sent type peer (NO_send p t payload # xs) = (if p = peer \<and> t = type then [payload] else []) @ sent type peer xs"
  by (simp_all add: sent_def)

text \<open>
  One round: the peer \<open>server\<close> answers the last request of the node and the node handles the
  answer. The two know each other as \<open>client_id\<close> and \<open>server_id\<close>.
\<close>

definition sync_round :: "sodium \<Rightarrow> NodeRuntime \<Rightarrow> u64 \<Rightarrow> u64 \<Rightarrow> NodeRuntime \<Rightarrow> NodeRuntime option" where
  "sync_round so server client_id server_id nr =
     (let request = last (sent MT_get_blocks server_id (nr_outputs nr));
          answer = last (sent MT_blocks client_id (nr_outputs (handle_get_blocks so client_id request server)))
      in handle_blocks so (\<lambda>k. node_env_ok) server_id answer nr)"

fun sync_rounds :: "sodium \<Rightarrow> NodeRuntime \<Rightarrow> u64 \<Rightarrow> u64 \<Rightarrow> nat \<Rightarrow> NodeRuntime \<Rightarrow> NodeRuntime option" where
  "sync_rounds so server client_id server_id 0 nr = Some nr"
| "sync_rounds so server client_id server_id (Suc n) nr =
     Option.bind (sync_round so server client_id server_id nr) (sync_rounds so server client_id server_id n)"

definition serves :: "NodeRuntime \<Rightarrow> u64 \<Rightarrow> Block list \<Rightarrow> bool" where
  "serves server client_id blocks \<longleftrightarrow>
     (\<exists>cs net. nr_chain_store server = Some cs \<and> nr_network server = Some net \<and> send_known net client_id \<and>
        bc_blocks (cs_blockchain cs) = blocks)"

lemma served_answer:
  assumes "serves server client_id blocks" and "get_blocks_payload_minimum_size \<le> length request"
    and "answer_get_blocks so blocks request = (status, encoded, matched)"
  shows "last (sent MT_blocks client_id (nr_outputs (handle_get_blocks so client_id request server))) =
    blocks_payload (read_u64_le request 0) status encoded"
  using assms
  by (auto simp: serves_def handle_get_blocks_def network_send_def node_emit_def node_blockchain_def Let_def)

text \<open>The node has asked for the blocks after the one with index \<open>i\<close>.\<close>

definition sync_waiting :: "sodium \<Rightarrow> Block list \<Rightarrow> u64 \<Rightarrow> Block \<Rightarrow> NodeRuntime \<Rightarrow> bool" where
  "sync_waiting so blocks peer b nr \<longleftrightarrow>
     node_follows so blocks peer 1 nr \<and> b \<in> set (bc_stored_blocks (node_blockchain nr)) \<and>
     (\<exists>r requests. nr_pending_sync_request nr = Some r \<and>
        sent MT_get_blocks peer (nr_outputs nr) = requests @ [get_blocks_payload r
          (bc_block_locator so (node_blockchain nr) (blk_id so b) maximum_block_locator_entries)])"

definition sync_done :: "Block list \<Rightarrow> NodeRuntime \<Rightarrow> bool" where
  "sync_done blocks nr \<longleftrightarrow> nr_sync_state nr = ''complete'' \<and> bc_blocks (node_blockchain nr) = blocks"

lemma chain_follows_mono: "chain_follows so blocks j bc \<Longrightarrow> i \<le> j \<Longrightarrow> chain_follows so blocks i bc"
  by (auto simp: chain_follows_def dest: subsetD [OF set_take_subset_set_take])

lemma common_prefix_stored:
  assumes f: "chain_follows so blocks j bc" and r: "bc_reachable so c bc" and v: "valid_chain so c blocks"
    and h: "h < length blocks" and stored: "blk_id so (blocks ! h) \<in> blk_id so ` set (bc_stored_blocks bc)"
  shows "chain_follows so blocks (Suc h) bc"
proof -
  have inj: "inj_on (blk_id so) (set (bc_stored_blocks bc) \<union> set blocks)" using f by (simp add: chain_follows_def)
  then have "blocks ! h \<in> set (bc_stored_blocks bc)" using stored h by (auto dest: inj_onD)
  then obtain i where i: "i < length (bc_stored_blocks bc)" "bc_stored_blocks bc ! i = blocks ! h"
    by (auto simp: in_set_conv_nth)
  have "set (branch bc i) \<subseteq> set (bc_stored_blocks bc)"
    using path_total [OF bc_invD(1) [OF bc_reachable_inv [OF r]] i(1)] i(1) by (fastforce simp: branch_def)
  then show ?thesis using f branch_of_common [OF r v i(1) h i(2) inj] by (simp add: chain_follows_def)
qed

text \<open>The end of a batch.\<close>

lemma conclude_done:
  assumes "node_follows so blocks peer j nr" and "bc_blocks (node_blockchain nr) = blocks"
  shows "sync_done blocks (conclude_batch so peer e nr)"
  using assms
  by (auto simp: node_follows_def conclude_batch_def sync_done_def bc_tip_def node_emit_def node_blockchain_def Let_def)

lemma follows_all:
  assumes f: "node_follows so blocks peer j nr" and j: "length blocks \<le> j"
  shows "bc_blocks (node_blockchain nr) = blocks"
proof -
  from f obtain cs where cs: "nr_chain_store nr = Some cs" "chain_follows so blocks j (cs_blockchain cs)"
    and ok: "node_ok so (\<lambda>e. e = node_env_ok) nr" and v: "valid_chain so (node_chain_id nr) blocks"
    by (auto simp: node_follows_def)
  have r: "bc_reachable so (node_chain_id nr) (cs_blockchain cs)"
    using ok cs(1) by (simp add: node_inv_def node_base_def)
  have "last blocks \<in> set (bc_stored_blocks (cs_blockchain cs))"
    using cs(2) j valid_chain_not_empty [OF v] by (auto simp: chain_follows_def)
  from stored_not_higher [OF r this] show ?thesis
    using cs by (auto simp: chain_follows_def node_blockchain_def)
qed

lemma send_request_waiting:
  assumes f: "node_follows so blocks peer j nr" and j: "0 < j"
    and b: "b \<in> set (bc_stored_blocks (node_blockchain nr))" "nr_sync_locator_tip nr = Some (blk_id so b)"
    and pending: "nr_pending_sync_request nr = None"
  shows "sync_waiting so blocks peer b (send_sync_request so peer nr)"
proof -
  from f obtain cs net where cs: "nr_chain_store nr = Some cs" and fol: "chain_follows so blocks j (cs_blockchain cs)"
    and net: "nr_network nr = Some net" "send_known net peer"
    and ok: "node_ok so (\<lambda>e. e = node_env_ok) nr" by (auto simp: node_follows_def)
  let ?loc = "bc_block_locator so (node_blockchain nr) (blk_id so b) maximum_block_locator_entries"
  have r: "bc_reachable so (node_chain_id nr) (node_blockchain nr)"
    using ok cs by (simp add: node_inv_def node_base_def node_blockchain_def)
  from b(1) obtain i where i: "i < length (bc_stored_blocks (node_blockchain nr))"
    "bc_stored_blocks (node_blockchain nr) ! i = b" by (auto simp: in_set_conv_nth)
  have loc: "?loc \<noteq> []"
    by (rule block_locator_branch [OF r i(1), of maximum_block_locator_entries, unfolded i(2)])
      (auto simp: maximum_block_locator_entries_def)
  define r where "r = nr_next_sync_request nr"
  define nr1 where "nr1 = send_sync_request so peer nr"
  have eq: "nr1 = node_emit ''sync_request_sent''
      [(''locator_count'', J_number (length ?loc)), (''locator_height'', J_unsigned (fst (hd ?loc))),
       (''peer_id'', J_unsigned peer), (''request_id'', J_unsigned r)]
      (nr\<lparr> nr_next_sync_request := r + 1, nr_pending_sync_request := Some r,
          nr_outputs := nr_outputs nr @ [NO_send peer MT_get_blocks (get_blocks_payload r ?loc)] \<rparr>)"
    using f cs net b(2) pending loc
    by (auto simp: nr1_def send_sync_request_def node_follows_def network_send_def node_blockchain_def r_def Let_def)
  have core: "node_core nr1 = node_core nr" by (simp add: nr1_def)
  have "node_follows so blocks peer 1 nr1"
    using f node_ok_keep [OF ok core] chain_follows_mono [OF fol, of 1] j cs net
    by (auto simp: node_follows_def eq node_emit_def node_chain_id_def)
  moreover have "node_blockchain nr1 = node_blockchain nr" using node_ok_core(5) [OF core] .
  ultimately show ?thesis
    using b(1) by (simp add: sync_waiting_def nr1_def [symmetric]) (simp add: eq node_emit_def)
qed

lemma conclude_waiting:
  assumes f: "node_follows so blocks peer j nr" and "0 < j" and not: "bc_blocks (node_blockchain nr) \<noteq> blocks"
    and "b \<in> set (bc_stored_blocks (node_blockchain nr))" "nr_sync_locator_tip nr = Some (blk_id so b)"
    and "nr_pending_sync_request nr = None"
  shows "sync_waiting so blocks peer b (conclude_batch so peer False nr)"
proof -
  have "blk_height (node_tip nr) < blk_height (last blocks)"
    using f not by (auto simp: node_follows_def chain_follows_def node_blockchain_def)
  then have "conclude_batch so peer False nr = send_sync_request so peer nr"
    using f by (auto simp: conclude_batch_def node_follows_def Let_def)
  then show ?thesis using send_request_waiting [OF assms(1,2,4-6)] by simp
qed

text \<open>What the answer of an honest peer does to a waiting node.\<close>

lemma handle_honest_answer:
  fixes request_id so blocks h peer nr
  assumes f: "node_follows so blocks peer (Suc h) nr" and h: "h < length blocks"
    and pending: "nr_pending_sync_request nr = Some request_id"
  defines "bs \<equiv> take 4 (drop (Suc h) blocks)"
  obtains nr' where "handle_blocks so (\<lambda>k. node_env_ok) peer
      (blocks_payload request_id sync_status_ok (map blk_serialize bs)) nr = Some nr'"
    "sync_done blocks nr' \<or> (\<exists>k. h < k \<and> k < length blocks \<and> sync_waiting so blocks peer (blocks ! k) nr')"
proof -
  let ?payload = "blocks_payload request_id sync_status_ok (map blk_serialize bs)"
  define n where "n = length bs"
  have n: "bs = take n (drop (Suc h) blocks)" "Suc h + n \<le> length blocks" "n \<le> 4"
    using h by (auto simp: n_def bs_def min_def)
  have v: "valid_chain so (node_chain_id nr) blocks" using f by (simp add: node_follows_def)
  have "blk_valid so (blocks ! k)" if "0 < k" "k < length blocks" for k
    using valid_chain_nth(2) [OF v that] by (simp add: follows_def)
  then have "list_all (blk_valid so) bs" by (auto simp: bs_def list_all_length)
  note dec = blocks_answer_decodes [OF this, of request_id, folded n_def]
  define nr1 where "nr1 = nr\<lparr> nr_pending_sync_request := None \<rparr>"
  have f1: "node_follows so blocks peer (Suc h) nr1"
    using f node_ok_keep [of so _ _ nr nr1] by (auto simp: nr1_def node_follows_def node_chain_id_def)
  obtain nr2 where run: "apply_blocks so (\<lambda>k. node_env_ok) peer 0 bs nr1 = Some (Inr nr2)"
    and f2: "node_follows so blocks peer (Suc h + n) nr2" and p2: "nr_pending_sync_request nr2 = None"
    using apply_batch [OF f1 _ n(2), of 0] n(1) by (auto simp: nr1_def)
  define nr3 where "nr3 = (if bs \<noteq> [] then nr2\<lparr> nr_sync_locator_tip := Some (blk_id so (last bs)) \<rparr> else nr2)"
  have f3: "node_follows so blocks peer (Suc h + n) nr3" "node_blockchain nr3 = node_blockchain nr2"
    using f2 node_ok_keep [of so _ _ nr2 nr3]
    by (auto simp: nr3_def node_follows_def node_chain_id_def node_blockchain_def)
  have len: "\<not> length ?payload < blocks_payload_minimum_size" using dec(1) n(3) by simp
  have "handle_blocks so (\<lambda>k. node_env_ok) peer ?payload nr = Some (conclude_batch so peer (n = 0) nr3)"
    using f dec n(3) len run pending
    by (auto simp: handle_blocks_def node_follows_def nr1_def [symmetric] nr3_def maximum_blocks_per_sync_batch_def Let_def)
  moreover have "sync_done blocks (conclude_batch so peer (n = 0) nr3) \<or>
      (\<exists>k. h < k \<and> k < length blocks \<and> sync_waiting so blocks peer (blocks ! k) (conclude_batch so peer (n = 0) nr3))"
  proof (cases "bc_blocks (node_blockchain nr3) = blocks")
    case True
    then show ?thesis using conclude_done [OF f3(1)] by blast
  next
    case False
    then have "Suc h + n < length blocks" using follows_all [OF f3(1)] by (meson not_le)
    moreover have "n = min 4 (length blocks - Suc h)" by (simp add: n_def bs_def)
    ultimately have n0: "0 < n" by auto
    have last: "last bs = blocks ! (h + n)" using n0 n(1,2) by (simp add: last_conv_nth n_def [symmetric])
    have "blocks ! (h + n) \<in> set (take (Suc h + n) blocks)"
      using n(2) nth_mem [of "h + n" "take (Suc h + n) blocks"] by simp
    then have "blocks ! (h + n) \<in> set (bc_stored_blocks (node_blockchain nr3))"
      using f3(1) by (auto simp: node_follows_def chain_follows_def node_blockchain_def)
    then have "sync_waiting so blocks peer (blocks ! (h + n)) (conclude_batch so peer False nr3)"
      using n0 False p2 last by (intro conclude_waiting [OF f3(1)]) (auto simp: nr3_def n_def)
    then show ?thesis using n0 n(2) by (intro disjI2 exI [of _ "h + n"]) auto
  qed
  ultimately show thesis by (rule that)
qed

lemma sync_round_progress:
  assumes w: "sync_waiting so blocks peer b nr" and s: "serves server client_id blocks"
  obtains nr' where "sync_round so server client_id peer nr = Some nr'"
    "sync_done blocks nr' \<or>
     (\<exists>k. k < length blocks \<and> sync_waiting so blocks peer (blocks ! k) nr' \<and> (\<forall>j < length blocks. b = blocks ! j \<longrightarrow> j < k))"
proof -
  let ?c = "node_chain_id nr" and ?bc = "node_blockchain nr"
  let ?loc = "bc_block_locator so ?bc (blk_id so b) maximum_block_locator_entries"
  from w obtain r requests where r: "nr_pending_sync_request nr = Some r"
    "sent MT_get_blocks peer (nr_outputs nr) = requests @ [get_blocks_payload r ?loc]"
    and f: "node_follows so blocks peer 1 nr" and b: "b \<in> set (bc_stored_blocks ?bc)"
    by (auto simp: sync_waiting_def)
  have v: "valid_chain so ?c blocks" and ok: "node_ok so (\<lambda>e. e = node_env_ok) nr"
    and fol: "chain_follows so blocks 1 ?bc" and cs: "nr_chain_store nr \<noteq> None"
    using f by (auto simp: node_follows_def node_blockchain_def)
  have reach: "bc_reachable so ?c ?bc" using ok cs by (auto simp: node_inv_def node_base_def node_blockchain_def)
  from b obtain i where i: "i < length (bc_stored_blocks ?bc)" "bc_stored_blocks ?bc ! i = b"
    by (auto simp: in_set_conv_nth)
  obtain h where h: "\<forall>(h, j) \<in> set ?loc. length j = 32" "length ?loc \<le> 32" "?loc \<noteq> []"
    "find (on_chain so blocks) ?loc = Some (h, blk_id so (blocks ! unat h))" "unat h < length blocks"
    "blk_id so (blocks ! unat h) \<in> blk_id so ` set (branch ?bc i)"
    "on_chain so blocks (locator_entry so b) \<longrightarrow> h = blk_height b"
    by (rule locator_matches [OF reach i(1) v, unfolded i(2)])
  have "set (branch ?bc i) \<subseteq> set (bc_stored_blocks ?bc)"
    using path_total [OF bc_invD(1) [OF bc_reachable_inv [OF reach]] i(1)] i(1) by (fastforce simp: branch_def)
  then have "chain_follows so blocks (Suc (unat h)) ?bc"
    using h(6) by (intro common_prefix_stored [OF fol reach v h(5)]) auto
  then have f': "node_follows so blocks peer (Suc (unat h)) nr"
    using f by (auto simp: node_follows_def node_blockchain_def)
  obtain nr' where nr': "handle_blocks so (\<lambda>k. node_env_ok) peer (blocks_payload r sync_status_ok
      (map blk_serialize (take 4 (drop (Suc (unat h)) blocks)))) nr = Some nr'"
    "sync_done blocks nr' \<or> (\<exists>k. unat h < k \<and> k < length blocks \<and> sync_waiting so blocks peer (blocks ! k) nr')"
    by (rule handle_honest_answer [OF f' h(5) r(1)])
  have "length (get_blocks_payload r ?loc) = 12 + 40 * length ?loc" "read_u64_le (get_blocks_payload r ?loc) 0 = r"
    using length_locator_bytes [OF h(1)] by (simp_all add: get_blocks_payload_eq field_read)
  then have "sync_round so server client_id peer nr = Some nr'"
    using served_answer [OF s _ answer_request [OF h(1,2,4), of r]] r(2) h(3) nr'(1)
    by (simp add: sync_round_def protocol_sizes Suc_le_eq)
  moreover have "j = unat h" if "j < length blocks" "b = blocks ! j" for j
    using h(7) that valid_chain_height [OF v that(1)] by (simp add: locator_entry_def)
  ultimately show thesis using nr'(2) by (intro that [of nr']) auto
qed

lemma sync_rounds_progress:
  assumes "sync_waiting so blocks peer (blocks ! j) nr" and "j < length blocks" and s: "serves server client_id blocks"
  shows "\<exists>n nr'. n \<le> length blocks - j \<and> sync_rounds so server client_id peer n nr = Some nr' \<and> sync_done blocks nr'"
  using assms(1,2)
proof (induction "length blocks - j" arbitrary: j nr rule: less_induct)
  case less
  obtain nr1 where 1: "sync_round so server client_id peer nr = Some nr1"
    "sync_done blocks nr1 \<or> (\<exists>k. k < length blocks \<and> sync_waiting so blocks peer (blocks ! k) nr1 \<and>
       (\<forall>i < length blocks. blocks ! j = blocks ! i \<longrightarrow> i < k))"
    by (rule sync_round_progress [OF less.prems(1) s])
  from 1(2) show ?case
  proof
    assume "sync_done blocks nr1"
    then show ?thesis using 1(1) less.prems(2) by (intro exI [of _ 1] exI [of _ nr1]) auto
  next
    assume "\<exists>k. k < length blocks \<and> sync_waiting so blocks peer (blocks ! k) nr1 \<and>
       (\<forall>i < length blocks. blocks ! j = blocks ! i \<longrightarrow> i < k)"
    then obtain k where k: "k < length blocks" "sync_waiting so blocks peer (blocks ! k) nr1" "j < k"
      using less.prems(2) by blast
    have "length blocks - k < length blocks - j" using k(1,3) by simp
    then obtain n nr' where "n \<le> length blocks - k" "sync_rounds so server client_id peer n nr1 = Some nr'"
      "sync_done blocks nr'" using less.hyps [OF _ k(2,1)] by blast
    then show ?thesis using 1(1) k(1,3) by (intro exI [of _ "Suc n"] exI [of _ nr']) auto
  qed
qed

section \<open>Properties\<close>

lemma encode_records_set:
  "(\<Sum>b \<in> set bs. length (encode_record so b)) \<le> length (encode_records so bs)"
  by (induction bs) (auto simp: sum.insert_if)

lemma sync_starts:
  assumes ok: "node_ok so (\<lambda>e. e = node_env_ok) nr" and cs: "nr_chain_store nr = Some cs"
    and net: "nr_network nr = Some net"
    and status: "find (\<lambda>v. ps_id v = peer \<and> ps_handshake_complete v \<and> ps_services v AND full_node_service \<noteq> 0) (peers net) = Some status"
    and target: "ps_remote_height status = blk_height (last blocks)" "ps_remote_tip status = blk_id so (last blocks)"
      "blk_height (bc_tip (cs_blockchain cs)) < blk_height (last blocks)"
    and idle: "nr_pending_sync_request nr = None" "nr_sync_state nr \<noteq> ''syncing''"
    and v: "valid_chain so (node_chain_id nr) blocks"
    and inj: "inj_on (blk_id so) (set (bc_stored_blocks (cs_blockchain cs)) \<union> set blocks)"
    and small: "length (encode_records so (bc_stored_blocks (cs_blockchain cs) @ blocks)) < 2 ^ 63"
  shows "sync_waiting so blocks peer (bc_tip (cs_blockchain cs)) (maybe_start_sync so peer nr)"
proof -
  let ?bc = "cs_blockchain cs" and ?c = "node_chain_id nr"
  have reach: "bc_reachable so ?c ?bc" using ok cs by (simp add: node_inv_def node_base_def)
  note inv = bc_reachable_inv [OF reach]
  define nr1 where "nr1 = node_emit ''sync_started''
    [(''local_height'', J_unsigned (blk_height (bc_tip ?bc))), (''peer_id'', J_unsigned peer),
     (''target_height'', J_unsigned (ps_remote_height status)), (''target_tip'', J_hex (ps_remote_tip status))]
    (nr\<lparr> nr_sync_peer := Some peer, nr_sync_target_height := Some (ps_remote_height status),
        nr_sync_target_tip := Some (ps_remote_tip status), nr_sync_locator_tip := Some (blk_id so (bc_tip ?bc)),
        nr_sync_received_blocks := 0, nr_sync_state := ''syncing'' \<rparr>)"
  have start: "maybe_start_sync so peer nr = send_sync_request so peer nr1"
    using cs net status target idle
    by (auto simp: maybe_start_sync_def network_peers_def node_blockchain_def nr1_def Let_def)
  have same: "nr_chain_store nr1 = nr_chain_store nr" "nr_network nr1 = nr_network nr" "node_chain_id nr1 = ?c"
    "nr_pending_sync_request nr1 = None" "nr_sync_locator_tip nr1 = Some (blk_id so (bc_tip ?bc))"
    "nr_sync_peer nr1 = Some peer" "nr_sync_state nr1 = ''syncing''"
    "nr_sync_target_height nr1 = Some (blk_height (last blocks))" "nr_sync_target_tip nr1 = Some (blk_id so (last blocks))"
    using idle target by (simp_all add: nr1_def node_emit_def node_chain_id_def)
  have ok1: "node_ok so (\<lambda>e. e = node_env_ok) nr1" by (rule node_ok_keep [OF ok]) (simp add: nr1_def)
  have "take 1 blocks = [genesis_block so ?c]"
    using valid_chain_hd [OF v] valid_chain_not_empty [OF v] by (cases blocks) auto
  moreover have "genesis_block so ?c \<in> set (bc_stored_blocks ?bc)"
    using stored_blocks_genesis(1) [OF reach] by (metis list.set_intros(1))
  moreover have "(\<Sum>b \<in> set (bc_stored_blocks ?bc) \<union> set blocks. length (encode_record so b)) < 2 ^ 63"
    using encode_records_set [of so "bc_stored_blocks ?bc @ blocks"] small by simp
  ultimately have "chain_follows so blocks 1 ?bc" using inj target(3) by (simp add: chain_follows_def)
  moreover have "send_known net peer" using find_SomeD [OF status] by (auto simp: send_known_def)
  ultimately have "node_follows so blocks peer 1 nr1"
    using ok1 v cs net by (simp add: node_follows_def same)
  moreover have "bc_tip ?bc \<in> set (bc_stored_blocks (node_blockchain nr1))"
    using bc_tip_eq [OF inv] bc_invD(3) [OF inv] cs by (simp add: node_blockchain_def same)
  ultimately show ?thesis unfolding start using same by (intro send_request_waiting [where j = 1]) simp_all
qed

text \<open>
  C5. Synchronization ends with the chain of the peer. A node and a full node of the same
  network satisfy the invariant of running nodes, know each other, and the full node's active
  chain is higher. When its handshake completes and nothing else interferes, the node sends a
  request, and after at most one round of answer and next request per block of that chain, and
  one more, it reports \<open>complete\<close> and its active chain is that of the peer, however the chains
  diverged before. The system calls do not fail, no two of the blocks involved have the same
  hash, and the block file stays below \<open>2 ^ 63\<close> bytes.\<close>

theorem sync_completes:
  assumes "node_ok so (\<lambda>e. e = node_env_ok) nr" and "nr_chain_store nr = Some cs" and "nr_network nr = Some net"
    and "find (\<lambda>v. ps_id v = server_id \<and> ps_handshake_complete v \<and> ps_services v AND full_node_service \<noteq> 0) (peers net) = Some status"
    and "ps_remote_height status = blk_height (last blocks)" and "ps_remote_tip status = blk_id so (last blocks)"
    and "blk_height (bc_tip (cs_blockchain cs)) < blk_height (last blocks)"
    and "nr_pending_sync_request nr = None" and "nr_sync_state nr \<noteq> ''syncing''"
    and server: "node_ok so good server" "serves server client_id blocks" "node_chain_id server = node_chain_id nr"
    and "inj_on (blk_id so) (set (bc_stored_blocks (cs_blockchain cs)) \<union> set blocks)"
    and "length (encode_records so (bc_stored_blocks (cs_blockchain cs) @ blocks)) < 2 ^ 63"
  shows "\<exists>n nr'. n \<le> Suc (length blocks) \<and>
    sync_rounds so server client_id server_id n (maybe_start_sync so server_id nr) = Some nr' \<and>
    nr_sync_state nr' = ''complete'' \<and> bc_blocks (node_blockchain nr') = blocks"
proof -
  have v: "valid_chain so (node_chain_id nr) blocks"
    using server bc_blocks_valid [OF bc_reachable_inv] by (fastforce simp: serves_def node_inv_def node_base_def)
  have w: "sync_waiting so blocks server_id (bc_tip (cs_blockchain cs)) (maybe_start_sync so server_id nr)"
    by (rule sync_starts [OF assms(1-9) v assms(13,14)])
  obtain nr1 where 1: "sync_round so server client_id server_id (maybe_start_sync so server_id nr) = Some nr1"
    "sync_done blocks nr1 \<or> (\<exists>k. k < length blocks \<and> sync_waiting so blocks server_id (blocks ! k) nr1 \<and>
      (\<forall>j < length blocks. bc_tip (cs_blockchain cs) = blocks ! j \<longrightarrow> j < k))"
    by (rule sync_round_progress [OF w server(2)])
  from 1(2) show ?thesis
  proof
    assume "sync_done blocks nr1"
    then show ?thesis using 1(1) by (intro exI [of _ 1] exI [of _ nr1]) (auto simp: sync_done_def)
  next
    assume "\<exists>k. k < length blocks \<and> sync_waiting so blocks server_id (blocks ! k) nr1 \<and>
      (\<forall>j < length blocks. bc_tip (cs_blockchain cs) = blocks ! j \<longrightarrow> j < k)"
    then obtain n nr' where "n \<le> length blocks" "sync_rounds so server client_id server_id n nr1 = Some nr'"
      "sync_done blocks nr'" using sync_rounds_progress [OF _ _ server(2)] by (metis diff_le_self le_trans)
    then show ?thesis using 1(1) by (intro exI [of _ "Suc n"] exI [of _ nr']) (auto simp: sync_done_def)
  qed
qed

section \<open>An example\<close>

text \<open>A node that only has Genesis and the node of the earlier example, which has one block more.\<close>

lemma stored_ids_inj:
  assumes "bc_reachable so c bc"
  shows "inj_on (blk_id so) (set (bc_stored_blocks bc))"
proof (rule inj_onI)
  fix b b'
  assume "b \<in> set (bc_stored_blocks bc)" "b' \<in> set (bc_stored_blocks bc)" "blk_id so b = blk_id so b'"
  then obtain i j where "i < length (bc_stored_blocks bc)" "j < length (bc_stored_blocks bc)"
    "b = bc_stored_blocks bc ! i" "b' = bc_stored_blocks bc ! j"
    "blk_id so (bc_stored_blocks bc ! i) = blk_id so (bc_stored_blocks bc ! j)" by (auto simp: in_set_conv_nth)
  then show "b = b'" using tree_okD(7) [OF bc_invD(1) [OF bc_reachable_inv [OF assms]]] by (metis option.inject)
qed

definition demo_status :: "u64 \<Rightarrow> PeerStatus" where
  "demo_status peer = \<lparr> ps_id = peer, ps_direction = PD_inbound, ps_endpoint = ''e'', ps_handshake_complete = True,
     ps_protocol_version = 1, ps_services = full_node_service, ps_remote_height = 1,
     ps_remote_tip = blk_id demo_sodium demo_b1, ps_last_ping_nonce = None, ps_last_pong_nonce = None \<rparr>"

definition demo_peer_net :: "Block \<Rightarrow> u64 \<Rightarrow> PeerNet" where
  "demo_peer_net tip peer = (PeerNet_create ((peer_network_config demo_sodium demo_opened)\<lparr> pc_tip_height := blk_height tip,
     pc_tip_block_id := blk_id demo_sodium tip \<rparr>) (replicate 16 1))\<lparr> pn_peer_status := [(peer, demo_status peer)] \<rparr>"

definition demo_server :: NodeRuntime where
  "demo_server = demo_node\<lparr> nr_network := Some (demo_peer_net demo_b1 3) \<rparr>"

definition demo_genesis_store :: ChainStore where
  "demo_genesis_store = \<lparr> cs_data_directory = ''d'', cs_blockchain = Blockchain_create demo_sodium 1,
     cs_records = record_table demo_sodium 0 [genesis_block demo_sodium 1] \<rparr>"

definition demo_client :: NodeRuntime where
  "demo_client = demo_new\<lparr> nr_chain_store := Some demo_genesis_store,
     nr_disk := \<lparr> dk_files = [blocks_path ''d'' \<mapsto> encode_record demo_sodium (genesis_block demo_sodium 1)],
       dk_database = None \<rparr>,
     nr_network := Some (demo_peer_net (genesis_block demo_sodium 1) 7) \<rparr>"

lemma demo_server_ok:
  "node_ok demo_sodium (\<lambda>e. e = node_env_ok) demo_server" "serves demo_server 3 [genesis_block demo_sodium 1, demo_b1]"
  "node_chain_id demo_server = 1"
proof -
  have ok: "node_ok demo_sodium (\<lambda>e. e = node_env_ok) demo_node"
    by (rule node_reachable_ok [OF demo_node_reachable sodium_ok_demo])
  show "node_ok demo_sodium (\<lambda>e. e = node_env_ok) demo_server"
    using ok demo_node_chain
    by (simp add: node_inv_def node_base_def tip_ok_def demo_server_def node_chain_id_def demo_peer_net_def
        PeerNet_create_def demo_store_def demo_chain_facts tip_of_def)
  show "serves demo_server 3 [genesis_block demo_sodium 1, demo_b1]"
    using demo_node_chain
    by (simp add: serves_def demo_server_def demo_store_def demo_chain_facts send_known_def peers_def demo_peer_net_def
        demo_status_def)
  have "nr_config demo_node = demo_runtime_config"
    by (simp add: demo_node_def start_network_def demo_opened_def demo_new_simps rc_has_role_def peer_network_config_def
      PeerNet_start_def PeerNet_create_def Let_def)
  then show "node_chain_id demo_server = 1"
    by (simp add: node_chain_id_def demo_server_def demo_new_simps network_parameters_def development_def)
qed

lemma demo_client_ok:
  "node_ok demo_sodium (\<lambda>e. e = node_env_ok) demo_client" "nr_chain_store demo_client = Some demo_genesis_store"
  "nr_network demo_client = Some (demo_peer_net (genesis_block demo_sodium 1) 7)" "node_chain_id demo_client = 1"
  "nr_pending_sync_request demo_client = None" "nr_sync_state demo_client = ''idle''"
proof -
  show c: "node_chain_id demo_client = 1"
    by (simp add: node_chain_id_def demo_client_def demo_new_simps network_parameters_def development_def)
  have "bc_reachable demo_sodium 1 (Blockchain_create demo_sodium 1)"
    by (rule bc_reachable.create) (simp add: supported_chain)
  moreover have "nr_wallet demo_client = None" "nr_mempool_store demo_client = None"
    by (simp_all add: demo_client_def demo_new_def NodeRuntime_create_def)
  ultimately show "node_ok demo_sodium (\<lambda>e. e = node_env_ok) demo_client"
    using c
    by (simp add: node_inv_def node_base_def tip_ok_def)
      (simp add: demo_client_def demo_genesis_store_def store_ok_def Blockchain_create_def demo_peer_net_def
        PeerNet_create_def tip_of_def)
qed (simp_all add: demo_client_def demo_new_def NodeRuntime_create_def)

theorem sync_completes_witness:
  "\<exists>n nr'. sync_rounds demo_sodium demo_server 3 7 n (maybe_start_sync demo_sodium 7 demo_client) = Some nr' \<and>
     nr_sync_state nr' = ''complete'' \<and> bc_blocks (node_blockchain nr') = [genesis_block demo_sodium 1, demo_b1]"
proof -
  let ?g = "genesis_block demo_sodium 1"
  have st: "bc_stored_blocks (cs_blockchain demo_genesis_store) = [?g]" "bc_tip (cs_blockchain demo_genesis_store) = ?g"
    by (simp_all add: demo_genesis_store_def Blockchain_create_def bc_tip_def)
  have inj: "inj_on (blk_id demo_sodium) {?g, demo_b1}"
    using stored_ids_inj [OF demo_chain_reachable(1)] by (simp add: demo_chain_facts)
  have size: "length (encode_records demo_sodium ([?g] @ [?g, demo_b1])) < 2 ^ 63"
    using demo_stored_valid blk_serialize_bounds(2) [of demo_sodium ?g] blk_serialize_bounds(2) [of demo_sodium demo_b1]
    by (simp add: length_encode_record)
  have "\<exists>n nr'. n \<le> Suc (length [?g, demo_b1]) \<and>
    sync_rounds demo_sodium demo_server 3 7 n (maybe_start_sync demo_sodium 7 demo_client) = Some nr' \<and>
    nr_sync_state nr' = ''complete'' \<and> bc_blocks (node_blockchain nr') = [?g, demo_b1]"
    by (rule sync_completes [where cs = demo_genesis_store and net = "demo_peer_net ?g 7" and status = "demo_status 7",
          OF demo_client_ok(1-3) _ _ _ _ demo_client_ok(5) _ demo_server_ok(1,2)])
      (use inj size in \<open>simp_all add: demo_client_ok demo_server_ok st insert_commute\<close>,
       simp_all add: peers_def demo_peer_net_def demo_status_def full_node_service_def demo_b1_simps genesis_block_def)
  then show ?thesis by blast
qed

end
