(* ===== verification/BBC_Mining.thy ===== *)
theory BBC_Mining
  imports BBC_Sync_Live
begin

text \<open>
  From the template to the accepted block: what a full node offers for mining is accepted by
  the node itself once a nonce meets the target. The one exception is a tip whose timestamp is
  the largest one: nothing can follow it.
\<close>

section \<open>Blocks made from a template\<close>

lemma template_fields:
  assumes "block_template so nr a = Inr t"
  shows "blk_height t = blk_height (node_tip nr) + 1" "blk_previous_block_hash t = blk_id so (node_tip nr)"
    "blk_reward_recipient t = Some a" "blk_timestamp t = blk_timestamp (node_tip nr) + 1"
    "blk_chain_id t = blk_chain_id (node_tip nr)" "\<not> is_genesis t"
    "nr_mempool_store nr = Some ms \<Longrightarrow> blk_transactions t = mp_select so (ms_mempool ms) maximum_transactions_per_block"
  using assms
  by (auto simp: block_template_def create_block_def is_genesis_def Let_def split: if_splits)

lemma with_nonce_simps:
  assumes "\<not> is_genesis b"
  shows "blk_height (with_mining_nonce b n) = blk_height b" "blk_chain_id (with_mining_nonce b n) = blk_chain_id b"
    "blk_previous_block_hash (with_mining_nonce b n) = blk_previous_block_hash b"
    "blk_reward_recipient (with_mining_nonce b n) = blk_reward_recipient b"
    "blk_timestamp (with_mining_nonce b n) = blk_timestamp b"
    "blk_transactions (with_mining_nonce b n) = blk_transactions b" "\<not> is_genesis (with_mining_nonce b n)"
  using assms by (simp_all add: with_mining_nonce_def is_genesis_def)

lemma template_valid:
  assumes "block_template so nr a = Inr t" and "Address_ok a"
    and "\<And>ms. nr_mempool_store nr = Some ms \<Longrightarrow> mp_inv so (ms_mempool ms)"
  shows "blk_valid so (with_mining_nonce t n)"
proof -
  have "blk_valid so t"
    by (rule create_block_Inr [OF assms(1) [unfolded block_template_def Let_def]])
      (use mp_select_ready(1) [OF assms(3)] assms(2) in \<open>auto simp: blk_id_def Address_ok_def split: option.split\<close>)
  then show ?thesis
    using template_fields(6) [OF assms(1)] by (auto simp: with_mining_nonce_def blk_valid_def is_genesis_def)
qed

lemma template_follows:
  assumes ok: "node_ok so good nr" "pool_written good"
    and cs: "nr_chain_store nr = Some cs" and ms: "nr_mempool_store nr = Some ms"
    and t: "block_template so nr a = Inr t" "Address_ok a" "validate_proof_of_work so (with_mining_nonce t n) = PE_none"
    and room: "blk_height (node_tip nr) \<noteq> u64_max" "blk_timestamp (node_tip nr) \<noteq> u64_max"
      "(unat (blk_height (node_tip nr)) + 1) * unat block_subsidy < 2 ^ 64"
      "\<forall>tx \<in> set (mp_transactions (ms_mempool ms)). tx_account_nonce tx \<noteq> u64_max"
  shows "follows so (bc_blocks (cs_blockchain cs)) (with_mining_nonce t n)"
proof -
  let ?bc = "cs_blockchain cs" and ?b = "with_mining_nonce t n"
  have bc: "node_blockchain nr = ?bc" using cs by (simp add: node_blockchain_def)
  have reach: "bc_reachable so (node_chain_id nr) ?bc" and inv: "mp_inv so (ms_mempool ms)"
    and st: "mp_chain_state (ms_mempool ms) = bc_state ?bc"
    using ok cs ms by (auto simp: node_inv_def node_base_def ms_ok_def)
  note binv = bc_reachable_inv [OF reach]
  note fields = template_fields [OF t(1)] and wn = with_nonce_simps [OF template_fields(6) [OF t(1)]]
  have tip: "last (bc_blocks ?bc) = node_tip nr" by (simp add: bc bc_tip_def)
  have "total_balance (bc_state ?bc) = unat (blk_height (node_tip nr)) * unat block_subsidy"
    using valid_chain_supply [OF bc_blocks_valid [OF binv]] tip by (simp add: bc_state_replay [OF binv])
  then have "st_error (fst (apply_block_state so (bc_state ?bc) ?b)) = SE_none"
    unfolding st [symmetric] using room(3,4) st
    by (intro mined_selection_applies [OF inv, where n = maximum_transactions_per_block and a = a])
      (simp_all add: wn fields fields(7) [OF ms])
  moreover have "blk_timestamp (node_tip nr) < blk_timestamp (node_tip nr) + 1"
    using room(2) unat_Suc_not_max [of "blk_timestamp (node_tip nr)"] by (simp add: word_less_nat_alt)
  moreover have "unat (blk_height (node_tip nr) + 1) = Suc (unat (blk_height (node_tip nr)))"
    using room(1) by (simp add: unat_Suc_not_max)
  ultimately show ?thesis
    using t(3) template_valid [OF t(1,2), of n] inv ms
    by (simp add: follows_def wn fields tip bc_state_replay [OF binv])
qed

section \<open>The block reaches the chain\<close>

lemma append_follower:
  assumes r: "bc_reachable so c bc" and f: "follows so (bc_blocks bc) b"
    and new: "blk_id so b \<notin> blk_id so ` set (bc_stored_blocks bc)"
  obtains a bc' where "bc_append so bc b = Some (a, bc')" "ar_error a = CE_none" "ar_active_chain_changed a"
    "bc_blocks bc' = bc_blocks bc @ [b]"
proof -
  note inv = bc_reachable_inv [OF r]
  let ?p = "last (bc_active_indices bc)"
  have v: "blk_valid so b" using f by (simp add: follows_def)
  have "append_checks so bc b ?p (snd (apply_block_state so (replay so (branch bc ?p)) b))"
    using append_checks_iff [OF inv v] f new bc_invD(3) [OF inv] bc_blocks_branch [OF inv] by simp
  from bc_append_outcome [OF inv v this] obtain a bc'
    where app: "bc_append so bc b = Some (a, bc')" and acc: "accepted_as bc b ?p a bc'" by metis
  have "blk_height (bc_tip bc) < blk_height b" using f by (simp add: follows_def bc_tip_def word_less_nat_alt)
  then have blocks: "bc_blocks bc' = bc_blocks bc @ [b]" using acc by (simp add: accepted_as_def bc_blocks_branch [OF inv])
  have "ar_active_chain_changed a" using bc_append_unchanged(1) [OF app] blocks by auto
  then show thesis using that app acc blocks by (simp add: accepted_as_def)
qed

lemma handle_own_block:
  assumes ok: "node_ok so (\<lambda>e. e = node_env_ok) nr" and cs: "nr_chain_store nr = Some cs"
    and f: "follows so (bc_blocks (cs_blockchain cs)) b"
    and new: "blk_id so b \<notin> blk_id so ` set (bc_stored_blocks (cs_blockchain cs))"
    and small: "length (encode_records so (bc_stored_blocks (cs_blockchain cs) @ [b])) < 2 ^ 63"
  obtains nr' where "handle_block so node_env_ok peer (blk_serialize b) submission nr = Some nr'"
    "nr_chain_store nr' \<noteq> None" "bc_blocks (node_blockchain nr') = bc_blocks (cs_blockchain cs) @ [b]"
proof -
  have v: "blk_valid so b" using f by (simp add: follows_def)
  have r: "bc_reachable so (node_chain_id nr) (cs_blockchain cs)" and store: "store_ok so (node_chain_id nr) (nr_disk nr) cs"
    using ok cs by (auto simp: node_inv_def node_base_def files_undone_def io_ok_def)
  obtain a bc' where app: "bc_append so (cs_blockchain cs) b = Some (a, bc')" "ar_error a = CE_none"
    and ch: "ar_active_chain_changed a" and blocks: "bc_blocks bc' = bc_blocks (cs_blockchain cs) @ [b]"
    by (rule append_follower [OF r f new])
  obtain dk' cs' where st: "cs_append so io_ok sqlite_ok (nr_disk nr) cs b =
      Some (\<lparr> car_storage_error = KE_none, car_chain_result = a \<rparr>, dk', cs')" "cs_blockchain cs' = bc'"
    by (rule cs_append_ok [OF store v app]) (use small in simp)
  define nr1 where "nr1 = update_mempool_after_chain_change so node_env_ok a (nr\<lparr> nr_disk := dk', nr_chain_store := Some cs' \<rparr>)"
  have "append_and_update so node_env_ok b nr = Some (\<lparr> car_storage_error = KE_none, car_chain_result = a \<rparr>,
      (blk_height (node_tip nr1), blk_id so (node_tip nr1)), nr1)"
    using st(1) cs app(2) ch by (simp add: append_and_update_def ChainStoreAppendResult_has_value_def nr1_def Let_def)
  moreover have "sync_view nr1 = sync_view (nr\<lparr> nr_chain_store := Some cs' \<rparr>)"
    by (simp add: nr1_def) (simp add: sync_view_def)
  then have "nr_chain_store nr1 = Some cs'" by (simp add: sync_view_def)
  ultimately show thesis
    using cs st(2) blocks
    by (intro that [of "finish_block so peer b submission \<lparr> car_storage_error = KE_none, car_chain_result = a \<rparr>
        (blk_height (node_tip nr1), blk_id so (node_tip nr1)) nr1"])
      (simp_all add: handle_block_def blk_codec.decode_encode [OF v] node_blockchain_def)
qed

section \<open>Properties\<close>

text \<open>
  C6. What a node offers for mining, it accepts. On a node that satisfies the invariant of
  running nodes and whose system calls do not fail, take the template for a reward address
  and any nonce that meets the target. When the mining thread of the node hands this block
  over, the block becomes the tip of the active chain and mining is reported as accepted;
  this covers the selection of the pool, the state transition, the file and the index. The
  limits are those of the counters: height, timestamp, money supply and account nonces below
  their maximum, a block file below \<open>2 ^ 63\<close> bytes, and a hash that no stored block has.\<close>

theorem mined_template_accepted:
  assumes "node_ok so (\<lambda>e. e = node_env_ok) nr" and "nr_chain_store nr = Some cs" and "nr_mempool_store nr = Some ms"
    and "block_template so nr a = Inr t" and "Address_ok a"
    and "validate_proof_of_work so (with_mining_nonce t n) = PE_none"
    and "blk_height (node_tip nr) \<noteq> u64_max" and "blk_timestamp (node_tip nr) \<noteq> u64_max"
    and "(unat (blk_height (node_tip nr)) + 1) * unat block_subsidy < 2 ^ 64"
    and "\<forall>tx \<in> set (mp_transactions (ms_mempool ms)). tx_account_nonce tx \<noteq> u64_max"
    and "blk_id so (with_mining_nonce t n) \<notin> blk_id so ` set (bc_stored_blocks (cs_blockchain cs))"
    and "length (encode_records so (bc_stored_blocks (cs_blockchain cs) @ [with_mining_nonce t n])) < 2 ^ 63"
    and "mw_peer_id w = 0"
  shows "\<exists>nr'. block_found so node_env_ok w (with_mining_nonce t n) nr = Some nr' \<and>
    node_tip nr' = with_mining_nonce t n \<and> nr_mining_state nr' = ''accepted''"
proof -
  let ?b = "with_mining_nonce t n"
  have "pool_written (\<lambda>e. e = node_env_ok)" by (simp add: pool_written_def)
  then have f: "follows so (bc_blocks (cs_blockchain cs)) ?b"
    by (rule template_follows [OF assms(1) _ assms(2-10)])
  define nr1 where "nr1 = report_found so ?b nr"
  have core: "node_core nr1 = node_core nr" by (simp add: nr1_def)
  have ok1: "node_ok so (\<lambda>e. e = node_env_ok) nr1" by (rule node_ok_keep [OF assms(1) core])
  have cs1: "nr_chain_store nr1 = Some cs" using node_core_eqs(3) [OF core] assms(2) by simp
  obtain nr2 where h: "handle_block so node_env_ok 0 (blk_serialize ?b) False nr1 = Some nr2"
    "nr_chain_store nr2 \<noteq> None" "bc_blocks (node_blockchain nr2) = bc_blocks (cs_blockchain cs) @ [?b]"
    by (rule handle_own_block [OF ok1 cs1 f assms(11,12)])
  have tip: "node_tip nr2 = ?b" using h(3) by (simp add: bc_tip_def)
  define nr' where "nr' = conclude_found so ?b nr2"
  have "block_found so node_env_ok w ?b nr = Some nr'"
    using h(1) assms(13) by (simp add: block_found_def nr1_def nr'_def Let_def)
  moreover have "node_blockchain nr' = node_blockchain nr2"
    by (intro node_ok_core(5)) (simp add: nr'_def)
  moreover have "nr_mining_state nr' = ''accepted''"
    using h(2) tip by (simp add: nr'_def conclude_found_def node_emit_def set_mining_state_def Let_def)
  ultimately show ?thesis using tip by metis
qed

text \<open>
  C39. A last timestamp ends a chain. Nothing bounds the timestamp of a block from above. When
  the tip has the timestamp \<open>2 ^ 64 - 1\<close>, the node still hands out templates, whose timestamp
  has wrapped around to zero, and every block made from one is refused, whatever its nonce; so
  is every other block on this tip.\<close>

theorem last_timestamp_stalls:
  assumes "node_ok so good nr" and "nr_chain_store nr = Some cs" and "blk_timestamp (node_tip nr) = u64_max"
    and "blk_valid so b" and "blk_previous_block_hash b = blk_id so (node_tip nr)"
  shows "(\<forall>a t. block_template so nr a = Inr t \<longrightarrow> blk_timestamp t = 0) \<and>
    (\<exists>r. bc_append so (cs_blockchain cs) b = Some (r, cs_blockchain cs) \<and> ar_error r \<noteq> CE_none)"
proof (intro conjI allI impI)
  fix a t
  assume "block_template so nr a = Inr t"
  then show "blk_timestamp t = 0" using template_fields(4) assms(3) by simp
next
  let ?bc = "cs_blockchain cs"
  have tip: "node_tip nr = bc_tip ?bc" using assms(2) by (simp add: node_blockchain_def)
  have r: "bc_reachable so (node_chain_id nr) ?bc" using assms(1,2) by (simp add: node_inv_def node_base_def)
  note inv = bc_reachable_inv [OF r]
  have "\<not> append_checks so ?bc b p st" for p st
  proof
    assume "append_checks so ?bc b p st"
    then have p: "p < length (bc_stored_blocks ?bc)" and f: "follows so (branch ?bc p) b"
      using append_checks_iff [OF inv assms(4)] by auto
    have last: "last (branch ?bc p) = bc_stored_blocks ?bc ! p" by (rule last_branch [OF bc_invD(1) [OF inv] p])
    then have "blk_id so (bc_stored_blocks ?bc ! p) = blk_id so (bc_tip ?bc)"
      using f assms(5) by (simp add: follows_def tip)
    then have "bc_stored_blocks ?bc ! p = bc_tip ?bc"
      using stored_ids_inj [OF r] p bc_invD(3) [OF inv] bc_tip_eq [OF inv] by (metis inj_onD nth_mem)
    then show False using f last assms(3) tip by (simp add: follows_def)
  qed
  then obtain e i s where "bc_append so ?bc b =
      Some (AppendResult_default\<lparr> ar_error := e, ar_transaction_index := i, ar_state_error := s \<rparr>, ?bc)"
    "e \<noteq> CE_none" using bc_append_rejected [of so ?bc b] by metis
  then show "\<exists>r. bc_append so ?bc b = Some (r, ?bc) \<and> ar_error r \<noteq> CE_none" by simp
qed

section \<open>Examples\<close>

definition demo_reward :: Address where
  "demo_reward = tx_sender demo_sodium (demo_tx 1 2 0)"

lemma demo_node_pool:
  "nr_mempool_store demo_node = Some \<lparr> ms_data_directory = ''d'', ms_mempool = Mempool_create (bc_state demo_chain) \<rparr>"
  by (simp add: demo_node_def start_network_def demo_opened_def demo_new_simps rc_has_role_def peer_network_config_def
      PeerNet_start_def PeerNet_create_def Let_def)

lemma demo_node_tip: "node_tip demo_node = demo_b1"
  by (simp add: node_blockchain_def demo_node_chain demo_store_def bc_tip_def demo_chain_facts)

lemma demo_template: "block_template demo_sodium demo_node demo_reward = Inr (demo_child demo_b1 0 [])"
proof -
  have "mset (mp_select demo_sodium (Mempool_create (bc_state demo_chain)) n) = {#}" for n
    using mp_select_ready(4) [OF Mempool_create_inv [OF bc_reachable_state_ok [OF demo_chain_reachable(1)]], of demo_sodium n]
    by (simp add: Mempool_create_def)
  moreover have "blk_valid demo_sodium (demo_child demo_b1 0 [])"
    by (rule demo_child_valid [OF blk_valid_header_sizes [OF demo_children_valid(1)]])
      (simp_all add: demo_b1_simps validate_transactions_none_iff)
  then have "\<not> is_zero (blk_id demo_sodium demo_b1)" "\<not> is_zero (addr_hash demo_reward)"
    by (simp_all add: blk_valid_def demo_child_def is_genesis_def demo_b1_simps demo_reward_def)
  ultimately show ?thesis
    by (simp add: block_template_def demo_node_tip demo_node_pool create_block_def demo_b1_simps supported_chain
        validate_transactions_none_iff demo_child_def demo_reward_def Let_def)
qed

theorem mined_template_accepted_witness:
  "\<exists>nr'. block_found demo_sodium node_env_ok \<lparr> mw_peer_id = 0, mw_candidate = demo_b1, mw_phase = WP_mining \<rparr>
      (demo_child demo_b1 2 []) demo_node = Some nr' \<and>
    node_tip nr' = demo_child demo_b1 2 [] \<and> nr_mining_state nr' = ''accepted''"
proof -
  let ?b = "demo_child demo_b1 2 []"
  have v: "blk_valid demo_sodium ?b"
    by (rule demo_child_valid [OF blk_valid_header_sizes [OF demo_children_valid(1)]])
      (simp_all add: demo_b1_simps validate_transactions_none_iff)
  have h: "header_sizes demo_b1" "header_sizes (genesis_block demo_sodium 1)" "header_sizes ?b"
    using blk_valid_header_sizes [OF demo_children_valid(1)] blk_valid_header_sizes [OF v]
      blk_valid_header_sizes [OF blk_valid_genesis [of 1 demo_sodium]] by (simp_all add: supported_chain)
  have wn: "with_mining_nonce (demo_child demo_b1 0 []) 2 = ?b"
    by (simp add: with_mining_nonce_def demo_child_def is_genesis_def demo_b1_simps)
  have new: "blk_id demo_sodium ?b \<notin> blk_id demo_sodium ` set (bc_stored_blocks (cs_blockchain demo_store))"
    using demo_id_nonce [OF h(1)] demo_id_nonce [OF h(2)] demo_id_nonce [OF h(3)]
    by (auto simp: demo_store_def demo_chain_facts demo_b1_simps genesis_block_def demo_child_def)
  have small: "length (encode_records demo_sodium (bc_stored_blocks (cs_blockchain demo_store) @ [?b])) < 2 ^ 63"
    using demo_stored_valid v blk_serialize_bounds(2) [of demo_sodium "genesis_block demo_sodium 1"]
      blk_serialize_bounds(2) [of demo_sodium demo_b1] blk_serialize_bounds(2) [OF v]
    by (simp add: demo_store_def demo_chain_facts length_encode_record)
  have pow: "validate_proof_of_work demo_sodium ?b = PE_none"
    by (simp add: validate_proof_of_work_def demo_child_def is_genesis_def demo_b1_simps blk_id_def demo_meets_target Let_def)
  have ok: "node_ok demo_sodium (\<lambda>e. e = node_env_ok) demo_node"
    by (rule node_reachable_ok [OF demo_node_reachable sodium_ok_demo])
  show ?thesis
    by (rule mined_template_accepted [OF ok demo_node_chain demo_node_pool demo_template, of 2, unfolded wn])
      (use pow new small in \<open>simp_all add: demo_node_tip demo_b1_simps Mempool_create_def unat_block_subsidy
        demo_reward_def Address_ok_def tx_sender_def Address_from_public_key_def\<close>)
qed

text \<open>A chain that ends in a block with the last timestamp.\<close>

definition demo_last :: Block where
  "demo_last = demo_b1\<lparr> blk_timestamp := u64_max \<rparr>"

theorem last_timestamp_stalls_witness:
  "\<exists>bc. bc_tip bc = demo_last \<and>
    (\<exists>r. bc_append demo_sodium bc (demo_child demo_last 2 []) = Some (r, bc) \<and> ar_error r \<noteq> CE_none)"
proof -
  let ?c = "Blockchain_create demo_sodium 1" and ?g = "genesis_block demo_sodium 1"
  have simps: "blk_chain_id demo_last = 1" "blk_height demo_last = 1" "\<not> is_genesis demo_last" "blk_transactions demo_last = []"
    "blk_previous_block_hash demo_last = blk_id demo_sodium ?g" "blk_mining_nonce demo_last = 1"
    "blk_reward_recipient demo_last = Some (tx_sender demo_sodium (demo_tx 1 2 0))"
    "blk_difficulty_target demo_last = fixed_difficulty_target 1" "blk_timestamp demo_last = u64_max"
    by (simp_all add: demo_last_def demo_b1_simps) (simp add: is_genesis_def demo_b1_simps)
  have v: "blk_valid demo_sodium demo_last"
    using demo_children_valid(1) by (auto simp: demo_last_def blk_valid_def is_genesis_def demo_b1_simps)
  have r: "bc_reachable demo_sodium 1 ?c" by (rule bc_reachable.create) (simp add: supported_chain)
  have g: "bc_blocks ?c = [?g]" "bc_stored_blocks ?c = [?g]" by (simp_all add: Blockchain_create_def)
  have "st_error (fst (apply_block_state demo_sodium (replay demo_sodium [?g]) demo_last)) = SE_none"
    by (simp add: replay_def apply_block_state_def simps account_of_hash_def ChainState_default_def Let_def
        AccountState_default_def add_guard_iff unat_block_subsidy)
  then have f: "follows demo_sodium (bc_blocks ?c) demo_last"
    using v by (simp add: follows_def g simps genesis_block_def validate_proof_of_work_def blk_id_def demo_meets_target Let_def
        word_less_nat_alt)
  have "blk_id demo_sodium demo_last \<notin> blk_id demo_sodium ` set (bc_stored_blocks ?c)"
    using demo_id_nonce [OF blk_valid_header_sizes [OF v]]
      demo_id_nonce [OF blk_valid_header_sizes [OF blk_valid_genesis [of 1 demo_sodium]]]
    by (auto simp: g simps genesis_block_def supported_chain)
  then obtain a bc where app: "bc_append demo_sodium ?c demo_last = Some (a, bc)" and blocks: "bc_blocks bc = [?g, demo_last]"
    by (rule append_follower [OF r f]) (simp add: g)
  define cs where "cs = \<lparr> cs_data_directory = ''d'', cs_blockchain = bc, cs_records = [] \<rparr>"
  define nr where "nr = demo_new\<lparr> nr_chain_store := Some cs \<rparr>"
  have "\<not> files_undone (\<lambda>e. True)"
    by (auto simp: files_undone_def intro!: exI [of _ "node_env_ok\<lparr> ne_io := io_ok\<lparr> io_remove_ok := False \<rparr> \<rparr>"])
  moreover have "node_chain_id nr = 1"
    by (simp add: nr_def node_chain_id_def demo_new_simps network_parameters_def development_def)
  moreover have "nr_network nr = None" "nr_wallet nr = None" "nr_mempool_store nr = None" "nr_chain_store nr = Some cs"
    by (simp_all add: nr_def demo_new_def NodeRuntime_create_def)
  ultimately have ok: "node_ok demo_sodium (\<lambda>e. True) nr" and cs: "nr_chain_store nr = Some cs"
    using bc_reachable.append [OF r v app] by (simp_all add: node_inv_def node_base_def tip_ok_def cs_def)
  have tip: "node_tip nr = demo_last" by (simp add: nr_def node_blockchain_def cs_def bc_tip_def blocks)
  have child: "blk_valid demo_sodium (demo_child demo_last 2 [])"
    by (rule demo_child_valid [OF blk_valid_header_sizes [OF v]]) (simp_all add: simps validate_transactions_none_iff)
  have "\<exists>r. bc_append demo_sodium (cs_blockchain cs) (demo_child demo_last 2 []) = Some (r, cs_blockchain cs) \<and> ar_error r \<noteq> CE_none"
    using last_timestamp_stalls [OF ok cs _ child] by (simp add: tip simps demo_child_def)
  then show ?thesis using blocks by (intro exI [of _ bc]) (simp add: cs_def bc_tip_def)
qed

end
