(* ===== verification/BBC_Control.thy ===== *)
theory BBC_Control
  imports BBC_Node_Inv
begin

text \<open>
  The control protocol of a node (\<open>handle_request\<close>, \<open>serve_connection\<close> and the status report in
  \<open>src/node/control_server.cpp\<close>): one JSON request per connection, authenticated by a token.
  Parsing and printing JSON, the clock, the version string and the resolution of addresses are
  parameters, and so is the identifier in the answer to a request without one
  (\<open>nlohmann::json{nullptr}\<close>, whose value depends on the compiler).
\<close>

section \<open>Status\<close>

record control_env =
  ce_make_address :: "string \<Rightarrow> ip_address option"
  ce_now :: int \<comment> \<open>milliseconds since the epoch\<close>
  ce_missing_id :: json
  ce_version :: string
  ce_system :: node_env

definition role_names :: "NodeRuntime \<Rightarrow> json" where
  "role_names nr = J_array (map (\<lambda>role. J_string (actor_role_name role)) (rc_roles (nr_config nr)))"

definition chain_status :: "sodium \<Rightarrow> bool \<Rightarrow> NodeRuntime \<Rightarrow> json" where
  "chain_status so include_accounts nr =
     (let blockchain = node_blockchain nr
      in J_object
          ([(''height'', J_unsigned (blk_height (bc_tip blockchain))),
            (''tip'', J_hex (blk_id so (bc_tip blockchain))),
            (''tip_transaction_count'', J_number (length (blk_transactions (bc_tip blockchain)))),
            (''block_count'', J_number (bc_block_count blockchain)),
            (''stored_block_count'', J_number (bc_stored_block_count blockchain)),
            (''account_count'', J_number (ChainState_account_count (bc_state blockchain))),
            (''mempool_size'', json_option (\<lambda>ms. J_number (mp_size (ms_mempool ms))) (nr_mempool_store nr))] @
           (case nr_mempool_store nr of
              Some ms \<Rightarrow>
                if include_accounts
                then [(''mempool_transactions'',
                       J_array (map (\<lambda>tx. J_hex (tx_id so tx)) (mp_transactions (ms_mempool ms))))]
                else []
            | None \<Rightarrow> []) @
           (if include_accounts
            then [(''accounts'', J_array (map (\<lambda>(address_hash, account).
                    J_object [(''address'', J_string (Address_value (Address address_hash))),
                              (''balance'', J_unsigned (balance account)),
                              (''next_nonce'', J_unsigned (next_nonce account))]) (bc_state blockchain)))]
            else [])))"

definition mining_status :: "NodeRuntime \<Rightarrow> json" where
  "mining_status nr = J_object
     [(''active'', J_bool (nr_mining_active nr)), (''attempts'', J_unsigned (nr_mining_attempts nr)),
      (''continuous'', J_bool (nr_continuous_mining_enabled nr)),
      (''auto_start'', J_bool (rc_auto_start_mining (nr_config nr))), (''state'', J_string (nr_mining_state nr)),
      (''known_height'', J_unsigned (nr_mining_known_height nr)), (''known_tip'', J_hex (nr_mining_known_tip nr))]"

definition sync_status :: "NodeRuntime \<Rightarrow> json" where
  "sync_status nr = J_object
     [(''state'', J_string (nr_sync_state nr)), (''received_blocks'', J_unsigned (nr_sync_received_blocks nr)),
      (''target_height'', json_option J_unsigned (nr_sync_target_height nr)),
      (''target_tip'', json_option J_hex (nr_sync_target_tip nr))]"

definition transaction_status :: "NodeRuntime \<Rightarrow> json" where
  "transaction_status nr = J_object
     [(''state'', J_string (nr_transaction_state nr)), (''id'', json_option J_hex (nr_pending_transaction_id nr))]"

definition peer_json :: "PeerStatus \<Rightarrow> json" where
  "peer_json peer = J_object
     [(''id'', J_unsigned (ps_id peer)), (''direction'', J_string (peer_direction_name (ps_direction peer))),
      (''endpoint'', J_string (ps_endpoint peer)), (''handshake_complete'', J_bool (ps_handshake_complete peer)),
      (''protocol_version'', J_unsigned (ucast (ps_protocol_version peer))), (''services'', J_unsigned (ps_services peer)),
      (''remote_height'', J_unsigned (ps_remote_height peer)), (''remote_tip'', J_hex (ps_remote_tip peer)),
      (''last_ping_nonce'', json_option J_unsigned (ps_last_ping_nonce peer)),
      (''last_pong_nonce'', json_option J_unsigned (ps_last_pong_nonce peer))]"

definition p2p_status :: "NodeRuntime \<Rightarrow> PeerNet \<Rightarrow> json" where
  "p2p_status nr net = J_object
     [(''scope'', J_string (peer_address_scope_name (rc_p2p_scope (nr_config nr)))),
      (''host'', J_string (rc_p2p_host (nr_config nr))), (''port'', J_unsigned (ucast (pn_listen_port net))),
      (''peer_count'', J_number (length (peers net))),
      (''handshake_complete_count'', J_number (length (filter ps_handshake_complete (peers net)))),
      (''peers'', J_array (map peer_json (peers net)))]"

definition node_status :: "sodium \<Rightarrow> string \<Rightarrow> bool \<Rightarrow> NodeRuntime \<Rightarrow> json" where
  "node_status so version include_accounts nr = J_object
     ([(''name'', J_string (rc_name (nr_config nr))), (''roles'', role_names nr),
       (''software_version'', J_string version), (''ready'', J_bool True),
       (''network'', J_string (np_name (network_parameters (rc_network_profile (nr_config nr)))))] @
      (case nr_wallet nr of None \<Rightarrow> [] | Some w \<Rightarrow> [(''wallet_address'', J_string (Address_value (Wallet_address so w)))]) @
      (case rc_reward_address (nr_config nr) of
         None \<Rightarrow> [] | Some a \<Rightarrow> [(''mining_reward_address'', J_string (Address_value a))]) @
      (if nr_chain_store nr \<noteq> None then [(''chain'', chain_status so include_accounts nr)] else []) @
      (if rc_has_role (nr_config nr) AR_miner then [(''mining'', mining_status nr)] else []) @
      (if nr_chain_store nr \<noteq> None then [(''sync'', sync_status nr)] else []) @
      (if nr_wallet nr \<noteq> None then [(''transaction'', transaction_status nr)] else []) @
      (case nr_network nr of None \<Rightarrow> [] | Some net \<Rightarrow> [(''p2p'', p2p_status nr net)]))"

section \<open>Requests\<close>

definition error_response :: "json \<Rightarrow> string \<Rightarrow> string \<Rightarrow> json" where
  "error_response object_id code message = J_object
     [(''id'', object_id), (''ok'', J_bool False),
      (''error'', J_object [(''code'', J_string code), (''message'', J_string message)])]"

abbreviation ok_response :: "json \<Rightarrow> json_members \<Rightarrow> json" where
  "ok_response object_id result \<equiv> J_object [(''id'', object_id), (''ok'', J_bool True), (''result'', J_object result)]"

text \<open>The parameters of \<open>connect_peer\<close> and \<open>disconnect_peer\<close>: the error text, or host and port.\<close>

definition endpoint_params :: "json \<Rightarrow> string + string \<times> u16" where
  "endpoint_params request =
     (case object_member request ''params'' of
        None \<Rightarrow> Inl ''Missing peer endpoint.''
      | Some params \<Rightarrow>
          (case (string_member params ''host'', unsigned_member params ''port'') of
             (Some host, Some port) \<Rightarrow>
               if port = 0 \<or> 65535 < port then Inl ''Invalid peer port.'' else Inr (host, ucast port)
           | _ \<Rightarrow> Inl ''Invalid peer endpoint.''))"

definition request_connect :: "control_env \<Rightarrow> json \<Rightarrow> json \<Rightarrow> NodeRuntime \<Rightarrow> json \<times> NodeRuntime" where
  "request_connect ce object_id request nr =
     (case endpoint_params request of
        Inl message \<Rightarrow> (error_response object_id ''invalid_params'' message, nr)
      | Inr (host, port) \<Rightarrow>
          (case connect_peer (ce_make_address ce) host port nr of
             (Some error, nr) \<Rightarrow> (error_response object_id ''connect_rejected'' error, nr)
           | (None, nr) \<Rightarrow> (ok_response object_id [(''connecting'', J_bool True)], nr)))"

definition request_disconnect :: "control_env \<Rightarrow> json \<Rightarrow> json \<Rightarrow> NodeRuntime \<Rightarrow> json \<times> NodeRuntime" where
  "request_disconnect ce object_id request nr =
     (case endpoint_params request of
        Inl message \<Rightarrow> (error_response object_id ''invalid_params'' message, nr)
      | Inr (host, port) \<Rightarrow>
          (case disconnect_peer (ce_make_address ce) host port nr of
             (Some error, nr) \<Rightarrow> (error_response object_id ''disconnect_rejected'' error, nr)
           | (None, nr) \<Rightarrow> (ok_response object_id [(''disconnecting'', J_bool True)], nr)))"

definition request_ping :: "json \<Rightarrow> NodeRuntime \<Rightarrow> json \<times> NodeRuntime" where
  "request_ping object_id nr =
     (case ping_peers nr of
        (None, nr) \<Rightarrow> (error_response object_id ''not_full_node'' ''Actor has no P2P service.'', nr)
      | (Some nonce, nr) \<Rightarrow> (ok_response object_id [(''nonce'', J_unsigned nonce)], nr))"

definition mining_answer :: "json \<Rightarrow> json_members \<Rightarrow> string option \<times> NodeRuntime \<Rightarrow> json \<times> NodeRuntime" where
  "mining_answer object_id result outcome =
     (case outcome of
        (Some error, nr) \<Rightarrow> (error_response object_id ''mining_rejected'' error, nr)
      | (None, nr) \<Rightarrow> (ok_response object_id result, nr))"

definition request_start_mining :: "sodium \<Rightarrow> control_env \<Rightarrow> json \<Rightarrow> json \<Rightarrow> NodeRuntime \<Rightarrow> json \<times> NodeRuntime" where
  "request_start_mining so ce object_id request nr =
     (case (if json_contains request ''params''
            then Option.bind (object_member request ''params'') (\<lambda>params. bool_member params ''defer_work'')
            else Some False) of
        None \<Rightarrow> (error_response object_id ''invalid_params'' ''Invalid mining options.'', nr)
      | Some defer_work \<Rightarrow>
          mining_answer object_id [(''preparing'', J_bool defer_work), (''started'', J_bool (\<not> defer_work))]
            (start_mining so (ce_now ce) defer_work False nr))"

definition request_begin_mining :: "control_env \<Rightarrow> json \<Rightarrow> json \<Rightarrow> NodeRuntime \<Rightarrow> json \<times> NodeRuntime" where
  "request_begin_mining ce object_id request nr =
     (case Option.bind (object_member request ''params'') (\<lambda>params. unsigned_member params ''start_at_unix_ms'') of
        None \<Rightarrow> (error_response object_id ''invalid_params'' ''Invalid mining start time.'', nr)
      | Some start_at \<Rightarrow>
          if of_int (ce_now ce) + 5000 < start_at
          then (error_response object_id ''invalid_params'' ''Mining start is too far ahead.'', nr)
          else mining_answer object_id [(''scheduled'', J_bool True)] (begin_mining (ce_now ce) start_at nr))"

definition transaction_answer :: "json \<Rightarrow> (string + bytes) \<times> NodeRuntime \<Rightarrow> json \<times> NodeRuntime" where
  "transaction_answer object_id outcome =
     (case outcome of
        (Inl error, nr) \<Rightarrow> (error_response object_id ''transaction_rejected'' error, nr)
      | (Inr transaction_id, nr) \<Rightarrow> (ok_response object_id [(''transaction_id'', J_hex transaction_id)], nr))"

definition request_submit :: "sodium \<Rightarrow> control_env \<Rightarrow> json \<Rightarrow> json \<Rightarrow> NodeRuntime \<Rightarrow> json \<times> NodeRuntime" where
  "request_submit so ce object_id request nr =
     (case object_member request ''params'' of
        None \<Rightarrow> (error_response object_id ''invalid_params'' ''Missing transaction fields.'', nr)
      | Some params \<Rightarrow>
          (case (string_member params ''recipient'', unsigned_member params ''amount'',
                 unsigned_member params ''fee'', unsigned_member params ''nonce'') of
             (Some encoded, Some amount, Some fee, Some nonce) \<Rightarrow>
               (case Address_parse encoded of
                  None \<Rightarrow> (error_response object_id ''invalid_params'' ''Invalid recipient address.'', nr)
                | Some recipient \<Rightarrow>
                    transaction_answer object_id (submit_transaction so (ce_system ce) recipient amount fee nonce nr))
           | _ \<Rightarrow> (error_response object_id ''invalid_params'' ''Invalid transaction fields.'', nr)))"

definition request_submit_signed :: "sodium \<Rightarrow> control_env \<Rightarrow> json \<Rightarrow> json \<Rightarrow> NodeRuntime \<Rightarrow> json \<times> NodeRuntime" where
  "request_submit_signed so ce object_id request nr =
     (case Option.bind (object_member request ''params'') (\<lambda>params. string_member params ''transaction_hex'') of
        None \<Rightarrow> (error_response object_id ''invalid_params'' ''Missing signed transaction.'', nr)
      | Some encoded_hex \<Rightarrow>
          (case decode_hex encoded_hex signed_transaction_size of
             None \<Rightarrow>
               (error_response object_id ''invalid_params'' ''Signed transaction has invalid hexadecimal encoding.'', nr)
           | Some encoded \<Rightarrow>
               (case deserialize_transaction so encoded of
                  Inl e \<Rightarrow> (error_response object_id ''invalid_params'' (transaction_error_message e), nr)
                | Inr tx \<Rightarrow> transaction_answer object_id (submit_signed_transaction so (ce_system ce) tx nr))))"

text \<open>The methods a persistent node answers besides \<open>health\<close>, \<open>status\<close> and \<open>dump\<close>.\<close>

definition persistent_methods :: "string list" where
  "persistent_methods = [''ping'', ''start_mining'', ''start_continuous_mining'', ''stop_mining'',
     ''submit_signed_transaction'', ''shutdown'']"

text \<open>The part of \<open>handle_request\<close> after the authentication: the answer, the node and \<open>stopping\<close>.\<close>

definition handle_method ::
    "sodium \<Rightarrow> control_env \<Rightarrow> json \<Rightarrow> string \<Rightarrow> json \<Rightarrow> NodeRuntime \<Rightarrow> bool \<Rightarrow> json \<times> NodeRuntime \<times> bool" where
  "handle_method so ce object_id method request nr stopping =
     (let scenario = rc_scenario (nr_config nr);
          keep = (\<lambda>(response, nr). (response, nr, stopping));
          unknown = (error_response object_id ''unknown_method'' ''Unknown control method.'', nr, stopping)
      in if method = ''health'' then (ok_response object_id [(''ready'', J_bool True)], nr, stopping)
         else if method = ''status''
         then (J_object [(''id'', object_id), (''ok'', J_bool True), (''result'', node_status so (ce_version ce) False nr)], nr, stopping)
         else if method = ''dump''
         then (J_object [(''id'', object_id), (''ok'', J_bool True), (''result'', node_status so (ce_version ce) True nr)], nr, stopping)
         else if \<not> scenario \<and> method \<notin> set persistent_methods
         then (error_response object_id ''unknown_method'' ''Unknown RPC method.'', nr, stopping)
         else if method = ''connect_peer'' then keep (request_connect ce object_id request nr)
         else if method = ''disconnect_peer'' then keep (request_disconnect ce object_id request nr)
         else if method = ''ping'' then keep (request_ping object_id nr)
         else if method = ''start_mining'' then keep (request_start_mining so ce object_id request nr)
         else if method = ''start_continuous_mining''
         then (if scenario then unknown
               else keep (mining_answer object_id [(''continuous'', J_bool True)] (start_continuous_mining nr)))
         else if method = ''stop_mining''
         then (if scenario then unknown else keep (mining_answer object_id [(''stopped'', J_bool True)] (stop_mining nr)))
         else if method = ''begin_mining'' then keep (request_begin_mining ce object_id request nr)
         else if method = ''submit_transaction'' then keep (request_submit so ce object_id request nr)
         else if method = ''submit_signed_transaction'' then keep (request_submit_signed so ce object_id request nr)
         else if method = ''shutdown'' then (ok_response object_id [(''stopping'', J_bool True)], nr, True)
         else unknown)"

definition handle_request ::
    "sodium \<Rightarrow> control_env \<Rightarrow> json \<Rightarrow> NodeRuntime \<Rightarrow> bool \<Rightarrow> json \<times> NodeRuntime \<times> bool" where
  "handle_request so ce request nr stopping =
     (let object_id = (case member request ''id'' of Some value \<Rightarrow> value | None \<Rightarrow> ce_missing_id ce)
      in if \<not> is_object request \<or> \<not> json_contains request ''id'' \<or>
            string_member request ''method'' = None \<or> string_member request ''token'' = None
         then (error_response object_id ''invalid_request'' ''Invalid control request.'', nr, stopping)
         else if the (string_member request ''token'') \<noteq> rc_control_token (nr_config nr)
         then (error_response object_id ''unauthorized'' ''Invalid control token.'', nr, stopping)
         else handle_method so ce object_id (the (string_member request ''method'')) request nr stopping)"

section \<open>Connections\<close>

definition maximum_control_request_size :: nat where
  "maximum_control_request_size = 64 * 1024"

text \<open>
  \<open>serve_connection\<close>: \<open>line\<close> is \<^const>\<open>None\<close> when reading up to the end of a line fails (a request
  over the limit included), and \<open>parse\<close> is \<^const>\<open>None\<close> for text that is not JSON. The first
  component of the result is what is written to the socket.
\<close>

definition serve_connection ::
    "sodium \<Rightarrow> control_env \<Rightarrow> (string \<Rightarrow> json option) \<Rightarrow> (json \<Rightarrow> string) \<Rightarrow> string option \<Rightarrow> NodeRuntime \<Rightarrow> bool \<Rightarrow>
       string option \<times> NodeRuntime \<times> bool" where
  "serve_connection so ce parse dump line nr stopping =
     (case line of
        None \<Rightarrow> (None, nr, stopping)
      | Some line \<Rightarrow>
          (let (response, nr, stopping) =
                 (case parse line of
                    None \<Rightarrow> (error_response J_null ''invalid_json'' ''Invalid control JSON.'', nr, stopping)
                  | Some request \<Rightarrow> handle_request so ce request nr stopping);
               encoded = dump response @ [CHR 0x0A]
           in (Some (if maximum_control_request_size < length encoded
               then dump (error_response (case member response ''id'' of Some value \<Rightarrow> value | None \<Rightarrow> ce_missing_id ce)
                      ''response_too_large'' ''RPC response exceeds 64 KiB.'') @ [CHR 0x0A]
               else encoded), nr, stopping)))"

text \<open>
  \<open>run_runtime_node\<close> up to its accept loop: the error text, or \<^const>\<open>None\<close>. \<open>se_bind\<close> is the
  control socket: the text of the exception, or the port. The events of \<open>run_runtime_node\<close> do
  not depend on the pointer the node keeps for its own ones.
\<close>

record startup_env =
  se_seed :: bytes
  se_first :: node_env
  se_then :: node_env
  se_directory_ok :: bool
  se_make_address :: "string \<Rightarrow> ip_address option"
  se_bind_listen :: "string \<Rightarrow> u16 \<Rightarrow> string + u16"
  se_session_nonce :: bytes
  se_bind :: "string \<Rightarrow> u16 \<Rightarrow> string + u16"

definition emit_event :: "string \<Rightarrow> json_members \<Rightarrow> NodeRuntime \<Rightarrow> NodeRuntime" where
  "emit_event type details nr = nr\<lparr> nr_outputs := nr_outputs nr @ [NO_event type details] \<rparr>"

text \<open>
  The text of the events: each is a line with the next number. \<open>emit\<close> called with \<open>{}\<close> gets the
  JSON value null.
\<close>

fun event_messages :: "string \<Rightarrow> u64 \<Rightarrow> node_output list \<Rightarrow> json list" where
  "event_messages actor sequence [] = []"
| "event_messages actor sequence (NO_event type details # outputs) =
     J_object [(''actor'', J_string actor), (''sequence'', J_unsigned sequence), (''event'', J_string type),
       (''details'', if details = [] then J_null else J_object details)] # event_messages actor (sequence + 1) outputs"
| "event_messages actor sequence (_ # outputs) = event_messages actor sequence outputs"

definition ready_details :: "u16 \<Rightarrow> NodeRuntime \<Rightarrow> json_members" where
  "ready_details port nr =
     (let config = nr_config nr
      in (if rc_scenario config
          then [(''control_host'', J_string (rc_control_host config)), (''control_port'', J_unsigned (ucast port))]
          else [(''rpc_host'', J_string (rc_control_host config)), (''rpc_port'', J_unsigned (ucast port))]) @
         (if rc_has_role config AR_full_node
          then [(''p2p_host'', J_string (rc_p2p_host config)),
                (''p2p_port'', json_option (\<lambda>net. J_unsigned (ucast (pn_listen_port net))) (nr_network nr))]
          else []))"

definition start_runtime_node ::
    "sodium \<Rightarrow> startup_env \<Rightarrow> RuntimeConfig \<Rightarrow> disk \<Rightarrow> pool_table \<Rightarrow> (string option \<times> NodeRuntime) option" where
  "start_runtime_node so se config dk table =
     (case node_initialize so (se_seed se) (se_first se) (se_then se) (se_directory_ok se)
         (NodeRuntime_create config dk table) of
        None \<Rightarrow> None
      | Some (Some error, nr) \<Rightarrow> Some (Some error, nr)
      | Some (None, nr) \<Rightarrow>
          (case start_network so (se_make_address se) (se_bind_listen se) (se_session_nonce se) nr of
             (Some error, nr) \<Rightarrow> Some (Some error, nr)
           | (None, nr) \<Rightarrow>
               (case se_bind se (rc_control_host (nr_config nr)) (rc_control_port (nr_config nr)) of
                  Inl what \<Rightarrow> Some (Some (''Node RPC server failed: '' @ what), stop_network nr)
                | Inr port \<Rightarrow>
                    (case start_configured_mining (emit_event ''ready'' (ready_details port nr) nr) of
                       (Some error, nr) \<Rightarrow> Some (Some error, stop_network nr)
                     | (None, nr) \<Rightarrow> Some (None, nr)))))"

definition finish_runtime_node :: "NodeRuntime \<Rightarrow> NodeRuntime" where
  "finish_runtime_node nr = emit_event ''stopped'' [] (stop_network nr)"

text \<open>
  The program: the node after its start, with the flag \<open>stopping\<close>. While the main thread waits in
  \<open>accept\<close>, or serves a connection, the other threads of the node go on, in whole steps or in
  sections of their handlers.
\<close>

inductive server_reachable ::
    "sodium \<Rightarrow> (node_env \<Rightarrow> bool) \<Rightarrow> (string \<Rightarrow> json option) \<Rightarrow> (json \<Rightarrow> string) \<Rightarrow> NodeRuntime \<Rightarrow> bool \<Rightarrow> bool"
  for so good parse dump where
  started: "good (se_first se) \<Longrightarrow> good (se_then se) \<Longrightarrow> length (se_seed se) = 32 \<Longrightarrow> length (se_session_nonce se) = 16 \<Longrightarrow>
    start_runtime_node so se config dk table = Some (None, nr) \<Longrightarrow> server_reachable so good parse dump nr False"
| other_threads: "server_reachable so good parse dump nr stopping \<Longrightarrow> node_step so good nr nr' \<Longrightarrow>
    server_reachable so good parse dump nr' stopping"
| interleaved: "server_reachable so good parse dump nr stopping \<Longrightarrow> handler_section so good nr nr' \<Longrightarrow>
    server_reachable so good parse dump nr' stopping"
| connection: "server_reachable so good parse dump nr False \<Longrightarrow> good (ce_system ce) \<Longrightarrow>
    serve_connection so ce parse dump line nr False = (written, nr', stopping) \<Longrightarrow>
    server_reachable so good parse dump nr' stopping"
| finished: "server_reachable so good parse dump nr True \<Longrightarrow>
    server_reachable so good parse dump (finish_runtime_node nr) True"

text \<open>The checks of \<open>run_application_node\<close> before the token is loaded: the error text, or \<^const>\<open>None\<close>.\<close>

definition run_application_checks :: "(string \<Rightarrow> ip_address option) \<Rightarrow> ApplicationConfig \<Rightarrow> string option" where
  "run_application_checks make_address config =
     (let allowed_peer = (\<lambda>endpoint scope. peer_address_allowed make_address (ep_host endpoint) scope)
      in if ac_full_node config = None \<and> ac_miner config = None
         then Some ''Configuration has no long-running full-node or miner role.''
         else if ac_rpc config = None then Some ''Configuration has no local RPC settings.''
         else
           (case ac_full_node config of
              Some f \<Rightarrow>
                if \<not> allowed_peer (fn_listen f) (runtime_p2p_scope (fn_scope f))
                then Some ''P2P listener is outside the configured full-node scope.''
                else if \<not> list_all (\<lambda>endpoint. allowed_peer endpoint (runtime_p2p_scope (fn_scope f))) (fn_peers f)
                then Some ''An initial peer is outside the configured full-node scope.''
                else if (case Option.bind (ac_miner config) mi_source of
                      Some source \<Rightarrow> \<not> allowed_peer source AS_public_network | None \<Rightarrow> False)
                then Some ''Mining sources must use a numeric unicast IPv4 address.''
                else None
            | None \<Rightarrow>
                if (case Option.bind (ac_miner config) mi_source of
                      Some source \<Rightarrow> \<not> allowed_peer source AS_public_network | None \<Rightarrow> False)
                then Some ''Mining sources must use a numeric unicast IPv4 address.''
                else None))"

section \<open>Authentication\<close>

definition response_ok :: "json \<Rightarrow> bool" where
  "response_ok response \<longleftrightarrow> bool_member response ''ok'' = Some True"

lemma error_response_not_ok [simp]: "\<not> response_ok (error_response i c m)"
  by (simp add: response_ok_def error_response_def json_member_defs member_def)

text \<open>The answers to requests that the node does not even authenticate or that fail to be.\<close>

lemma handle_request_unauthorized:
  assumes "string_member request ''token'' \<noteq> Some (rc_control_token (nr_config nr))"
  shows "handle_request so ce request nr stopping =
    (fst (handle_request so ce request nr stopping), nr, stopping) \<and>
    \<not> response_ok (fst (handle_request so ce request nr stopping))"
  using assms by (auto simp: handle_request_def Let_def)

section \<open>Requests as steps of the node\<close>

lemma response_member_id [simp]:
  "member (error_response i c m) ''id'' = Some i"
  "member (J_object ((''id'', i) # ms)) ''id'' = Some i"
  by (simp_all add: error_response_def member_def)

lemma snd_mining_answer [simp]:
  "snd (mining_answer i result outcome) = snd outcome"
  by (auto simp: mining_answer_def split: prod.splits option.splits)

lemma request_steps:
  "snd (request_connect ce i request nr) = nr \<or> node_step so good nr (snd (request_connect ce i request nr))"
  "snd (request_disconnect ce i request nr) = nr \<or> node_step so good nr (snd (request_disconnect ce i request nr))"
  "node_step so good nr (snd (request_ping i nr))"
  "snd (request_start_mining so ce i request nr) = nr \<or> node_step so good nr (snd (request_start_mining so ce i request nr))"
  "snd (request_begin_mining ce i request nr) = nr \<or> node_step so good nr (snd (request_begin_mining ce i request nr))"
proof -
  show "snd (request_connect ce i request nr) = nr \<or> node_step so good nr (snd (request_connect ce i request nr))"
  proof (cases "endpoint_params request")
    case (Inr hp)
    moreover obtain host port where "hp = (host, port)" by (cases hp)
    moreover have "node_step so good nr (snd (connect_peer (ce_make_address ce) host port nr))" by (rule node_step.connect)
    ultimately show ?thesis by (auto simp: request_connect_def split: prod.splits option.splits)
  qed (simp add: request_connect_def)
  show "snd (request_disconnect ce i request nr) = nr \<or> node_step so good nr (snd (request_disconnect ce i request nr))"
  proof (cases "endpoint_params request")
    case (Inr hp)
    moreover obtain host port where "hp = (host, port)" by (cases hp)
    moreover have "node_step so good nr (snd (disconnect_peer (ce_make_address ce) host port nr))" by (rule node_step.disconnect)
    ultimately show ?thesis by (auto simp: request_disconnect_def split: prod.splits option.splits)
  qed (simp add: request_disconnect_def)
  show "node_step so good nr (snd (request_ping i nr))"
    using node_step.ping [of so good nr] by (auto simp: request_ping_def split: prod.splits option.splits)
  show "snd (request_start_mining so ce i request nr) = nr \<or> node_step so good nr (snd (request_start_mining so ce i request nr))"
    using node_step.start [of so good nr] by (simp add: request_start_mining_def split: option.splits)
  show "snd (request_begin_mining ce i request nr) = nr \<or> node_step so good nr (snd (request_begin_mining ce i request nr))"
    using node_step.begin_work [of so good nr] by (simp add: request_begin_mining_def split: option.splits)
qed

lemma request_submit_steps:
  assumes "good (ce_system ce)"
  shows "snd (request_submit so ce i request nr) = nr \<or> node_step so good nr (snd (request_submit so ce i request nr))"
    and "snd (request_submit_signed so ce i request nr) = nr \<or>
      node_step so good nr (snd (request_submit_signed so ce i request nr))"
proof -
  have snd_answer: "snd (transaction_answer i outcome) = snd outcome" for outcome
    by (simp add: transaction_answer_def split: prod.splits sum.splits)
  show "snd (request_submit so ce i request nr) = nr \<or> node_step so good nr (snd (request_submit so ce i request nr))"
    using node_step.submit [of _ good, OF Address_parse_ok assms]
    by (auto simp: request_submit_def snd_answer split: option.splits)
  show "snd (request_submit_signed so ce i request nr) = nr \<or>
      node_step so good nr (snd (request_submit_signed so ce i request nr))"
    using node_step.submit_signed [of so _ good, OF deserialize_transaction_valid assms]
    by (auto simp: request_submit_signed_def snd_answer split: option.splits sum.splits)
qed

lemma request_ids [simp]:
  "member (fst (request_connect ce i request nr)) ''id'' = Some i"
  "member (fst (request_disconnect ce i request nr)) ''id'' = Some i"
  "member (fst (request_ping i nr)) ''id'' = Some i"
  "member (fst (mining_answer i result outcome)) ''id'' = Some i"
  "member (fst (transaction_answer i result')) ''id'' = Some i"
  by (auto simp: request_connect_def request_disconnect_def request_ping_def mining_answer_def transaction_answer_def
      split: prod.splits option.splits sum.splits)

lemma request_ids_composed [simp]:
  "member (fst (request_start_mining so ce i request nr)) ''id'' = Some i"
  "member (fst (request_begin_mining ce i request nr)) ''id'' = Some i"
  "member (fst (request_submit so ce i request nr)) ''id'' = Some i"
  "member (fst (request_submit_signed so ce i request nr)) ''id'' = Some i"
  by (simp_all add: request_start_mining_def request_begin_mining_def request_submit_def request_submit_signed_def
      split: option.splits sum.splits)

lemma if_inI: "(c \<Longrightarrow> x \<in> A) \<Longrightarrow> (\<not> c \<Longrightarrow> y \<in> A) \<Longrightarrow> (if c then x else y) \<in> A"
  by simp

text \<open>Every answer is one of the operations' answers, so a fact about all of them is one about \<open>handle_method\<close>.\<close>

lemma handle_method_node:
  "handle_method so ce i method request nr stopping \<in> {r. fst (snd r) \<in>
     {nr, snd (request_connect ce i request nr), snd (request_disconnect ce i request nr), snd (request_ping i nr),
      snd (request_start_mining so ce i request nr), snd (start_continuous_mining nr), snd (stop_mining nr),
      snd (request_begin_mining ce i request nr), snd (request_submit so ce i request nr),
      snd (request_submit_signed so ce i request nr)}}"
  unfolding handle_method_def Let_def by (intro if_inI) (simp_all only: split_beta mem_Collect_eq fst_conv snd_conv snd_mining_answer insert_iff simp_thms)

lemma handle_method_step:
  assumes "good (ce_system ce)"
  shows "fst (snd (handle_method so ce i method request nr stopping)) = nr \<or>
    node_step so good nr (fst (snd (handle_method so ce i method request nr stopping)))"
  using handle_method_node [of so ce i "method" request nr stopping, unfolded mem_Collect_eq] request_steps request_submit_steps [of good, OF assms]
    node_step.continuous node_step.stop
  by (elim insertE emptyE) simp_all

lemma handle_method_guards:
  "handle_method so ce i method request nr stopping \<in> {r. member (fst r) ''id'' = Some i}"
  "handle_method so ce i method request nr stopping \<in> {r. snd (snd r) = stopping \<or> method = ''shutdown''}"
  "handle_method so ce i method request nr stopping \<in>
     {r. rc_scenario (nr_config nr) \<or> method \<in> set persistent_methods \<or> fst (snd r) = nr}"
  unfolding handle_method_def Let_def by (intro if_inI; auto simp: split_beta)+

lemma handle_request_step:
  assumes "good (ce_system ce)"
  shows "fst (snd (handle_request so ce request nr stopping)) = nr \<or>
    node_step so good nr (fst (snd (handle_request so ce request nr stopping)))"
  using handle_method_step [of good ce, OF assms] by (simp add: handle_request_def Let_def)

lemma serve_connection_step:
  assumes "good (ce_system ce)" and "serve_connection so ce parse dump line nr stopping = (written, nr', stopping')"
  shows "nr' = nr \<or> node_step so good nr nr'"
proof -
  have "nr' \<in> insert nr {fst (snd (handle_request so ce request nr stopping)) | request. True}"
    using assms(2)
    by (cases line; cases "parse (the line)") (auto simp: serve_connection_def Let_def split_beta prod_eq_iff)
  then show ?thesis using handle_request_step [of good ce so _ nr stopping, OF assms(1)] by auto
qed

section \<open>The served node\<close>

lemma emit_event_core [simp]: "node_core (emit_event t d nr) = node_core nr"
  by (simp add: emit_event_def node_core_def)

text \<open>The invariant of the node holds from the start of the program to its end.\<close>

lemma start_runtime_node_ok:
  assumes "good (se_first se)" "good (se_then se)" "length (se_seed se) = 32" "length (se_session_nonce se) = 16"
    and "sodium_ok so" and "start_runtime_node so se config dk table = Some (None, nr)"
  shows "node_ok so good nr"
proof -
  obtain nr1 nr2 port where
    i: "node_initialize so (se_seed se) (se_first se) (se_then se) (se_directory_ok se) (NodeRuntime_create config dk table) = Some (None, nr1)"
    and n: "start_network so (se_make_address se) (se_bind_listen se) (se_session_nonce se) nr1 = (None, nr2)"
    and m: "start_configured_mining (emit_event ''ready'' (ready_details port nr2) nr2) = (None, nr)"
    using assms(6) by (auto simp: start_runtime_node_def split: option.splits prod.splits sum.splits)
  have "node_ok so good nr2"
    by (rule node_reachable_ok [OF node_reachable.started [OF assms(1,2,3) i assms(4) n] assms(5)])
  then have ok: "node_ok so good (emit_event ''ready'' (ready_details port nr2) nr2)"
    by (rule node_ok_keep) simp
  let ?e = "emit_event ''ready'' (ready_details port nr2) nr2"
  have "nr = ?e \<or> nr = snd (start_continuous_mining ?e)"
    using m by (auto simp: start_configured_mining_def split: if_splits prod.splits option.splits)
  then show ?thesis
    using ok node_step_ok [OF node_step.continuous ok assms(5)] by auto
qed

lemma server_reachable_ok:
  assumes "server_reachable so good parse dump nr stopping" and "sodium_ok so"
  shows "node_ok so good nr"
  using assms(1)
proof induction
  case (started se config dk table nr)
  then show ?case using start_runtime_node_ok assms(2) by blast
next
  case (other_threads nr stopping nr')
  then show ?case using node_step_ok assms(2) by blast
next
  case (interleaved nr stopping nr')
  then show ?case using handler_section_ok by blast
next
  case (connection nr ce line written nr' stopping)
  then show ?case using serve_connection_step node_step_ok assms(2) by metis
next
  case (finished nr)
  have "node_ok so good (stop_network nr)"
    by (rule node_step_ok [OF node_step.shutdown finished.IH assms(2)])
  then show ?case unfolding finish_runtime_node_def by (rule node_ok_keep) simp
qed

section \<open>Properties\<close>

text \<open>
  C24. The token guards everything. A connection whose line is not JSON, or whose request does
  not carry the token of the node, is answered by an error; the node and the flag that ends the
  program stay as they are, and the answer is the same for every node that has another token,
  so it tells nothing about chain, accounts, peers or mining.\<close>

theorem control_requires_token:
  assumes "\<And>request. parse line = Some request \<Longrightarrow>
      string_member request ''token'' \<noteq> Some (rc_control_token (nr_config nr)) \<and>
      string_member request ''token'' \<noteq> Some (rc_control_token (nr_config nr'))"
  shows "\<exists>response. \<not> response_ok response \<and>
    serve_connection so ce parse dump (Some line) nr stopping = (Some (dump response @ [CHR 0x0A]), nr, stopping) \<and>
    serve_connection so ce parse dump (Some line) nr' stopping' = (Some (dump response @ [CHR 0x0A]), nr', stopping')"
proof (cases "parse line")
  case (Some request)
  let ?r = "fst (handle_request so ce request nr stopping)"
  have same: "fst (handle_request so ce request nr' stopping') = ?r"
    using assms [OF Some] by (auto simp: handle_request_def Let_def)
  note answers = handle_request_unauthorized [of request nr so ce stopping]
    handle_request_unauthorized [of request nr' so ce stopping', unfolded same]
  let ?large = "error_response (case member ?r ''id'' of Some value \<Rightarrow> value | None \<Rightarrow> ce_missing_id ce)
    ''response_too_large'' ''RPC response exceeds 64 KiB.''"
  show ?thesis
    by (rule exI [of _ "if maximum_control_request_size < length (dump ?r @ [CHR 0x0A]) then ?large else ?r"])
      (use assms [OF Some] answers in \<open>auto simp: serve_connection_def Some Let_def split_beta prod_eq_iff\<close>)
next
  case None
  let ?r = "error_response J_null ''invalid_json'' ''Invalid control JSON.''"
  let ?large = "error_response J_null ''response_too_large'' ''RPC response exceeds 64 KiB.''"
  show ?thesis
    by (rule exI [of _ "if maximum_control_request_size < length (dump ?r @ [CHR 0x0A]) then ?large else ?r"])
      (auto simp: serve_connection_def None Let_def)
qed

text \<open>
  C8. What a request can do. It is one step of the running node or none, so that every
  invariant of the node's steps survives it. It has an effect, or a successful answer, only
  with the node's token; a node that is not a scenario actor runs none of the scenario methods
  (it does not sign transactions for clients, nor change its peers); only \<open>shutdown\<close> ends the
  program; and an answer carries the identifier of its request.\<close>

theorem control_request_guarded:
  assumes "good (ce_system ce)" and "handle_request so ce request nr stopping = (response, nr', stopping')"
  shows "(nr' = nr \<or> node_step so good nr nr') \<and>
    (nr' \<noteq> nr \<or> stopping' \<noteq> stopping \<or> response_ok response \<longrightarrow>
       string_member request ''token'' = Some (rc_control_token (nr_config nr))) \<and>
    (nr' \<noteq> nr \<longrightarrow> rc_scenario (nr_config nr) \<or> the (string_member request ''method'') \<in> set persistent_methods) \<and>
    (stopping' \<noteq> stopping \<longrightarrow> string_member request ''method'' = Some ''shutdown'') \<and>
    (\<forall>i. member request ''id'' = Some i \<longrightarrow> member response ''id'' = Some i)"
proof (intro conjI)
  show "nr' = nr \<or> node_step so good nr nr'"
    using handle_request_step [of good ce so request nr stopping, OF assms(1)] assms(2) by simp
  show "nr' \<noteq> nr \<or> stopping' \<noteq> stopping \<or> response_ok response \<longrightarrow>
      string_member request ''token'' = Some (rc_control_token (nr_config nr))"
    using handle_request_unauthorized [of request nr so ce stopping] assms(2) by auto
  let ?i = "case member request ''id'' of Some value \<Rightarrow> value | None \<Rightarrow> ce_missing_id ce"
  note guards = handle_method_guards [of so ce ?i "the (string_member request ''method'')" request nr stopping]
  show "nr' \<noteq> nr \<longrightarrow> rc_scenario (nr_config nr) \<or> the (string_member request ''method'') \<in> set persistent_methods"
    using guards(3) assms(2) by (auto simp: handle_request_def Let_def split: if_splits)
  show "stopping' \<noteq> stopping \<longrightarrow> string_member request ''method'' = Some ''shutdown''"
    using guards(2) assms(2) by (auto simp: handle_request_def Let_def split: if_splits)
  show "\<forall>i. member request ''id'' = Some i \<longrightarrow> member response ''id'' = Some i"
    using guards(1) assms(2) by (auto simp: handle_request_def Let_def split: if_splits)
qed

lemma demo_node_token: "rc_control_token (nr_config demo_node) = ''t''"
  using node_core_eqs [of demo_node demo_opened]
  by (simp add: demo_node_def start_network_def demo_opened_def demo_new_simps rc_has_role_def peer_network_config_def
      PeerNet_start_def PeerNet_create_def demo_runtime_config_def runtime_config_scenario_def Let_def)

definition demo_request :: "string \<Rightarrow> string \<Rightarrow> json" where
  "demo_request method token =
     J_object [(''id'', J_unsigned 7), (''method'', J_string method), (''token'', J_string token)]"

definition demo_control :: control_env where
  "demo_control = \<lparr> ce_make_address = (\<lambda>host. None), ce_now = 0, ce_missing_id = J_null, ce_version = ''1'',
     ce_system = node_env_ok \<rparr>"

lemmas demo_request_simps = demo_request_def demo_control_def json_member_defs member_def json_contains_def

theorem control_requires_token_witness:
  "\<exists>response. \<not> response_ok response \<and>
    serve_connection demo_sodium demo_control (\<lambda>line. Some (demo_request line ''guess'')) (\<lambda>j. ''{}'') (Some ''dump'') demo_node False =
      (Some (''{}'' @ [CHR 0x0A]), demo_node, False)"
  using control_requires_token [of "\<lambda>line. Some (demo_request line ''guess'')" "''dump''" demo_node demo_node demo_sodium
      demo_control "\<lambda>j. ''{}''" False False]
  by (auto simp: demo_request_simps demo_node_token)

theorem control_request_guarded_witness:
  "handle_request demo_sodium demo_control (demo_request ''shutdown'' ''t'') demo_node False =
     (ok_response (J_unsigned 7) [(''stopping'', J_bool True)], demo_node, True) \<and>
   string_member (demo_request ''shutdown'' ''t'') ''token'' = Some (rc_control_token (nr_config demo_node))"
proof
  show *: "handle_request demo_sodium demo_control (demo_request ''shutdown'' ''t'') demo_node False =
     (ok_response (J_unsigned 7) [(''stopping'', J_bool True)], demo_node, True)"
    by (simp add: handle_request_def handle_method_def demo_request_simps demo_node_token persistent_methods_def)
  show "string_member (demo_request ''shutdown'' ''t'') ''token'' = Some (rc_control_token (nr_config demo_node))"
    using control_request_guarded [of "\<lambda>e. e = node_env_ok", OF _ *] by (simp add: demo_control_def)
qed

end
