(* ===== verification/BBC_Options.thy ===== *)
theory BBC_Options
  imports BBC_Paths
begin

text \<open>
  The options of the command line (\<open>src/app/command_options.cpp\<close>) and the numbers among them. What a
  function writes to the error stream is a component of its result.
\<close>

abbreviation newline :: string where
  "newline \<equiv> [CHR 0x0A]"

record CommandOption =
  op_name :: string
  op_value :: "string option"

type_synonym CommandOptions = "CommandOption list"

text \<open>The loop of \<open>parse_options\<close>: the error text, or the options.\<close>

fun options_loop :: "string list \<Rightarrow> string list \<Rightarrow> CommandOptions \<Rightarrow> string + CommandOptions" where
  "options_loop repeatable [] options = Inr options"
| "options_loop repeatable (name # rest) options =
     (if take 2 name \<noteq> ''--'' then Inl (''Expected an option but found: '' @ name @ newline)
      else if name \<notin> set repeatable \<and> name \<in> op_name ` set options then Inl (''Duplicate option: '' @ name @ newline)
      else if name = ''--load'' then options_loop repeatable rest (options @ [\<lparr> op_name = name, op_value = None \<rparr>])
      else case rest of
        [] \<Rightarrow> Inl (''Option requires a value: '' @ name @ newline)
      | option_value # rest' \<Rightarrow>
          options_loop repeatable rest' (options @ [\<lparr> op_name = name, op_value = Some option_value \<rparr>]))"

definition parse_options :: "string list \<Rightarrow> string list \<Rightarrow> string + CommandOptions" where
  "parse_options arguments repeatable = options_loop repeatable arguments []"

text \<open>The error text; it is empty for options that are all allowed.\<close>

definition validate_options :: "CommandOptions \<Rightarrow> string list \<Rightarrow> string" where
  "validate_options options allowed =
     (case find (\<lambda>option. op_name option \<notin> set allowed) options of
        None \<Rightarrow> []
      | Some option \<Rightarrow> ''Unknown option: '' @ op_name option @ newline)"

definition required_option :: "CommandOptions \<Rightarrow> string \<Rightarrow> string option \<times> string" where
  "required_option options name =
     (case Option.bind (find (\<lambda>option. op_name option = name) options) op_value of
        Some v \<Rightarrow> (Some v, [])
      | None \<Rightarrow> (None, ''Missing required option: '' @ name @ newline))"

definition has_option :: "CommandOptions \<Rightarrow> string \<Rightarrow> bool" where
  "has_option options name \<longleftrightarrow> name \<in> op_name ` set options"

definition option_values :: "CommandOptions \<Rightarrow> string \<Rightarrow> string list" where
  "option_values options name =
     List.map_filter (\<lambda>option. if op_name option = name then op_value option else None) options"

section \<open>Numbers\<close>

text \<open>
  \<open>std::from_chars\<close> to base 10: the longest prefix of digits, \<^const>\<open>None\<close> if it is empty or does not
  fit, otherwise the value and the rest.
\<close>

definition decimal_digit :: "char \<Rightarrow> bool" where
  "decimal_digit c \<longleftrightarrow> char_between CHR ''0'' CHR ''9'' c"

definition decimal_value :: "string \<Rightarrow> nat" where
  "decimal_value digits = foldl (\<lambda>n c. n * 10 + (of_char c - 48)) 0 digits"

definition from_chars :: "string \<Rightarrow> (u64 \<times> string) option" where
  "from_chars text =
     (let digits = takeWhile decimal_digit text
      in if digits = [] \<or> 2 ^ 64 \<le> decimal_value digits then None
         else Some (of_nat (decimal_value digits), dropWhile decimal_digit text))"

definition parse_uint64 :: "string \<Rightarrow> string \<Rightarrow> u64 option \<times> string" where
  "parse_uint64 encoded name =
     (case from_chars encoded of
        Some (v, []) \<Rightarrow> (Some v, [])
      | _ \<Rightarrow> (None, ''Option '' @ name @ '' must be an unsigned 64-bit decimal integer.'' @ newline))"

definition required_uint64_option :: "CommandOptions \<Rightarrow> string \<Rightarrow> u64 option \<times> string" where
  "required_uint64_option options name =
     (case required_option options name of
        (None, err) \<Rightarrow> (None, err)
      | (Some encoded, err) \<Rightarrow> parse_uint64 encoded name)"

definition optional_uint64_option :: "CommandOptions \<Rightarrow> string \<Rightarrow> u64 \<Rightarrow> u64 option \<times> string" where
  "optional_uint64_option options name default_value =
     (case option_values options name of
        [] \<Rightarrow> (Some default_value, [])
      | encoded # _ \<Rightarrow> parse_uint64 encoded name)"

section \<open>Lemmas\<close>

text \<open>Every number of an option is at most \<open>2 ^ 64 - 1\<close> and printed back by its decimal digits.\<close>

lemma parse_uint64_value:
  "parse_uint64 encoded name = (Some v, err) \<Longrightarrow>
     err = [] \<and> encoded \<noteq> [] \<and> list_all decimal_digit encoded \<and> unat v = decimal_value encoded"
  by (auto simp: parse_uint64_def from_chars_def Let_def unat_of_nat take_bit_nat_eq_self dropWhile_eq_Nil_conv
      list_all_iff takeWhile_eq_all_conv [THEN iffD2] split: option.splits if_splits list.splits)

text \<open>What the parser accepts.\<close>

lemma options_loop_values:
  assumes "options_loop repeatable arguments options = Inr options'"
    and "\<forall>x \<in> set options. op_value x = None \<longleftrightarrow> op_name x = ''--load''"
  shows "\<forall>x \<in> set options'. op_value x = None \<longleftrightarrow> op_name x = ''--load''"
  using assms
proof (induction repeatable arguments options rule: options_loop.induct)
  case (2 repeatable name rest options)
  then show ?case by (cases rest) (auto split: if_splits)
qed simp

lemma parse_options_values:
  assumes "parse_options arguments repeatable = Inr options" and "x \<in> set options"
  shows "op_value x = None \<longleftrightarrow> op_name x = ''--load''"
  using options_loop_values [of repeatable arguments "[]" options] assms by (simp add: parse_options_def)

lemma options_loop_distinct:
  assumes "options_loop repeatable arguments options = Inr options'"
    and "distinct (filter (\<lambda>n. n \<notin> set repeatable) (map op_name options))"
  shows "distinct (filter (\<lambda>n. n \<notin> set repeatable) (map op_name options'))"
  using assms
proof (induction repeatable arguments options rule: options_loop.induct)
  case (2 repeatable name rest options)
  then show ?case by (auto split: if_splits list.splits)
qed simp

end
