(* ===== verification/BBC_Cli_Wallet.thy ===== *)
theory BBC_Cli_Wallet
  imports BBC_Options BBC_WalletFile BBC_Transaction BBC_Peer
begin

text \<open>
  Commands on wallets and transaction files: \<open>src/app/wallet_selection.cpp\<close>,
  \<open>src/app/wallet_access.cpp\<close>, the wallet commands of \<open>src/app/application.cpp\<close> and
  \<open>src/app/transaction_commands.cpp\<close>. A command returns its exit code, what it wrote to the output
  and to the error stream, and the files afterwards.
\<close>

definition success :: nat where "success = 0"
definition runtime_error :: nat where "runtime_error = 1"
definition usage_error :: nat where "usage_error = 2"

lemmas exit_codes = success_def runtime_error_def usage_error_def

type_synonym command_result = "nat \<times> string \<times> string \<times> files"

text \<open>
  What a command meets outside: the outcome of file calls, the working directory, whether the
  settings directory can be created, the answers of the password reader, and randomness.
\<close>

record wallet_env =
  we_io :: io
  we_cwd :: "path option"
  we_directories_ok :: bool
  we_password :: "string \<Rightarrow> string option"
  we_seed :: bytes
  we_salt :: bytes
  we_nonce :: bytes

text \<open>The chain that the commands work on by default: the development network.\<close>

definition current_chain_id :: u32 where "current_chain_id = 1"

abbreviation number :: "u64 \<Rightarrow> string" where
  "number n \<equiv> to_string (unat n)"

section \<open>The selected wallet\<close>

datatype WalletSelectionError =
    WS_none | WS_no_wallet_selected | WS_wallet_file_not_found | WS_invalid_selection | WS_io_error

fun wallet_selection_error_message :: "WalletSelectionError \<Rightarrow> string" where
  "wallet_selection_error_message WS_none = ''no error''"
| "wallet_selection_error_message WS_no_wallet_selected =
     ''no wallet is selected; use '' @ [CHR 0x27] @ ''bbc wallet select --file <path>'' @ [CHR 0x27]"
| "wallet_selection_error_message WS_wallet_file_not_found = ''the selected wallet file does not exist''"
| "wallet_selection_error_message WS_invalid_selection = ''the selected-wallet setting is invalid''"
| "wallet_selection_error_message WS_io_error = ''selected-wallet settings could not be read or written''"

definition selected_wallet_file_name :: string where "selected_wallet_file_name = ''selected-wallet''"
definition maximum_selection_size :: nat where "maximum_selection_size = 32 * 1024"

definition selection_file :: "path \<Rightarrow> path" where
  "selection_file settings_directory = path_append settings_directory selected_wallet_file_name"

definition environment_path :: "(string \<Rightarrow> string option) \<Rightarrow> string \<Rightarrow> path" where
  "environment_path getenv name = (case getenv name of None \<Rightarrow> [] | Some v \<Rightarrow> v)"

text \<open>The variant for Linux.\<close>

definition default_settings_directory :: "(string \<Rightarrow> string option) \<Rightarrow> path" where
  "default_settings_directory getenv =
     (let override_directory = environment_path getenv ''BBC_CONFIG_HOME'';
          xdg_config_home = environment_path getenv ''XDG_CONFIG_HOME'';
          home = environment_path getenv ''HOME''
      in if override_directory \<noteq> [] then override_directory
         else if xdg_config_home \<noteq> [] then path_append xdg_config_home ''bbc''
         else if home = [] then [] else path_append (path_append home ''.config'') ''bbc'')"

definition path_text_ok :: "string \<Rightarrow> bool" where
  "path_text_ok text \<longleftrightarrow> text \<noteq> [] \<and> CHR 0x00 \<notin> set text \<and> CHR 0x0A \<notin> set text \<and> CHR 0x0D \<notin> set text"

definition select_wallet :: "wallet_env \<Rightarrow> files \<Rightarrow> path \<Rightarrow> path \<Rightarrow> WalletSelectionError \<times> files" where
  "select_wallet we fs settings_directory wallet_path =
     (if settings_directory = [] \<or> wallet_path = [] then (WS_invalid_selection, fs)
      else
        (let (is_wallet_file, ec) = fs_is_regular_file (we_io we) fs wallet_path
         in if ec then (WS_io_error, fs)
            else if \<not> is_wallet_file then (WS_wallet_file_not_found, fs)
            else case fs_absolute (we_cwd we) wallet_path of
              None \<Rightarrow> (WS_io_error, fs)
            | Some p \<Rightarrow>
                if \<not> we_directories_ok we then (WS_io_error, fs)
                else
                  (let encoded_path = lexically_normal p;
                       target = selection_file settings_directory
                   in if \<not> path_text_ok encoded_path \<or> maximum_selection_size < length encoded_path
                      then (WS_invalid_selection, fs)
                      else case fs_open_trunc (we_io we) fs target of
                        None \<Rightarrow> (WS_io_error, fs)
                      | Some fs \<Rightarrow>
                          (let (written, fs) = fs_write (we_io we) fs target (text_bytes (encoded_path @ newline))
                           in (if written then WS_none else WS_io_error, fs)))))"

definition strip_line_ends :: "string \<Rightarrow> string" where
  "strip_line_ends text = rev (dropWhile (\<lambda>c. c = CHR 0x0A \<or> c = CHR 0x0D) (rev text))"

text \<open>The size of a file that is not there is \<open>no_such_file_or_directory\<close>; other errors are \<open>io_size_error\<close>.\<close>

definition selected_wallet :: "wallet_env \<Rightarrow> files \<Rightarrow> path \<Rightarrow> WalletSelectionError + path" where
  "selected_wallet we fs settings_directory =
     (if settings_directory = [] then Inl WS_invalid_selection
      else
        (let p = selection_file settings_directory
         in case fs_file_size (we_io we) fs p of
              None \<Rightarrow> Inl (if \<not> io_size_error (we_io we) then WS_no_wallet_selected else WS_io_error)
            | Some n \<Rightarrow>
                if n = 0 \<or> maximum_selection_size < n then Inl WS_invalid_selection
                else case fs_read (we_io we) fs p n of
                  None \<Rightarrow> Inl WS_io_error
                | Some content \<Rightarrow>
                    (let encoded_path = strip_line_ends (bytes_text content)
                     in if \<not> path_text_ok encoded_path then Inl WS_invalid_selection
                        else
                          (let (is_wallet_file, ec) = fs_is_regular_file (we_io we) fs encoded_path
                           in if ec then Inl WS_io_error
                              else if \<not> is_wallet_file then Inl WS_wallet_file_not_found
                              else Inr encoded_path))))"

section \<open>Access to wallets\<close>

text \<open>The text for the error stream, or the value.\<close>

definition resolve_wallet_path :: "wallet_env \<Rightarrow> files \<Rightarrow> CommandOptions \<Rightarrow> path \<Rightarrow> string \<Rightarrow> string + path" where
  "resolve_wallet_path we fs options settings_directory file_option =
     (case Option.bind (find (\<lambda>option. op_name option = file_option) options) op_value of
        Some file \<Rightarrow> Inr file
      | None \<Rightarrow>
          (case selected_wallet we fs settings_directory of
             Inl e \<Rightarrow> Inl (''Could not resolve wallet: '' @ wallet_selection_error_message e @ newline)
           | Inr p \<Rightarrow> Inr p))"

definition password_refused :: string where
  "password_refused = ''Could not read a password securely from this terminal.'' @ newline"

definition open_wallet :: "sodium \<Rightarrow> wallet_env \<Rightarrow> files \<Rightarrow> path \<Rightarrow> string + Wallet" where
  "open_wallet so we fs p =
     (case we_password we ''Wallet password: '' of
        None \<Rightarrow> Inl password_refused
      | Some password \<Rightarrow>
          (case load_wallet so (we_io we) fs p password of
             Inl e \<Rightarrow> Inl (''Could not open wallet: '' @ wallet_file_error_message e @ newline)
           | Inr w \<Rightarrow> Inr w))"

section \<open>Wallet commands\<close>

definition fail :: "nat \<Rightarrow> string \<Rightarrow> files \<Rightarrow> command_result" where
  "fail code err fs = (code, [], err, fs)"

definition print_wallet_help :: string where
  "print_wallet_help =
     ''Wallet commands:'' @ newline @
     ''  bbc wallet create --file <path> [--load]'' @ newline @
     ''  bbc wallet select --file <path>'' @ newline @
     ''  bbc wallet selected'' @ newline @
     ''  bbc wallet address [--file <path>]'' @ newline @
     ''  bbc wallet balance [--file <path>] [--block <path>]... [--data-dir <path>]'' @ newline @
     ''  bbc wallet sign [--file <path>] --message <text>'' @ newline @
     ''  bbc wallet verify --public-key <hex> --message <text> --signature <hex>'' @ newline"

text \<open>The last part of \<open>create_wallet\<close>: with \<open>--load\<close> the new wallet becomes the selected one.\<close>

definition load_created_wallet :: "wallet_env \<Rightarrow> path \<Rightarrow> string \<Rightarrow> string \<Rightarrow> files \<Rightarrow> command_result" where
  "load_created_wallet we settings_directory wallet_path out fs =
     (case select_wallet we fs settings_directory wallet_path of
        (selection_error, fs) \<Rightarrow>
          if selection_error \<noteq> WS_none
          then (runtime_error, out,
                ''Wallet was created but could not be selected: '' @ wallet_selection_error_message selection_error @ newline, fs)
          else case selected_wallet we fs settings_directory of
            Inl e \<Rightarrow> (runtime_error, out, ''Wallet was created but the selection could not be read.'' @ newline, fs)
          | Inr selected_path \<Rightarrow> (success, out @ ''Selected wallet: '' @ selected_path @ newline, [], fs))"

text \<open>\<open>create_wallet\<close>; \<^const>\<open>None\<close> is the exception of \<open>Wallet::create\<close> when the library fails.\<close>

definition create_wallet_command ::
    "sodium \<Rightarrow> wallet_env \<Rightarrow> CommandOptions \<Rightarrow> path \<Rightarrow> files \<Rightarrow> command_result option" where
  "create_wallet_command so we options settings_directory fs =
     (let invalid = validate_options options [''--file'', ''--load'']
      in if invalid \<noteq> [] then Some (fail usage_error invalid fs)
         else case required_option options ''--file'' of
           (None, err) \<Rightarrow> Some (fail usage_error err fs)
         | (Some file, _) \<Rightarrow>
             (case (we_password we ''New wallet password: '', we_password we ''Confirm wallet password: '') of
                (Some password, Some confirmation) \<Rightarrow>
                  if password = [] then Some (fail runtime_error (''Wallet password must not be empty.'' @ newline) fs)
                  else if password \<noteq> confirmation
                  then Some (fail runtime_error (''Wallet passwords do not match.'' @ newline) fs)
                  else
                    (case Wallet_create so (we_seed we) of
                       None \<Rightarrow> None
                     | Some w \<Rightarrow>
                         (case Wallet_save so (we_io we) fs w (we_salt we) (we_nonce we) file password of
                            (save_error, fs) \<Rightarrow>
                              if save_error \<noteq> WE_none
                              then Some (fail runtime_error
                                     (''Could not create wallet: '' @ wallet_file_error_message save_error @ newline) fs)
                              else
                                (let out = ''Wallet created: '' @ file @ newline @
                                       ''Address: '' @ Address_value (Wallet_address so w) @ newline @
                                       ''Public key: '' @ to_upper_hex (Wallet_public_key w) @ newline
                                 in if has_option options ''--load''
                                    then Some (load_created_wallet we settings_directory file out fs)
                                    else Some (success, out, [], fs))))
              | _ \<Rightarrow> Some (fail runtime_error password_refused fs)))"

definition select_wallet_file :: "sodium \<Rightarrow> wallet_env \<Rightarrow> CommandOptions \<Rightarrow> path \<Rightarrow> files \<Rightarrow> command_result" where
  "select_wallet_file so we options settings_directory fs =
     (let invalid = validate_options options [''--file'']
      in if invalid \<noteq> [] then fail usage_error invalid fs
         else case required_option options ''--file'' of
           (None, err) \<Rightarrow> fail usage_error err fs
         | (Some wallet_path, _) \<Rightarrow>
             (case open_wallet so we fs wallet_path of
                Inl err \<Rightarrow> fail runtime_error err fs
              | Inr loaded_wallet \<Rightarrow>
                  (case select_wallet we fs settings_directory wallet_path of
                     (selection_error, fs) \<Rightarrow>
                       if selection_error \<noteq> WS_none
                       then fail runtime_error
                              (''Could not select wallet: '' @ wallet_selection_error_message selection_error @ newline) fs
                       else case selected_wallet we fs settings_directory of
                         Inl e \<Rightarrow> fail runtime_error (''Wallet was selected but the selection could not be read.'' @ newline) fs
                       | Inr selected_path \<Rightarrow>
                           (success, ''Selected wallet: '' @ selected_path @ newline @
                              ''Address: '' @ Address_value (Wallet_address so loaded_wallet) @ newline, [], fs))))"

definition show_selected_wallet :: "wallet_env \<Rightarrow> CommandOptions \<Rightarrow> path \<Rightarrow> files \<Rightarrow> command_result" where
  "show_selected_wallet we options settings_directory fs =
     (let invalid = validate_options options []
      in if invalid \<noteq> [] then fail usage_error invalid fs
         else case selected_wallet we fs settings_directory of
           Inl e \<Rightarrow> fail runtime_error (''Could not resolve wallet: '' @ wallet_selection_error_message e @ newline) fs
         | Inr p \<Rightarrow> (success, ''Selected wallet: '' @ p @ newline, [], fs))"

text \<open>The wallet of the option or the selected one: the text for the error stream, or the wallet.\<close>

definition resolved_wallet ::
    "sodium \<Rightarrow> wallet_env \<Rightarrow> files \<Rightarrow> CommandOptions \<Rightarrow> path \<Rightarrow> string \<Rightarrow> string + Wallet" where
  "resolved_wallet so we fs options settings_directory file_option =
     (case resolve_wallet_path we fs options settings_directory file_option of
        Inl err \<Rightarrow> Inl err
      | Inr file \<Rightarrow> open_wallet so we fs file)"

definition show_wallet_address :: "sodium \<Rightarrow> wallet_env \<Rightarrow> CommandOptions \<Rightarrow> path \<Rightarrow> files \<Rightarrow> command_result" where
  "show_wallet_address so we options settings_directory fs =
     (let invalid = validate_options options [''--file'']
      in if invalid \<noteq> [] then fail usage_error invalid fs
         else case resolved_wallet so we fs options settings_directory ''--file'' of
           Inl err \<Rightarrow> fail runtime_error err fs
         | Inr w \<Rightarrow>
             (success, ''Address: '' @ Address_value (Wallet_address so w) @ newline @
                ''Public key: '' @ to_upper_hex (Wallet_public_key w) @ newline, [], fs))"

definition sign_message :: "sodium \<Rightarrow> wallet_env \<Rightarrow> CommandOptions \<Rightarrow> path \<Rightarrow> files \<Rightarrow> command_result" where
  "sign_message so we options settings_directory fs =
     (let invalid = validate_options options [''--file'', ''--message'']
      in if invalid \<noteq> [] then fail usage_error invalid fs
         else case required_option options ''--message'' of
           (None, err) \<Rightarrow> fail usage_error err fs
         | (Some message, _) \<Rightarrow>
             (case resolved_wallet so we fs options settings_directory ''--file'' of
                Inl err \<Rightarrow> fail runtime_error err fs
              | Inr w \<Rightarrow>
                  (success, ''Address: '' @ Address_value (Wallet_address so w) @ newline @
                     ''Public key: '' @ to_upper_hex (Wallet_public_key w) @ newline @
                     ''Signature: '' @ to_upper_hex (Wallet_sign so w (text_bytes message)) @ newline, [], fs)))"

definition verify_message :: "sodium \<Rightarrow> CommandOptions \<Rightarrow> files \<Rightarrow> command_result" where
  "verify_message so options fs =
     (let invalid = validate_options options [''--public-key'', ''--message'', ''--signature'']
      in if invalid \<noteq> [] then fail usage_error invalid fs
         else
           (let (encoded_public_key, err1) = required_option options ''--public-key'';
                (message, err2) = required_option options ''--message'';
                (encoded_signature, err3) = required_option options ''--signature''
            in case (encoded_public_key, message, encoded_signature) of
                 (Some encoded_public_key, Some message, Some encoded_signature) \<Rightarrow>
                   (case decode_hex encoded_public_key public_key_size of
                      None \<Rightarrow>
                        fail usage_error (''Public key must contain exactly 64 hexadecimal characters.'' @ newline) fs
                    | Some public_key \<Rightarrow>
                        (case decode_hex encoded_signature signature_size of
                           None \<Rightarrow> fail usage_error (''Signature must contain exactly 128 hexadecimal characters.'' @ newline) fs
                         | Some signature \<Rightarrow>
                             if verify_signature so (text_bytes message) signature public_key
                             then (success, ''Signature verification: success'' @ newline, [], fs)
                             else fail runtime_error (''Signature verification: failed'' @ newline) fs))
               | _ \<Rightarrow> fail usage_error (err1 @ err2 @ err3) fs))"

definition run_wallet_demo :: "sodium \<Rightarrow> wallet_env \<Rightarrow> files \<Rightarrow> command_result option" where
  "run_wallet_demo so we fs =
     (case Wallet_create so (we_seed we) of
        None \<Rightarrow> None
      | Some w \<Rightarrow>
          (let message = text_bytes ''BBC wallet signature demo'';
               signature = Wallet_sign so w message
           in if \<not> verify_signature so message signature (Wallet_public_key w)
              then Some (fail runtime_error (''Signature verification failed.'' @ newline) fs)
              else Some (success, ''Wallet address: '' @ Address_value (Wallet_address so w) @ newline @
                     ''Ed25519 signature verification: success'' @ newline, [], fs)))"

section \<open>Transaction commands\<close>

definition print_transaction_help :: string where
  "print_transaction_help =
     ''Transaction commands:'' @ newline @
     ''  bbc transaction create --to <address> --amount <units> --fee <units> --nonce <value> --out <path> [--wallet <path>]'' @
       newline @
     ''  bbc transaction show --file <path>'' @ newline @
     ''  bbc transaction verify --file <path>'' @ newline"

definition print_transaction :: "sodium \<Rightarrow> SignedTransaction \<Rightarrow> string" where
  "print_transaction so tx =
     ''Transaction ID: '' @ to_upper_hex (tx_id so tx) @ newline @
     ''Chain ID: '' @ to_string (unat (tx_chain_id tx)) @ newline @
     ''Sender: '' @ Address_value (tx_sender so tx) @ newline @
     ''Recipient: '' @ Address_value (tx_recipient tx) @ newline @
     ''Amount (base units): '' @ number (tx_amount tx) @ newline @
     ''Fee (base units): '' @ number (tx_fee tx) @ newline @
     ''Account nonce: '' @ number (tx_account_nonce tx) @ newline @
     ''Public key: '' @ to_upper_hex (tx_sender_public_key tx) @ newline @
     ''Signature: '' @ to_upper_hex (tx_signature tx) @ newline"

definition create_transaction :: "sodium \<Rightarrow> wallet_env \<Rightarrow> CommandOptions \<Rightarrow> path \<Rightarrow> files \<Rightarrow> command_result" where
  "create_transaction so we options settings_directory fs =
     (let invalid = validate_options options [''--to'', ''--amount'', ''--fee'', ''--nonce'', ''--out'', ''--wallet'']
      in if invalid \<noteq> [] then fail usage_error invalid fs
         else
           (let (encoded_recipient, err1) = required_option options ''--to'';
                (amount, err2) = required_uint64_option options ''--amount'';
                (fee, err3) = required_uint64_option options ''--fee'';
                (account_nonce, err4) = required_uint64_option options ''--nonce'';
                (output_file, err5) = required_option options ''--out''
            in case (encoded_recipient, amount, fee, account_nonce, output_file) of
                 (Some encoded_recipient, Some amount, Some fee, Some account_nonce, Some transaction_path) \<Rightarrow>
                   (case Address_parse encoded_recipient of
                      None \<Rightarrow> fail usage_error (''Recipient must be a valid BBC address.'' @ newline) fs
                    | Some recipient \<Rightarrow>
                        (case resolved_wallet so we fs options settings_directory ''--wallet'' of
                           Inl err \<Rightarrow> fail runtime_error err fs
                         | Inr signer \<Rightarrow>
                             (case sign_transaction so signer
                                 \<lparr> tf_recipient = recipient, tf_amount = amount, tf_fee = fee,
                                   tf_account_nonce = account_nonce, tf_chain_id = current_chain_id \<rparr> of
                                Inl e \<Rightarrow>
                                  fail usage_error (''Could not create transaction: '' @ transaction_error_message e @ newline) fs
                              | Inr tx \<Rightarrow>
                                  (case save_transaction (we_io we) fs tx transaction_path of
                                     (save_error, fs) \<Rightarrow>
                                       if save_error \<noteq> TE_none
                                       then fail runtime_error
                                              (''Could not save transaction: '' @ transaction_error_message save_error @ newline) fs
                                       else (success, ''Transaction saved: '' @ transaction_path @ newline @
                                              print_transaction so tx, [], fs)))))
               | _ \<Rightarrow> fail usage_error (err1 @ err2 @ err3 @ err4 @ err5) fs))"

definition show_transaction :: "sodium \<Rightarrow> wallet_env \<Rightarrow> CommandOptions \<Rightarrow> files \<Rightarrow> command_result" where
  "show_transaction so we options fs =
     (let invalid = validate_options options [''--file'']
      in if invalid \<noteq> [] then fail usage_error invalid fs
         else case required_option options ''--file'' of
           (None, err) \<Rightarrow> fail usage_error err fs
         | (Some file, _) \<Rightarrow>
             (case load_transaction so (we_io we) fs file of
                Inl e \<Rightarrow> fail runtime_error (''Could not read transaction: '' @ transaction_error_message e @ newline) fs
              | Inr tx \<Rightarrow> (success, print_transaction so tx @ ''Signature verification: success'' @ newline, [], fs)))"

definition verify_transaction_file :: "sodium \<Rightarrow> wallet_env \<Rightarrow> CommandOptions \<Rightarrow> files \<Rightarrow> command_result" where
  "verify_transaction_file so we options fs =
     (let invalid = validate_options options [''--file'']
      in if invalid \<noteq> [] then fail usage_error invalid fs
         else case required_option options ''--file'' of
           (None, err) \<Rightarrow> fail usage_error err fs
         | (Some file, _) \<Rightarrow>
             (case load_transaction so (we_io we) fs file of
                Inl e \<Rightarrow>
                  fail runtime_error (''Transaction verification: failed: '' @ transaction_error_message e @ newline) fs
              | Inr tx \<Rightarrow>
                  (success, ''Transaction verification: success'' @ newline @
                     ''Transaction ID: '' @ to_upper_hex (tx_id so tx) @ newline, [], fs)))"

definition run_transaction_command ::
    "sodium \<Rightarrow> wallet_env \<Rightarrow> string list \<Rightarrow> path \<Rightarrow> files \<Rightarrow> command_result" where
  "run_transaction_command so we arguments settings_directory fs =
     (case arguments of
        [] \<Rightarrow> (success, print_transaction_help, [], fs)
      | command # rest \<Rightarrow>
          if command = ''help'' then (success, print_transaction_help, [], fs)
          else case parse_options rest [] of
            Inl err \<Rightarrow> fail usage_error err fs
          | Inr options \<Rightarrow>
              if command = ''create'' then create_transaction so we options settings_directory fs
              else if command = ''show'' then show_transaction so we options fs
              else if command = ''verify'' then verify_transaction_file so we options fs
              else fail usage_error (''Unknown transaction command: '' @ command @ newline @ newline @ print_transaction_help) fs)"

end
