(* ===== verification/BBC_Cli_Chain.thy ===== *)
theory BBC_Cli_Chain
  imports BBC_Cli_Wallet BBC_Node
begin

text \<open>
  Commands on blocks, the stored chain and the stored mempool: \<open>src/app/block_commands.cpp\<close>,
  \<open>src/app/chain_commands.cpp\<close> and \<open>src/app/mempool_commands.cpp\<close>. They work on the files and on the two
  databases of the data directory they are called with. A command returns its exit code, its
  output and error text and the state of the storage; \<^const>\<open>None\<close> would be a command that does
  not return.
\<close>

record storage =
  sg_disk :: disk
  sg_pool :: pool_table

type_synonym storage_result = "nat \<times> string \<times> string \<times> storage"

text \<open>
  The outcomes of calls: on plain files, of the first and of later calls on the stores, of
  \<open>create_directories\<close>, and the text with the time and the hash rate of a successful search.
\<close>

record storage_env =
  xe_io :: io
  xe_first :: node_env
  xe_then :: node_env
  xe_directories_ok :: bool
  xe_timing :: "u64 \<Rightarrow> string"

definition refuse :: "nat \<Rightarrow> string \<Rightarrow> storage \<Rightarrow> storage_result" where
  "refuse code err sg = (code, [], err, sg)"

text \<open>
  The plain files. The databases \<open>chain.db\<close> (\<open>dk_database\<close> of the disk) and \<open>mempool.db\<close> (\<open>sg_pool\<close>)
  are kept beside them, by their tables.
\<close>

abbreviation sg_files :: "storage \<Rightarrow> files" where
  "sg_files sg \<equiv> dk_files (sg_disk sg)"

definition set_files :: "files \<Rightarrow> storage \<Rightarrow> storage" where
  "set_files fs sg = sg\<lparr> sg_disk := (sg_disk sg)\<lparr> dk_files := fs \<rparr> \<rparr>"

section \<open>Block commands\<close>

definition print_block_help :: string where
  "print_block_help =
     ''Block commands:'' @ newline @
     ''  bbc block genesis [--out <path>]'' @ newline @
     ''  bbc block create --height <value> --previous <block-id> --reward-to <address> --timestamp <unix-seconds> '' @
     ''[--target <hex>] [--nonce <value>] [--transaction <path>]... --out <path>'' @ newline @
     ''  bbc block candidate --data-dir <path> --reward-to <address> --timestamp <unix-seconds> --out <path>'' @ newline @
     ''  bbc block show --file <path>'' @ newline @
     ''  bbc block verify --file <path>'' @ newline @
     ''  bbc block mine --file <candidate> --out <path> [--max-attempts <value>]'' @ newline"

definition print_block :: "sodium \<Rightarrow> Block \<Rightarrow> string" where
  "print_block so block =
     ''Block ID: '' @ to_upper_hex (blk_id so block) @ newline @
     ''Chain ID: '' @ to_string (unat (blk_chain_id block)) @ newline @
     ''Height: '' @ number (blk_height block) @ newline @
     ''Previous block hash: '' @ to_upper_hex (blk_previous_block_hash block) @ newline @
     ''Transaction root: '' @ to_upper_hex (blk_transaction_root block) @ newline @
     ''Reward recipient: '' @
       (case blk_reward_recipient block of Some recipient \<Rightarrow> Address_value recipient | None \<Rightarrow> ''none'') @ newline @
     ''Timestamp: '' @ number (blk_timestamp block) @ newline @
     ''Difficulty target: '' @ to_upper_hex (blk_difficulty_target block) @ newline @
     ''Mining nonce: '' @ number (blk_mining_nonce block) @ newline @
     ''Transaction count: '' @ to_string (length (blk_transactions block)) @ newline @
     concat (map (\<lambda>(index, tx). ''Transaction '' @ to_string index @ '' ID: '' @ to_upper_hex (tx_id so tx) @ newline)
       (enumerate 0 (blk_transactions block)))"

text \<open>The loop over the transaction files of \<open>create_block_file\<close>: the error text, or the transactions.\<close>

fun load_transactions :: "sodium \<Rightarrow> io \<Rightarrow> files \<Rightarrow> string list \<Rightarrow> string + SignedTransaction list" where
  "load_transactions so io fs [] = Inr []"
| "load_transactions so io fs (file # rest) =
     (case load_transaction so io fs file of
        Inl e \<Rightarrow> Inl (''Could not read transaction '' @ file @ '': '' @ transaction_error_message e @ newline)
      | Inr tx \<Rightarrow> map_sum id (\<lambda>txs. tx # txs) (load_transactions so io fs rest))"

text \<open>The end of the commands that save a block: \<open>what\<close> and \<open>saved\<close> are their words for it.\<close>

definition save_and_print ::
    "sodium \<Rightarrow> storage_env \<Rightarrow> string \<Rightarrow> string \<Rightarrow> Block \<Rightarrow> path \<Rightarrow> storage \<Rightarrow> storage_result" where
  "save_and_print so xe what saved block p sg =
     (case save_block (xe_io xe) (sg_files sg) block p of
        (save_error, fs) \<Rightarrow>
          if save_error \<noteq> BE_none
          then refuse runtime_error (''Could not save '' @ what @ '': '' @ block_error_message save_error @ newline) (set_files fs sg)
          else (success, saved @ '' saved: '' @ p @ newline @ print_block so block, [], set_files fs sg))"

definition create_block_file :: "sodium \<Rightarrow> storage_env \<Rightarrow> CommandOptions \<Rightarrow> storage \<Rightarrow> storage_result" where
  "create_block_file so xe options sg =
     (let invalid = validate_options options
            [''--height'', ''--previous'', ''--reward-to'', ''--timestamp'', ''--target'', ''--nonce'', ''--transaction'', ''--out'']
      in if invalid \<noteq> [] then refuse usage_error invalid sg
         else
           (let (height, err1) = required_uint64_option options ''--height'';
                (encoded_previous, err2) = required_option options ''--previous'';
                (encoded_reward_recipient, err3) = required_option options ''--reward-to'';
                (timestamp, err4) = required_uint64_option options ''--timestamp'';
                (mining_nonce, err5) = optional_uint64_option options ''--nonce'' 0;
                (output_file, err6) = required_option options ''--out''
            in case (height, encoded_previous, encoded_reward_recipient, timestamp, mining_nonce, output_file) of
                 (Some height, Some encoded_previous, Some encoded_reward_recipient, Some timestamp, Some mining_nonce,
                  Some block_path) \<Rightarrow>
                   (case decode_hex encoded_previous hash256_size of
                      None \<Rightarrow>
                        refuse usage_error (''Previous block hash must contain exactly 64 hexadecimal characters.'' @ newline) sg
                    | Some previous_hash \<Rightarrow>
                        (case Address_parse encoded_reward_recipient of
                           None \<Rightarrow> refuse usage_error (''Reward recipient must be a valid BBC address.'' @ newline) sg
                         | Some reward_recipient \<Rightarrow>
                             (case (case option_values options ''--target'' of
                                      [] \<Rightarrow> Some (fixed_difficulty_target current_chain_id)
                                    | encoded_target # _ \<Rightarrow> decode_hex encoded_target hash256_size) of
                                None \<Rightarrow>
                                  refuse usage_error
                                    (''Difficulty target must contain exactly 64 hexadecimal characters.'' @ newline) sg
                              | Some difficulty_target \<Rightarrow>
                                  (case load_transactions so (xe_io xe) (sg_files sg) (option_values options ''--transaction'') of
                                     Inl err \<Rightarrow> refuse runtime_error err sg
                                   | Inr transactions \<Rightarrow>
                                       (case create_block so
                                           \<lparr> bf_height = height, bf_previous_block_hash = previous_hash,
                                             bf_reward_recipient = reward_recipient, bf_timestamp = timestamp,
                                             bf_difficulty_target = difficulty_target, bf_mining_nonce = mining_nonce,
                                             bf_transactions = transactions, bf_chain_id = current_chain_id \<rparr> of
                                          Inl e \<Rightarrow>
                                            refuse usage_error (''Could not create block: '' @ block_error_message e @ newline) sg
                                        | Inr block \<Rightarrow> save_and_print so xe ''block'' ''Block'' block block_path sg)))))
               | _ \<Rightarrow> refuse usage_error (err1 @ err2 @ err3 @ err4 @ err5 @ err6) sg))"

text \<open>
  Opening the stores of a data directory. The continuation gets the store and the storage; the
  error text is the caller's.
\<close>

definition with_chain_store ::
    "sodium \<Rightarrow> storage_env \<Rightarrow> path \<Rightarrow> storage \<Rightarrow> (ChainStore \<Rightarrow> storage \<Rightarrow> storage_result option) \<Rightarrow>
       storage_result option" where
  "with_chain_store so xe data_directory sg continue =
     (case cs_open so (ne_io (xe_first xe)) (ne_sqlite (xe_first xe)) (sg_disk sg) data_directory current_chain_id of
        None \<Rightarrow> None
      | Some (Inl e, dk) \<Rightarrow>
          Some (refuse runtime_error (''Could not open chain store: '' @ chain_store_error_message e @ newline)
            (sg\<lparr> sg_disk := dk \<rparr>))
      | Some (Inr cs, dk) \<Rightarrow> continue cs (sg\<lparr> sg_disk := dk \<rparr>))"

definition open_mempool ::
    "sodium \<Rightarrow> storage_env \<Rightarrow> path \<Rightarrow> ChainState \<Rightarrow> storage \<Rightarrow> MempoolStoreResult \<times> storage" where
  "open_mempool so xe data_directory chain_state sg =
     (case ms_open so (xe_directories_ok xe) (ne_pool_sqlite (xe_first xe)) (ne_pool_sqlite (xe_then xe)) (sg_pool sg)
         data_directory chain_state of
        (opened, table) \<Rightarrow> (opened, sg\<lparr> sg_pool := table \<rparr>))"

text \<open>\<open>create_block_candidate\<close> once the chain is open.\<close>

definition save_candidate ::
    "sodium \<Rightarrow> storage_env \<Rightarrow> path \<Rightarrow> Address \<Rightarrow> u64 \<Rightarrow> path \<Rightarrow> ChainStore \<Rightarrow> storage \<Rightarrow> storage_result" where
  "save_candidate so xe data_directory reward_recipient timestamp block_path cs sg =
     (let tip = bc_tip (cs_blockchain cs)
      in if blk_height tip = u64_max
         then refuse runtime_error (''Could not create block candidate: chain height is exhausted.'' @ newline) sg
         else if timestamp \<le> blk_timestamp tip
         then refuse usage_error (''Block timestamp must be greater than the chain tip timestamp.'' @ newline) sg
         else case open_mempool so xe data_directory (bc_state (cs_blockchain cs)) sg of
           (Inl e, sg) \<Rightarrow>
             refuse runtime_error (''Could not open mempool: '' @ mempool_store_error_message e @ newline) sg
         | (Inr ms, sg) \<Rightarrow>
             (case create_block so
                 \<lparr> bf_height = blk_height tip + 1, bf_previous_block_hash = blk_id so tip,
                   bf_reward_recipient = reward_recipient, bf_timestamp = timestamp,
                   bf_difficulty_target = fixed_difficulty_target current_chain_id, bf_mining_nonce = 0,
                   bf_transactions = mp_select so (ms_mempool ms) maximum_transactions_per_block,
                   bf_chain_id = current_chain_id \<rparr> of
                Inl e \<Rightarrow>
                  refuse runtime_error (''Could not create block candidate: '' @ block_error_message e @ newline) sg
              | Inr block \<Rightarrow> save_and_print so xe ''block candidate'' ''Block candidate'' block block_path sg))"

definition create_block_candidate :: "sodium \<Rightarrow> storage_env \<Rightarrow> CommandOptions \<Rightarrow> storage \<Rightarrow> storage_result option" where
  "create_block_candidate so xe options sg =
     (let invalid = validate_options options [''--data-dir'', ''--reward-to'', ''--timestamp'', ''--out'']
      in if invalid \<noteq> [] then Some (refuse usage_error invalid sg)
         else
           (let (encoded_data_directory, err1) = required_option options ''--data-dir'';
                (encoded_reward_recipient, err2) = required_option options ''--reward-to'';
                (timestamp, err3) = required_uint64_option options ''--timestamp'';
                (output_file, err4) = required_option options ''--out''
            in case (encoded_data_directory, encoded_reward_recipient, timestamp, output_file) of
                 (Some data_directory, Some encoded_reward_recipient, Some timestamp, Some block_path) \<Rightarrow>
                   (case Address_parse encoded_reward_recipient of
                      None \<Rightarrow> Some (refuse usage_error (''Reward recipient must be a valid BBC address.'' @ newline) sg)
                    | Some reward_recipient \<Rightarrow>
                        with_chain_store so xe data_directory sg
                          (\<lambda>cs sg. Some (save_candidate so xe data_directory reward_recipient timestamp block_path cs sg)))
               | _ \<Rightarrow> Some (refuse usage_error (err1 @ err2 @ err3 @ err4) sg)))"

definition show_genesis :: "sodium \<Rightarrow> storage_env \<Rightarrow> CommandOptions \<Rightarrow> storage \<Rightarrow> storage_result" where
  "show_genesis so xe options sg =
     (let invalid = validate_options options [''--out'']; genesis = genesis_block so current_chain_id
      in if invalid \<noteq> [] then refuse usage_error invalid sg
         else case option_values options ''--out'' of
           [] \<Rightarrow> (success, print_block so genesis, [], sg)
         | p # _ \<Rightarrow> save_and_print so xe ''genesis block'' ''Genesis block'' genesis p sg)"

text \<open>The block of the option \<open>--file\<close>; \<open>failed\<close> begins the message for a file that is none.\<close>

definition with_block_file ::
    "sodium \<Rightarrow> storage_env \<Rightarrow> CommandOptions \<Rightarrow> string \<Rightarrow> storage \<Rightarrow> (Block \<Rightarrow> storage_result) \<Rightarrow> storage_result" where
  "with_block_file so xe options failed sg continue =
     (let invalid = validate_options options [''--file'']
      in if invalid \<noteq> [] then refuse usage_error invalid sg
         else case required_option options ''--file'' of
           (None, err) \<Rightarrow> refuse usage_error err sg
         | (Some file, _) \<Rightarrow>
             (case load_block so (xe_io xe) (sg_files sg) file of
                Inl e \<Rightarrow> refuse runtime_error (failed @ block_error_message e @ newline) sg
              | Inr block \<Rightarrow> continue block))"

definition show_block_file :: "sodium \<Rightarrow> storage_env \<Rightarrow> CommandOptions \<Rightarrow> storage \<Rightarrow> storage_result" where
  "show_block_file so xe options sg =
     with_block_file so xe options ''Could not read block: '' sg (\<lambda>block. (success, print_block so block, [], sg))"

definition verify_block_file :: "sodium \<Rightarrow> storage_env \<Rightarrow> CommandOptions \<Rightarrow> storage \<Rightarrow> storage_result" where
  "verify_block_file so xe options sg =
     with_block_file so xe options ''Block verification: failed: '' sg (\<lambda>block.
       let proof_error = validate_proof_of_work so block
       in if proof_error \<noteq> PE_none
          then refuse runtime_error (''Block verification: failed: '' @ proof_of_work_error_message proof_error @ newline) sg
          else (success, ''Block verification: success'' @ newline @
                 ''Block ID: '' @ to_upper_hex (blk_id so block) @ newline @
                 ''Format and Proof of Work are valid. Chain state is not checked in this command.'' @ newline, [], sg))"

definition mine_block_file :: "sodium \<Rightarrow> storage_env \<Rightarrow> CommandOptions \<Rightarrow> storage \<Rightarrow> storage_result" where
  "mine_block_file so xe options sg =
     (let invalid = validate_options options [''--file'', ''--out'', ''--max-attempts'']
      in if invalid \<noteq> [] then refuse usage_error invalid sg
         else
           (let (file, err1) = required_option options ''--file'';
                (output_file, err2) = required_option options ''--out'';
                (maximum_attempts, err3) = optional_uint64_option options ''--max-attempts'' u64_max
            in case (file, output_file, maximum_attempts) of
                 (Some file, Some mined_path, Some maximum_attempts) \<Rightarrow>
                   (let (found, destination_error) = fs_exists (xe_io xe) (sg_files sg) mined_path
                    in if found
                       then refuse runtime_error
                              (''Could not save mined block: '' @ block_error_message BE_file_already_exists @ newline) sg
                       else if destination_error
                       then refuse runtime_error (''Could not save mined block: '' @ block_error_message BE_io_error @ newline) sg
                       else case load_block so (xe_io xe) (sg_files sg) file of
                         Inl e \<Rightarrow>
                           refuse runtime_error (''Could not read mining candidate: '' @ block_error_message e @ newline) sg
                       | Inr candidate \<Rightarrow>
                           (let mined = mine_block so candidate maximum_attempts
                            in case mr_value mined of
                                 Inl e \<Rightarrow>
                                   refuse runtime_error
                                     (''Mining stopped: '' @ proof_of_work_error_message e @ newline @
                                      ''Attempts: '' @ number (mr_attempts mined) @ newline @
                                      (case mr_next_nonce mined of
                                         None \<Rightarrow> []
                                       | Some nonce \<Rightarrow> ''Next nonce: '' @ number nonce @ newline)) sg
                               | Inr block \<Rightarrow>
                                   (case save_and_print so xe ''mined block'' ''Mined block'' block mined_path sg of
                                      (code, out, err, sg) \<Rightarrow>
                                        if code \<noteq> success then (code, out, err, sg)
                                        else (success, out @ ''Attempts: '' @ number (mr_attempts mined) @ newline @
                                                xe_timing xe (mr_attempts mined), err, sg))))
               | _ \<Rightarrow> refuse usage_error (err1 @ err2 @ err3) sg))"

definition run_block_command :: "sodium \<Rightarrow> storage_env \<Rightarrow> string list \<Rightarrow> storage \<Rightarrow> storage_result option" where
  "run_block_command so xe arguments sg =
     (case arguments of
        [] \<Rightarrow> Some (success, print_block_help, [], sg)
      | command # rest \<Rightarrow>
          if command = ''help'' then Some (success, print_block_help, [], sg)
          else case parse_options rest [''--transaction''] of
            Inl err \<Rightarrow> Some (refuse usage_error err sg)
          | Inr options \<Rightarrow>
              if command = ''genesis'' then Some (show_genesis so xe options sg)
              else if command = ''create'' then Some (create_block_file so xe options sg)
              else if command = ''candidate'' then create_block_candidate so xe options sg
              else if command = ''show'' then Some (show_block_file so xe options sg)
              else if command = ''verify'' then Some (verify_block_file so xe options sg)
              else if command = ''mine'' then Some (mine_block_file so xe options sg)
              else Some (refuse usage_error (''Unknown block command: '' @ command @ newline @ newline @ print_block_help) sg))"

section \<open>Chain commands\<close>

definition print_chain_help :: string where
  "print_chain_help =
     ''Chain commands:'' @ newline @
     ''  bbc chain verify [--block <path>]...'' @ newline @
     ''  bbc chain tip [--block <path>]...'' @ newline @
     ''  bbc chain balance --address <BBC-address> [--block <path>]...'' @ newline @
     ''  bbc chain init --data-dir <path>'' @ newline @
     ''  bbc chain add --data-dir <path> --block <path>'' @ newline @
     ''  bbc chain verify --data-dir <path>'' @ newline @
     ''  bbc chain tip --data-dir <path>'' @ newline @
     ''  bbc chain balance --address <BBC-address> --data-dir <path>'' @ newline @ newline @
     ''Use either a persistent data directory or ordered block files.'' @ newline"

definition append_error_text :: "AppendResult \<Rightarrow> string" where
  "append_error_text appended =
     chain_error_message (ar_error appended) @
     (if ar_state_error appended \<noteq> SE_none then '': '' @ state_transition_error_message (ar_state_error appended) else []) @
     (case ar_transaction_index appended of
        None \<Rightarrow> []
      | Some index \<Rightarrow> '' (transaction index '' @ to_string index @ '')'')"

text \<open>\<open>replay_blocks\<close>: the error text, or the chain with the blocks of the files.\<close>

fun replay_blocks :: "sodium \<Rightarrow> io \<Rightarrow> files \<Rightarrow> string list \<Rightarrow> Blockchain \<Rightarrow> (string + Blockchain) option" where
  "replay_blocks so io fs [] blockchain = Some (Inr blockchain)"
| "replay_blocks so io fs (p # rest) blockchain =
     (case load_block so io fs p of
        Inl e \<Rightarrow> Some (Inl (''Could not load block '' @ p @ '': '' @ block_error_message e @ newline))
      | Inr block \<Rightarrow>
          (case bc_append so blockchain block of
             None \<Rightarrow> None
           | Some (appended, blockchain) \<Rightarrow>
               if ar_error appended \<noteq> CE_none
               then Some (Inl (''Could not append block '' @ p @ '': '' @ append_error_text appended @ newline))
               else replay_blocks so io fs rest blockchain))"

definition validate_chain_source :: "CommandOptions \<Rightarrow> string" where
  "validate_chain_source options =
     (if has_option options ''--data-dir'' \<and> has_option options ''--block''
      then ''Use either --data-dir or --block, not both.'' @ newline else [])"

text \<open>\<open>load_chain\<close> and the same choice in \<open>show_chain_balance\<close>.\<close>

definition with_chain ::
    "sodium \<Rightarrow> storage_env \<Rightarrow> path option \<Rightarrow> string list \<Rightarrow> storage \<Rightarrow>
       (Blockchain \<Rightarrow> storage \<Rightarrow> storage_result) \<Rightarrow> storage_result option" where
  "with_chain so xe data_directory block_files sg continue =
     (case data_directory of
        Some directory \<Rightarrow> with_chain_store so xe directory sg (\<lambda>cs sg. Some (continue (cs_blockchain cs) sg))
      | None \<Rightarrow>
          (case replay_blocks so (xe_io xe) (sg_files sg) block_files (Blockchain_create so current_chain_id) of
             None \<Rightarrow> None
           | Some (Inl err) \<Rightarrow> Some (refuse runtime_error err sg)
           | Some (Inr blockchain) \<Rightarrow> Some (continue blockchain sg)))"

definition first_option :: "CommandOptions \<Rightarrow> string \<Rightarrow> string option" where
  "first_option options name = (case option_values options name of [] \<Rightarrow> None | v # _ \<Rightarrow> Some v)"

definition chain_database_path :: "path \<Rightarrow> path" where
  "chain_database_path data_directory = path_append (path_append data_directory ''chain'') ''chain.db''"

definition mempool_database_path :: "path \<Rightarrow> path" where
  "mempool_database_path data_directory = path_append (path_append data_directory ''mempool'') ''mempool.db''"

definition initialize_chain_store :: "sodium \<Rightarrow> storage_env \<Rightarrow> CommandOptions \<Rightarrow> storage \<Rightarrow> storage_result option" where
  "initialize_chain_store so xe options sg =
     (let invalid = validate_options options [''--data-dir'']
      in if invalid \<noteq> [] then Some (refuse usage_error invalid sg)
         else case required_option options ''--data-dir'' of
           (None, err) \<Rightarrow> Some (refuse usage_error err sg)
         | (Some data_directory, _) \<Rightarrow>
             (case cs_initialize so (ne_io (xe_first xe)) (ne_io (xe_then xe)) (ne_sqlite (xe_first xe)) (sg_disk sg)
                 data_directory current_chain_id of
                None \<Rightarrow> None
              | Some (Inl e, dk) \<Rightarrow>
                  Some (refuse runtime_error (''Could not initialize chain store: '' @ chain_store_error_message e @ newline)
                    (sg\<lparr> sg_disk := dk \<rparr>))
              | Some (Inr cs, dk) \<Rightarrow>
                  Some (success,
                    ''Chain store initialized: '' @ cs_data_directory cs @ newline @
                    ''Blocks file: '' @ blocks_path (cs_data_directory cs) @ newline @
                    ''Index database: '' @ chain_database_path (cs_data_directory cs) @ newline @
                    ''Tip height: '' @ number (blk_height (bc_tip (cs_blockchain cs))) @ newline @
                    ''Tip block ID: '' @ to_upper_hex (blk_id so (bc_tip (cs_blockchain cs))) @ newline, [],
                    sg\<lparr> sg_disk := dk \<rparr>)))"

text \<open>The pool after a block was stored; its troubles are warnings.\<close>

definition reconcile_after_add ::
    "sodium \<Rightarrow> storage_env \<Rightarrow> path \<Rightarrow> ChainState \<Rightarrow> Blockchain \<Rightarrow> AppendResult \<Rightarrow> string \<Rightarrow> storage \<Rightarrow> storage_result" where
  "reconcile_after_add so xe data_directory previous_state blockchain appended out sg =
     (let warning = (\<lambda>e. ''Warning: block was stored, but the mempool could not be revalidated: '' @
            mempool_store_error_message e @ newline)
      in case open_mempool so xe data_directory previous_state sg of
           (Inl e, sg) \<Rightarrow> (success, out, warning e, sg)
         | (Inr ms, sg) \<Rightarrow>
             (case ms_reconcile_reorganization so (ne_pool_sqlite (xe_then xe)) (sg_pool sg) ms (bc_state blockchain)
                 (ar_detached_blocks appended) of
                (reconciled, table, ms) \<Rightarrow>
                  (let sg = sg\<lparr> sg_pool := table \<rparr>
                   in if msr_error reconciled \<noteq> MS_none then (success, out, warning (msr_error reconciled), sg)
                      else (success, out @
                        ''Pending transactions after revalidation: '' @ to_string (mp_size (ms_mempool ms)) @ newline @
                        (if msr_detached reconciled \<noteq> 0
                         then ''Detached transactions reconsidered: '' @ to_string (msr_detached reconciled) @ newline @
                              ''Detached transactions restored: '' @ to_string (msr_restored reconciled) @ newline
                         else []), [], sg))))"

text \<open>\<open>add_block_to_store\<close> once the chain is open.\<close>

definition store_block ::
    "sodium \<Rightarrow> storage_env \<Rightarrow> path \<Rightarrow> path \<Rightarrow> ChainStore \<Rightarrow> storage \<Rightarrow> storage_result option" where
  "store_block so xe data_directory block_file cs sg =
     (case load_block so (xe_io xe) (sg_files sg) block_file of
        Inl e \<Rightarrow> Some (refuse runtime_error (''Could not load block: '' @ block_error_message e @ newline) sg)
      | Inr block \<Rightarrow>
          (case cs_append so (ne_io (xe_then xe)) (ne_sqlite (xe_then xe)) (sg_disk sg) cs block of
             None \<Rightarrow> None
           | Some (appended, dk, cs') \<Rightarrow>
               (let sg = sg\<lparr> sg_disk := dk \<rparr>
                in if car_storage_error appended \<noteq> KE_none
                   then Some (refuse runtime_error
                          (''Could not persist block: '' @ chain_store_error_message (car_storage_error appended) @ newline) sg)
                   else if ar_error (car_chain_result appended) \<noteq> CE_none
                   then Some (refuse runtime_error
                          (''Could not append block: '' @ append_error_text (car_chain_result appended) @ newline) sg)
                   else Some (reconcile_after_add so xe data_directory (bc_state (cs_blockchain cs))
                          (cs_blockchain cs') (car_chain_result appended)
                          (''Block stored'' @ newline @
                           ''Height: '' @ number (blk_height block) @ newline @
                           ''Block ID: '' @ to_upper_hex (blk_id so block) @ newline @
                           ''Active chain changed: '' @
                             (if ar_active_chain_changed (car_chain_result appended) then ''yes'' else ''no'') @ newline @
                           ''Chain height: '' @ number (blk_height (bc_tip (cs_blockchain cs'))) @ newline) sg))))"

definition add_block_to_store :: "sodium \<Rightarrow> storage_env \<Rightarrow> CommandOptions \<Rightarrow> storage \<Rightarrow> storage_result option" where
  "add_block_to_store so xe options sg =
     (let invalid = validate_options options [''--data-dir'', ''--block'']
      in if invalid \<noteq> [] then Some (refuse usage_error invalid sg)
         else
           (let (data_directory, err1) = required_option options ''--data-dir'';
                (block_file, err2) = required_option options ''--block''
            in case (data_directory, block_file) of
                 (Some data_directory, Some block_file) \<Rightarrow>
                   with_chain_store so xe data_directory sg (store_block so xe data_directory block_file)
               | _ \<Rightarrow> Some (refuse usage_error (err1 @ err2) sg)))"

definition verify_chain :: "sodium \<Rightarrow> storage_env \<Rightarrow> CommandOptions \<Rightarrow> storage \<Rightarrow> storage_result option" where
  "verify_chain so xe options sg =
     (let invalid = validate_options options [''--block'', ''--data-dir'']; both = validate_chain_source options
      in if invalid \<noteq> [] then Some (refuse usage_error invalid sg)
         else if both \<noteq> [] then Some (refuse usage_error both sg)
         else with_chain so xe (first_option options ''--data-dir'') (option_values options ''--block'') sg (\<lambda>blockchain sg.
           (success,
            ''Chain verification: success'' @ newline @
            ''Tip height: '' @ number (blk_height (bc_tip blockchain)) @ newline @
            ''Tip block ID: '' @ to_upper_hex (blk_id so (bc_tip blockchain)) @ newline @
            ''Blocks including Genesis: '' @ to_string (bc_block_count blockchain) @ newline @
            ''Accounts: '' @ to_string (ChainState_account_count (bc_state blockchain)) @ newline, [], sg)))"

definition show_tip :: "sodium \<Rightarrow> storage_env \<Rightarrow> CommandOptions \<Rightarrow> storage \<Rightarrow> storage_result option" where
  "show_tip so xe options sg =
     (let invalid = validate_options options [''--block'', ''--data-dir'']; both = validate_chain_source options
      in if invalid \<noteq> [] then Some (refuse usage_error invalid sg)
         else if both \<noteq> [] then Some (refuse usage_error both sg)
         else with_chain so xe (first_option options ''--data-dir'') (option_values options ''--block'') sg (\<lambda>blockchain sg.
           (success,
            ''Height: '' @ number (blk_height (bc_tip blockchain)) @ newline @
            ''Block ID: '' @ to_upper_hex (blk_id so (bc_tip blockchain)) @ newline @
            ''Timestamp: '' @ number (blk_timestamp (bc_tip blockchain)) @ newline, [], sg)))"

definition balance_text :: "Address \<Rightarrow> Blockchain \<Rightarrow> string" where
  "balance_text address blockchain =
     (let account = ChainState_account (bc_state blockchain) address
      in ''Address: '' @ Address_value address @ newline @
         ''Balance (base units): '' @ number (balance account) @ newline @
         ''Next account nonce: '' @ number (next_nonce account) @ newline @
         ''Chain height: '' @ number (blk_height (bc_tip blockchain)) @ newline)"

definition show_chain_balance ::
    "sodium \<Rightarrow> storage_env \<Rightarrow> Address \<Rightarrow> string list \<Rightarrow> path option \<Rightarrow> storage \<Rightarrow> storage_result option" where
  "show_chain_balance so xe address block_files data_directory sg =
     with_chain so xe data_directory block_files sg (\<lambda>blockchain sg. (success, balance_text address blockchain, [], sg))"

definition show_balance :: "sodium \<Rightarrow> storage_env \<Rightarrow> CommandOptions \<Rightarrow> storage \<Rightarrow> storage_result option" where
  "show_balance so xe options sg =
     (let invalid = validate_options options [''--address'', ''--block'', ''--data-dir'']; both = validate_chain_source options
      in if invalid \<noteq> [] then Some (refuse usage_error invalid sg)
         else if both \<noteq> [] then Some (refuse usage_error both sg)
         else case required_option options ''--address'' of
           (None, err) \<Rightarrow> Some (refuse usage_error err sg)
         | (Some encoded_address, _) \<Rightarrow>
             (case Address_parse encoded_address of
                None \<Rightarrow> Some (refuse usage_error (''Address must be a valid BBC address.'' @ newline) sg)
              | Some address \<Rightarrow>
                  show_chain_balance so xe address (option_values options ''--block'') (first_option options ''--data-dir'') sg))"

definition run_chain_command :: "sodium \<Rightarrow> storage_env \<Rightarrow> string list \<Rightarrow> storage \<Rightarrow> storage_result option" where
  "run_chain_command so xe arguments sg =
     (case arguments of
        [] \<Rightarrow> Some (success, print_chain_help, [], sg)
      | command # rest \<Rightarrow>
          if command = ''help'' then Some (success, print_chain_help, [], sg)
          else case parse_options rest (if command \<in> {''verify'', ''tip'', ''balance''} then [''--block''] else []) of
            Inl err \<Rightarrow> Some (refuse usage_error err sg)
          | Inr options \<Rightarrow>
              if command = ''init'' then initialize_chain_store so xe options sg
              else if command = ''add'' then add_block_to_store so xe options sg
              else if command = ''verify'' then verify_chain so xe options sg
              else if command = ''tip'' then show_tip so xe options sg
              else if command = ''balance'' then show_balance so xe options sg
              else Some (refuse usage_error (''Unknown chain command: '' @ command @ newline @ newline @ print_chain_help) sg))"

section \<open>Mempool commands\<close>

definition print_mempool_help :: string where
  "print_mempool_help =
     ''Mempool commands:'' @ newline @
     ''  bbc mempool add --data-dir <path> --transaction <path>'' @ newline @
     ''  bbc mempool list --data-dir <path>'' @ newline @
     ''  bbc mempool status --data-dir <path>'' @ newline"

text \<open>\<open>open_stores\<close> of the mempool commands.\<close>

definition with_stores ::
    "sodium \<Rightarrow> storage_env \<Rightarrow> path \<Rightarrow> storage \<Rightarrow> (ChainStore \<Rightarrow> MempoolStore \<Rightarrow> storage \<Rightarrow> storage_result) \<Rightarrow>
       storage_result option" where
  "with_stores so xe data_directory sg continue =
     with_chain_store so xe data_directory sg (\<lambda>cs sg.
       case open_mempool so xe data_directory (bc_state (cs_blockchain cs)) sg of
         (Inl e, sg) \<Rightarrow>
           Some (refuse runtime_error (''Could not open mempool: '' @ mempool_store_error_message e @ newline) sg)
       | (Inr ms, sg) \<Rightarrow> Some (continue cs ms sg))"

definition add_transaction_command :: "sodium \<Rightarrow> storage_env \<Rightarrow> CommandOptions \<Rightarrow> storage \<Rightarrow> storage_result option" where
  "add_transaction_command so xe options sg =
     (let invalid = validate_options options [''--data-dir'', ''--transaction'']
      in if invalid \<noteq> [] then Some (refuse usage_error invalid sg)
         else
           (let (data_directory, err1) = required_option options ''--data-dir'';
                (transaction_file, err2) = required_option options ''--transaction''
            in case (data_directory, transaction_file) of
                 (Some data_directory, Some transaction_file) \<Rightarrow>
                   with_stores so xe data_directory sg (\<lambda>cs ms sg.
                     case load_transaction so (xe_io xe) (sg_files sg) transaction_file of
                       Inl e \<Rightarrow> refuse runtime_error (''Could not load transaction: '' @ transaction_error_message e @ newline) sg
                     | Inr tx \<Rightarrow>
                         (case ms_add so (ne_pool_sqlite (xe_then xe)) (sg_pool sg) ms tx of
                            (added, table, ms) \<Rightarrow>
                              (let sg = sg\<lparr> sg_pool := table \<rparr>
                               in if msa_storage_error added \<noteq> MS_none
                                  then refuse runtime_error
                                         (''Could not persist transaction in mempool: '' @
                                          mempool_store_error_message (msa_storage_error added) @ newline) sg
                                  else if msa_mempool_error added \<noteq> ME_none
                                  then refuse runtime_error
                                         (''Transaction rejected by mempool: '' @
                                          mempool_error_message (msa_mempool_error added) @ newline) sg
                                  else (success,
                                    ''Transaction added to mempool'' @ newline @
                                    ''Transaction ID: '' @ to_upper_hex (tx_id so tx) @ newline @
                                    ''Pending transactions: '' @ to_string (mp_size (ms_mempool ms)) @ newline, [], sg))))
               | _ \<Rightarrow> Some (refuse usage_error (err1 @ err2) sg)))"

text \<open>\<open>data_directory\<close>: the text for the error stream, or the directory.\<close>

definition data_directory_option :: "CommandOptions \<Rightarrow> string + path" where
  "data_directory_option options =
     (let invalid = validate_options options [''--data-dir'']
      in if invalid \<noteq> [] then Inl invalid
         else case required_option options ''--data-dir'' of (None, err) \<Rightarrow> Inl err | (Some directory, _) \<Rightarrow> Inr directory)"

definition pending_text :: "sodium \<Rightarrow> nat \<Rightarrow> SignedTransaction \<Rightarrow> string" where
  "pending_text so index tx =
     ''Transaction '' @ to_string index @ '' ID: '' @ to_upper_hex (tx_id so tx) @ newline @
     ''  Sender: '' @ Address_value (tx_sender so tx) @ newline @
     ''  Recipient: '' @ Address_value (tx_recipient tx) @ newline @
     ''  Amount (base units): '' @ number (tx_amount tx) @ newline @
     ''  Fee (base units): '' @ number (tx_fee tx) @ newline @
     ''  Account nonce: '' @ number (tx_account_nonce tx) @ newline"

definition list_transactions :: "sodium \<Rightarrow> storage_env \<Rightarrow> CommandOptions \<Rightarrow> storage \<Rightarrow> storage_result option" where
  "list_transactions so xe options sg =
     (case data_directory_option options of
        Inl err \<Rightarrow> Some (refuse usage_error err sg)
      | Inr directory \<Rightarrow>
          with_stores so xe directory sg (\<lambda>cs ms sg.
            let pending = mp_transactions (ms_mempool ms)
            in (success, ''Pending transactions: '' @ to_string (length pending) @ newline @
                  concat (map (\<lambda>(index, tx). pending_text so index tx) (enumerate 0 pending)), [], sg)))"

definition show_status :: "sodium \<Rightarrow> storage_env \<Rightarrow> CommandOptions \<Rightarrow> storage \<Rightarrow> storage_result option" where
  "show_status so xe options sg =
     (case data_directory_option options of
        Inl err \<Rightarrow> Some (refuse usage_error err sg)
      | Inr directory \<Rightarrow>
          with_stores so xe directory sg (\<lambda>cs ms sg.
            (success,
             ''Pending transactions: '' @ to_string (mp_size (ms_mempool ms)) @ newline @
             ''Maximum transactions: '' @ to_string maximum_mempool_transactions @ newline @
             ''Chain height: '' @ number (blk_height (bc_tip (cs_blockchain cs))) @ newline @
             ''Database: '' @ mempool_database_path (ms_data_directory ms) @ newline, [], sg)))"

definition run_mempool_command :: "sodium \<Rightarrow> storage_env \<Rightarrow> string list \<Rightarrow> storage \<Rightarrow> storage_result option" where
  "run_mempool_command so xe arguments sg =
     (case arguments of
        [] \<Rightarrow> Some (success, print_mempool_help, [], sg)
      | command # rest \<Rightarrow>
          if command = ''help'' then Some (success, print_mempool_help, [], sg)
          else case parse_options rest [] of
            Inl err \<Rightarrow> Some (refuse usage_error err sg)
          | Inr options \<Rightarrow>
              if command = ''add'' then add_transaction_command so xe options sg
              else if command = ''list'' then list_transactions so xe options sg
              else if command = ''status'' then show_status so xe options sg
              else Some (refuse usage_error (''Unknown mempool command: '' @ command @ newline @ newline @ print_mempool_help) sg))"

end
