(* ===== verification/BBC_ConfigFile.thy ===== *)
theory BBC_ConfigFile
  imports BBC_Config BBC_Paths
begin

text \<open>
  The loaders of the configuration files: \<open>src/config/application_config.cpp\<close> and
  \<open>src/node/scenario_actor_config.cpp\<close>. The JSON parser is a parameter, \<^const>\<open>None\<close> where it
  throws; \<open>cwd\<close> is the working directory. \<open>fs\<close> are the files when the size is asked for and
  \<open>fs'\<close> when the file is read.
\<close>

section \<open>Names and hosts\<close>

definition ascii_digit :: "char \<Rightarrow> bool" where
  "ascii_digit c \<longleftrightarrow> char_between CHR ''0'' CHR ''9'' c"

definition ascii_alphanumeric :: "char \<Rightarrow> bool" where
  "ascii_alphanumeric c \<longleftrightarrow>
     char_between CHR ''a'' CHR ''z'' c \<or> char_between CHR ''A'' CHR ''Z'' c \<or> char_between CHR ''0'' CHR ''9'' c"

definition valid_name :: "string \<Rightarrow> bool" where
  "valid_name value \<longleftrightarrow> value \<noteq> [] \<and> length value \<le> 64 \<and>
     list_all (\<lambda>c. ascii_alphanumeric c \<or> c = CHR ''-'' \<or> c = CHR ''_'') value"

text \<open>The loop of \<open>valid_ipv4_literal\<close>, from the counters at a character to those at the end.\<close>

fun ipv4_loop :: "string \<Rightarrow> nat \<Rightarrow> nat \<Rightarrow> u32 \<Rightarrow> (nat \<times> nat \<times> u32) option" where
  "ipv4_loop [] part_count part_length part_value = Some (part_count, part_length, part_value)"
| "ipv4_loop (c # rest) part_count part_length part_value =
     (if c = CHR ''.''
      then if part_length = 0 \<or> 3 < part_length \<or> 255 < part_value then None
           else ipv4_loop rest (part_count + 1) 0 0
      else if \<not> ascii_digit c then None
      else ipv4_loop rest part_count (part_length + 1) (part_value * 10 + (of_char c - of_char CHR ''0'')))"

definition valid_ipv4_literal :: "string \<Rightarrow> bool" where
  "valid_ipv4_literal value \<longleftrightarrow>
     (case ipv4_loop value 0 0 0 of
        None \<Rightarrow> False
      | Some (part_count, part_length, part_value) \<Rightarrow>
          part_count = 3 \<and> 0 < part_length \<and> part_length \<le> 3 \<and> part_value \<le> 255)"

fun host_loop :: "string \<Rightarrow> nat \<Rightarrow> bool \<Rightarrow> (nat \<times> bool) option" where
  "host_loop [] label_size previous_hyphen = Some (label_size, previous_hyphen)"
| "host_loop (c # rest) label_size previous_hyphen =
     (if c = CHR ''.''
      then if label_size = 0 \<or> 63 < label_size \<or> previous_hyphen then None else host_loop rest 0 False
      else if \<not> ascii_alphanumeric c \<and> c \<noteq> CHR ''-'' then None
      else if label_size = 0 \<and> c = CHR ''-'' then None
      else host_loop rest (label_size + 1) (c = CHR ''-''))"

definition valid_host :: "string \<Rightarrow> bool" where
  "valid_host value =
     (if value = [] \<or> 253 < length value \<or> \<not> ascii_alphanumeric (hd value) \<or> \<not> ascii_alphanumeric (last value) then False
      else if list_all (\<lambda>c. ascii_digit c \<or> c = CHR ''.'') value then valid_ipv4_literal value
      else case host_loop value 0 False of
        None \<Rightarrow> False
      | Some (label_size, previous_hyphen) \<Rightarrow> 0 < label_size \<and> label_size \<le> 63 \<and> \<not> previous_hyphen)"

section \<open>Application configuration\<close>

datatype ApplicationConfigError =
    CF_none | CF_io_error | CF_file_too_large | CF_invalid_json | CF_unsupported_schema | CF_unknown_field
  | CF_invalid_name | CF_invalid_network_profile | CF_invalid_roles | CF_invalid_wallet | CF_invalid_data_directory
  | CF_invalid_full_node | CF_invalid_miner | CF_invalid_rpc

definition maximum_application_config_size :: nat where
  "maximum_application_config_size = 1024 * 1024"

definition maximum_initial_peers :: nat where
  "maximum_initial_peers = 64"

definition contains_only :: "json \<Rightarrow> string list \<Rightarrow> bool" where
  "contains_only object allowed \<longleftrightarrow>
     is_object object \<and> list_all (\<lambda>(key, value). key \<in> set allowed) (json_members_of object)"

definition parse_endpoint :: "json \<Rightarrow> NetworkEndpoint option" where
  "parse_endpoint encoded =
     (if \<not> contains_only encoded [''host'', ''port''] then None
      else case (string_member encoded ''host'', unsigned_member encoded ''port'') of
        (Some host, Some port) \<Rightarrow>
          if \<not> valid_host host \<or> port = 0 \<or> 65535 < port then None
          else Some \<lparr> ep_host = host, ep_port = ucast port \<rparr>
      | _ \<Rightarrow> None)"

definition normalized_path :: "json \<Rightarrow> path \<Rightarrow> path option" where
  "normalized_path encoded base_directory =
     (case encoded of
        J_string value \<Rightarrow>
          if value = [] \<or> CHR 0x00 \<in> set value then None
          else Some (lexically_normal (if is_absolute value then value else path_append base_directory value))
      | _ \<Rightarrow> None)"

definition parse_role :: "string \<Rightarrow> ApplicationRole option" where
  "parse_role value =
     (if value = ''wallet'' then Some PR_wallet
      else if value = ''full_node'' then Some PR_full_node
      else if value = ''miner'' then Some PR_miner
      else None)"

definition parse_p2p_scope :: "string \<Rightarrow> P2pScope option" where
  "parse_p2p_scope value =
     (if value = ''loopback'' then Some SC_loopback
      else if value = ''lan'' then Some SC_lan
      else if value = ''internet'' then Some SC_internet
      else None)"

fun application_role_name :: "ApplicationRole \<Rightarrow> string" where
  "application_role_name PR_wallet = ''wallet''"
| "application_role_name PR_full_node = ''full_node''"
| "application_role_name PR_miner = ''miner''"

fun p2p_scope_name :: "P2pScope \<Rightarrow> string" where
  "p2p_scope_name SC_loopback = ''loopback''"
| "p2p_scope_name SC_lan = ''lan''"
| "p2p_scope_name SC_internet = ''internet''"

text \<open>The loop over the roles; it refuses other values and repeated roles.\<close>

fun parse_roles :: "(string \<Rightarrow> 'r option) \<Rightarrow> json list \<Rightarrow> 'r list \<Rightarrow> 'r list option" where
  "parse_roles parse [] roles = Some roles"
| "parse_roles parse (encoded # rest) roles =
     (case encoded of
        J_string name \<Rightarrow>
          (case parse name of
             None \<Rightarrow> None
           | Some role \<Rightarrow> if role \<in> set roles then None else parse_roles parse rest (roles @ [role]))
      | _ \<Rightarrow> None)"

definition load_roles :: "(string \<Rightarrow> 'r option) \<Rightarrow> json \<Rightarrow> 'r list option" where
  "load_roles parse document =
     (case array_member document ''roles'' of
        None \<Rightarrow> None
      | Some encoded \<Rightarrow> if encoded = [] then None else parse_roles parse encoded [])"

fun parse_peers :: "NetworkEndpoint \<Rightarrow> json list \<Rightarrow> NetworkEndpoint list \<Rightarrow> NetworkEndpoint list option" where
  "parse_peers listen [] peers = Some peers"
| "parse_peers listen (encoded # rest) peers =
     (case parse_endpoint encoded of
        None \<Rightarrow> None
      | Some peer \<Rightarrow> if peer = listen \<or> peer \<in> set peers then None else parse_peers listen rest (peers @ [peer]))"

text \<open>
  The settings of each role; the outer \<^const>\<open>None\<close> is the error of the section, and a section
  without its role is one.
\<close>

definition load_full_node :: "json \<Rightarrow> bool \<Rightarrow> FullNodeSettings option option" where
  "load_full_node document full_node_role =
     (if full_node_role
      then case member document ''full_node'' of
          None \<Rightarrow> None
        | Some section \<Rightarrow>
            if \<not> contains_only section [''listen'', ''peers'', ''scope''] then None
            else
              (case Option.bind (member section ''listen'') parse_endpoint of
                 None \<Rightarrow> None
               | Some listen \<Rightarrow>
                   (case (case member section ''peers'' of
                            None \<Rightarrow> Some []
                          | Some (J_array encoded_peers) \<Rightarrow>
                              if maximum_initial_peers < length encoded_peers then None
                              else parse_peers listen encoded_peers []
                          | Some _ \<Rightarrow> None) of
                      None \<Rightarrow> None
                    | Some peers \<Rightarrow>
                        (case (case member section ''scope'' of
                                 None \<Rightarrow> Some SC_lan
                               | Some (J_string name) \<Rightarrow> parse_p2p_scope name
                               | Some _ \<Rightarrow> None) of
                           None \<Rightarrow> None
                         | Some scope \<Rightarrow>
                             Some (Some \<lparr> fn_listen = listen, fn_peers = peers, fn_scope = scope \<rparr>))))
      else if json_contains document ''full_node'' then None
      else Some None)"

definition load_miner :: "json \<Rightarrow> bool \<Rightarrow> bool \<Rightarrow> MinerSettings option option" where
  "load_miner document full_node_role miner_role =
     (if miner_role
      then case member document ''miner'' of
          None \<Rightarrow> None
        | Some section \<Rightarrow>
            if \<not> contains_only section [''reward_address'', ''source'', ''auto_start''] then None
            else
              (case Option.bind (string_member section ''reward_address'') Address_parse of
                 None \<Rightarrow> None
               | Some reward_address \<Rightarrow>
                   (case (case member section ''source'' of
                            None \<Rightarrow> Some None
                          | Some encoded \<Rightarrow> map_option Some (parse_endpoint encoded)) of
                      None \<Rightarrow> None
                    | Some source \<Rightarrow>
                        if full_node_role \<and> source \<noteq> None \<or> \<not> full_node_role \<and> source = None then None
                        else
                          (case (case member section ''auto_start'' of
                                   None \<Rightarrow> Some False
                                 | Some (J_bool auto_start) \<Rightarrow> Some auto_start
                                 | Some _ \<Rightarrow> None) of
                             None \<Rightarrow> None
                           | Some auto_start \<Rightarrow>
                               Some (Some \<lparr> mi_reward_address = reward_address, mi_source = source,
                                            mi_auto_start = auto_start \<rparr>))))
      else if json_contains document ''miner'' then None
      else Some None)"

definition load_rpc ::
    "json \<Rightarrow> path \<Rightarrow> path \<Rightarrow> path \<Rightarrow> path \<Rightarrow> FullNodeSettings option \<Rightarrow> MinerSettings option \<Rightarrow> bool \<Rightarrow>
       RpcSettings option option" where
  "load_rpc document base_directory source_file wallet_file data_directory full_node miner long_running =
     (if long_running
      then case member document ''rpc'' of
          None \<Rightarrow> None
        | Some section \<Rightarrow>
            if \<not> contains_only section [''listen'', ''token_file''] then None
            else
              (case (Option.bind (member section ''listen'') parse_endpoint,
                     Option.bind (member section ''token_file'') (\<lambda>encoded. normalized_path encoded base_directory)) of
                 (Some listen, Some token_file) \<Rightarrow>
                   if ep_host listen \<noteq> ''127.0.0.1'' then None
                   else if map_option fn_listen full_node = Some listen then None
                   else if token_file = source_file \<or> token_file = wallet_file \<or> token_file = data_directory \<or>
                     Option.bind miner mi_source = Some listen then None
                   else Some (Some \<lparr> rp_listen = listen, rp_token_file = token_file \<rparr>)
               | _ \<Rightarrow> None)
      else if json_contains document ''rpc'' then None
      else Some None)"

text \<open>From the name to the roles, then from the wallet to the end of the document.\<close>

definition load_identity :: "json \<Rightarrow> ApplicationConfigError + string \<times> NetworkProfile \<times> ApplicationRole list" where
  "load_identity document =
     (if unsigned_member document ''schema_version'' \<noteq> Some 1 then Inl CF_unsupported_schema
      else if \<not> contains_only document
          [''schema_version'', ''name'', ''network'', ''roles'', ''wallet'', ''data_directory'', ''full_node'', ''miner'', ''rpc'']
      then Inl CF_unknown_field
      else
        (case string_member document ''name'' of
           None \<Rightarrow> Inl CF_invalid_name
         | Some name \<Rightarrow>
             if \<not> valid_name name then Inl CF_invalid_name
             else
               (case Option.bind (string_member document ''network'') parse_network_profile of
                  None \<Rightarrow> Inl CF_invalid_network_profile
                | Some profile \<Rightarrow>
                    (case load_roles parse_role document of
                       None \<Rightarrow> Inl CF_invalid_roles
                     | Some roles \<Rightarrow>
                         if PR_wallet \<notin> set roles then Inl CF_invalid_roles else Inr (name, profile, roles)))))"

definition load_settings ::
    "json \<Rightarrow> path \<Rightarrow> string \<Rightarrow> NetworkProfile \<Rightarrow> ApplicationRole list \<Rightarrow> ApplicationConfigError + ApplicationConfig" where
  "load_settings document source_file name profile roles =
     (let base_directory = parent_path source_file;
          full_node_role = (PR_full_node \<in> set roles);
          miner_role = (PR_miner \<in> set roles)
      in case Option.bind (member document ''wallet'') (\<lambda>section.
                if contains_only section [''file''] then member section ''file'' else None) of
           None \<Rightarrow> Inl CF_invalid_wallet
         | Some encoded_wallet \<Rightarrow>
             (case normalized_path encoded_wallet base_directory of
                None \<Rightarrow> Inl CF_invalid_wallet
              | Some wallet_file \<Rightarrow>
                  if wallet_file = source_file then Inl CF_invalid_wallet
                  else
                    (case Option.bind (member document ''data_directory'') (\<lambda>encoded. normalized_path encoded base_directory) of
                       None \<Rightarrow> Inl CF_invalid_data_directory
                     | Some data_directory \<Rightarrow>
                         if data_directory = source_file \<or> data_directory = wallet_file then Inl CF_invalid_data_directory
                         else
                           (case load_full_node document full_node_role of
                              None \<Rightarrow> Inl CF_invalid_full_node
                            | Some full_node \<Rightarrow>
                                (case load_miner document full_node_role miner_role of
                                   None \<Rightarrow> Inl CF_invalid_miner
                                 | Some miner \<Rightarrow>
                                     (case load_rpc document base_directory source_file wallet_file data_directory
                                         full_node miner (full_node_role \<or> miner_role) of
                                        None \<Rightarrow> Inl CF_invalid_rpc
                                      | Some rpc \<Rightarrow>
                                          Inr \<lparr> ac_source_file = source_file, ac_name = name,
                                                ac_network_profile = profile, ac_roles = roles,
                                                ac_wallet_file = wallet_file, ac_data_directory = data_directory,
                                                ac_full_node = full_node, ac_miner = miner, ac_rpc = rpc \<rparr>))))))"

definition load_application_config ::
    "io \<Rightarrow> (string \<Rightarrow> json option) \<Rightarrow> path option \<Rightarrow> files \<Rightarrow> files \<Rightarrow> path \<Rightarrow>
       ApplicationConfigError + ApplicationConfig" where
  "load_application_config io parse cwd fs fs' p =
     (case fs_file_size io fs p of
        None \<Rightarrow> Inl CF_io_error
      | Some file_size \<Rightarrow>
          if maximum_application_config_size < file_size then Inl CF_file_too_large
          else
            (case fs_read_all io fs' p of
               None \<Rightarrow> Inl CF_io_error
             | Some encoded \<Rightarrow>
                 if maximum_application_config_size < length encoded then Inl CF_file_too_large
                 else
                   (case parse (bytes_text encoded) of
                      None \<Rightarrow> Inl CF_invalid_json
                    | Some document \<Rightarrow>
                        (case load_identity document of
                           Inl e \<Rightarrow> Inl e
                         | Inr (name, profile, roles) \<Rightarrow>
                             (case fs_absolute cwd p of
                                None \<Rightarrow> Inl CF_io_error
                              | Some q \<Rightarrow> load_settings document (lexically_normal q) name profile roles)))))"

fun application_config_error_message :: "ApplicationConfigError \<Rightarrow> string" where
  "application_config_error_message CF_none = ''no error''"
| "application_config_error_message CF_io_error = ''application configuration file I/O failed''"
| "application_config_error_message CF_file_too_large = ''application configuration exceeds 1 MiB''"
| "application_config_error_message CF_invalid_json = ''application configuration is not valid JSON''"
| "application_config_error_message CF_unsupported_schema = ''application configuration schema is unsupported''"
| "application_config_error_message CF_unknown_field = ''application configuration contains an unknown field''"
| "application_config_error_message CF_invalid_name = ''application configuration has an invalid name''"
| "application_config_error_message CF_invalid_network_profile = ''application configuration has an invalid network profile''"
| "application_config_error_message CF_invalid_roles = ''application configuration has invalid roles''"
| "application_config_error_message CF_invalid_wallet = ''application configuration has invalid wallet settings''"
| "application_config_error_message CF_invalid_data_directory = ''application configuration has an invalid data directory''"
| "application_config_error_message CF_invalid_full_node = ''application configuration has invalid full-node settings''"
| "application_config_error_message CF_invalid_miner = ''application configuration has invalid miner settings''"
| "application_config_error_message CF_invalid_rpc = ''application configuration has invalid RPC settings''"

section \<open>Scenario actors\<close>

datatype ScenarioActorConfigError =
    SF_none | SF_io_error | SF_invalid_json | SF_unsupported_schema | SF_invalid_name | SF_invalid_roles
  | SF_invalid_data_directory | SF_invalid_network_profile | SF_invalid_p2p_endpoint | SF_invalid_control_endpoint
  | SF_invalid_control_token

definition parse_actor_role :: "string \<Rightarrow> ActorRole option" where
  "parse_actor_role value =
     (if value = ''wallet'' then Some AR_wallet
      else if value = ''full_node'' then Some AR_full_node
      else if value = ''miner'' then Some AR_miner
      else None)"

text \<open>The endpoints of an actor are on the loopback interface; the result is the port.\<close>

definition loopback_port :: "json \<Rightarrow> u64 option" where
  "loopback_port section =
     (if string_member section ''host'' \<noteq> Some ''127.0.0.1'' then None
      else case unsigned_member section ''port'' of
        None \<Rightarrow> None
      | Some port \<Rightarrow> if 65535 < port then None else Some port)"

definition load_p2p_port :: "json \<Rightarrow> bool \<Rightarrow> u64 option" where
  "load_p2p_port document full_node =
     (if full_node then Option.bind (object_member document ''p2p'') loopback_port
      else if json_contains document ''p2p'' then None
      else Some 0)"

definition load_scenario_document :: "json \<Rightarrow> ScenarioActorConfigError + ScenarioActorConfig" where
  "load_scenario_document document =
     (if unsigned_member document ''schema_version'' \<noteq> Some 1 then Inl SF_unsupported_schema
      else
        (case string_member document ''name'' of
           None \<Rightarrow> Inl SF_invalid_name
         | Some name \<Rightarrow>
             if \<not> valid_name name then Inl SF_invalid_name
             else
               (case load_roles parse_actor_role document of
                  None \<Rightarrow> Inl SF_invalid_roles
                | Some roles \<Rightarrow>
                    (case string_member document ''data_directory'' of
                       None \<Rightarrow> Inl SF_invalid_data_directory
                     | Some data_directory \<Rightarrow>
                         if data_directory = [] then Inl SF_invalid_data_directory
                         else
                           (case Option.bind (string_member document ''network'') parse_network_profile of
                              None \<Rightarrow> Inl SF_invalid_network_profile
                            | Some profile \<Rightarrow>
                                (case load_p2p_port document (AR_full_node \<in> set roles) of
                                   None \<Rightarrow> Inl SF_invalid_p2p_endpoint
                                 | Some p2p_port \<Rightarrow>
                                     (case object_member document ''control'' of
                                        None \<Rightarrow> Inl SF_invalid_control_endpoint
                                      | Some control \<Rightarrow>
                                          (case loopback_port control of
                                             None \<Rightarrow> Inl SF_invalid_control_endpoint
                                           | Some port \<Rightarrow>
                                               (case string_member control ''token'' of
                                                  None \<Rightarrow> Inl SF_invalid_control_token
                                                | Some token \<Rightarrow>
                                                    if length token < 32 \<or> 256 < length token
                                                    then Inl SF_invalid_control_token
                                                    else Inr \<lparr> sa_name = name, sa_roles = roles,
                                                           sa_data_directory = data_directory,
                                                           sa_network_profile = profile,
                                                           sa_p2p_port = ucast p2p_port, sa_control_port = ucast port,
                                                           sa_control_token = token \<rparr>)))))))))"

definition load_scenario_actor_config ::
    "io \<Rightarrow> (string \<Rightarrow> json option) \<Rightarrow> files \<Rightarrow> path \<Rightarrow> ScenarioActorConfigError + ScenarioActorConfig" where
  "load_scenario_actor_config io parse fs p =
     (case fs_read_all io fs p of
        None \<Rightarrow> Inl SF_io_error
      | Some encoded \<Rightarrow>
          (case parse (bytes_text encoded) of
             None \<Rightarrow> Inl SF_invalid_json
           | Some document \<Rightarrow> load_scenario_document document))"

definition sa_has_role :: "ScenarioActorConfig \<Rightarrow> ActorRole \<Rightarrow> bool" where
  "sa_has_role config role \<longleftrightarrow> role \<in> set (sa_roles config)"

fun scenario_actor_config_error_message :: "ScenarioActorConfigError \<Rightarrow> string" where
  "scenario_actor_config_error_message SF_none = ''no error''"
| "scenario_actor_config_error_message SF_io_error = ''scenario actor configuration file I/O failed''"
| "scenario_actor_config_error_message SF_invalid_json = ''scenario actor configuration is not valid JSON''"
| "scenario_actor_config_error_message SF_unsupported_schema = ''scenario actor configuration schema is unsupported''"
| "scenario_actor_config_error_message SF_invalid_name = ''scenario actor configuration has an invalid actor name''"
| "scenario_actor_config_error_message SF_invalid_roles = ''scenario actor configuration has invalid actor roles''"
| "scenario_actor_config_error_message SF_invalid_data_directory =
     ''scenario actor configuration has an invalid data directory''"
| "scenario_actor_config_error_message SF_invalid_network_profile =
     ''scenario actor configuration has an invalid network profile''"
| "scenario_actor_config_error_message SF_invalid_p2p_endpoint = ''scenario actor configuration has an invalid P2P endpoint''"
| "scenario_actor_config_error_message SF_invalid_control_endpoint =
     ''scenario actor configuration has an invalid control endpoint''"
| "scenario_actor_config_error_message SF_invalid_control_token =
     ''scenario actor configuration has an invalid control token''"

section \<open>Hosts\<close>

text \<open>The reference: dotted quads and host names by their parts.\<close>

definition decimal :: "string \<Rightarrow> nat" where
  "decimal digits = foldl (\<lambda>n c. n * 10 + (of_char c - 48)) 0 digits"

definition octet :: "string \<Rightarrow> bool" where
  "octet part \<longleftrightarrow> part \<noteq> [] \<and> length part \<le> 3 \<and> list_all ascii_digit part \<and> decimal part \<le> 255"

definition host_label :: "string \<Rightarrow> bool" where
  "host_label part \<longleftrightarrow> part \<noteq> [] \<and> length part \<le> 63 \<and> hd part \<noteq> CHR ''-'' \<and> last part \<noteq> CHR ''-'' \<and>
     list_all (\<lambda>c. ascii_alphanumeric c \<or> c = CHR ''-'') part"

lemma digit_value:
  assumes "ascii_digit c"
  shows "of_char c - (48 :: nat) \<le> 9" and "(of_char c - of_char CHR ''0'' :: u32) = of_nat (of_char c - 48)"
proof -
  have c: "48 \<le> (of_char c :: nat)" "(of_char c :: nat) \<le> 57"
    using assms by (simp_all add: ascii_digit_def char_between_def)
  then show "of_char c - (48 :: nat) \<le> 9" by simp
  have "(of_char c - of_char CHR ''0'' :: u32) = of_nat (of_char c) - of_nat 48"
    by (simp add: of_nat_of_char)
  then show "(of_char c - of_char CHR ''0'' :: u32) = of_nat (of_char c - 48)"
    using c by (simp add: of_nat_diff)
qed

lemma decimal_snoc [simp]: "decimal (digits @ [c]) = decimal digits * 10 + (of_char c - 48)"
  by (simp add: decimal_def)

lemma decimal_bound: "list_all ascii_digit digits \<Longrightarrow> decimal digits < 10 ^ length digits"
proof (induction digits rule: rev_induct)
  case (snoc c digits)
  then show ?case using digit_value(1) [of c] by auto
qed (simp add: decimal_def)

lemma octet_words:
  assumes "list_all ascii_digit part"
  shows "octet part \<longleftrightarrow> length part \<noteq> 0 \<and> length part \<le> 3 \<and> (of_nat (decimal part) :: u32) \<le> 255"
proof (cases "length part \<le> 3")
  case True
  then have "decimal part < 1000"
    using decimal_bound [OF assms] power_increasing [OF True, of "10 :: nat"] by simp
  then have "unat (of_nat (decimal part) :: u32) = decimal part" by (simp add: unat_of_nat take_bit_nat_eq_self)
  then have "(of_nat (decimal part) :: u32) \<le> 255 \<longleftrightarrow> decimal part \<le> 255" by (simp add: word_le_nat_alt)
  then show ?thesis using assms True by (auto simp: octet_def)
qed (simp add: octet_def)

text \<open>What the loops compute: \<open>before\<close> is the part of the current label that was read.\<close>

lemma split_text_Cons:
  obtains part parts where "split_text c xs = part # parts"
  by (cases "split_text c xs") simp_all

lemma ipv4_loop_parts:
  assumes "list_all ascii_digit before" and "split_text CHR ''.'' xs = part # parts"
  shows "ipv4_loop xs n (length before) (of_nat (decimal before)) =
    (let labels = (before @ part) # parts
     in if list_all octet (butlast labels) \<and> list_all ascii_digit (last labels)
        then Some (n + length parts, length (last labels), of_nat (decimal (last labels))) else None)"
  using assms
proof (induction xs arbitrary: before n part parts)
  case (Cons x xs)
  obtain p ps where ps: "split_text CHR ''.'' xs = p # ps" by (rule split_text_Cons)
  consider "x = CHR ''.''" | "x \<noteq> CHR ''.''" "ascii_digit x" | "x \<noteq> CHR ''.''" "\<not> ascii_digit x" by blast
  then show ?case
  proof cases
    case 1
    then have "part = []" "parts = p # ps" using Cons.prems(2) ps by simp_all
    then show ?thesis
      using 1 Cons.IH [of "[]" p ps "n + 1"] ps octet_words [OF Cons.prems(1)]
      by (auto simp: Let_def decimal_def not_le not_less)
  next
    case 2
    then have "part = x # p" "parts = ps" using Cons.prems(2) ps by simp_all
    moreover have "of_nat (decimal before) * 10 + (of_char x - of_char CHR ''0'') = (of_nat (decimal (before @ [x])) :: u32)"
      unfolding digit_value(2) [OF 2(2)] decimal_snoc by (simp only: of_nat_add of_nat_mult) simp
    ultimately show ?thesis
      using 2 Cons.IH [of "before @ [x]" p ps n] Cons.prems(1) ps by (auto simp: Let_def)
  next
    case 3
    then have "part = x # p" "parts = ps" using Cons.prems(2) ps by simp_all
    then show ?thesis using 3 by (auto simp: Let_def octet_def)
  qed
qed simp

lemma list_all_last: "xs \<noteq> [] \<Longrightarrow> list_all P xs \<longleftrightarrow> list_all P (butlast xs) \<and> P (last xs)"
  by (induction xs) auto

lemma ipv4_loop_labels:
  assumes "labels = split_text CHR ''.'' host"
  shows "ipv4_loop host 0 0 0 =
    (if list_all octet (butlast labels) \<and> list_all ascii_digit (last labels)
     then Some (length labels - 1, length (last labels), of_nat (decimal (last labels))) else None)"
proof -
  obtain part parts where "split_text CHR ''.'' host = part # parts" by (rule split_text_Cons)
  then show ?thesis
    using ipv4_loop_parts [of "[]" host part parts 0] by (simp only: assms Let_def) (simp add: decimal_def)
qed

lemma valid_ipv4_literal_iff:
  "valid_ipv4_literal host \<longleftrightarrow> length (split_text CHR ''.'' host) = 4 \<and> list_all octet (split_text CHR ''.'' host)"
proof -
  define labels where "labels = split_text CHR ''.'' host"
  have "labels \<noteq> []" by (simp add: labels_def)
  then have "list_all octet labels \<longleftrightarrow> list_all octet (butlast labels) \<and> octet (last labels)" "length labels \<noteq> 0"
    by (simp_all add: list_all_last)
  moreover have "octet (last labels) \<longleftrightarrow> list_all ascii_digit (last labels) \<and> length (last labels) \<noteq> 0 \<and>
      length (last labels) \<le> 3 \<and> (of_nat (decimal (last labels)) :: u32) \<le> 255"
    using octet_words [of "last labels"] by (auto simp: octet_def)
  ultimately show ?thesis
    using ipv4_loop_labels [OF labels_def]
    by (simp add: valid_ipv4_literal_def flip: labels_def) (cases "length labels = 4"; auto)
qed

lemma host_loop_parts:
  assumes "list_all (\<lambda>c. ascii_alphanumeric c \<or> c = CHR ''-'') before" and "before = [] \<or> hd before \<noteq> CHR ''-''"
    and "split_text CHR ''.'' xs = part # parts"
  shows "host_loop xs (length before) (before \<noteq> [] \<and> last before = CHR ''-'') =
    (let labels = (before @ part) # parts; final = last labels
     in if list_all host_label (butlast labels) \<and> list_all (\<lambda>c. ascii_alphanumeric c \<or> c = CHR ''-'') final \<and>
          (final = [] \<or> hd final \<noteq> CHR ''-'')
        then Some (length final, final \<noteq> [] \<and> last final = CHR ''-'') else None)"
  using assms
proof (induction xs arbitrary: before part parts)
  case (Cons x xs)
  obtain p ps where ps: "split_text CHR ''.'' xs = p # ps" by (rule split_text_Cons)
  consider "x = CHR ''.''" | "x \<noteq> CHR ''.''" "ascii_alphanumeric x \<or> x = CHR ''-''" "before = [] \<longrightarrow> x \<noteq> CHR ''-''"
    | "x \<noteq> CHR ''.''" "\<not> (ascii_alphanumeric x \<or> x = CHR ''-'') \<or> before = [] \<and> x = CHR ''-''" by blast
  then show ?case
  proof cases
    case 1
    then have "part = []" "parts = p # ps" using Cons.prems(3) ps by simp_all
    then show ?thesis
      using 1 Cons.IH [of "[]" p ps] ps Cons.prems(1,2) by (auto simp: Let_def host_label_def not_le not_less)
  next
    case 2
    then have "part = x # p" "parts = ps" using Cons.prems(3) ps by simp_all
    then show ?thesis
      using 2 Cons.IH [of "before @ [x]" p ps] Cons.prems(1,2) ps by (auto simp: hd_append)
  next
    case 3
    then have "part = x # p" "parts = ps" using Cons.prems(3) ps by simp_all
    then show ?thesis using 3 by (auto simp: Let_def host_label_def)
  qed
qed simp

lemma split_text_ends:
  assumes "hd (split_text c xs) \<noteq> []" and "last (split_text c xs) \<noteq> []"
  shows "xs \<noteq> []" and "hd xs = hd (hd (split_text c xs))" and "last xs = last (last (split_text c xs))"
proof -
  show "xs \<noteq> []" using assms(1) by auto
  show "hd xs = hd (hd (split_text c xs))"
    using assms(1) by (cases xs) (auto split: list.splits if_splits)
  show "last xs = last (last (split_text c xs))"
    using assms(2)
  proof (induction xs)
    case (Cons x xs)
    obtain p ps where ps: "split_text c xs = p # ps" by (rule split_text_Cons)
    have p: "xs = p" if "ps = []" using ps that join_split_text [of c xs] by simp
    consider "x = c" | "x \<noteq> c" "ps = []" | "x \<noteq> c" "ps \<noteq> []" by blast
    then show ?case
    proof cases
      case 1
      then have "last (split_text c xs) \<noteq> []" using Cons.prems ps by simp
      moreover from this have "xs \<noteq> []" by auto
      ultimately show ?thesis using Cons.IH 1 ps by simp
    next
      case 2
      then show ?thesis using p ps by simp
    next
      case 3
      then have "last (split_text c xs) \<noteq> []" using Cons.prems ps by simp
      moreover from this have "xs \<noteq> []" by auto
      ultimately show ?thesis using Cons.IH 3 ps by simp
    qed
  qed simp
qed

lemma label_ends:
  assumes "octet part \<or> host_label part"
  shows "part \<noteq> [] \<and> ascii_alphanumeric (hd part) \<and> ascii_alphanumeric (last part)"
proof -
  have part: "part \<noteq> []" using assms by (auto simp: octet_def host_label_def)
  have "ascii_digit c \<Longrightarrow> ascii_alphanumeric c" for c by (simp add: ascii_digit_def ascii_alphanumeric_def)
  then show ?thesis
    using assms part hd_in_set [OF part] last_in_set [OF part] by (auto simp: octet_def host_label_def list_all_iff)
qed

lemma host_loop_labels:
  assumes "labels = split_text CHR ''.'' host"
  shows "host_loop host 0 False =
    (if list_all host_label (butlast labels) \<and> list_all (\<lambda>c. ascii_alphanumeric c \<or> c = CHR ''-'') (last labels) \<and>
       (last labels = [] \<or> hd (last labels) \<noteq> CHR ''-'')
     then Some (length (last labels), last labels \<noteq> [] \<and> last (last labels) = CHR ''-'') else None)"
proof -
  obtain part parts where "split_text CHR ''.'' host = part # parts" by (rule split_text_Cons)
  then show ?thesis
    using host_loop_parts [of "[]" host part parts] by (simp only: assms Let_def) simp
qed

lemma host_loop_iff:
  "(case host_loop host 0 False of None \<Rightarrow> False
    | Some (label_size, previous_hyphen) \<Rightarrow> 0 < label_size \<and> label_size \<le> 63 \<and> \<not> previous_hyphen) \<longleftrightarrow>
   list_all host_label (split_text CHR ''.'' host)"
proof -
  define labels where "labels = split_text CHR ''.'' host"
  have "labels \<noteq> []" by (simp add: labels_def)
  then have "list_all host_label labels \<longleftrightarrow> list_all host_label (butlast labels) \<and> host_label (last labels)"
    by (rule list_all_last)
  then show ?thesis
    using host_loop_labels [OF labels_def] by (auto simp: host_label_def simp flip: labels_def)
qed

text \<open>
  C25. Hosts of a configuration. \<open>valid_host\<close> accepts exactly the texts of at most 253 characters
  that are a dotted quad (four parts of one to three digits with a value of at most 255) when
  they consist of digits and dots only, and otherwise have only labels of 1 to 63 letters,
  digits and hyphens that neither begin nor end with a hyphen. The 32-bit arithmetic on long
  digit strings wraps around without an effect on the answer.\<close>

theorem valid_host_correct:
  "valid_host host \<longleftrightarrow>
     length host \<le> 253 \<and>
     (if list_all (\<lambda>c. ascii_digit c \<or> c = CHR ''.'') host
      then length (split_text CHR ''.'' host) = 4 \<and> list_all octet (split_text CHR ''.'' host)
      else list_all host_label (split_text CHR ''.'' host))"
  (is "_ \<longleftrightarrow> _ \<and> ?labels")
proof -
  let ?parts = "split_text CHR ''.'' host"
  have "host \<noteq> [] \<and> ascii_alphanumeric (hd host) \<and> ascii_alphanumeric (last host)" if ?labels
  proof -
    have "\<forall>part \<in> set ?parts. octet part \<or> host_label part" using that by (auto simp: list_all_iff split: if_splits)
    then have "\<forall>part \<in> set ?parts. part \<noteq> [] \<and> ascii_alphanumeric (hd part) \<and> ascii_alphanumeric (last part)"
      using label_ends by blast
    then show ?thesis using split_text_ends [of "CHR ''.''" host] by simp
  qed
  then show ?thesis
    unfolding valid_host_def valid_ipv4_literal_iff host_loop_iff by auto
qed

section \<open>Loaded configurations\<close>

definition endpoint_ok :: "NetworkEndpoint \<Rightarrow> bool" where
  "endpoint_ok endpoint \<longleftrightarrow> valid_host (ep_host endpoint) \<and> ep_port endpoint \<noteq> 0"

definition full_node_ok :: "FullNodeSettings \<Rightarrow> bool" where
  "full_node_ok f \<longleftrightarrow> endpoint_ok (fn_listen f) \<and> list_all endpoint_ok (fn_peers f) \<and>
     distinct (fn_listen f # fn_peers f) \<and> length (fn_peers f) \<le> 64"

definition miner_ok :: "bool \<Rightarrow> MinerSettings \<Rightarrow> bool" where
  "miner_ok full_node_role m \<longleftrightarrow> Address_ok (mi_reward_address m) \<and> (mi_source m = None \<longleftrightarrow> full_node_role) \<and>
     (\<forall>source. mi_source m = Some source \<longrightarrow> endpoint_ok source)"

text \<open>What the node may rely on: settings exactly for the roles, usable endpoints, and normalized paths apart from each other.\<close>

definition application_config_ok :: "ApplicationConfig \<Rightarrow> bool" where
  "application_config_ok config \<longleftrightarrow>
     valid_name (ac_name config) \<and> distinct (ac_roles config) \<and> ac_has_role config PR_wallet \<and>
     (ac_full_node config \<noteq> None \<longleftrightarrow> ac_has_role config PR_full_node) \<and>
     (ac_miner config \<noteq> None \<longleftrightarrow> ac_has_role config PR_miner) \<and>
     (ac_rpc config \<noteq> None \<longleftrightarrow> ac_has_role config PR_full_node \<or> ac_has_role config PR_miner) \<and>
     (\<forall>f. ac_full_node config = Some f \<longrightarrow> full_node_ok f) \<and>
     (\<forall>m. ac_miner config = Some m \<longrightarrow> miner_ok (ac_has_role config PR_full_node) m) \<and>
     distinct [ac_source_file config, ac_wallet_file config, ac_data_directory config] \<and>
     list_all normal_path [ac_source_file config, ac_wallet_file config, ac_data_directory config] \<and>
     (\<forall>rpc. ac_rpc config = Some rpc \<longrightarrow>
        ep_host (rp_listen rpc) = ''127.0.0.1'' \<and> ep_port (rp_listen rpc) \<noteq> 0 \<and>
        map_option fn_listen (ac_full_node config) \<noteq> Some (rp_listen rpc) \<and>
        Option.bind (ac_miner config) mi_source \<noteq> Some (rp_listen rpc) \<and> normal_path (rp_token_file rpc) \<and>
        rp_token_file rpc \<notin> {ac_source_file config, ac_wallet_file config, ac_data_directory config})"

lemma parse_endpoint_ok:
  assumes "parse_endpoint encoded = Some endpoint"
  shows "endpoint_ok endpoint"
proof -
  obtain host and port :: u64 where "valid_host host" "port \<noteq> 0" "port \<le> 65535"
    and e: "endpoint = \<lparr> ep_host = host, ep_port = ucast port \<rparr>"
    using assms by (auto simp: parse_endpoint_def split: if_splits option.splits)
  moreover have "(ucast port :: u16) \<noteq> 0"
  proof
    assume "(ucast port :: u16) = 0"
    then have "unat (ucast port :: u16) = 0" by simp
    moreover have "unat (ucast port :: u16) = unat port"
      using \<open>port \<le> 65535\<close> by (simp add: unsigned_ucast_eq take_bit_nat_eq_self word_le_nat_alt)
    ultimately show False using \<open>port \<noteq> 0\<close> by (simp add: unat_eq_zero)
  qed
  ultimately show ?thesis by (simp add: endpoint_ok_def)
qed

lemma parse_roles_distinct: "parse_roles parse encoded roles = Some roles' \<Longrightarrow> distinct roles \<Longrightarrow> distinct roles'"
  by (induction parse encoded roles rule: parse_roles.induct) (auto split: json.splits option.splits if_splits)

lemma load_roles_distinct: "load_roles parse document = Some roles \<Longrightarrow> distinct roles"
  by (auto simp: load_roles_def elim: parse_roles_distinct split: option.splits if_splits)

lemma parse_peers_ok:
  assumes "parse_peers listen encoded peers = Some peers'"
    and "list_all endpoint_ok peers" "distinct (listen # peers)" "length peers + length encoded \<le> 64"
  shows "list_all endpoint_ok peers' \<and> distinct (listen # peers') \<and> length peers' \<le> 64"
  using assms
proof (induction listen encoded peers rule: parse_peers.induct)
  case (2 listen e rest peers)
  then show ?case using parse_endpoint_ok [of e] by (auto split: option.splits if_splits)
qed simp

lemma load_full_node_ok:
  assumes "load_full_node document role = Some full_node"
  shows "(full_node \<noteq> None \<longleftrightarrow> role) \<and> (\<forall>f. full_node = Some f \<longrightarrow> full_node_ok f)"
proof (cases role)
  case True
  then obtain settings listen peers scope where
    listen: "Option.bind (member settings ''listen'') parse_endpoint = Some listen"
    and peers: "(case member settings ''peers'' of None \<Rightarrow> Some []
        | Some (J_array encoded) \<Rightarrow> if maximum_initial_peers < length encoded then None else parse_peers listen encoded []
        | Some _ \<Rightarrow> None) = Some peers"
    and f: "full_node = Some \<lparr> fn_listen = listen, fn_peers = peers, fn_scope = scope \<rparr>"
    using assms by (auto simp: load_full_node_def split: option.splits if_splits)
  have "endpoint_ok listen" using listen parse_endpoint_ok by (auto simp: bind_eq_Some_conv)
  moreover have "list_all endpoint_ok peers \<and> distinct (listen # peers) \<and> length peers \<le> 64"
    using peers parse_peers_ok [of listen _ "[]" peers]
    by (auto simp: maximum_initial_peers_def split: option.splits json.splits if_splits)
  ultimately show ?thesis using f True by (simp add: full_node_ok_def)
qed (use assms in \<open>auto simp: load_full_node_def split: if_splits\<close>)

lemma load_miner_ok:
  assumes "load_miner document full_node_role role = Some miner"
  shows "(miner \<noteq> None \<longleftrightarrow> role) \<and> (\<forall>m. miner = Some m \<longrightarrow> miner_ok full_node_role m)"
proof (cases role)
  case True
  then obtain settings reward source auto_start where
    reward: "Option.bind (string_member settings ''reward_address'') Address_parse = Some reward"
    and source: "(case member settings ''source'' of None \<Rightarrow> Some None
        | Some encoded \<Rightarrow> map_option Some (parse_endpoint encoded)) = Some source"
    and role: "source = None \<longleftrightarrow> full_node_role"
    and m: "miner = Some \<lparr> mi_reward_address = reward, mi_source = source, mi_auto_start = auto_start \<rparr>"
    using assms by (auto simp: load_miner_def split: option.splits if_splits)
  have "Address_ok reward" using reward Address_parse_ok by (auto simp: bind_eq_Some_conv)
  moreover have "\<forall>s. source = Some s \<longrightarrow> endpoint_ok s"
    using source parse_endpoint_ok by (auto split: option.splits)
  ultimately show ?thesis using m role True by (simp add: miner_ok_def)
qed (use assms in \<open>auto simp: load_miner_def split: if_splits\<close>)

lemma normalized_path_normal:
  assumes "normalized_path encoded base = Some p" and "is_absolute base"
  shows "normal_path p"
  using assms normal_path_lexically_normal is_absolute_append by (auto simp: normalized_path_def split: json.splits if_splits)

lemma load_rpc_ok:
  assumes "load_rpc document base source_file wallet_file data_directory full_node miner long_running = Some rpc"
    and "is_absolute base"
  shows "(rpc \<noteq> None \<longleftrightarrow> long_running) \<and>
    (\<forall>r. rpc = Some r \<longrightarrow> ep_host (rp_listen r) = ''127.0.0.1'' \<and> ep_port (rp_listen r) \<noteq> 0 \<and>
       map_option fn_listen full_node \<noteq> Some (rp_listen r) \<and> Option.bind miner mi_source \<noteq> Some (rp_listen r) \<and>
       normal_path (rp_token_file r) \<and> rp_token_file r \<notin> {source_file, wallet_file, data_directory})"
proof (cases long_running)
  case True
  then obtain settings listen token_file where
    listen: "Option.bind (member settings ''listen'') parse_endpoint = Some listen"
    and token: "Option.bind (member settings ''token_file'') (\<lambda>encoded. normalized_path encoded base) = Some token_file"
    and c: "ep_host listen = ''127.0.0.1''" "map_option fn_listen full_node \<noteq> Some listen"
      "token_file \<notin> {source_file, wallet_file, data_directory}" "Option.bind miner mi_source \<noteq> Some listen"
    and r: "rpc = Some \<lparr> rp_listen = listen, rp_token_file = token_file \<rparr>"
    using assms(1) by (auto simp: load_rpc_def split: option.splits if_splits)
  have "endpoint_ok listen" using listen parse_endpoint_ok by (auto simp: bind_eq_Some_conv)
  moreover have "normal_path token_file"
    using token normalized_path_normal assms(2) by (auto simp: bind_eq_Some_conv)
  ultimately show ?thesis using c r True by (simp add: endpoint_ok_def)
qed (use assms(1) in \<open>auto simp: load_rpc_def split: if_splits\<close>)

lemma load_settings_ok:
  assumes "load_settings document source_file name profile roles = Inr config" and "normal_path source_file"
    and "valid_name name" "distinct roles" "PR_wallet \<in> set roles"
  shows "application_config_ok config"
proof -
  let ?base = "parent_path source_file" and ?f = "PR_full_node \<in> set roles" and ?m = "PR_miner \<in> set roles"
  have base: "is_absolute ?base" using is_absolute_parent assms(2) by (simp add: normal_path_def)
  obtain encoded encoded' wallet_file data_directory full_node miner rpc where
    wallet: "normalized_path encoded ?base = Some wallet_file" "wallet_file \<noteq> source_file"
    and data: "normalized_path encoded' ?base = Some data_directory"
      "data_directory \<noteq> source_file" "data_directory \<noteq> wallet_file"
    and f: "load_full_node document ?f = Some full_node" and m: "load_miner document ?f ?m = Some miner"
    and r: "load_rpc document ?base source_file wallet_file data_directory full_node miner (?f \<or> ?m) = Some rpc"
    and config: "config = \<lparr> ac_source_file = source_file, ac_name = name, ac_network_profile = profile, ac_roles = roles,
      ac_wallet_file = wallet_file, ac_data_directory = data_directory, ac_full_node = full_node, ac_miner = miner,
      ac_rpc = rpc \<rparr>"
    using assms(1) by (auto simp: load_settings_def Let_def bind_eq_Some_conv split: option.splits if_splits)
  note normal = normalized_path_normal [OF wallet(1) base] normalized_path_normal [OF data(1) base]
  show ?thesis
    using load_full_node_ok [OF f] load_miner_ok [OF m] load_rpc_ok [OF r base] normal wallet(2) data(2,3) assms(2-5)
    by (auto simp: application_config_ok_def ac_has_role_def config)
qed

text \<open>
  C22. Configurations of the application. A file that loads gives a configuration in which
  every role has its settings and no others are present, names, hosts and ports are usable,
  roles and peers are not repeated, a miner has a source exactly if it has no own node, the
  control server listens on the loopback address at an endpoint that is neither the node's nor
  the mining source, and configuration file, wallet, data directory and token file are
  different absolute paths in normal form (no part is empty, \<open>.\<close> or \<open>..\<close>, but for a separator at the
  end). The working directory, if there is one, is an absolute path.\<close>

theorem loaded_config_ok:
  assumes "load_application_config io parse cwd fs fs' p = Inr config"
    and "\<And>directory. cwd = Some directory \<Longrightarrow> is_absolute directory"
  shows "application_config_ok config"
proof -
  obtain document name profile roles q where identity: "load_identity document = Inr (name, profile, roles)"
    and q: "fs_absolute cwd p = Some q" and settings: "load_settings document (lexically_normal q) name profile roles = Inr config"
    using assms(1) by (auto simp: load_application_config_def split: option.splits if_splits sum.splits)
  have "valid_name name" "distinct roles" "PR_wallet \<in> set roles"
    using identity load_roles_distinct [of parse_role document roles]
    by (auto simp: load_identity_def split: if_splits option.splits)
  then show ?thesis
    using load_settings_ok [OF settings normal_path_lexically_normal [OF fs_absolute_absolute [OF q assms(2)]]] by blast
qed

text \<open>
  Paths are compared as texts: a data directory with a separator at its end counts as different
  from a wallet file of the same name.
\<close>

lemma trailing_separator_differs:
  "normalized_path (J_string ''w'') ''/x'' = Some ''/x/w'' \<and> normalized_path (J_string ''w/'') ''/x'' = Some ''/x/w/''"
  by code_simp

definition demo_config_document :: json where
  "demo_config_document = J_object
     [(''schema_version'', J_unsigned 1), (''name'', J_string ''node-1''), (''network'', J_string ''regtest''),
      (''roles'', J_array [J_string ''wallet'', J_string ''full_node'']),
      (''wallet'', J_object [(''file'', J_string ''../keys/wallet'')]), (''data_directory'', J_string ''data''),
      (''full_node'', J_object [(''listen'', J_object [(''host'', J_string ''10.0.0.7''), (''port'', J_unsigned 4100)]),
         (''peers'', J_array [J_object [(''host'', J_string ''seed.example''), (''port'', J_unsigned 4100)]])]),
      (''rpc'', J_object [(''listen'', J_object [(''host'', J_string ''127.0.0.1''), (''port'', J_unsigned 4101)]),
         (''token_file'', J_string ''./token'')])]"

definition demo_application_config :: ApplicationConfig where
  "demo_application_config =
     \<lparr> ac_source_file = ''/etc/bbc/node.json'', ac_name = ''node-1'', ac_network_profile = NP_regtest,
       ac_roles = [PR_wallet, PR_full_node], ac_wallet_file = ''/etc/keys/wallet'', ac_data_directory = ''/etc/bbc/data'',
       ac_full_node = Some \<lparr> fn_listen = \<lparr> ep_host = ''10.0.0.7'', ep_port = 4100 \<rparr>,
         fn_peers = [\<lparr> ep_host = ''seed.example'', ep_port = 4100 \<rparr>], fn_scope = SC_lan \<rparr>,
       ac_miner = None,
       ac_rpc = Some \<lparr> rp_listen = \<lparr> ep_host = ''127.0.0.1'', ep_port = 4101 \<rparr>, rp_token_file = ''/etc/bbc/token'' \<rparr> \<rparr>"

lemma demo_config_parts:
  "load_identity demo_config_document = Inr (''node-1'', NP_regtest, [PR_wallet, PR_full_node])"
  "lexically_normal ''/etc/bbc/node.json'' = ''/etc/bbc/node.json''"
  "parent_path ''/etc/bbc/node.json'' = ''/etc/bbc''"
  "normalized_path (J_string ''../keys/wallet'') ''/etc/bbc'' = Some ''/etc/keys/wallet''"
  "normalized_path (J_string ''data'') ''/etc/bbc'' = Some ''/etc/bbc/data''"
  "normalized_path (J_string ''./token'') ''/etc/bbc'' = Some ''/etc/bbc/token''"
  by code_simp+

lemma demo_hosts: "valid_host ''10.0.0.7''" "valid_host ''seed.example''" "valid_host ''127.0.0.1''"
  by code_simp+

lemma demo_config_loaded:
  "load_application_config io_ok (\<lambda>text. Some demo_config_document) (Some ''/etc/bbc'') (\<lambda>p. Some []) (\<lambda>p. Some []) ''node.json'' =
     Inr demo_application_config"
proof -
  have "load_settings demo_config_document ''/etc/bbc/node.json'' ''node-1'' NP_regtest [PR_wallet, PR_full_node] =
      Inr demo_application_config"
    unfolding load_settings_def demo_config_parts(3) load_full_node_def load_miner_def load_rpc_def
    by (simp add: demo_config_document_def demo_config_parts(4-6) demo_hosts parse_endpoint_def contains_only_def
        json_member_defs member_def json_contains_def maximum_initial_peers_def demo_application_config_def Let_def)
  then show ?thesis
    using demo_config_parts(1,2)
    by (simp add: load_application_config_def fs_file_size_def fs_read_all_def io_ok_def fs_absolute_def is_absolute_def
        path_separator_def path_append_def)
qed

theorem loaded_config_ok_witness: "application_config_ok demo_application_config"
  by (rule loaded_config_ok [OF demo_config_loaded]) (simp add: is_absolute_def path_separator_def)

end
