(* ===== verification/BBC_Token.thy ===== *)
theory BBC_Token
  imports BBC_Paths
begin

text \<open>
  The token of the control server in its file: \<open>src/rpc/token.cpp\<close>. Several programs may start
  at the same time with the same file, so \<open>load_or_create_token\<close> links a finished temporary file
  to the name of the token file, which only one of them can do.
\<close>

datatype TokenError = TK_none | TK_io_error | TK_invalid_token

definition token_byte_size :: nat where "token_byte_size = 32"
definition token_text_size :: nat where "token_text_size = token_byte_size * 2"
definition maximum_token_file_size :: nat where "maximum_token_file_size = 256"

definition valid_token :: "string \<Rightarrow> bool" where
  "valid_token value \<longleftrightarrow> length value = token_text_size \<and>
     list_all (\<lambda>c. char_between CHR ''0'' CHR ''9'' c \<or> char_between CHR ''a'' CHR ''f'' c \<or>
       char_between CHR ''A'' CHR ''F'' c) value"

definition strip_line_end :: "string \<Rightarrow> string" where
  "strip_line_end token =
     (if token \<noteq> [] \<and> last token = CHR 0x0A
      then (let token = butlast token in if token \<noteq> [] \<and> last token = CHR 0x0D then butlast token else token)
      else token)"

definition load_token :: "io \<Rightarrow> files \<Rightarrow> path \<Rightarrow> TokenError + string" where
  "load_token io fs p =
     (case fs_file_size io fs p of
        None \<Rightarrow> Inl TK_io_error
      | Some n \<Rightarrow>
          if maximum_token_file_size < n then Inl TK_invalid_token
          else case fs_read_all io fs p of
            None \<Rightarrow> Inl TK_io_error
          | Some content \<Rightarrow>
              (let token = strip_line_end (bytes_text content)
               in if \<not> valid_token token then Inl TK_invalid_token else Inr token))"

text \<open>
  The outcomes of the calls: \<open>te_then\<close> after the attempt to link, the others before. Linking
  fails on its own account or because the name is taken. \<open>other\<close> is what other programs do to the
  files between the test that there is no token and the attempt to link.
\<close>

record token_env =
  te_first :: io
  te_then :: io
  te_directories_ok :: bool
  te_permissions_ok :: bool
  te_link_ok :: bool

definition token_temporary :: "path \<Rightarrow> bytes \<Rightarrow> path" where
  "token_temporary p suffix_bytes = p @ ''.tmp-'' @ to_upper_hex suffix_bytes"

definition token_line :: "bytes \<Rightarrow> bytes" where
  "token_line random = text_bytes (to_upper_hex random @ [CHR 0x0A])"

definition link_token :: "token_env \<Rightarrow> string \<Rightarrow> path \<Rightarrow> files \<Rightarrow> path \<Rightarrow> (TokenError + string) \<times> files" where
  "link_token te token temporary fs p =
     (let linked = (te_link_ok te \<and> fs p = None \<and> fs temporary \<noteq> None);
          fs = (if linked then fs(p := fs temporary) else fs);
          fs = fs_remove (te_then te) fs temporary
      in if \<not> linked
         then (let (found, ec) = fs_exists (te_then te) fs p
               in if found \<and> \<not> ec then (load_token (te_then te) fs p, fs) else (Inl TK_io_error, fs))
         else (Inr token, fs))"

definition load_or_create_token ::
    "token_env \<Rightarrow> (files \<Rightarrow> files) \<Rightarrow> bytes \<Rightarrow> bytes \<Rightarrow> files \<Rightarrow> path \<Rightarrow> (TokenError + string) \<times> files" where
  "load_or_create_token te other random suffix_bytes fs p =
     (let io = te_first te;
          (found, ec) = fs_exists io fs p
      in if found then (if ec then Inl TK_io_error else load_token io fs p, fs)
         else if ec then (Inl TK_io_error, fs)
         else if parent_path p \<noteq> [] \<and> \<not> te_directories_ok te then (Inl TK_io_error, fs)
         else
           (let token = to_upper_hex random;
                temporary = token_temporary p suffix_bytes
            in case fs_open_trunc io fs temporary of
                 None \<Rightarrow> (Inl TK_io_error, fs)
               | Some fs \<Rightarrow>
                   (let (good, fs) = fs_write io fs temporary (token_line random)
                    in if \<not> good then (Inl TK_io_error, fs_remove io fs temporary)
                       else if \<not> te_permissions_ok te then (Inl TK_io_error, fs_remove io fs temporary)
                       else link_token te token temporary (other fs) p)))"

fun token_error_message :: "TokenError \<Rightarrow> string" where
  "token_error_message TK_none = ''no error''"
| "token_error_message TK_io_error = ''RPC token file I/O failed''"
| "token_error_message TK_invalid_token = ''RPC token file does not contain one 64-character hexadecimal token''"

section \<open>Properties\<close>

lemma token_temporary_differs [simp]: "token_temporary p suffix_bytes \<noteq> p"
  by (simp add: token_temporary_def)

lemma load_token_valid: "load_token io fs p = Inr token \<Longrightarrow> valid_token token"
  by (auto simp: load_token_def Let_def split: option.splits if_splits)

lemma load_token_io:
  "load_token io fs p = Inr token \<Longrightarrow> fs p = fs' p \<Longrightarrow> load_token io_ok fs' p = Inr token"
  by (auto simp: load_token_def fs_file_size_def fs_read_all_def io_ok_def split: option.splits if_splits)

lemma hex_digit_valid:
  assumes "n < 16"
  shows "char_between CHR ''0'' CHR ''9'' (hex_alphabet ! n) \<or> char_between CHR ''A'' CHR ''F'' (hex_alphabet ! n)"
proof -
  have "list_all (\<lambda>c. char_between CHR ''0'' CHR ''9'' c \<or> char_between CHR ''A'' CHR ''F'' c) hex_alphabet \<and>
      length hex_alphabet = 16"
    by code_simp
  then show ?thesis using assms by (simp add: list_all_length)
qed

lemma valid_token_hex: "length random = 32 \<Longrightarrow> valid_token (to_upper_hex random)"
proof -
  have "list_all (\<lambda>c. char_between CHR ''0'' CHR ''9'' c \<or> char_between CHR ''a'' CHR ''f'' c \<or>
      char_between CHR ''A'' CHR ''F'' c) (to_upper_hex bs)" for bs
    by (induction bs) (use hex_digit_valid nibble_bounds in \<open>auto simp: to_upper_hex_Cons to_upper_hex_def\<close>)
  then show "length random = 32 \<Longrightarrow> ?thesis"
    by (simp add: valid_token_def token_text_size_def token_byte_size_def)
qed

lemma valid_token_last: "valid_token token \<Longrightarrow> token \<noteq> [] \<and> last token \<noteq> CHR 0x0D"
  by (cases token rule: rev_cases) (auto simp: valid_token_def token_text_size_def token_byte_size_def char_between_def)

lemma load_token_line:
  assumes "length random = 32" and "fs p = Some (token_line random)"
  shows "load_token io_ok fs p = Inr (to_upper_hex random)"
  using assms valid_token_hex [OF assms(1)] valid_token_last [OF valid_token_hex [OF assms(1)]]
  by (simp add: load_token_def fs_file_size_def fs_read_all_def io_ok_def token_line_def strip_line_end_def
      maximum_token_file_size_def Let_def del: text_bytes_append)

lemma link_token_sound:
  assumes "link_token te (to_upper_hex random) temporary fs p = (result, fs')"
    and "length random = 32" "fs temporary = Some (token_line random)" "temporary \<noteq> p"
  shows "(\<forall>token. result = Inr token \<longrightarrow> load_token io_ok fs' p = Inr token) \<and>
    (\<forall>q. q \<noteq> p \<and> q \<noteq> temporary \<longrightarrow> fs' q = fs q) \<and>
    (fs' p = fs p \<or> fs p = None \<and> fs' p = Some (token_line random) \<and> result = Inr (to_upper_hex random))"
proof (cases "te_link_ok te \<and> fs p = None")
  case True
  then have "result = Inr (to_upper_hex random)" "fs' p = Some (token_line random)"
    "\<forall>q. q \<noteq> p \<and> q \<noteq> temporary \<longrightarrow> fs' q = fs q"
    using assms by (auto simp: link_token_def fs_remove_def Let_def split: if_splits)
  then show ?thesis using load_token_line [OF assms(2)] True by simp
next
  case False
  then have "fs' p = fs p" "\<forall>q. q \<noteq> p \<and> q \<noteq> temporary \<longrightarrow> fs' q = fs q"
    "\<And>token. result = Inr token \<Longrightarrow> load_token (te_then te) fs' p = Inr token"
    using assms(1,4) by (auto simp: link_token_def fs_remove_def Let_def split: if_splits prod.splits)
  then show ?thesis using load_token_io by blast
qed

text \<open>The calls before the attempt to link succeed.\<close>

definition token_prepared :: "token_env \<Rightarrow> path \<Rightarrow> bool" where
  "token_prepared te p \<longleftrightarrow> \<not> io_exists_error (te_first te) \<and> (parent_path p = [] \<or> te_directories_ok te) \<and>
     io_open_ok (te_first te) \<and> io_write_ok (te_first te) \<and> te_permissions_ok te"

text \<open>
  C23. One token per file. Whatever the file calls answer and whatever other programs do between
  the test for the file and the attempt to create it (except to the temporary file with its
  random name): a token that is returned is well-formed and is what the file holds afterwards.
  Whether the call succeeds or fails, a token file from before the call, valid or not, stays as it
  is, and with it every other file. Without one, a call that fails before the attempt to link
  reports an error and changes at most its temporary file; otherwise a token file that another
  program created meanwhile stays as that program wrote it, the token file is written only
  if there is none, and then completely and with success, and the other files stay as they are.
  So programs that start together use the same token.\<close>

theorem token_created_once:
  assumes "load_or_create_token te other random suffix_bytes fs p = (result, fs')" and "length random = 32"
    and "\<And>f. other f (token_temporary p suffix_bytes) = f (token_temporary p suffix_bytes)"
  shows "(\<forall>token. result = Inr token \<longrightarrow> valid_token token \<and> load_token io_ok fs' p = Inr token) \<and>
    (fs p \<noteq> None \<longrightarrow> fs' = fs) \<and>
    (fs p = None \<longrightarrow>
       (let temporary = token_temporary p suffix_bytes; seen = other (fs(temporary \<mapsto> token_line random))
        in if \<not> token_prepared te p
           then (\<exists>e. result = Inl e) \<and> (\<forall>q. q \<noteq> temporary \<longrightarrow> fs' q = fs q)
           else (\<forall>q. q \<noteq> p \<and> q \<noteq> temporary \<longrightarrow> fs' q = seen q) \<and>
             (fs' p = seen p \<or>
              seen p = None \<and> fs' p = Some (token_line random) \<and> result = Inr (to_upper_hex random))))"
proof (cases "fs p")
  case None
  let ?t = "token_temporary p suffix_bytes"
  let ?seen = "other (fs(?t \<mapsto> token_line random))"
  note differs = token_temporary_differs [of p suffix_bytes] token_temporary_differs [of p suffix_bytes, symmetric]
  show ?thesis
  proof (cases "token_prepared te p")
    case True
    then have "link_token te (to_upper_hex random) ?t ?seen p = (result, fs')"
      using assms(1) None by (simp add: token_prepared_def load_or_create_token_def fs_exists_def fs_open_trunc_def
          fs_write_def Let_def split: if_splits)
    from link_token_sound [OF this assms(2)] show ?thesis
      using None True load_token_valid [of io_ok fs' p] by (auto simp: assms(3) Let_def)
  next
    case False
    then have "(\<exists>e. result = Inl e) \<and> (\<forall>q. q \<noteq> ?t \<longrightarrow> fs' q = fs q)"
      using assms(1) None differs by (auto simp: token_prepared_def load_or_create_token_def fs_exists_def
          fs_open_trunc_def fs_write_def fs_remove_def Let_def split: if_splits)
    then show ?thesis using None False by (auto simp: Let_def)
  qed
next
  case (Some content)
  then have "result = Inr token \<Longrightarrow> load_token (te_first te) fs p = Inr token" "fs' = fs" for token
    using assms(1) by (auto simp: load_or_create_token_def fs_exists_def Let_def split: if_splits)
  then show ?thesis using Some load_token_valid load_token_io by auto
qed

text \<open>Two programs on an empty directory: the second one creates the file while the first one prepares its own.\<close>

definition token_env_ok :: token_env where
  "token_env_ok = \<lparr> te_first = io_ok, te_then = io_ok, te_directories_ok = True, te_permissions_ok = True, te_link_ok = True \<rparr>"

theorem token_created_once_witness:
  "fst (load_or_create_token token_env_ok
      (\<lambda>f. f(''token'' \<mapsto> token_line (replicate 32 2))) (replicate 32 1) [1] (\<lambda>q. None) ''token'') =
     Inr (to_upper_hex (replicate 32 2)) \<and> valid_token (to_upper_hex (replicate 32 2))"
proof -
  let ?call = "load_or_create_token token_env_ok (\<lambda>f. f(''token'' \<mapsto> token_line (replicate 32 2))) (replicate 32 1) [1] (\<lambda>q. None) ''token''"
  have t: "token_temporary ''token'' [1] \<noteq> ''token''" by simp
  have flags: "io_exists_error io_ok = False" "io_open_ok io_ok" "io_write_ok io_ok" "io_remove_ok io_ok"
    by (simp_all add: io_ok_def)
  have call: "fst ?call = Inr (to_upper_hex (replicate 32 2))"
    using t t [symmetric] load_token_line [of "replicate 32 2"]
    by (simp add: load_or_create_token_def token_env_ok_def flags fs_exists_def fs_open_trunc_def fs_write_def
        link_token_def fs_remove_def Let_def)
  then have "?call = (Inr (to_upper_hex (replicate 32 2)), snd ?call)" by (simp add: prod_eq_iff)
  then show ?thesis
    using token_created_once [of token_env_ok "\<lambda>f. f(''token'' \<mapsto> token_line (replicate 32 2))" "replicate 32 1" "[1]"
        "\<lambda>q. None" "''token''"] call t by simp
qed

end
