(* ===== verification/BBC_Cli.thy ===== *)
theory BBC_Cli
  imports BBC_Cli_Chain BBC_Control BBC_ConfigFile BBC_Token
begin

text \<open>
  The rest of the command line: \<open>src/app/config_commands.cpp\<close>, \<open>src/app/rpc_commands.cpp\<close>,
  \<open>src/app/node_commands.cpp\<close>, \<open>run_application_node\<close> of \<open>src/node/control_server.cpp\<close>, and the dispatch in
  \<open>src/app/application.cpp\<close>.
\<close>

section \<open>The environment of the program\<close>

text \<open>
  \<open>rv_send\<close> is the exchange with a node: a line to an endpoint and what comes back. \<open>rv_parse\<close> gives the
  text of the exception for a text that is not JSON, \<open>rv_dump\<close> and \<open>rv_dump_indented\<close> are the two
  ways of printing, and \<open>rv_float_is_one\<close> is the comparison of a floating point number with 1.
\<close>

datatype rpc_reply = RP_line string | RP_timeout | RP_exception string

record rpc_env =
  rv_send :: "NetworkEndpoint \<Rightarrow> string \<Rightarrow> rpc_reply"
  rv_parse :: "string \<Rightarrow> string + json"
  rv_dump :: "json \<Rightarrow> string"
  rv_dump_indented :: "json \<Rightarrow> string"
  rv_float_is_one :: "string \<Rightarrow> bool"

definition parse_json :: "rpc_env \<Rightarrow> string \<Rightarrow> json option" where
  "parse_json rv text = (case rv_parse rv text of Inl what \<Rightarrow> None | Inr value \<Rightarrow> Some value)"

text \<open>\<open>ap_serve\<close> is \<open>run_runtime_node\<close>, whose behaviour is that of \<open>server_reachable\<close>.\<close>

record app_env =
  ap_wallet :: wallet_env
  ap_storage :: storage_env
  ap_rpc :: rpc_env
  ap_version :: string
  ap_getenv :: "string \<Rightarrow> string option"
  ap_make_address :: "string \<Rightarrow> ip_address option"
  ap_token :: token_env
  ap_other :: "files \<Rightarrow> files"
  ap_random :: bytes
  ap_suffix :: bytes
  ap_serve :: "RuntimeConfig \<Rightarrow> storage \<Rightarrow> storage_result option"

definition load_config :: "app_env \<Rightarrow> files \<Rightarrow> path \<Rightarrow> string + ApplicationConfig" where
  "load_config ap fs file =
     (case load_application_config (we_io (ap_wallet ap)) (parse_json (ap_rpc ap)) (we_cwd (ap_wallet ap)) fs fs file of
        Inl e \<Rightarrow> Inl (''Could not load application configuration: '' @ application_config_error_message e @ newline)
      | Inr config \<Rightarrow> Inr config)"

section \<open>Configuration commands\<close>

definition print_config_help :: string where
  "print_config_help =
     ''Configuration commands:'' @ newline @
     ''  bbc config validate --file <path>'' @ newline @
     ''  bbc config show --file <path>'' @ newline"

definition config_endpoint_text :: "NetworkEndpoint \<Rightarrow> string" where
  "config_endpoint_text endpoint = ep_host endpoint @ '':'' @ to_string (unat (ep_port endpoint))"

definition show_config :: "ApplicationConfig \<Rightarrow> string" where
  "show_config config =
     ''Configuration: '' @ ac_source_file config @ newline @
     ''Name: '' @ ac_name config @ newline @
     ''Network: '' @ np_name (network_parameters (ac_network_profile config)) @ newline @
     ''Roles: '' @ concat (map (\<lambda>(index, role). (if index \<noteq> 0 then '', '' else []) @ application_role_name role)
       (enumerate 0 (ac_roles config))) @ newline @
     ''Wallet file: '' @ ac_wallet_file config @ newline @
     ''Data directory: '' @ ac_data_directory config @ newline @
     (case ac_full_node config of
        None \<Rightarrow> []
      | Some f \<Rightarrow>
          ''P2P scope: '' @ p2p_scope_name (fn_scope f) @ newline @
          ''P2P listen: '' @ config_endpoint_text (fn_listen f) @ newline @
          ''Initial peers: '' @ to_string (length (fn_peers f)) @ newline @
          concat (map (\<lambda>peer. ''Peer: '' @ config_endpoint_text peer @ newline) (fn_peers f))) @
     (case ac_miner config of
        None \<Rightarrow> []
      | Some m \<Rightarrow>
          ''Mining reward address: '' @ Address_value (mi_reward_address m) @ newline @
          ''Mining source: '' @
            (case mi_source m of Some source \<Rightarrow> config_endpoint_text source | None \<Rightarrow> ''local full node'') @ newline @
          ''Mining auto-start: '' @ (if mi_auto_start m then ''yes'' else ''no'') @ newline) @
     (case ac_rpc config of
        None \<Rightarrow> []
      | Some r \<Rightarrow>
          ''RPC listen: '' @ config_endpoint_text (rp_listen r) @ newline @
          ''RPC token file: '' @ rp_token_file r @ newline)"

definition run_config_command :: "app_env \<Rightarrow> string list \<Rightarrow> files \<Rightarrow> nat \<times> string \<times> string" where
  "run_config_command ap arguments fs =
     (case arguments of
        [] \<Rightarrow> (success, print_config_help, [])
      | command # rest \<Rightarrow>
          if command = ''help'' then (success, print_config_help, [])
          else case parse_options rest [] of
            Inl err \<Rightarrow> (usage_error, [], err)
          | Inr options \<Rightarrow>
              (let invalid = validate_options options [''--file'']
               in if invalid \<noteq> [] then (usage_error, [], invalid)
                  else case required_option options ''--file'' of
                    (None, err) \<Rightarrow> (usage_error, [], err)
                  | (Some file, _) \<Rightarrow>
                      if command = ''validate''
                      then (case load_config ap fs file of
                              Inl err \<Rightarrow> (runtime_error, [], err)
                            | Inr config \<Rightarrow>
                                (success, ''Configuration validation: success'' @ newline @
                                   ''Configuration: '' @ ac_source_file config @ newline, []))
                      else if command = ''show''
                      then (case load_config ap fs file of
                              Inl err \<Rightarrow> (runtime_error, [], err)
                            | Inr config \<Rightarrow> (success, show_config config, []))
                      else (usage_error, [],
                            ''Unknown configuration command: '' @ command @ newline @ newline @ print_config_help)))"

section \<open>RPC commands\<close>

definition print_rpc_help :: string where
  "print_rpc_help =
     ''RPC commands:'' @ newline @
     ''  bbc rpc health --config <path>'' @ newline @
     ''  bbc rpc status --config <path>'' @ newline @
     ''  bbc rpc dump --config <path>'' @ newline @
     ''  bbc rpc ping --config <path>'' @ newline @
     ''  bbc rpc start-mining --config <path>'' @ newline @
     ''  bbc rpc start-continuous-mining --config <path>'' @ newline @
     ''  bbc rpc stop-mining --config <path>'' @ newline @
     ''  bbc rpc submit --config <path> --transaction <path>'' @ newline @
     ''  bbc rpc stop --config <path>'' @ newline"

text \<open>The request; its identifier is the number 1, and null parameters are left out.\<close>

definition rpc_request :: "string \<Rightarrow> string \<Rightarrow> json \<Rightarrow> json" where
  "rpc_request token command params =
     J_object ([(''id'', J_unsigned 1), (''method'', J_string command), (''token'', J_string token)] @
       (if params = J_null then [] else [(''params'', params)]))"

fun json_is_one :: "rpc_env \<Rightarrow> json \<Rightarrow> bool" where
  "json_is_one rv (J_unsigned n) \<longleftrightarrow> n = 1"
| "json_is_one rv (J_integer i) \<longleftrightarrow> i = 1"
| "json_is_one rv (J_float text) \<longleftrightarrow> rv_float_is_one rv text"
| "json_is_one rv _ \<longleftrightarrow> False"

text \<open>The answer of the node: the text for the error stream, or the result.\<close>

definition rpc_result :: "rpc_env \<Rightarrow> json \<Rightarrow> string + json" where
  "rpc_result rv response =
     (case (member response ''id'', bool_member response ''ok'') of
        (Some response_id, Some ok) \<Rightarrow>
          if \<not> json_is_one rv response_id then Inl (''Node returned an invalid RPC response.'' @ newline)
          else if \<not> ok
          then (case object_member response ''error'' of
                  None \<Rightarrow> Inl (''Node returned an invalid RPC error.'' @ newline)
                | Some e \<Rightarrow>
                    (case (string_member e ''code'', string_member e ''message'') of
                       (Some code, Some message) \<Rightarrow> Inl (''RPC error ['' @ code @ '']: '' @ message @ newline)
                     | _ \<Rightarrow> Inl (''Node returned an invalid RPC error.'' @ newline)))
          else (case member response ''result'' of
                  None \<Rightarrow> Inl (''Node returned an RPC response without a result.'' @ newline)
                | Some result \<Rightarrow> Inr result)
      | _ \<Rightarrow> Inl (''Node returned an invalid RPC response.'' @ newline))"

definition call_rpc :: "rpc_env \<Rightarrow> RpcSettings \<Rightarrow> string \<Rightarrow> string \<Rightarrow> json \<Rightarrow> string + json" where
  "call_rpc rv rpc token command params =
     (case rv_send rv (rp_listen rpc) (rv_dump rv (rpc_request token command params) @ newline) of
        RP_exception what \<Rightarrow> Inl (''Could not call local RPC: '' @ what @ newline)
      | RP_timeout \<Rightarrow> Inl (''Local RPC response timed out.'' @ newline)
      | RP_line line \<Rightarrow>
          (case rv_parse rv line of
             Inl what \<Rightarrow> Inl (''Could not call local RPC: '' @ what @ newline)
           | Inr response \<Rightarrow> rpc_result rv response))"

text \<open>The method and the parameters of a command; exit code and error text, where there are none.\<close>

definition rpc_call_of ::
    "sodium \<Rightarrow> io \<Rightarrow> files \<Rightarrow> CommandOptions \<Rightarrow> string \<Rightarrow> nat \<times> string + string \<times> json" where
  "rpc_call_of so io fs options command =
     (if command \<in> {''health'', ''status'', ''dump'', ''ping''} then Inr (command, J_null)
      else if command = ''start-mining'' then Inr (''start_mining'', J_null)
      else if command = ''start-continuous-mining'' then Inr (''start_continuous_mining'', J_null)
      else if command = ''stop-mining'' then Inr (''stop_mining'', J_null)
      else if command = ''stop'' then Inr (''shutdown'', J_null)
      else if command = ''submit''
      then (case required_option options ''--transaction'' of
              (None, err) \<Rightarrow> Inl (usage_error, err)
            | (Some transaction_path, _) \<Rightarrow>
                (case load_transaction so io fs transaction_path of
                   Inl e \<Rightarrow> Inl (runtime_error, ''Could not read transaction: '' @ transaction_error_message e @ newline)
                 | Inr tx \<Rightarrow>
                     Inr (''submit_signed_transaction'',
                          J_object [(''transaction_hex'', J_string (to_upper_hex (tx_serialize tx)))])))
      else Inl (usage_error, ''Unknown RPC command: '' @ command @ newline @ newline @ print_rpc_help))"

definition rpc_output :: "rpc_env \<Rightarrow> string \<Rightarrow> json \<Rightarrow> nat \<times> string \<times> string" where
  "rpc_output rv command result =
     (if command = ''health''
      then (case bool_member result ''ready'' of
              None \<Rightarrow> (runtime_error, [], ''Node returned an invalid health result.'' @ newline)
            | Some ready \<Rightarrow> (success, ''RPC health: '' @ (if ready then ''ready'' else ''not ready'') @ newline, []))
      else if command = ''stop'' then (success, ''Node shutdown requested.'' @ newline, [])
      else if command = ''start-mining'' then (success, ''Mining start requested.'' @ newline, [])
      else if command = ''start-continuous-mining'' then (success, ''Continuous mining start requested.'' @ newline, [])
      else if command = ''stop-mining'' then (success, ''Mining stop requested.'' @ newline, [])
      else if command = ''ping''
      then (case unsigned_member result ''nonce'' of
              None \<Rightarrow> (runtime_error, [], ''Node returned an invalid ping result.'' @ newline)
            | Some nonce \<Rightarrow> (success, ''Ping nonce: '' @ number nonce @ newline, []))
      else if command = ''submit''
      then (case string_member result ''transaction_id'' of
              None \<Rightarrow> (runtime_error, [], ''Node returned an invalid transaction result.'' @ newline)
            | Some transaction_id \<Rightarrow> (success, ''Transaction submitted: '' @ transaction_id @ newline, []))
      else (success, rv_dump_indented rv result @ newline, []))"

definition execute_rpc :: "sodium \<Rightarrow> app_env \<Rightarrow> string \<Rightarrow> CommandOptions \<Rightarrow> files \<Rightarrow> nat \<times> string \<times> string" where
  "execute_rpc so ap command options fs =
     (let rv = ap_rpc ap; io = we_io (ap_wallet ap);
          invalid = validate_options options (if command = ''submit'' then [''--config'', ''--transaction''] else [''--config''])
      in if invalid \<noteq> [] then (usage_error, [], invalid)
         else case required_option options ''--config'' of
           (None, err) \<Rightarrow> (usage_error, [], err)
         | (Some config_path, _) \<Rightarrow>
             (case load_config ap fs config_path of
                Inl err \<Rightarrow> (runtime_error, [], err)
              | Inr application \<Rightarrow>
                  (case ac_rpc application of
                     None \<Rightarrow> (runtime_error, [], ''Configuration has no local RPC settings.'' @ newline)
                   | Some rpc \<Rightarrow>
                       (case load_token io fs (rp_token_file rpc) of
                          Inl e \<Rightarrow> (runtime_error, [], ''Could not load the RPC token: '' @ token_error_message e @ newline)
                        | Inr token \<Rightarrow>
                            (case rpc_call_of so io fs options command of
                               Inl (code, err) \<Rightarrow> (code, [], err)
                             | Inr (remote_call, params) \<Rightarrow>
                                 (case call_rpc rv rpc token remote_call params of
                                    Inl err \<Rightarrow> (runtime_error, [], err)
                                  | Inr result \<Rightarrow> rpc_output rv command result))))))"

definition rpc_commands :: "string list" where
  "rpc_commands = [''health'', ''status'', ''dump'', ''ping'', ''start-mining'', ''start-continuous-mining'', ''stop-mining'',
     ''submit'', ''stop'']"

definition run_rpc_command :: "sodium \<Rightarrow> app_env \<Rightarrow> string list \<Rightarrow> files \<Rightarrow> nat \<times> string \<times> string" where
  "run_rpc_command so ap arguments fs =
     (case arguments of
        [] \<Rightarrow> (success, print_rpc_help, [])
      | command # rest \<Rightarrow>
          if command = ''help'' then (success, print_rpc_help, [])
          else if command \<notin> set rpc_commands
          then (usage_error, [], ''Unknown RPC command: '' @ command @ newline @ newline @ print_rpc_help)
          else case parse_options rest [] of
            Inl err \<Rightarrow> (usage_error, [], err)
          | Inr options \<Rightarrow> execute_rpc so ap command options fs)"

section \<open>Node commands\<close>

definition print_node_help :: string where
  "print_node_help =
     ''Node commands:'' @ newline @
     ''  bbc node run --config <path>'' @ newline @
     ''  bbc node run --scenario-config <path>'' @ newline"

text \<open>\<open>run_application_node\<close> up to the start of the node: the error text, or what the node is started with.\<close>

definition application_runtime :: "app_env \<Rightarrow> ApplicationConfig \<Rightarrow> files \<Rightarrow> (string + RuntimeConfig) \<times> files" where
  "application_runtime ap config fs =
     (case run_application_checks (ap_make_address ap) config of
        Some err \<Rightarrow> (Inl (err @ newline), fs)
      | None \<Rightarrow>
          (case load_or_create_token (ap_token ap) (ap_other ap) (ap_random ap) (ap_suffix ap) fs
              (rp_token_file (the (ac_rpc config))) of
             (Inl e, fs) \<Rightarrow> (Inl (''Could not prepare the RPC token: '' @ token_error_message e @ newline), fs)
           | (Inr token, fs) \<Rightarrow> (Inr (runtime_config_application config token), fs)))"

definition run_node :: "app_env \<Rightarrow> CommandOptions \<Rightarrow> storage \<Rightarrow> storage_result option" where
  "run_node ap options sg =
     (let invalid = validate_options options [''--config'', ''--scenario-config''];
          application_config = has_option options ''--config'';
          scenario_config = has_option options ''--scenario-config''
      in if invalid \<noteq> [] then Some (refuse usage_error invalid sg)
         else if application_config = scenario_config
         then Some (refuse usage_error (''Use exactly one of --config or --scenario-config.'' @ newline) sg)
         else case required_option options (if application_config then ''--config'' else ''--scenario-config'') of
           (None, err) \<Rightarrow> Some (refuse usage_error err sg)
         | (Some config_path, _) \<Rightarrow>
             if application_config
             then (case load_config ap (sg_files sg) config_path of
                     Inl err \<Rightarrow> Some (refuse runtime_error err sg)
                   | Inr config \<Rightarrow>
                       (case application_runtime ap config (sg_files sg) of
                          (Inl err, fs) \<Rightarrow> Some (refuse runtime_error err (set_files fs sg))
                        | (Inr runtime, fs) \<Rightarrow> ap_serve ap runtime (set_files fs sg)))
             else (case load_scenario_actor_config (we_io (ap_wallet ap)) (parse_json (ap_rpc ap)) (sg_files sg) config_path of
                     Inl e \<Rightarrow>
                       Some (refuse runtime_error
                         (''Could not load scenario actor configuration: '' @ scenario_actor_config_error_message e @ newline) sg)
                   | Inr config \<Rightarrow> ap_serve ap (runtime_config_scenario config) sg))"

definition run_node_command :: "app_env \<Rightarrow> string list \<Rightarrow> storage \<Rightarrow> storage_result option" where
  "run_node_command ap arguments sg =
     (case arguments of
        [] \<Rightarrow> Some (success, print_node_help, [], sg)
      | command # rest \<Rightarrow>
          if command = ''help'' then Some (success, print_node_help, [], sg)
          else case parse_options rest [] of
            Inl err \<Rightarrow> Some (refuse usage_error err sg)
          | Inr options \<Rightarrow>
              if command = ''run'' then run_node ap options sg
              else Some (refuse usage_error (''Unknown node command: '' @ command @ newline @ newline @ print_node_help) sg))"

section \<open>The program\<close>

text \<open>A command on files, as one on the storage.\<close>

definition on_files :: "command_result \<Rightarrow> storage \<Rightarrow> storage_result" where
  "on_files result sg = (case result of (code, out, err, fs) \<Rightarrow> (code, out, err, set_files fs sg))"

definition show_wallet_balance :: "sodium \<Rightarrow> app_env \<Rightarrow> CommandOptions \<Rightarrow> path \<Rightarrow> storage \<Rightarrow> storage_result option" where
  "show_wallet_balance so ap options settings_directory sg =
     (let invalid = validate_options options [''--file'', ''--block'', ''--data-dir'']
      in if invalid \<noteq> [] then Some (refuse usage_error invalid sg)
         else if has_option options ''--block'' \<and> has_option options ''--data-dir''
         then Some (refuse usage_error (''Use either --data-dir or --block, not both.'' @ newline) sg)
         else case resolved_wallet so (ap_wallet ap) (sg_files sg) options settings_directory ''--file'' of
           Inl err \<Rightarrow> Some (refuse runtime_error err sg)
         | Inr w \<Rightarrow>
             show_chain_balance so (ap_storage ap) (Wallet_address so w) (option_values options ''--block'')
               (first_option options ''--data-dir'') sg)"

definition run_wallet_command :: "sodium \<Rightarrow> app_env \<Rightarrow> string list \<Rightarrow> path \<Rightarrow> storage \<Rightarrow> storage_result option" where
  "run_wallet_command so ap arguments settings_directory sg =
     (let we = ap_wallet ap; fs = sg_files sg
      in case arguments of
           [] \<Rightarrow> Some (success, print_wallet_help, [], sg)
         | command # rest \<Rightarrow>
             if command = ''help'' then Some (success, print_wallet_help, [], sg)
             else case parse_options rest (if command = ''balance'' then [''--block''] else []) of
               Inl err \<Rightarrow> Some (refuse usage_error err sg)
             | Inr options \<Rightarrow>
                 if command = ''create''
                 then map_option (\<lambda>r. on_files r sg) (create_wallet_command so we options settings_directory fs)
                 else if command = ''select'' then Some (on_files (select_wallet_file so we options settings_directory fs) sg)
                 else if command = ''selected'' then Some (on_files (show_selected_wallet we options settings_directory fs) sg)
                 else if command = ''address'' then Some (on_files (show_wallet_address so we options settings_directory fs) sg)
                 else if command = ''balance'' then show_wallet_balance so ap options settings_directory sg
                 else if command = ''sign'' then Some (on_files (sign_message so we options settings_directory fs) sg)
                 else if command = ''verify'' then Some (on_files (verify_message so options fs) sg)
                 else Some (refuse usage_error (''Unknown wallet command: '' @ command @ newline @ newline @ print_wallet_help) sg))"

definition print_help :: string where
  "print_help =
     ''Bi-Bi-Coin (BBC)'' @ newline @ newline @
     ''Usage:'' @ newline @
     ''  bbc <command>'' @ newline @ newline @
     ''Commands:'' @ newline @
     ''  help         Show this help message'' @ newline @
     ''  version      Show the application version'' @ newline @
     ''  wallet       Create, inspect, sign, or verify with a wallet'' @ newline @
     ''  transaction  Create, inspect, or verify a signed transaction'' @ newline @
     ''  block        Create, mine, inspect, or verify a block'' @ newline @
     ''  chain        Verify blocks and inspect chain state'' @ newline @
     ''  mempool      Store and inspect pending transactions'' @ newline @
     ''  config       Validate or inspect application configuration'' @ newline @
     ''  node         Run a long-lived BBC node'' @ newline @
     ''  rpc          Inspect or control a running local node'' @ newline @
     ''  wallet-demo  Generate a temporary wallet and verify a signature'' @ newline @ newline @
     print_wallet_help @ newline @ print_transaction_help @ newline @ print_block_help @ newline @
     print_chain_help @ newline @ print_mempool_help @ newline @ print_config_help @ newline @
     print_node_help @ newline @ print_rpc_help"

definition without_effect :: "nat \<times> string \<times> string \<Rightarrow> storage \<Rightarrow> storage_result" where
  "without_effect result sg = (case result of (code, out, err) \<Rightarrow> (code, out, err, sg))"

definition run :: "sodium \<Rightarrow> app_env \<Rightarrow> string list \<Rightarrow> path \<Rightarrow> storage \<Rightarrow> storage_result option" where
  "run so ap arguments settings_directory sg =
     (let effective_settings_directory =
            (if settings_directory = [] then default_settings_directory (ap_getenv ap) else settings_directory)
      in case arguments of
           [] \<Rightarrow> Some (success, print_help, [], sg)
         | command # rest \<Rightarrow>
             if command \<in> {''help'', ''-h'', ''--help''} then Some (success, print_help, [], sg)
             else if command \<in> {''version'', ''--version''} then Some (success, ''BBC '' @ ap_version ap @ newline, [], sg)
             else if command = ''wallet'' then run_wallet_command so ap rest effective_settings_directory sg
             else if command = ''transaction''
             then Some (on_files (run_transaction_command so (ap_wallet ap) rest effective_settings_directory (sg_files sg)) sg)
             else if command = ''block'' then run_block_command so (ap_storage ap) rest sg
             else if command = ''chain'' then run_chain_command so (ap_storage ap) rest sg
             else if command = ''mempool'' then run_mempool_command so (ap_storage ap) rest sg
             else if command = ''config'' then Some (without_effect (run_config_command ap rest (sg_files sg)) sg)
             else if command = ''node'' then run_node_command ap rest sg
             else if command = ''rpc'' then Some (without_effect (run_rpc_command so ap rest (sg_files sg)) sg)
             else if command = ''wallet-demo''
             then map_option (\<lambda>r. on_files r sg) (run_wallet_demo so (ap_wallet ap) (sg_files sg))
             else Some (refuse usage_error (''Unknown command: '' @ command @ newline @ newline @ print_help) sg))"

end
