(* ===== verification/BBC_Cli_Props.thy ===== *)
theory BBC_Cli_Props
  imports BBC_Cli BBC_Sync_Live
begin

text \<open>What the commands guarantee.\<close>

section \<open>Every command returns and explains itself\<close>

text \<open>
  A result as a caller of the program may rely on it: one of the three exit codes, a message
  with every failure, and neither output nor a changed storage with a usage error. With
  \<open>opened\<close> the usage error may be found after the chain store was opened, which rebuilds the
  index \<open>chain.db\<close>; plain files and the table of the pool are as before all the same.
\<close>

definition reported :: "bool \<Rightarrow> storage \<Rightarrow> storage_result \<Rightarrow> bool" where
  "reported opened sg result \<longleftrightarrow>
     (case result of (code, out, err, sg') \<Rightarrow>
        code \<in> {success, runtime_error, usage_error} \<and> (code \<noteq> success \<longrightarrow> err \<noteq> []) \<and>
        (code = usage_error \<longrightarrow> out = [] \<and>
          (sg' = sg \<or> opened \<and> sg_files sg' = sg_files sg \<and> sg_pool sg' = sg_pool sg)))"

text \<open>A command that returns, with a result of this kind.\<close>

definition returns :: "('a \<Rightarrow> bool) \<Rightarrow> 'a option \<Rightarrow> bool" where
  "returns P x \<longleftrightarrow> (\<exists>r. x = Some r \<and> P r)"

lemma returns_simps [simp]: "returns P (Some r) \<longleftrightarrow> P r" "\<not> returns P None"
  by (simp_all add: returns_def)

lemma returns_map [simp]: "returns P (map_option f x) \<longleftrightarrow> returns (\<lambda>r. P (f r)) x"
  by (cases x) simp_all

named_theorems cli_reported

lemma reported_success [cli_reported]: "reported x sg (success, out, err, sg')"
  by (simp add: reported_def exit_codes)

lemma reported_refuse [cli_reported]:
  "reported x sg (refuse runtime_error err sg') \<longleftrightarrow> err \<noteq> []"
  "reported x sg (refuse usage_error err sg') \<longleftrightarrow> err \<noteq> [] \<and>
     (sg' = sg \<or> x \<and> sg_files sg' = sg_files sg \<and> sg_pool sg' = sg_pool sg)"
  by (auto simp: reported_def refuse_def exit_codes)

lemma sg_files_set [simp]: "sg_files (set_files fs sg) = fs"
  by (simp add: set_files_def)

lemma set_files_same [simp]: "set_files fs sg = sg \<longleftrightarrow> fs = sg_files sg"
  by (cases sg; cases "sg_disk sg") (auto simp: set_files_def)

text \<open>Options that are missing or malformed are reported.\<close>

lemma required_option_error: "required_option options name = (None, err) \<Longrightarrow> err \<noteq> []"
  by (auto simp: required_option_def split: option.splits)

lemma parse_uint64_error: "parse_uint64 encoded name = (None, err) \<Longrightarrow> err \<noteq> []"
  by (auto simp: parse_uint64_def split: option.splits list.splits)

lemma required_uint64_error: "required_uint64_option options name = (None, err) \<Longrightarrow> err \<noteq> []"
  using required_option_error parse_uint64_error
  by (auto simp: required_uint64_option_def split: prod.splits option.splits)

lemma optional_uint64_error: "optional_uint64_option options name v = (None, err) \<Longrightarrow> err \<noteq> []"
  using parse_uint64_error by (auto simp: optional_uint64_option_def split: list.splits)

lemma options_loop_error: "options_loop repeatable arguments options = Inl err \<Longrightarrow> err \<noteq> []"
proof (induction repeatable arguments options rule: options_loop.induct)
  case (2 repeatable name rest options)
  then show ?case by (cases rest) (auto split: if_splits)
qed simp

lemma parse_options_error: "parse_options arguments repeatable = Inl err \<Longrightarrow> err \<noteq> []"
  unfolding parse_options_def by (rule options_loop_error)

lemma resolved_wallet_error: "resolved_wallet so we fs options directory name = Inl err \<Longrightarrow> err \<noteq> []"
  by (auto simp: resolved_wallet_def resolve_wallet_path_def open_wallet_def password_refused_def
      split: sum.splits option.splits)

lemma load_transactions_error: "load_transactions so io fs files = Inl err \<Longrightarrow> err \<noteq> []"
proof (induction files)
  case (Cons p files)
  then show ?case by (cases "load_transactions so io fs files") (auto split: sum.splits)
qed simp

lemmas option_errors = required_option_error required_uint64_error optional_uint64_error

subsection \<open>Commands on files\<close>

definition file_reported :: "files \<Rightarrow> command_result \<Rightarrow> bool" where
  "file_reported fs result \<longleftrightarrow>
     (case result of (code, out, err, fs') \<Rightarrow>
        code \<in> {success, runtime_error, usage_error} \<and> (code \<noteq> success \<longrightarrow> err \<noteq> []) \<and>
        (code = usage_error \<longrightarrow> out = [] \<and> fs' = fs))"

lemma reported_on_files [cli_reported]: "reported x sg (on_files result sg) \<longleftrightarrow> file_reported (sg_files sg) result"
  by (auto simp: reported_def file_reported_def on_files_def split: prod.split)

lemma file_reported_simps [cli_reported]:
  "file_reported fs (success, out, err, fs')"
  "file_reported fs (runtime_error, out, err, fs') \<longleftrightarrow> err \<noteq> []"
  "file_reported fs (fail runtime_error err fs') \<longleftrightarrow> err \<noteq> []"
  "file_reported fs (fail usage_error err fs') \<longleftrightarrow> err \<noteq> [] \<and> fs' = fs"
  by (auto simp: file_reported_def fail_def exit_codes)

lemma select_wallet_file_reported: "file_reported fs (select_wallet_file so we options directory fs)"
  using option_errors(1) [of options "''--file''"]
  by (auto simp: select_wallet_file_def open_wallet_def password_refused_def cli_reported Let_def
      split: prod.splits option.splits sum.splits)

lemma wallet_queries_reported:
  "file_reported fs (show_selected_wallet we options directory fs)"
  "file_reported fs (show_wallet_address so we options directory fs)"
  "file_reported fs (sign_message so we options directory fs)"
  using option_errors(1) [of options "''--message''"] resolved_wallet_error [of so we fs options directory "''--file''"]
  by (auto simp: show_selected_wallet_def show_wallet_address_def sign_message_def cli_reported Let_def
      split: prod.splits option.splits sum.splits)

lemma verify_message_reported: "file_reported fs (verify_message so options fs)"
  using option_errors(1) [of options "''--message''"] option_errors(1) [of options "''--public-key''"]
    option_errors(1) [of options "''--signature''"]
  by (auto simp: verify_message_def cli_reported Let_def split: prod.splits option.splits)

lemma load_created_wallet_reported: "file_reported fs' (load_created_wallet we directory p out fs)"
  by (auto simp: load_created_wallet_def cli_reported split: prod.splits sum.splits)

lemma create_wallet_reported:
  assumes "Wallet_create so (we_seed we) = Some w"
  shows "returns (file_reported fs) (create_wallet_command so we options directory fs)"
  using option_errors(1) [of options "''--file''"] load_created_wallet_reported
  by (auto simp: create_wallet_command_def assms password_refused_def cli_reported Let_def
      split: prod.splits option.splits)

lemma create_transaction_reported: "file_reported fs (create_transaction so we options directory fs)"
  using option_errors(1) [of options "''--to''"] option_errors(1) [of options "''--out''"]
    option_errors(2) [of options "''--amount''"] option_errors(2) [of options "''--fee''"] option_errors(2) [of options "''--nonce''"]
    resolved_wallet_error [of so we fs options directory "''--wallet''"]
  by (auto simp: create_transaction_def cli_reported Let_def split: prod.splits option.splits sum.splits)

lemma run_transaction_reported: "file_reported fs (run_transaction_command so we arguments directory fs)"
proof (cases arguments)
  case (Cons command rest)
  have "file_reported fs (show_transaction so we options fs)" "file_reported fs (verify_transaction_file so we options fs)" for options
    using option_errors(1) [of options "''--file''"]
    by (auto simp: show_transaction_def verify_transaction_file_def cli_reported Let_def
        split: prod.splits option.splits sum.splits)
  then show ?thesis
    using parse_options_error [of rest "[]"] create_transaction_reported
    by (auto simp: run_transaction_command_def Cons cli_reported split: sum.split)
qed (simp add: run_transaction_command_def cli_reported)

subsection \<open>Commands on the storage\<close>

lemma current_chain_supported: "supported_chain current_chain_id"
  by (simp add: supported_chain current_chain_id_def)

lemma sg_files_pool [simp]: "sg_files (sg\<lparr> sg_pool := table \<rparr>) = sg_files sg"
  by simp

lemma with_chain_store_returns:
  assumes "\<And>cs sg'. bc_reachable so current_chain_id (cs_blockchain cs) \<Longrightarrow> sg_files sg' = sg_files sg \<Longrightarrow>
      sg_pool sg' = sg_pool sg \<Longrightarrow> returns (reported x sg) (continue cs sg')"
  shows "returns (reported x sg) (with_chain_store so xe directory sg continue)"
proof -
  obtain r dk where r: "cs_open so (ne_io (xe_first xe)) (ne_sqlite (xe_first xe)) (sg_disk sg) directory current_chain_id =
      Some (r, dk)" and dk: "dk_files dk = sg_files sg"
    using cs_open_total [OF current_chain_supported] by blast
  show ?thesis
  proof (cases r)
    case (Inl e)
    then show ?thesis by (simp add: with_chain_store_def r cli_reported)
  next
    case (Inr cs)
    then have "bc_reachable so current_chain_id (cs_blockchain cs)"
      using cs_open_sound(1) [OF current_chain_supported] r by blast
    then show ?thesis using assms dk Inr by (simp add: with_chain_store_def r)
  qed
qed

lemma open_mempool_files [simp]: "sg_files (snd (open_mempool so xe directory state sg)) = sg_files sg"
  by (simp add: open_mempool_def split: prod.splits)

lemma with_stores_returns:
  assumes "\<And>cs ms sg'. sg_files sg' = sg_files sg \<Longrightarrow> reported x sg (continue cs ms sg')"
  shows "returns (reported x sg) (with_stores so xe directory sg continue)"
  unfolding with_stores_def
proof (rule with_chain_store_returns)
  fix cs sg' assume files: "sg_files sg' = sg_files sg"
  show "returns (reported x sg) (case open_mempool so xe directory (bc_state (cs_blockchain cs)) sg' of
      (Inl e, sg) \<Rightarrow> Some (refuse runtime_error (''Could not open mempool: '' @ mempool_store_error_message e @ newline) sg)
    | (Inr ms, sg) \<Rightarrow> Some (continue cs ms sg))"
    using assms files open_mempool_files [of so xe directory "bc_state (cs_blockchain cs)" sg']
    by (auto simp: cli_reported simp del: open_mempool_files split: prod.splits sum.splits)
qed

lemma save_and_print_reported: "reported x sg (save_and_print so xe what saved block p sg')"
  by (auto simp: save_and_print_def cli_reported split: prod.splits)

lemma create_block_file_reported: "reported x sg (create_block_file so xe options sg)"
  using option_errors(2) [of options "''--height''"] option_errors(1) [of options "''--previous''"]
    option_errors(1) [of options "''--reward-to''"] option_errors(2) [of options "''--timestamp''"]
    option_errors(3) [of options "''--nonce''" 0] option_errors(1) [of options "''--out''"]
    load_transactions_error [of so "xe_io xe" "sg_files sg" "option_values options ''--transaction''"] save_and_print_reported
  unfolding create_block_file_def Let_def
  by (simp add: cli_reported split: prod.splits option.splits sum.splits list.splits)

lemma create_block_candidate_returns: "returns (reported True sg) (create_block_candidate so xe options sg)"
proof -
  have "reported True sg (save_candidate so xe directory recipient timestamp p cs sg')" if "sg_files sg' = sg_files sg" "sg_pool sg' = sg_pool sg"
    for directory recipient timestamp p cs sg'
    using that by (auto simp: save_candidate_def Let_def cli_reported save_and_print_reported split: prod.splits sum.splits)
  then have "returns (reported True sg) (with_chain_store so xe directory sg
      (\<lambda>cs sg. Some (save_candidate so xe directory recipient timestamp p cs sg)))" for directory recipient timestamp p
    by (simp add: with_chain_store_returns)
  then show ?thesis
    using option_errors(1) [of options "''--data-dir''"] option_errors(1) [of options "''--reward-to''"]
      option_errors(2) [of options "''--timestamp''"] option_errors(1) [of options "''--out''"]
    by (simp add: create_block_candidate_def Let_def cli_reported split: prod.splits option.splits)
qed

lemma block_files_reported:
  "reported x sg (show_genesis so xe options sg)"
  "reported x sg (show_block_file so xe options sg)"
  "reported x sg (verify_block_file so xe options sg)"
  using option_errors(1) [of options "''--file''"]
  by (auto simp: show_genesis_def show_block_file_def verify_block_file_def with_block_file_def cli_reported
      save_and_print_reported Let_def split: prod.splits option.splits sum.splits list.splits)

lemma mine_block_file_reported: "reported x sg (mine_block_file so xe options sg)"
proof -
  have saved: "reported x sg (case save_and_print so xe what saved block p sg' of (code, out, err, sg) \<Rightarrow>
      if code \<noteq> success then (code, out, err, sg) else (success, out @ more_text, err, sg))" for what saved block p sg' more_text
    using save_and_print_reported [of x sg so xe what saved block p sg'] by (auto simp: cli_reported split: prod.splits)
  show ?thesis
    using option_errors(1) [of options "''--file''"] option_errors(1) [of options "''--out''"]
      option_errors(3) [of options "''--max-attempts''" u64_max]
    unfolding mine_block_file_def Let_def
    by (auto simp: cli_reported saved split: prod.splits option.splits sum.splits)
qed

lemma run_block_returns: "returns (reported (take 1 arguments = [''candidate'']) sg) (run_block_command so xe arguments sg)"
  using parse_options_error create_block_candidate_returns block_files_reported mine_block_file_reported create_block_file_reported
  by (auto simp: run_block_command_def cli_reported split: list.split sum.split)

lemma load_block_valid: "load_block so io fs p = Inr b \<Longrightarrow> blk_valid so b"
  by (auto simp: load_block_def dest: deserialize_block_Inr split: option.splits if_splits)

lemma reachable_append:
  assumes "bc_reachable so c bc" and "blk_valid so b"
  obtains r bc' where "bc_append so bc b = Some (r, bc')" "bc_reachable so c bc'"
proof -
  obtain r bc' where r: "bc_append so bc b = Some (r, bc')"
    using bc_append_total [OF bc_reachable_inv [OF assms(1)] assms(2)] by blast
  then show thesis using that bc_reachable.append [OF assms] by blast
qed

lemma replay_blocks_returns:
  assumes "bc_reachable so c bc"
  shows "returns (\<lambda>r. case r of Inl err \<Rightarrow> err \<noteq> [] | Inr bc' \<Rightarrow> bc_reachable so c bc') (replay_blocks so io fs paths bc)"
  using assms
proof (induction paths arbitrary: bc)
  case (Cons p paths)
  show ?case
  proof (cases "load_block so io fs p")
    case (Inr b)
    then obtain r bc' where "bc_append so bc b = Some (r, bc')" "bc_reachable so c bc'"
      using reachable_append [OF Cons.prems load_block_valid] by metis
    then show ?thesis using Cons.IH Inr by simp
  qed simp
qed simp

lemma with_chain_returns:
  assumes "\<And>bc sg'. reported x sg (continue bc sg')"
  shows "returns (reported x sg) (with_chain so xe directory paths sg continue)"
proof (cases directory)
  case None
  obtain r where r: "replay_blocks so (xe_io xe) (sg_files sg) paths (Blockchain_create so current_chain_id) = Some r"
    and err: "\<And>err. r = Inl err \<Longrightarrow> err \<noteq> []"
    using replay_blocks_returns [OF bc_reachable.create [OF current_chain_supported], of so "xe_io xe" "sg_files sg" paths]
    unfolding returns_def by fastforce
  show ?thesis using err by (cases r) (simp_all add: with_chain_def None r assms cli_reported)
qed (simp add: with_chain_def with_chain_store_returns assms)

lemma add_block_returns: "returns (reported x sg) (add_block_to_store so xe options sg)"
proof -
  have "returns (reported x sg) (store_block so xe directory p cs sg')"
    if reach: "bc_reachable so current_chain_id (cs_blockchain cs)" for directory p cs sg'
  proof (cases "load_block so (xe_io xe) (sg_files sg') p")
    case (Inr b)
    obtain a bc' where a: "bc_append so (cs_blockchain cs) b = Some (a, bc')"
      by (rule reachable_append [OF reach load_block_valid [OF Inr]])
    obtain r dk cs' where r: "cs_append so (ne_io (xe_then xe)) (ne_sqlite (xe_then xe)) (sg_disk sg') cs b = Some (r, dk, cs')"
      using cs_append_outcome [OF a] by metis
    have "reported x sg (reconcile_after_add so xe directory state bc result out sg'')" for state bc result out sg''
      by (auto simp: reconcile_after_add_def Let_def cli_reported split: prod.splits sum.splits)
    then show ?thesis by (simp add: store_block_def Inr r Let_def cli_reported)
  qed (simp add: store_block_def cli_reported)
  then show ?thesis
    using option_errors(1) [of options "''--data-dir''"] option_errors(1) [of options "''--block''"]
    by (simp add: add_block_to_store_def Let_def cli_reported with_chain_store_returns split: prod.splits option.splits)
qed

lemma cs_initialize_total: "\<exists>r dk'. cs_initialize so io io' sq dk directory current_chain_id = Some (r, dk')"
proof (cases "fs_open_trunc io (dk_files dk) (blocks_path directory)")
  case (Some fs)
  obtain written fs' where w: "fs_write io fs (blocks_path directory) (encode_record so (genesis_block so current_chain_id)) =
      (written, fs')" by fastforce
  obtain r dk' where "cs_open so io' sq (dk\<lparr> dk_files := fs' \<rparr>) directory current_chain_id = Some (r, dk')"
    using cs_open_total [OF current_chain_supported] by blast
  then show ?thesis
    by (cases r; cases "fs_exists io (dk_files dk) (blocks_path directory)")
      (simp_all add: cs_initialize_def Let_def Some w)
next
  case None
  then show ?thesis
    by (cases "fs_exists io (dk_files dk) (blocks_path directory)") (simp add: cs_initialize_def Let_def)
qed

lemma initialize_returns: "returns (reported x sg) (initialize_chain_store so xe options sg)"
proof -
  let ?cs = "\<lambda>directory. cs_initialize so (ne_io (xe_first xe)) (ne_io (xe_then xe)) (ne_sqlite (xe_first xe)) (sg_disk sg)
      directory current_chain_id"
  have total: "?cs directory \<noteq> None" for directory
    using cs_initialize_total by (metis option.distinct(1))
  show ?thesis
    using option_errors(1) [of options "''--data-dir''"]
    by (auto simp: total initialize_chain_store_def Let_def cli_reported split: prod.splits option.splits sum.splits)
qed

lemma run_chain_returns: "returns (reported x sg) (run_chain_command so xe arguments sg)"
proof -
  have "returns (reported x sg) (verify_chain so xe options sg)" "returns (reported x sg) (show_tip so xe options sg)"
    "returns (reported x sg) (show_balance so xe options sg)" for options
    using option_errors(1) [of options "''--address''"]
    by (auto simp: verify_chain_def show_tip_def show_balance_def show_chain_balance_def Let_def cli_reported
        intro!: with_chain_returns split: prod.splits option.splits)
  then show ?thesis
    using parse_options_error add_block_returns initialize_returns
    by (auto simp: run_chain_command_def cli_reported split: list.split sum.split)
qed

lemma run_mempool_returns: "returns (reported x sg) (run_mempool_command so xe arguments sg)"
proof -
  have option: "data_directory_option options = Inl err \<Longrightarrow> err \<noteq> []" for options err
    using option_errors(1) by (auto simp: data_directory_option_def Let_def split: prod.splits option.splits if_splits)
  have "returns (reported x sg) (list_transactions so xe options sg)" "returns (reported x sg) (show_status so xe options sg)" for options
    using option by (auto simp: list_transactions_def show_status_def Let_def cli_reported
        intro!: with_stores_returns split: sum.splits)
  moreover have "returns (reported x sg) (add_transaction_command so xe options sg)" for options
    using option_errors(1) [of options "''--data-dir''"] option_errors(1) [of options "''--transaction''"]
    by (auto simp: add_transaction_command_def Let_def cli_reported
        intro!: with_stores_returns split: prod.splits option.splits sum.splits)
  ultimately show ?thesis
    using parse_options_error by (auto simp: run_mempool_command_def cli_reported split: list.split sum.split)
qed

subsection \<open>Commands without effect on the storage\<close>

definition query_reported :: "nat \<times> string \<times> string \<Rightarrow> bool" where
  "query_reported result \<longleftrightarrow>
     (case result of (code, out, err) \<Rightarrow>
        code \<in> {success, runtime_error, usage_error} \<and> (code \<noteq> success \<longrightarrow> err \<noteq> []) \<and> (code \<noteq> success \<longrightarrow> out = []))"

lemma reported_query: "query_reported result \<Longrightarrow> reported x sg (without_effect result sg)"
  by (auto simp: reported_def query_reported_def without_effect_def exit_codes split: prod.splits)

lemma query_reported_simps [cli_reported]:
  "query_reported (success, out, err)"
  "query_reported (runtime_error, [], err) \<longleftrightarrow> err \<noteq> []"
  "query_reported (usage_error, [], err) \<longleftrightarrow> err \<noteq> []"
  by (auto simp: query_reported_def exit_codes)

lemma load_config_error: "load_config ap fs p = Inl err \<Longrightarrow> err \<noteq> []"
  by (auto simp: load_config_def split: sum.splits)

lemma call_rpc_error: "call_rpc rv rpc token command params = Inl err \<Longrightarrow> err \<noteq> []"
  by (auto simp: call_rpc_def rpc_result_def split: rpc_reply.splits sum.splits option.splits if_splits)

lemma rpc_call_error:
  "rpc_call_of so io fs options command = Inl (code, err) \<Longrightarrow> code \<in> {runtime_error, usage_error} \<and> err \<noteq> []"
  using option_errors(1) [of options "''--transaction''"]
  by (auto simp: rpc_call_of_def split: if_splits prod.splits option.splits sum.splits)

lemma run_config_reported: "query_reported (run_config_command ap arguments fs)"
  using parse_options_error load_config_error option_errors(1)
  by (auto simp: run_config_command_def Let_def cli_reported split: list.splits prod.splits option.splits sum.splits)

lemma rpc_output_reported: "query_reported (rpc_output rv command result)"
  by (auto simp: rpc_output_def cli_reported split: option.splits)

lemma execute_rpc_reported: "query_reported (execute_rpc so ap command options fs)"
proof -
  have call: "query_reported (code, [], err)" if "rpc_call_of so io fs options command = Inl (code, err)" for io code err
    using rpc_call_error [OF that] by (auto simp: cli_reported)
  show ?thesis
    using option_errors(1) [of options "''--config''"] load_config_error [of ap fs]
      call [of "we_io (ap_wallet ap)"] call_rpc_error [of "ap_rpc ap"] rpc_output_reported
    unfolding execute_rpc_def Let_def
    by (auto simp: cli_reported split: prod.splits option.splits sum.splits)
qed

lemma run_rpc_reported: "query_reported (run_rpc_command so ap arguments fs)"
  using parse_options_error execute_rpc_reported
  by (auto simp: run_rpc_command_def cli_reported split: list.splits sum.splits)

lemma run_wallet_returns:
  assumes "Wallet_create so (we_seed (ap_wallet ap)) = Some w"
  shows "returns (reported x sg) (run_wallet_command so ap arguments directory sg)"
proof -
  have balance: "returns (reported x sg) (show_wallet_balance so ap options directory sg)" for options
    using resolved_wallet_error [of so "ap_wallet ap" "sg_files sg" options directory "''--file''"]
    by (auto simp: show_wallet_balance_def show_chain_balance_def Let_def cli_reported
        intro!: with_chain_returns split: sum.splits)
  show ?thesis
    using parse_options_error create_wallet_reported [OF assms] balance
    by (simp add: run_wallet_command_def Let_def cli_reported select_wallet_file_reported wallet_queries_reported
        verify_message_reported split: list.splits sum.splits)
qed

lemma node_other_returns:
  assumes "take 1 arguments \<noteq> [''run'']"
  shows "returns (reported x sg) (run_node_command ap arguments sg)"
  using parse_options_error assms
  by (auto simp: run_node_command_def cli_reported split: list.splits sum.splits)

lemma run_demo_returns:
  assumes "Wallet_create so (we_seed we) = Some w"
  shows "returns (file_reported fs) (run_wallet_demo so we fs)"
  by (simp add: run_wallet_demo_def assms Let_def cli_reported)


section \<open>Verifying a chain from files\<close>

text \<open>A sequence of accepted blocks, in terms of the abstract fork choice.\<close>

inductive fork_steps ::
    "sodium \<Rightarrow> Block list set \<times> Block list \<Rightarrow> Block list \<Rightarrow> Block list set \<times> Block list \<Rightarrow> bool" for so where
  none: "fork_steps so s [] s"
| accepted: "fork_step so s b True s' \<Longrightarrow> fork_steps so s' bs s'' \<Longrightarrow> fork_steps so s (b # bs) s''"

definition files_hold :: "sodium \<Rightarrow> io \<Rightarrow> files \<Rightarrow> string list \<Rightarrow> Block list \<Rightarrow> bool" where
  "files_hold so io fs paths bs \<longleftrightarrow> list_all2 (\<lambda>p b. load_block so io fs p = Inr b) paths bs"

lemma files_hold_simps [simp]:
  "files_hold so io fs [] []"
  "files_hold so io fs (p # paths) (b # bs) \<longleftrightarrow> load_block so io fs p = Inr b \<and> files_hold so io fs paths bs"
  by (simp_all add: files_hold_def)

lemma replay_blocks_sound:
  assumes "bc_reachable so c bc" and "replay_blocks so io fs paths bc = Some (Inr bc')"
  shows "bc_reachable so c bc' \<and> (\<exists>bs. files_hold so io fs paths bs \<and>
    fork_steps so (chains_of bc, bc_blocks bc) bs (chains_of bc', bc_blocks bc'))"
  using assms
proof (induction paths arbitrary: bc)
  case Nil
  then show ?case using fork_steps.none by (auto intro: exI [of _ "[]"])
next
  case (Cons p paths)
  obtain b where b: "load_block so io fs p = Inr b" using Cons.prems(2) by (auto split: sum.splits)
  obtain r bc1 where r: "bc_append so bc b = Some (r, bc1)" "bc_reachable so c bc1"
    by (rule reachable_append [OF Cons.prems(1) load_block_valid [OF b]])
  have ok: "ar_error r = CE_none" "replay_blocks so io fs paths bc1 = Some (Inr bc')"
    using Cons.prems(2) b r by (auto split: if_splits)
  have "fork_step so (chains_of bc, bc_blocks bc) b True (chains_of bc1, bc_blocks bc1)"
    using bc_append_fork_step [OF bc_reachable_inv [OF Cons.prems(1)] load_block_valid [OF b] r(1)] ok(1) by simp
  moreover obtain bs where "bc_reachable so c bc'" "files_hold so io fs paths bs"
    "fork_steps so (chains_of bc1, bc_blocks bc1) bs (chains_of bc', bc_blocks bc')"
    using Cons.IH [OF r(2) ok(2)] by blast
  ultimately show ?case using b fork_steps.accepted by (auto intro!: exI [of _ "b # bs"])
qed

text \<open>A block that follows the active chain extends it.\<close>

lemma append_extends:
  assumes reach: "bc_reachable so c bc" and b: "follows so (bc_blocks bc) b"
    and new: "blk_id so b \<notin> blk_id so ` set (bc_stored_blocks bc)"
  obtains r bc' where "bc_append so bc b = Some (r, bc')" "ar_error r = CE_none" "bc_reachable so c bc'"
    "bc_blocks bc' = bc_blocks bc @ [b]" "bc_stored_blocks bc' = bc_stored_blocks bc @ [b]"
proof -
  have inv: "bc_inv so c bc" using reach by (rule bc_reachable_inv)
  have valid: "blk_valid so b" using b by (simp add: follows_def)
  note branch = bc_blocks_branch [OF inv]
  have "append_checks so bc b (last (bc_active_indices bc)) (snd (apply_block_state so (replay so (bc_blocks bc)) b))"
    using b new bc_invD(3) [OF inv] unfolding append_checks_iff [OF inv valid] branch by simp
  then obtain r bc' where r: "bc_append so bc b = Some (r, bc')" "accepted_as bc b (last (bc_active_indices bc)) r bc'"
    using bc_append_outcome [OF inv valid] by metis
  have "blk_height (bc_tip bc) < blk_height b"
    using b by (simp add: follows_def bc_tip_def word_less_nat_alt)
  then show thesis
    using that [OF r(1)] bc_reachable.append [OF reach valid r(1)] r(2) by (simp add: accepted_as_def branch)
qed

lemma replay_blocks_complete:
  assumes "bc_reachable so c bc" and "bc_stored_blocks bc = bc_blocks bc" and "files_hold so io fs paths bs"
    and "valid_chain so c (bc_blocks bc @ bs)" and "distinct (map (blk_id so) (bc_blocks bc @ bs))"
  shows "\<exists>bc'. replay_blocks so io fs paths bc = Some (Inr bc') \<and> bc_blocks bc' = bc_blocks bc @ bs"
  using assms
proof (induction paths arbitrary: bc bs)
  case Nil
  then show ?case by (simp add: files_hold_def)
next
  case (Cons p paths)
  then obtain b rest where bs: "bs = b # rest" and b: "load_block so io fs p = Inr b"
    by (cases bs) (simp_all add: files_hold_def)
  have ne: "bc_blocks bc \<noteq> []" using valid_chain_not_empty [OF bc_blocks_valid [OF bc_reachable_inv [OF Cons.prems(1)]]] .
  have f: "follows so (bc_blocks bc) b" using valid_chain_append [OF Cons.prems(4) ne] bs by simp
  have new: "blk_id so b \<notin> blk_id so ` set (bc_stored_blocks bc)" using Cons.prems(2,5) bs by auto
  obtain r bc1 where "bc_append so bc b = Some (r, bc1)" "ar_error r = CE_none" and bc1: "bc_reachable so c bc1"
    "bc_blocks bc1 = bc_blocks bc @ [b]" "bc_stored_blocks bc1 = bc_stored_blocks bc @ [b]"
    by (rule append_extends [OF Cons.prems(1) f new])
  then show ?case
    using Cons.IH [OF bc1(1), of rest] Cons.prems(2-5) bs b by simp
qed

text \<open>The command line with files of blocks.\<close>

lemma options_loop_blocks:
  "options_loop [''--block''] (concat (map (\<lambda>p. [''--block'', p]) paths)) options =
     Inr (options @ map (\<lambda>p. \<lparr> op_name = ''--block'', op_value = Some p \<rparr>) paths)"
  by (induction paths arbitrary: options) simp_all

lemma block_options:
  fixes paths :: "string list"
  defines "options \<equiv> map (\<lambda>p. \<lparr> op_name = ''--block'', op_value = Some p \<rparr>) paths"
  shows "option_values options ''--block'' = paths" "option_values options ''--data-dir'' = []"
    "validate_options options [''--block'', ''--data-dir''] = []" "validate_chain_source options = []"
proof -
  show "option_values options ''--block'' = paths" "option_values options ''--data-dir'' = []"
    unfolding options_def by (induction paths) (simp_all add: option_values_def List.map_filter_simps)
  show "validate_options options [''--block'', ''--data-dir''] = []" "validate_chain_source options = []"
    by (auto simp: options_def validate_options_def find_None_iff validate_chain_source_def has_option_def split: option.split)
qed

definition verified_text :: "sodium \<Rightarrow> Block list \<Rightarrow> string" where
  "verified_text so blocks =
     ''Chain verification: success'' @ newline @
     ''Tip height: '' @ number (blk_height (last blocks)) @ newline @
     ''Tip block ID: '' @ to_upper_hex (blk_id so (last blocks)) @ newline @
     ''Blocks including Genesis: '' @ to_string (length blocks) @ newline @
     ''Accounts: '' @ to_string (ChainState_account_count (replay so blocks)) @ newline"

lemma run_chain_verify:
  "run so ap (''chain'' # ''verify'' # concat (map (\<lambda>p. [''--block'', p]) paths)) settings_directory sg =
     with_chain so (ap_storage ap) None paths sg (\<lambda>bc sg.
       (success,
        ''Chain verification: success'' @ newline @
        ''Tip height: '' @ number (blk_height (bc_tip bc)) @ newline @
        ''Tip block ID: '' @ to_upper_hex (blk_id so (bc_tip bc)) @ newline @
        ''Blocks including Genesis: '' @ to_string (bc_block_count bc) @ newline @
        ''Accounts: '' @ to_string (ChainState_account_count (bc_state bc)) @ newline, [], sg))"
  by (simp add: run_def run_chain_command_def parse_options_def options_loop_blocks verify_chain_def block_options
      first_option_def Let_def)

lemma genesis_blockchain:
  "chains_of (Blockchain_create so current_chain_id) = {[genesis_block so current_chain_id]}"
  "bc_blocks (Blockchain_create so current_chain_id) = [genesis_block so current_chain_id]"
  "bc_stored_blocks (Blockchain_create so current_chain_id) = [genesis_block so current_chain_id]"
proof -
  have "tree_ok so current_chain_id (Blockchain_create so current_chain_id)"
    by (rule bc_invD(1) [OF bc_reachable_inv [OF bc_reachable.create [OF current_chain_supported]]])
  then show "chains_of (Blockchain_create so current_chain_id) = {[genesis_block so current_chain_id]}"
    using branch_genesis by (simp add: chains_of_def Blockchain_create_def lessThan_Suc)
qed (simp_all add: Blockchain_create_def)

text \<open>
  C9. \<open>bbc chain verify --block p1 --block p2 ...\<close> decides whether the files are a chain, and changes
  nothing. It exits with 0 only if every file holds a block, the blocks are accepted in the order
  of the files by the abstract fork choice that starts from Genesis, and the result is a valid
  chain, whose tip, length and number of accounts are what it prints. Conversely it exits with 0,
  and prints these values, whenever the files hold the blocks of a valid chain after Genesis whose
  identifiers are distinct.
\<close>

theorem chain_verify_correct:
  "\<exists>code out err. run so ap (''chain'' # ''verify'' # concat (map (\<lambda>p. [''--block'', p]) paths)) settings_directory sg =
      Some (code, out, err, sg) \<and>
    (code = 0 \<longrightarrow> (\<exists>bs known active. files_hold so (xe_io (ap_storage ap)) (sg_files sg) paths bs \<and>
       fork_steps so ({[genesis_block so current_chain_id]}, [genesis_block so current_chain_id]) bs (known, active) \<and>
       valid_chain so current_chain_id active \<and> out = verified_text so active)) \<and>
    (\<forall>bs. files_hold so (xe_io (ap_storage ap)) (sg_files sg) paths bs \<and>
       valid_chain so current_chain_id (genesis_block so current_chain_id # bs) \<and>
       distinct (map (blk_id so) (genesis_block so current_chain_id # bs)) \<longrightarrow>
       code = 0 \<and> out = verified_text so (genesis_block so current_chain_id # bs))"
proof -
  let ?genesis = "Blockchain_create so current_chain_id"
  let ?replay = "replay_blocks so (xe_io (ap_storage ap)) (sg_files sg) paths ?genesis"
  note reach = bc_reachable.create [OF current_chain_supported, of so]
  have complete: "\<exists>bc. ?replay = Some (Inr bc) \<and> bc_blocks bc = genesis_block so current_chain_id # bs"
    if "files_hold so (xe_io (ap_storage ap)) (sg_files sg) paths bs"
      "valid_chain so current_chain_id (genesis_block so current_chain_id # bs)"
      "distinct (map (blk_id so) (genesis_block so current_chain_id # bs))" for bs
    using replay_blocks_complete [OF reach _ that(1)] that(2,3) by (simp add: genesis_blockchain)
  have printed: "verified_text so (bc_blocks bc) =
      ''Chain verification: success'' @ newline @
      ''Tip height: '' @ number (blk_height (bc_tip bc)) @ newline @
      ''Tip block ID: '' @ to_upper_hex (blk_id so (bc_tip bc)) @ newline @
      ''Blocks including Genesis: '' @ to_string (bc_block_count bc) @ newline @
      ''Accounts: '' @ to_string (ChainState_account_count (bc_state bc)) @ newline"
    if "bc_reachable so current_chain_id bc" for bc
    by (simp add: verified_text_def bc_tip_def bc_block_count_def bc_state_replay [OF bc_reachable_inv [OF that]])
  obtain r where r: "?replay = Some r"
    using replay_blocks_returns [OF reach, of "xe_io (ap_storage ap)" "sg_files sg" paths] by (auto simp: returns_def)
  show ?thesis
  proof (cases r)
    case (Inl err)
    then show ?thesis
      using complete r by (fastforce simp: run_chain_verify with_chain_def refuse_def exit_codes)
  next
    case (Inr bc)
    have sound: "bc_reachable so current_chain_id bc"
      "\<exists>bs. files_hold so (xe_io (ap_storage ap)) (sg_files sg) paths bs \<and>
         fork_steps so ({[genesis_block so current_chain_id]}, [genesis_block so current_chain_id]) bs (chains_of bc, bc_blocks bc)"
      using replay_blocks_sound [OF reach] r Inr by (simp_all add: genesis_blockchain)
    have "run so ap (''chain'' # ''verify'' # concat (map (\<lambda>p. [''--block'', p]) paths)) settings_directory sg =
        Some (0, verified_text so (bc_blocks bc), [], sg)"
      by (simp add: run_chain_verify with_chain_def r Inr printed [OF sound(1)] exit_codes)
    then show ?thesis
      using sound(2) complete r Inr bc_blocks_valid [OF bc_reachable_inv [OF sound(1)]] by fastforce
  qed
qed

section \<open>An example\<close>

definition demo_wallet_env :: wallet_env where
  "demo_wallet_env = \<lparr> we_io = io_ok, we_cwd = Some ''/home'', we_directories_ok = True, we_password = (\<lambda>prompt. None),
     we_seed = replicate 32 1, we_salt = replicate 16 2, we_nonce = replicate 24 3 \<rparr>"

definition demo_storage_env :: storage_env where
  "demo_storage_env = \<lparr> xe_io = io_ok, xe_first = node_env_ok, xe_then = node_env_ok, xe_directories_ok = True,
     xe_timing = (\<lambda>attempts. []) \<rparr>"

definition demo_rpc_env :: rpc_env where
  "demo_rpc_env = \<lparr> rv_send = (\<lambda>endpoint line. RP_timeout), rv_parse = (\<lambda>text. Inl ''no JSON''), rv_dump = (\<lambda>j. []),
     rv_dump_indented = (\<lambda>j. []), rv_float_is_one = (\<lambda>text. False) \<rparr>"

definition demo_app :: app_env where
  "demo_app = \<lparr> ap_wallet = demo_wallet_env, ap_storage = demo_storage_env, ap_rpc = demo_rpc_env, ap_version = ''0.1'',
     ap_getenv = (\<lambda>name. None), ap_make_address = (\<lambda>host. None), ap_token = token_env_ok, ap_other = id,
     ap_random = replicate 32 4, ap_suffix = replicate 8 5, ap_serve = (\<lambda>runtime sg. None) \<rparr>"

definition demo_storage :: storage where
  "demo_storage = \<lparr> sg_disk = \<lparr> dk_files = [''b1'' \<mapsto> blk_serialize demo_b1], dk_database = None \<rparr>, sg_pool = [] \<rparr>"


lemma demo_b1_file: "files_hold demo_sodium io_ok (sg_files demo_storage) [''b1''] [demo_b1]"
proof -
  note valid = demo_children_valid(1)
  have "load_block demo_sodium io_ok (sg_files demo_storage) ''b1'' = Inr demo_b1"
    using length_blk_serialize [OF valid] blk_valid_length_transactions [OF valid]
    by (simp add: demo_storage_def load_block_def fs_file_size_def fs_read_def io_ok_def block_sizes
        deserialize_blk_serialize [OF valid])
  then show ?thesis by simp
qed

theorem chain_verify_correct_witness:
  "\<exists>err. run demo_sodium demo_app [''chain'', ''verify'', ''--block'', ''b1''] ''settings'' demo_storage =
     Some (0, verified_text demo_sodium [genesis_block demo_sodium 1, demo_b1], err, demo_storage)"
proof -
  let ?bs = "[genesis_block demo_sodium 1, demo_b1]"
  have env: "xe_io (ap_storage demo_app) = io_ok" "current_chain_id = 1"
    by (simp_all add: current_chain_id_def demo_app_def demo_storage_env_def)
  have "valid_chain demo_sodium 1 ?bs"
    using bc_blocks_valid [OF bc_reachable_inv [OF demo_chain_reachable(1)]] by (simp add: demo_chain_facts)
  moreover have "bc_inv demo_sodium 1 (Blockchain_create demo_sodium 1)"
    by (rule Blockchain_create_inv) (simp add: supported_chain)
  then have "distinct (map (blk_id demo_sodium) ?bs)"
    using demo_b1_applies append_checks_iff [OF _ demo_children_valid(1)] by (fastforce simp: Blockchain_create_def)
  ultimately have chain: "files_hold demo_sodium io_ok (sg_files demo_storage) [''b1''] [demo_b1] \<and>
      valid_chain demo_sodium 1 ?bs \<and> distinct (map (blk_id demo_sodium) ?bs)"
    using demo_b1_file by blast
  show ?thesis
    using chain_verify_correct [of demo_sodium demo_app "[''b1'']" "''settings''" demo_storage, unfolded env]
    by - (elim exE conjE, drule spec [of _ "[demo_b1]"], use chain in auto)
qed

end
