(* ===== verification/BBC_Cli_Rpc.thy ===== *)
theory BBC_Cli_Rpc
  imports BBC_Cli
begin

text \<open>
  The command line and the node together: what \<open>bbc rpc submit\<close> sends reaches
  \<open>submit_signed_transaction\<close> of the node that owns the token, and what the command prints is what the
  node did. The JSON library and the connection between the two processes are parameters.
\<close>

section \<open>JSON text between two processes\<close>

text \<open>
  The library keeps the members of an object sorted by key, so a value that was printed and
  parsed again is the same up to the order of members.
\<close>

inductive json_equiv :: "json \<Rightarrow> json \<Rightarrow> bool" where
  refl: "json_equiv j j"
| members: "(\<And>k. rel_option json_equiv (map_of ms k) (map_of ms' k)) \<Longrightarrow> json_equiv (J_object ms) (J_object ms')"
monos option.rel_mono_strong

inductive_simps json_equiv_simps [simp]:
  "json_equiv (J_string s) j" "json_equiv j (J_string s)"
  "json_equiv (J_bool b) j" "json_equiv j (J_bool b)"
  "json_equiv (J_unsigned n) j" "json_equiv j (J_unsigned n)"

lemma member_equiv:
  assumes "json_equiv j j'"
  shows "rel_option json_equiv (member j k) (member j' k)"
  using assms
proof cases
  case refl
  then show ?thesis by (simp add: option.rel_refl json_equiv.refl)
qed (simp add: member_def)

lemma scalar_members_equiv:
  assumes "json_equiv j j'"
  shows "string_member j' k = string_member j k" "bool_member j' k = bool_member j k"
    "unsigned_member j' k = unsigned_member j k"
  using member_equiv [OF assms, of k]
  by (cases "member j k"; cases "member j' k"; cases "the (member j k)"; cases "the (member j' k)";
      force simp: json_member_defs elim: json_equiv.cases)+

lemma object_member_equiv:
  assumes "json_equiv j j'"
  shows "rel_option json_equiv (object_member j k) (object_member j' k)"
  using member_equiv [OF assms, of k]
  by (cases "member j k"; cases "member j' k"; cases "the (member j k)"; cases "the (member j' k)";
      force simp: json_member_defs elim: json_equiv.cases)

lemma json_contains_equiv: "json_equiv j j' \<Longrightarrow> json_contains j' k = json_contains j k"
  using member_equiv [of j j' k] by (cases "member j k"; cases "member j' k") (simp_all add: json_contains_def)

lemma is_object_equiv: "json_equiv j j' \<Longrightarrow> is_object j' = is_object j"
  by (auto elim: json_equiv.cases)

lemmas json_equivs = scalar_members_equiv json_contains_equiv is_object_equiv

text \<open>A value that the two processes can exchange as one line of a connection.\<close>

definition transports :: "rpc_env \<Rightarrow> json \<Rightarrow> bool" where
  "transports rv j \<longleftrightarrow>
     (\<exists>j'. rv_parse rv (rv_dump rv j) = Inr j' \<and> json_equiv j j') \<and>
     CHR 0x0A \<notin> set (rv_dump rv j) \<and> length (rv_dump rv j) < maximum_control_request_size"

text \<open>
  The connection: a line sent to the endpoint is what \<open>serve_connection\<close> of the node reads, and the line it
  writes is what the sender receives.
\<close>

definition served_by :: "sodium \<Rightarrow> control_env \<Rightarrow> rpc_env \<Rightarrow> NetworkEndpoint \<Rightarrow> NodeRuntime \<Rightarrow> bool \<Rightarrow> bool" where
  "served_by so ce rv endpoint nr stopping \<longleftrightarrow>
     (\<forall>line reply. CHR 0x0A \<notin> set line \<and> length line < maximum_control_request_size \<and> CHR 0x0A \<notin> set reply \<and>
        fst (serve_connection so ce (parse_json rv) (rv_dump rv) (Some line) nr stopping) = Some (reply @ newline) \<longrightarrow>
        rv_send rv endpoint (line @ newline) = RP_line reply)"

abbreviation submit_request :: "string \<Rightarrow> SignedTransaction \<Rightarrow> json" where
  "submit_request token tx \<equiv> rpc_request token ''submit_signed_transaction''
     (J_object [(''transaction_hex'', J_string (to_upper_hex (tx_serialize tx)))])"

lemma handle_submit_request:
  assumes j: "json_equiv (submit_request (rc_control_token (nr_config nr)) tx) j" and tx: "tx_valid so tx"
  shows "handle_request so ce j nr stopping =
    (case transaction_answer (J_unsigned 1) (submit_signed_transaction so (ce_system ce) tx nr) of
       (response, nr') \<Rightarrow> (response, nr', stopping))"
proof -
  let ?params = "J_object [(''transaction_hex'', J_string (to_upper_hex (tx_serialize tx)))]"
  have request: "member (submit_request t tx) ''id'' = Some (J_unsigned 1)"
    "string_member (submit_request t tx) ''method'' = Some ''submit_signed_transaction''"
    "string_member (submit_request t tx) ''token'' = Some t"
    "object_member (submit_request t tx) ''params'' = Some ?params"
    "json_contains (submit_request t tx) ''id''" "is_object (submit_request t tx)" for t
    by (simp_all add: rpc_request_def member_def json_member_defs json_contains_def)
  have i: "member j ''id'' = Some (J_unsigned 1)"
    using member_equiv [OF j, of "''id''"] by (cases "member j ''id''") (simp_all add: request)
  obtain params where params: "object_member j ''params'' = Some params" "json_equiv ?params params"
    using object_member_equiv [OF j, of "''params''"] by (cases "object_member j ''params''") (simp_all add: request)
  have hex: "string_member params ''transaction_hex'' = Some (to_upper_hex (tx_serialize tx))"
    unfolding scalar_members_equiv(1) [OF params(2)] by (simp add: member_def json_member_defs)
  have decode: "decode_hex (to_upper_hex (tx_serialize tx)) signed_transaction_size = Some (tx_serialize tx)"
    using decode_hex_to_upper_hex [of "tx_serialize tx"] length_tx_serialize [OF tx] by (simp add: signed_transaction_size_def)
  have "request_submit_signed so ce (J_unsigned 1) j nr =
      transaction_answer (J_unsigned 1) (submit_signed_transaction so (ce_system ce) tx nr)"
    by (simp add: request_submit_signed_def params hex decode deserialize_tx_serialize [OF tx])
  then show ?thesis
    by (simp add: handle_request_def handle_method_def i json_equivs [OF j] request persistent_methods_def Let_def)
qed

lemma load_transaction_valid: "load_transaction so io fs p = Inr tx \<Longrightarrow> tx_valid so tx"
  by (auto simp: load_transaction_def dest: deserialize_transaction_valid split: option.splits if_splits)

text \<open>What the command makes of the answer of the node.\<close>

lemma submit_output:
  assumes j: "json_equiv (fst (transaction_answer (J_unsigned 1) (outcome, nr))) j"
  shows "(case rpc_result rv j of Inl err \<Rightarrow> (runtime_error, [], err) | Inr result \<Rightarrow> rpc_output rv ''submit'' result) =
    (case outcome of
       Inl e \<Rightarrow> (runtime_error, [], ''RPC error [transaction_rejected]: '' @ e @ newline)
     | Inr i \<Rightarrow> (success, ''Transaction submitted: '' @ to_upper_hex i @ newline, []))"
proof (cases outcome)
  case (Inl e)
  let ?error = "J_object [(''code'', J_string ''transaction_rejected''), (''message'', J_string e)]"
  let ?answer = "error_response (J_unsigned 1) ''transaction_rejected'' e"
  have j: "json_equiv ?answer j" using j by (simp add: transaction_answer_def Inl)
  have answer: "member ?answer ''id'' = Some (J_unsigned 1)" "bool_member ?answer ''ok'' = Some False"
    "object_member ?answer ''error'' = Some ?error"
    by (simp_all add: error_response_def member_def json_member_defs)
  have i: "member j ''id'' = Some (J_unsigned 1)"
    using member_equiv [OF j, of "''id''"] by (cases "member j ''id''") (simp_all add: answer)
  obtain d where d: "object_member j ''error'' = Some d" "json_equiv ?error d"
    using object_member_equiv [OF j, of "''error''"] by (cases "object_member j ''error''") (simp_all add: answer)
  have "string_member d ''code'' = Some ''transaction_rejected''" "string_member d ''message'' = Some e"
    unfolding scalar_members_equiv(1) [OF d(2)] by (simp_all add: member_def json_member_defs)
  then show ?thesis by (simp add: rpc_result_def i json_equivs [OF j] answer d(1) Inl)
next
  case (Inr t)
  let ?result = "J_object [(''transaction_id'', J_hex t)]"
  let ?answer = "ok_response (J_unsigned 1) [(''transaction_id'', J_hex t)]"
  have j: "json_equiv ?answer j" using j by (simp add: transaction_answer_def Inr)
  have answer: "member ?answer ''id'' = Some (J_unsigned 1)" "bool_member ?answer ''ok'' = Some True"
    "member ?answer ''result'' = Some ?result"
    by (simp_all add: member_def json_member_defs)
  have i: "member j ''id'' = Some (J_unsigned 1)"
    using member_equiv [OF j, of "''id''"] by (cases "member j ''id''") (simp_all add: answer)
  obtain d where d: "member j ''result'' = Some d" "json_equiv ?result d"
    using member_equiv [OF j, of "''result''"] by (cases "member j ''result''") (simp_all add: answer)
  have "string_member d ''transaction_id'' = Some (to_upper_hex t)"
    unfolding scalar_members_equiv(1) [OF d(2)] by (simp add: member_def json_member_defs)
  then show ?thesis by (simp add: rpc_result_def rpc_output_def i json_equivs [OF j] answer d(1) Inr)
qed

lemma run_rpc_submit:
  assumes "load_config ap (sg_files sg) config_path = Inr config" and "ac_rpc config = Some rpc"
    and "load_token (we_io (ap_wallet ap)) (sg_files sg) (rp_token_file rpc) = Inr token"
    and "load_transaction so (we_io (ap_wallet ap)) (sg_files sg) transaction_path = Inr tx"
  shows "run so ap [''rpc'', ''submit'', ''--config'', config_path, ''--transaction'', transaction_path] settings_directory sg =
    Some (without_effect
      (case call_rpc (ap_rpc ap) rpc token ''submit_signed_transaction''
          (J_object [(''transaction_hex'', J_string (to_upper_hex (tx_serialize tx)))]) of
         Inl err \<Rightarrow> (runtime_error, [], err)
       | Inr result \<Rightarrow> rpc_output (ap_rpc ap) ''submit'' result) sg)"
  using assms
  by (simp add: run_def run_rpc_command_def rpc_commands_def parse_options_def execute_rpc_def validate_options_def
      required_option_def option_values_def List.map_filter_simps rpc_call_of_def Let_def)

text \<open>
  C10. Submitting a transaction from the command line. A node serves the endpoint of the
  configuration and the token file holds its control token; the transaction file holds \<open>tx\<close>; and the
  request and the answer survive being printed and parsed as one line of JSON. Then the request makes
  the node do exactly \<open>submit_signed_transaction\<close> with \<open>tx\<close>, and the command prints the
  identifier and exits with 0 if and only if the node accepted it, and otherwise exits with 1 and prints
  the reason the node gave.
\<close>

theorem rpc_submit_reaches_node:
  assumes "load_config ap (sg_files sg) config_path = Inr config" and "ac_rpc config = Some rpc"
    and "load_token (we_io (ap_wallet ap)) (sg_files sg) (rp_token_file rpc) = Inr (rc_control_token (nr_config nr))"
    and tx: "load_transaction so (we_io (ap_wallet ap)) (sg_files sg) transaction_path = Inr tx"
    and outcome: "submit_signed_transaction so (ce_system ce) tx nr = (outcome, nr')"
    and served: "served_by so ce (ap_rpc ap) (rp_listen rpc) nr stopping"
    and request: "transports (ap_rpc ap) (submit_request (rc_control_token (nr_config nr)) tx)"
    and answer: "transports (ap_rpc ap) (fst (transaction_answer (J_unsigned 1) (outcome, nr')))"
  shows "snd (serve_connection so ce (parse_json (ap_rpc ap)) (rv_dump (ap_rpc ap))
      (Some (rv_dump (ap_rpc ap) (submit_request (rc_control_token (nr_config nr)) tx))) nr stopping) = (nr', stopping) \<and>
    run so ap [''rpc'', ''submit'', ''--config'', config_path, ''--transaction'', transaction_path] settings_directory sg =
      Some (case outcome of
        Inr i \<Rightarrow> (0, ''Transaction submitted: '' @ to_upper_hex i @ newline, [], sg)
      | Inl e \<Rightarrow> (1, [], ''RPC error [transaction_rejected]: '' @ e @ newline, sg))"
proof -
  let ?rv = "ap_rpc ap"
  let ?token = "rc_control_token (nr_config nr)"
  let ?line = "rv_dump ?rv (submit_request ?token tx)"
  let ?answer = "fst (transaction_answer (J_unsigned 1) (outcome, nr'))"
  obtain j where j: "rv_parse ?rv ?line = Inr j" "json_equiv (submit_request ?token tx) j"
    using request by (auto simp: transports_def)
  obtain j' where j': "rv_parse ?rv (rv_dump ?rv ?answer) = Inr j'" "json_equiv ?answer j'"
    using answer by (auto simp: transports_def)
  have "snd (transaction_answer (J_unsigned 1) (outcome, nr')) = nr'"
    by (simp add: transaction_answer_def split: sum.split)
  then have serve: "serve_connection so ce (parse_json ?rv) (rv_dump ?rv) (Some ?line) nr stopping =
      (Some (rv_dump ?rv ?answer @ newline), nr', stopping)"
    using answer handle_submit_request [OF j(2) load_transaction_valid [OF tx], of ce stopping]
    by (simp add: serve_connection_def parse_json_def j(1) outcome transports_def Let_def split: prod.splits)
  have "rv_send ?rv (rp_listen rpc) (?line @ newline) = RP_line (rv_dump ?rv ?answer)"
    using served request answer serve by (simp add: served_by_def transports_def)
  then have "(case call_rpc ?rv rpc ?token ''submit_signed_transaction''
        (J_object [(''transaction_hex'', J_string (to_upper_hex (tx_serialize tx)))]) of
         Inl err \<Rightarrow> (runtime_error, [], err) | Inr result \<Rightarrow> rpc_output ?rv ''submit'' result) =
      (case outcome of
         Inl e \<Rightarrow> (runtime_error, [], ''RPC error [transaction_rejected]: '' @ e @ newline)
       | Inr i \<Rightarrow> (success, ''Transaction submitted: '' @ to_upper_hex i @ newline, []))"
    using submit_output [OF j'(2), of ?rv] by (simp add: call_rpc_def j'(1))
  then show ?thesis
    using serve run_rpc_submit [OF assms(1-4)] by (simp add: without_effect_def exit_codes split: sum.split)
qed

section \<open>An example\<close>

text \<open>A node without peers, and a command that reaches it over a connection that carries each line.\<close>

definition demo_rpc_node :: NodeRuntime where
  "demo_rpc_node = NodeRuntime_create
     (demo_runtime_config\<lparr> rc_control_token := to_upper_hex (replicate 32 2) \<rparr>) demo_disk []"

definition demo_submit :: json where
  "demo_submit = submit_request (to_upper_hex (replicate 32 2)) (demo_tx 1 2 0)"

definition demo_answer :: json where
  "demo_answer = error_response (J_unsigned 1) ''transaction_rejected'' ''Node has no P2P service.''"

definition demo_dump :: "json \<Rightarrow> string" where
  "demo_dump j = (if j = demo_submit then ''q'' else ''a'')"

definition demo_parse :: "string \<Rightarrow> string + json" where
  "demo_parse text = (if text = ''q'' then Inr demo_submit else if text = ''a'' then Inr demo_answer else Inr demo_config_document)"

definition demo_client :: rpc_env where
  "demo_client = \<lparr>
     rv_send = (\<lambda>endpoint sent.
       case fst (serve_connection demo_sodium demo_control (\<lambda>text. case demo_parse text of Inl _ \<Rightarrow> None | Inr j \<Rightarrow> Some j) demo_dump
           (Some (butlast sent)) demo_rpc_node False) of
         None \<Rightarrow> RP_timeout
       | Some reply \<Rightarrow> RP_line (butlast reply)),
     rv_parse = demo_parse, rv_dump = demo_dump, rv_dump_indented = demo_dump, rv_float_is_one = (\<lambda>text. False) \<rparr>"

definition demo_client_files :: files where
  "demo_client_files = (\<lambda>p. Some [])(''/etc/bbc/token'' \<mapsto> token_line (replicate 32 2), ''tx'' \<mapsto> tx_serialize (demo_tx 1 2 0))"

definition demo_client_storage :: storage where
  "demo_client_storage = \<lparr> sg_disk = \<lparr> dk_files = demo_client_files, dk_database = None \<rparr>, sg_pool = [] \<rparr>"

definition demo_client_app :: app_env where
  "demo_client_app =
     \<lparr> ap_wallet = \<lparr> we_io = io_ok, we_cwd = Some ''/etc/bbc'', we_directories_ok = True, we_password = (\<lambda>prompt. None),
         we_seed = replicate 32 1, we_salt = replicate 16 2, we_nonce = replicate 24 3 \<rparr>,
       ap_storage = \<lparr> xe_io = io_ok, xe_first = node_env_ok, xe_then = node_env_ok, xe_directories_ok = True,
         xe_timing = (\<lambda>attempts. []) \<rparr>,
       ap_rpc = demo_client, ap_version = ''0.1'', ap_getenv = (\<lambda>name. None), ap_make_address = (\<lambda>host. None),
       ap_token = token_env_ok, ap_other = id, ap_random = replicate 32 4, ap_suffix = replicate 8 5,
       ap_serve = (\<lambda>runtime sg. None) \<rparr>"

lemma demo_client_simps [simp]:
  "we_io (ap_wallet demo_client_app) = io_ok" "ap_rpc demo_client_app = demo_client"
  "rv_parse demo_client = demo_parse" "rv_dump demo_client = demo_dump" "sg_files demo_client_storage = demo_client_files"
  "rc_control_token (nr_config demo_rpc_node) = to_upper_hex (replicate 32 2)" "nr_network demo_rpc_node = None"
  by (simp_all add: demo_client_app_def demo_client_def demo_client_storage_def demo_rpc_node_def NodeRuntime_create_def)

lemma demo_client_config: "load_config demo_client_app demo_client_files ''node.json'' = Inr demo_application_config"
proof -
  have parse: "parse_json demo_client [] = Some demo_config_document" by (simp add: parse_json_def demo_parse_def)
  have "demo_client_files ''node.json'' = Some []" "we_cwd (ap_wallet demo_client_app) = Some ''/etc/bbc''"
    by (simp_all add: demo_client_files_def demo_client_app_def)
  then have "load_application_config io_ok (parse_json demo_client) (we_cwd (ap_wallet demo_client_app)) demo_client_files
      demo_client_files ''node.json'' = Inr demo_application_config"
    using demo_config_loaded parse
    by (simp add: load_application_config_def fs_file_size_def fs_read_all_def io_ok_def bytes_text_def)
  then show ?thesis by (simp add: load_config_def)
qed

lemma demo_client_served: "served_by demo_sodium demo_control demo_client endpoint demo_rpc_node False"
proof -
  have "parse_json demo_client = (\<lambda>text. case demo_parse text of Inl _ \<Rightarrow> None | Inr j \<Rightarrow> Some j)"
    by (rule ext) (simp add: parse_json_def)
  then show ?thesis by (simp add: served_by_def) (simp add: demo_client_def)
qed

lemma demo_transports: "transports demo_client demo_submit" "transports demo_client demo_answer"
proof -
  have "demo_answer \<noteq> demo_submit" by (simp add: demo_answer_def demo_submit_def error_response_def rpc_request_def)
  then show "transports demo_client demo_submit" "transports demo_client demo_answer"
    by (simp_all add: transports_def demo_dump_def demo_parse_def json_equiv.refl maximum_control_request_size_def)
qed

theorem rpc_submit_reaches_node_witness:
  "run demo_sodium demo_client_app [''rpc'', ''submit'', ''--config'', ''node.json'', ''--transaction'', ''tx''] ''settings''
      demo_client_storage =
     Some (1, [], ''RPC error [transaction_rejected]: Node has no P2P service.'' @ newline, demo_client_storage)"
proof -
  have token: "load_token io_ok demo_client_files ''/etc/bbc/token'' = Inr (to_upper_hex (replicate 32 2))"
    by (rule load_token_line) (simp_all add: demo_client_files_def)
  have tx: "load_transaction demo_sodium io_ok demo_client_files ''tx'' = Inr (demo_tx 1 2 0)"
    using length_tx_serialize [OF tx_valid_demo [of 2 1 0]] deserialize_tx_serialize [OF tx_valid_demo [of 2 1 0]]
    by (simp add: load_transaction_def fs_file_size_def fs_read_def io_ok_def demo_client_files_def signed_transaction_size_def)
  have outcome: "submit_signed_transaction demo_sodium (ce_system demo_control) (demo_tx 1 2 0) demo_rpc_node =
      (Inl ''Node has no P2P service.'', demo_rpc_node)"
    by (simp add: submit_signed_transaction_def)
  have rpc: "ac_rpc demo_application_config = Some \<lparr> rp_listen = \<lparr> ep_host = ''127.0.0.1'', ep_port = 4101 \<rparr>,
      rp_token_file = ''/etc/bbc/token'' \<rparr>" by (simp add: demo_application_config_def)
  show ?thesis
    using rpc_submit_reaches_node [of demo_client_app demo_client_storage "''node.json''", simplified demo_client_simps,
        OF demo_client_config rpc _ tx outcome demo_client_served] token demo_transports
    by (simp add: demo_submit_def demo_answer_def transaction_answer_def)
qed

end
