(* ===== verification/Spec2Isabelle.thy ===== *)
theory Spec2Isabelle
  imports BBC_ChainStore BBC_Merkle BBC_MempoolStore BBC_Peer_Inv BBC_WalletFile BBC_Mining BBC_Control BBC_Cli_Props BBC_Cli_Rpc
begin

text \<open>
  A model of the BBC node, a small Proof-of-Work cryptocurrency written in C++, and the
  theorems that make its core correct. Paths are relative to the repository; the C++ sources
  are under \<open>src\<close> and the headers under \<open>include/bbc\<close>.

  \<^bold>\<open>The parts of the program and how they interact.\<close> Wallets hold Ed25519 key pairs and sign
  transactions. Transactions move amounts between addresses and carry a fee and an account
  nonce. Blocks collect transactions under a Merkle root; a block is mined by searching a
  nonce for which the header hash is below a fixed target. The fork tree stores every valid
  block, keeps the account state after each of them, and publishes the longest branch as the
  active chain. The chain store appends each accepted block to a file of checksummed records
  and rebuilds an SQLite index; the mempool keeps transactions that can be mined next, and its
  store mirrors it in SQLite and takes transactions of detached blocks back after a
  reorganization. Nodes exchange these objects in checksummed frames; the peer network keeps
  the connections, greets each peer, and hands other messages to the node. The node puts these
  parts together: it answers messages, synchronizes its chain, mines, submits transactions and
  serves a local control protocol that is protected by a token. The command line runs a node
  from a configuration file, calls a running node, or works on wallets, transaction and block
  files and the databases of a data directory directly.

  \<^bold>\<open>Theories.\<close>
  \<^item> \<open>BBC_Prelude\<close>: result types, 64-bit arithmetic with the overflow guards of the sources,
    ordered maps (\<open>std::map\<close> as a sorted association list, with the locale \<open>finite_map\<close>).
  \<^item> \<open>BBC_Bytes\<close>: little-endian integers, hexadecimal text; the locales \<open>word_codec\<close> and
    \<open>canonical_codec\<close> that every wire format interprets.
  \<^item> \<open>BBC_Core\<close>: the network profiles (\<open>core/network.cpp\<close>).
  \<^item> \<open>BBC_Crypto\<close>: hashing and key pairs (\<open>crypto/hash.cpp\<close>, \<open>crypto/keys.cpp\<close>) over the
    parameter \<open>sodium\<close>.
  \<^item> \<open>BBC_Files\<close>: the file operations of the C++ library over the parameter \<open>io\<close>.
  \<^item> \<open>BBC_Wallet\<close>, \<open>BBC_WalletFile\<close>: addresses, wallets and encrypted wallet files
    (\<open>wallet/address.cpp\<close>, \<open>wallet/wallet.cpp\<close>, \<open>wallet/wallet_file.cpp\<close>).
  \<^item> \<open>BBC_Transaction\<close>: \<open>transaction/transaction.cpp\<close>, \<open>transaction/transaction_file.cpp\<close>.
  \<^item> \<open>BBC_Block\<close>, \<open>BBC_Merkle\<close>: \<open>chain/block.cpp\<close>, \<open>chain/block_file.cpp\<close>; the Merkle tree
    and what a block identifier commits to.
  \<^item> \<open>BBC_Pow\<close>: \<open>consensus/proof_of_work.cpp\<close>.
  \<^item> \<open>BBC_State\<close>: the account state and the effect of a block (\<open>chain/state.cpp\<close>).
  \<^item> \<open>BBC_Blockchain\<close>, \<open>BBC_Chain_Spec\<close>: the fork tree (\<open>chain/blockchain.cpp\<close>), its invariant,
    and the abstract fork choice that \<open>append\<close> refines.
  \<^item> \<open>BBC_ChainStore\<close>: \<open>storage/chain_store.cpp\<close>.
  \<^item> \<open>BBC_Mempool\<close>, \<open>BBC_MempoolStore\<close>: \<open>mempool/mempool.cpp\<close>, \<open>storage/mempool_store.cpp\<close>.
  \<^item> \<open>BBC_Protocol\<close>: \<open>network/protocol.cpp\<close>.
  \<^item> \<open>BBC_Peer\<close>, \<open>BBC_Peer_Inv\<close>: \<open>network/peer_network.cpp\<close>. Each completion handler is a
    function on the network's state, the step relation \<open>peer_step\<close> says which handlers may run,
    and the invariant is shown for every reachable state.
  \<^item> \<open>BBC_Json\<close>, \<open>BBC_Paths\<close>: JSON values and the text of paths, as the sources use them.
  \<^item> \<open>BBC_Config\<close>, \<open>BBC_ConfigFile\<close>: the configurations and their loaders
    (\<open>config/application_config.cpp\<close>, \<open>node/scenario_actor_config.cpp\<close>): a file that loads gives a
    well-formed configuration, and the check of host names decides a grammar.
  \<^item> \<open>BBC_Token\<close>: the token file (\<open>rpc/token.cpp\<close>), also when another process creates it at the
    same time.
  \<^item> \<open>BBC_Node\<close>, \<open>BBC_Node_Inv\<close>: the class \<open>NodeRuntime\<close> of \<open>node/control_server.cpp\<close> as functions on a
    record; the step relation \<open>node_step\<close> over messages, control calls and the mining thread, the
    sections of handlers between which other threads run (\<open>handler_section\<close>), and the invariant
    of the states that both reach.
  \<^item> \<open>BBC_Sync\<close>, \<open>BBC_Sync_Live\<close>, \<open>BBC_Mining\<close>: what the node's synchronization and mining achieve.
  \<^item> \<open>BBC_Control\<close>: the control protocol, the status report, and the program from its start to
    its end (\<open>server_reachable\<close>), the rest of \<open>node/control_server.cpp\<close>.
  \<^item> \<open>BBC_Options\<close>, \<open>BBC_Cli_Wallet\<close>, \<open>BBC_Cli_Chain\<close>, \<open>BBC_Cli\<close>: the command line (\<open>app/\<close>): options,
    wallet and transaction commands, commands on blocks and databases, and the remaining
    commands with the dispatch \<open>run\<close>.
  \<^item> \<open>BBC_Cli_Props\<close>, \<open>BBC_Cli_Rpc\<close>: every command returns and explains its failures; \<open>chain verify\<close>
    decides validity; a submitted transaction reaches the node unchanged.

  \<^bold>\<open>Modelling.\<close> Structs are records, enumerations datatypes with a prefix per type, fixed width
  integers words of their width. A result object (\<open>std::variant\<close> of a value and an error) is a
  sum with the error on the left. Operations that change an object return the object
  afterwards. Code outside the repository is a parameter: \<open>sodium\<close> has one function per
  libsodium call, \<open>io\<close> the outcome of the file calls, \<open>sqlite\<close> and \<open>pool_sqlite\<close> the outcome of
  the SQLite calls over tables with the declared constraints. A statement for every value of
  such a parameter covers every failure. Hypotheses on libsodium are named
  (\<open>signatures_verify\<close>, \<open>decryption_inverts\<close>, \<open>sodium_ok\<close>) and hold for the concrete library of the examples.
  A step \<open>node_step\<close> of a node is a handler that runs undisturbed. The handlers of blocks release
  \<open>state_mutex_\<close> in the middle, and the worker that mines goes on to the end of its batch after it
  is cancelled; so the parts of these handlers are steps of their own as well
  (\<open>handler_section\<close>), which may come in any order and with any tip that was noted under the
  mutex. The reachable states of a node include all these interleavings. A
  record \<open>node_env\<close> gives the outcomes of the system calls of each handler anew. A command of the
  command line is a function from its arguments, the files and the tables to an exit code, the
  text on both output streams, and the files and tables afterwards. Printing and parsing JSON
  text are functions in the environment; what a statement needs of them is a hypothesis on the
  values exchanged (\<open>transports\<close>), and likewise the connection of two processes (\<open>served_by\<close>).

  \<^bold>\<open>Termination and bounds.\<close> \<open>path_to_genesis\<close> follows parent indices and is a partial function;
  it is shown to return on every reachable chain. The loop of \<open>ChainStore::open\<close> terminates
  because every record consumes bytes. The loops of \<open>Mempool::select\<close> and of
  \<open>Blockchain::block_locator\<close> count the room that is left, which the sources bound by the
  requested size. The mining search is bounded by the attempts it is given and by the
  number of nonces, and the dispatch of the command line is total but for \<open>node run\<close>, which runs
  until it is stopped.

  \<^bold>\<open>Not modelled.\<close> Sockets and timers are the environment of the handlers, JSON text that of the
  configuration and of the control protocol. The handlers of a node are split
  where they release \<open>state_mutex_\<close>, not at every lock of their other bookkeeping. \<open>main.cpp\<close> passes its arguments on, and the start-up call and memory wiping of
  \<open>crypto/\<close> have no effect on values; the answers of the password reader
  (\<open>app/password_reader.cpp\<close>) and the version string are parameters. Of \<open>app/wallet_selection.cpp\<close> the variant for Linux is modelled.
\<close>

end
